(* ===== verification/Prelude.thy ===== *)
theory Prelude
  imports Main "HOL-Library.Sublist" "HOL-Library.Word"
begin

text \<open>
  What the components share: the fragment of Rust's standard library the modelled code
  calls on strings and byte vectors, with the lemmas their proofs use.

  A Rust \<^verbatim>\<open>&str\<close> is its sequence of UTF-8 bytes, a HOL \<^typ>\<open>string\<close> (a HOL \<^typ>\<open>char\<close> is one
  byte), so \<^const>\<open>length\<close> is Rust's \<^verbatim>\<open>len()\<close>. Every separator, needle and pattern of the modelled
  code is ASCII, and in UTF-8 the bytes of a multi-byte character are never ASCII, so
  splitting, searching and comparing byte by byte agrees with Rust's character operations.
  Whitespace is Unicode \<^verbatim>\<open>White_Space\<close>, written out as its UTF-8 sequences. Lower- and
  upper-casing convert the ASCII letters and the non-ASCII letters whose image can be equal
  to ASCII text (U+212A and U+0130 for \<^verbatim>\<open>to_lowercase\<close>; U+0131 and U+017F for
  \<^verbatim>\<open>to_uppercase\<close>); every other non-ASCII letter is left unchanged, which changes the text of a
  message that quotes it and no comparison with an ASCII constant.
\<close>

named_theorems text_simps \<open>equations about the string operations\<close>

section \<open>Characters\<close>

abbreviation NL :: char where "NL \<equiv> CHR 0x0A"
abbreviation CR :: char where "CR \<equiv> CHR 0x0D"
abbreviation TAB :: char where "TAB \<equiv> CHR 0x09"
abbreviation NUL :: char where "NUL \<equiv> CHR 0x00"
abbreviation BACKSLASH :: char where "BACKSLASH \<equiv> CHR 0x5C"
abbreviation QUOTE :: char where "QUOTE \<equiv> CHR 0x27"
abbreviation DQUOTE :: char where "DQUOTE \<equiv> CHR 0x22"
abbreviation BACKTICK :: char where "BACKTICK \<equiv> CHR 0x60"

definition byte_val :: "char \<Rightarrow> nat" where
  "byte_val c = of_char c"

definition is_ascii_digit :: "char \<Rightarrow> bool" where
  "is_ascii_digit c \<longleftrightarrow> 48 \<le> byte_val c \<and> byte_val c \<le> 57"

definition is_ascii_upper :: "char \<Rightarrow> bool" where
  "is_ascii_upper c \<longleftrightarrow> 65 \<le> byte_val c \<and> byte_val c \<le> 90"

definition is_ascii_lower :: "char \<Rightarrow> bool" where
  "is_ascii_lower c \<longleftrightarrow> 97 \<le> byte_val c \<and> byte_val c \<le> 122"

definition is_ascii_alphabetic :: "char \<Rightarrow> bool" where
  "is_ascii_alphabetic c \<longleftrightarrow> is_ascii_upper c \<or> is_ascii_lower c"

definition is_ascii_alphanumeric :: "char \<Rightarrow> bool" where
  "is_ascii_alphanumeric c \<longleftrightarrow> is_ascii_alphabetic c \<or> is_ascii_digit c"

definition ascii_lower :: "char \<Rightarrow> char" where
  "ascii_lower c = (if is_ascii_upper c then char_of (byte_val c + 32) else c)"

definition ascii_upper :: "char \<Rightarrow> char" where
  "ascii_upper c = (if is_ascii_lower c then char_of (byte_val c - 32) else c)"

lemma byte_val_char_of [simp]: "n < 256 \<Longrightarrow> byte_val (char_of n) = n"
  by (simp add: byte_val_def)

lemma byte_val_inject [simp]: "byte_val a = byte_val b \<longleftrightarrow> a = b"
  by (simp add: byte_val_def)

lemma ascii_lower_idem [simp]: "ascii_lower (ascii_lower c) = ascii_lower c"
  by (simp add: ascii_lower_def is_ascii_upper_def)

lemma ascii_lower_fixed: "\<not> is_ascii_upper c \<Longrightarrow> ascii_lower c = c"
  by (simp add: ascii_lower_def)

lemma not_upper_ascii_lower [simp]: "\<not> is_ascii_upper (ascii_lower c)"
  by (simp add: ascii_lower_def is_ascii_upper_def)

section \<open>Substrings, prefixes and suffixes\<close>

abbreviation contains :: "string \<Rightarrow> string \<Rightarrow> bool" where
  "contains s needle \<equiv> sublist needle s"

abbreviation starts_with :: "string \<Rightarrow> string \<Rightarrow> bool" where
  "starts_with s p \<equiv> prefix p s"

abbreviation ends_with :: "string \<Rightarrow> string \<Rightarrow> bool" where
  "ends_with s p \<equiv> suffix p s"

definition strip_prefix :: "string \<Rightarrow> string \<Rightarrow> string option" where
  "strip_prefix p s = (if prefix p s then Some (drop (length p) s) else None)"

definition strip_suffix :: "string \<Rightarrow> string \<Rightarrow> string option" where
  "strip_suffix p s = (if suffix p s then Some (take (length s - length p) s) else None)"

fun split_once :: "char \<Rightarrow> string \<Rightarrow> (string \<times> string) option" where
  "split_once c [] = None"
| "split_once c (x # xs) =
     (if x = c then Some ([], xs)
      else map_option (\<lambda>(a, b). (x # a, b)) (split_once c xs))"

definition rsplit_once :: "char \<Rightarrow> string \<Rightarrow> (string \<times> string) option" where
  "rsplit_once c s = map_option (\<lambda>(a, b). (rev b, rev a)) (split_once c (rev s))"

lemma strip_prefix_Some [text_simps]: "strip_prefix p s = Some r \<longleftrightarrow> s = p @ r"
  by (auto simp: strip_prefix_def prefix_def)

lemma strip_prefix_append [simp]: "strip_prefix p (p @ r) = Some r"
  by (simp add: strip_prefix_def)

lemma strip_prefix_None [text_simps]: "strip_prefix p s = None \<longleftrightarrow> \<not> prefix p s"
  by (simp add: strip_prefix_def)

lemma strip_suffix_Some [text_simps]: "strip_suffix p s = Some r \<longleftrightarrow> s = r @ p"
  by (auto simp: strip_suffix_def suffix_def)

lemma split_once_append [simp]: "c \<notin> set a \<Longrightarrow> split_once c (a @ c # b) = Some (a, b)"
  by (induction a) auto

lemma split_once_SomeD: "split_once c s = Some (a, b) \<Longrightarrow> s = a @ c # b \<and> c \<notin> set a"
  by (induction s arbitrary: a) (auto split: if_splits)

lemma split_once_Some [text_simps]:
  "split_once c s = Some (a, b) \<longleftrightarrow> s = a @ c # b \<and> c \<notin> set a"
  by (auto dest: split_once_SomeD)

lemma rsplit_once_Some [text_simps]:
  "rsplit_once c s = Some (a, b) \<longleftrightarrow> s = a @ c # b \<and> c \<notin> set b"
proof -
  have "s = a @ c # b \<longleftrightarrow> rev s = rev b @ c # rev a" by (metis append.assoc append_Cons append_Nil rev.simps(2) rev_append rev_rev_ident)
  then show ?thesis
    by (auto simp: rsplit_once_def split_once_Some rev_swap)
qed

lemma split_once_None [text_simps]: "split_once c s = None \<longleftrightarrow> c \<notin> set s"
  by (induction s) auto

section \<open>Positions\<close>

fun position :: "('a \<Rightarrow> bool) \<Rightarrow> 'a list \<Rightarrow> nat option" where
  "position P [] = None"
| "position P (x # xs) = (if P x then Some 0 else map_option Suc (position P xs))"

lemma position_Some:
  "position P xs = Some n \<Longrightarrow> n < length xs \<and> P (xs ! n) \<and> (\<forall>x \<in> set (take n xs). \<not> P x)"
  by (induction xs arbitrary: n) (auto split: if_splits)

lemma position_less: "position P xs = Some n \<Longrightarrow> n < length xs"
  using position_Some by blast

lemma position_SomeE:
  assumes "position P xs = Some n"
  obtains a x b where "xs = a @ x # b" "length a = n" "P x" "\<forall>y \<in> set a. \<not> P y"
proof -
  have "xs = take n xs @ xs ! n # drop (Suc n) xs" "n < length xs"
    using position_Some [OF assms] by (simp_all add: id_take_nth_drop)
  with position_Some [OF assms] that [of "take n xs" "xs ! n" "drop (Suc n) xs"] show thesis
    by auto
qed

lemma position_None [simp]: "position P xs = None \<longleftrightarrow> (\<forall>x \<in> set xs. \<not> P x)"
  by (induction xs) auto

section \<open>Splitting and joining\<close>

fun split_on :: "char \<Rightarrow> string \<Rightarrow> string list" where
  "split_on c [] = [[]]"
| "split_on c (x # xs) =
     (if x = c then [] # split_on c xs
      else (case split_on c xs of [] \<Rightarrow> [[x]] | p # ps \<Rightarrow> (x # p) # ps))"

fun join :: "string \<Rightarrow> string list \<Rightarrow> string" where
  "join sep [] = []"
| "join sep [x] = x"
| "join sep (x # y # zs) = x @ sep @ join sep (y # zs)"

definition strip_cr :: "string \<Rightarrow> string" where
  "strip_cr s = (if s \<noteq> [] \<and> last s = CR then butlast s else s)"

definition str_lines :: "string \<Rightarrow> string list" where
  \<comment> \<open>\<^verbatim>\<open>str::lines\<close>: a terminated line loses its \<^verbatim>\<open>\n\<close> or \<^verbatim>\<open>\r\n\<close>, the rest is kept as it is.\<close>
  "str_lines s =
     (let ps = split_on NL s
      in map strip_cr (butlast ps) @ (if last ps = [] then [] else [last ps]))"

lemma split_on_nonempty [simp]: "split_on c s \<noteq> []"
  by (induction s) (auto split: list.splits)

lemma join_Cons: "ps \<noteq> [] \<Longrightarrow> join sep (p # ps) = p @ sep @ join sep ps"
  by (cases ps) auto

lemma join_split_on [simp]: "join [c] (split_on c s) = s"
proof (induction s)
  case Nil
  then show ?case by simp
next
  case (Cons x xs)
  show ?case
  proof (cases "x = c")
    case True
    with Cons show ?thesis by (simp add: join_Cons)
  next
    case False
    obtain p ps where "split_on c xs = p # ps" by (cases "split_on c xs") auto
    with Cons False show ?thesis by (cases ps) auto
  qed
qed

lemma split_on_parts: "p \<in> set (split_on c s) \<Longrightarrow> c \<notin> set p"
proof (induction s arbitrary: p)
  case (Cons x xs)
  then show ?case by (cases "split_on c xs") (auto split: if_splits)
qed simp

lemma split_on_no_sep: "c \<notin> set s \<Longrightarrow> split_on c s = [s]"
  by (induction s) auto

lemma split_on_append_sep:
  "c \<notin> set a \<Longrightarrow> split_on c (a @ c # b) = a # split_on c b"
  by (induction a) (auto split: list.splits)

lemma split_on_join:
  "ps \<noteq> [] \<Longrightarrow> \<forall>p \<in> set ps. c \<notin> set p \<Longrightarrow> split_on c (join [c] ps) = ps"
proof (induction ps)
  case Nil
  then show ?case by simp
next
  case (Cons p ps)
  then show ?case
    by (cases "ps = []") (auto simp: join_Cons split_on_no_sep split_on_append_sep)
qed

lemma split_on_append:
  "split_on c (a @ b) = butlast (split_on c a) @ split_on c (last (split_on c a) @ b)"
proof (induction a)
  case (Cons x a)
  obtain p ps where ps: "split_on c a = p # ps" by (cases "split_on c a") auto
  show ?case
  proof (cases "ps = []")
    case True
    with Cons.IH ps show ?thesis by (auto simp: split: list.splits)
  next
    case False
    with Cons.IH ps show ?thesis by simp
  qed
qed simp

lemma last_split_on: "c \<notin> set (last (split_on c s))"
  by (rule split_on_parts [of _ c s]) simp

lemma split_on_terminated:
  "\<forall>l \<in> set ls. c \<notin> set l \<Longrightarrow> split_on c (concat (map (\<lambda>l. l @ [c]) ls)) = ls @ [[]]"
  by (induction ls) (simp_all add: split_on_append_sep)

lemma set_split_on: "p \<in> set (split_on c s) \<Longrightarrow> set p \<subseteq> set s"
proof (induction s arbitrary: p)
  case (Cons x xs)
  then show ?case by (cases "split_on c xs") (fastforce split: if_splits)+
qed simp

lemma set_join: "set (join sep ps) \<subseteq> set sep \<union> (\<Union>p \<in> set ps. set p)"
  by (induction ps rule: join.induct) auto

section \<open>Whitespace\<close>

definition ascii_ws :: "string" where
  "ascii_ws = [CHR 0x20, CHR 0x09, CHR 0x0A, CHR 0x0B, CHR 0x0C, CHR 0x0D]"

definition wide_ws :: "string list" where
  \<comment> \<open>the non-ASCII characters of \<^verbatim>\<open>White_Space\<close>, in UTF-8\<close>
  "wide_ws =
     [[CHR 0xC2, CHR 0x85], [CHR 0xC2, CHR 0xA0], [CHR 0xE1, CHR 0x9A, CHR 0x80],
      [CHR 0xE2, CHR 0x80, CHR 0x80], [CHR 0xE2, CHR 0x80, CHR 0x81], [CHR 0xE2, CHR 0x80, CHR 0x82],
      [CHR 0xE2, CHR 0x80, CHR 0x83], [CHR 0xE2, CHR 0x80, CHR 0x84], [CHR 0xE2, CHR 0x80, CHR 0x85],
      [CHR 0xE2, CHR 0x80, CHR 0x86], [CHR 0xE2, CHR 0x80, CHR 0x87], [CHR 0xE2, CHR 0x80, CHR 0x88],
      [CHR 0xE2, CHR 0x80, CHR 0x89], [CHR 0xE2, CHR 0x80, CHR 0x8A], [CHR 0xE2, CHR 0x80, CHR 0xA8],
      [CHR 0xE2, CHR 0x80, CHR 0xA9], [CHR 0xE2, CHR 0x80, CHR 0xAF], [CHR 0xE2, CHR 0x81, CHR 0x9F],
      [CHR 0xE3, CHR 0x80, CHR 0x80]]"

definition ws_head :: "string \<Rightarrow> nat" where
  \<comment> \<open>length in bytes of the whitespace character at the front, 0 if there is none\<close>
  "ws_head s =
     (case s of [] \<Rightarrow> 0
      | c # _ \<Rightarrow> if c \<in> set ascii_ws then 1
                 else if byte_val c < 128 then 0
                 else (case find (\<lambda>w. prefix w s) wide_ws of None \<Rightarrow> 0 | Some w \<Rightarrow> length w))"

definition ws_tail :: "string \<Rightarrow> nat" where
  "ws_tail s =
     (if s = [] then 0
      else if last s \<in> set ascii_ws then 1
      else if byte_val (last s) < 128 then 0
      else (case find (\<lambda>w. suffix w s) wide_ws of None \<Rightarrow> 0 | Some w \<Rightarrow> length w))"

lemma ws_head_Nil [simp]: "ws_head [] = 0"
  by (simp add: ws_head_def)

lemma ws_tail_Nil [simp]: "ws_tail [] = 0"
  by (simp add: ws_tail_def)

lemma ws_head_shrinks: "0 < ws_head s \<Longrightarrow> length s - ws_head s < length s"
  by (cases s) auto

lemma ws_tail_shrinks: "0 < ws_tail s \<Longrightarrow> length s - ws_tail s < length s"
  by (cases s) auto

function trim_start :: "string \<Rightarrow> string" where
  "trim_start s = (if ws_head s = 0 then s else trim_start (drop (ws_head s) s))"
  by pat_completeness auto
termination by (relation "measure length") (auto dest: ws_head_shrinks)

function trim_end :: "string \<Rightarrow> string" where
  "trim_end s = (if ws_tail s = 0 then s else trim_end (take (length s - ws_tail s) s))"
  by pat_completeness auto
termination by (relation "measure length") (auto dest: ws_tail_shrinks)

declare trim_start.simps [simp del] trim_end.simps [simp del]

definition trim :: "string \<Rightarrow> string" where
  "trim s = trim_end (trim_start s)"

function split_ws_from :: "string \<Rightarrow> string \<Rightarrow> string list" where
  "split_ws_from acc s =
     (case s of
        [] \<Rightarrow> if acc = [] then [] else [acc]
      | c # cs \<Rightarrow>
          if ws_head s = 0 then split_ws_from (acc @ [c]) cs
          else (if acc = [] then [] else [acc]) @ split_ws_from [] (drop (ws_head s) s))"
  by pat_completeness auto
termination by (relation "measure (\<lambda>(acc, s). length s)") auto

declare split_ws_from.simps [simp del]

definition split_whitespace :: "string \<Rightarrow> string list" where
  "split_whitespace s = split_ws_from [] s"

lemma set_trim_start: "set (trim_start s) \<subseteq> set s"
proof (induction s rule: trim_start.induct)
  case (1 s)
  then show ?case
    using set_drop_subset [of "ws_head s" s] by (subst trim_start.simps) auto
qed

lemma set_trim_end: "set (trim_end s) \<subseteq> set s"
proof (induction s rule: trim_end.induct)
  case (1 s)
  then show ?case
    using set_take_subset [of "length s - ws_tail s" s] by (subst trim_end.simps) auto
qed

lemma set_trim: "set (trim s) \<subseteq> set s"
  using set_trim_start set_trim_end unfolding trim_def by blast

lemma split_ws_from_nonempty: "w \<in> set (split_ws_from acc s) \<Longrightarrow> w \<noteq> []"
proof (induction acc s rule: split_ws_from.induct)
  case (1 acc s)
  then show ?case
    by (subst (asm) (2) split_ws_from.simps) (auto split: list.splits if_splits)
qed

lemma split_whitespace_nonempty: "w \<in> set (split_whitespace s) \<Longrightarrow> w \<noteq> []"
  by (simp add: split_whitespace_def split_ws_from_nonempty)

definition trim_start_matches :: "(char \<Rightarrow> bool) \<Rightarrow> string \<Rightarrow> string" where
  "trim_start_matches P s = dropWhile P s"

definition trim_end_matches :: "(char \<Rightarrow> bool) \<Rightarrow> string \<Rightarrow> string" where
  "trim_end_matches P s = rev (dropWhile P (rev s))"

definition trim_matches :: "(char \<Rightarrow> bool) \<Rightarrow> string \<Rightarrow> string" where
  "trim_matches P s = trim_end_matches P (trim_start_matches P s)"

section \<open>Case conversion\<close>

fun to_lowercase :: "string \<Rightarrow> string" where
  "to_lowercase [] = []"
| "to_lowercase (c # cs) =
     (if prefix [CHR 0xE2, CHR 0x84, CHR 0xAA] (c # cs) then CHR ''k'' # to_lowercase (drop 2 cs)
      else if prefix [CHR 0xC4, CHR 0xB0] (c # cs)
        then CHR ''i'' # CHR 0xCC # CHR 0x87 # to_lowercase (drop 1 cs)
      else ascii_lower c # to_lowercase cs)"

fun to_uppercase :: "string \<Rightarrow> string" where
  "to_uppercase [] = []"
| "to_uppercase (c # cs) =
     (if prefix [CHR 0xC4, CHR 0xB1] (c # cs) then CHR ''I'' # to_uppercase (drop 1 cs)
      else if prefix [CHR 0xC5, CHR 0xBF] (c # cs) then CHR ''S'' # to_uppercase (drop 1 cs)
      else ascii_upper c # to_uppercase cs)"

definition to_ascii_lowercase :: "string \<Rightarrow> string" where
  "to_ascii_lowercase s = map ascii_lower s"

definition eq_ignore_ascii_case :: "string \<Rightarrow> string \<Rightarrow> bool" where
  "eq_ignore_ascii_case a b \<longleftrightarrow> to_ascii_lowercase a = to_ascii_lowercase b"

lemma to_lowercase_ascii: "\<forall>c \<in> set s. byte_val c < 128 \<Longrightarrow> to_lowercase s = map ascii_lower s"
  by (induction s) (auto simp: byte_val_def)

section \<open>Replacing a character, parsing numbers\<close>

definition replace_char :: "char \<Rightarrow> string \<Rightarrow> string \<Rightarrow> string" where
  "replace_char c r s = concat (map (\<lambda>x. if x = c then r else [x]) s)"

lemma replace_char_simps [simp, text_simps]:
  "replace_char c r [] = []"
  "replace_char c r (x # xs) = (if x = c then r else [x]) @ replace_char c r xs"
  by (simp_all add: replace_char_def)

lemma replace_char_append [text_simps]:
  "replace_char c r (a @ b) = replace_char c r a @ replace_char c r b"
  by (simp add: replace_char_def)

lemma replace_char_id: "c \<notin> set s \<Longrightarrow> replace_char c r s = s"
  by (induction s) auto

lemma not_in_replace_char: "c \<notin> set r \<Longrightarrow> c \<notin> set (replace_char c r s)"
  by (induction s) auto

text \<open>\<^verbatim>\<open>usize\<close> has 64 bits on every supported target.\<close>

definition usize_max :: nat where
  "usize_max = 2 ^ 64 - 1"

fun digits_value :: "nat \<Rightarrow> string \<Rightarrow> nat option" where
  "digits_value n [] = Some n"
| "digits_value n (c # cs) =
     (if is_ascii_digit c then digits_value (10 * n + (byte_val c - 48)) cs else None)"

definition parse_usize :: "string \<Rightarrow> nat option" where
  \<comment> \<open>\<^verbatim>\<open>str::parse::<usize>\<close>: an optional plus sign, at least one digit, no overflow\<close>
  "parse_usize s =
     (let ds = (case s of c # cs \<Rightarrow> if c = CHR ''+'' then cs else s | [] \<Rightarrow> [])
      in if ds = [] then None
         else (case digits_value 0 ds of
                 None \<Rightarrow> None
               | Some n \<Rightarrow> if n \<le> usize_max then Some n else None))"

lemma parse_usize_bound: "parse_usize s = Some n \<Longrightarrow> n \<le> usize_max"
  by (auto simp: parse_usize_def Let_def split: if_splits option.splits)

section \<open>Terminated lines, decimal numbers, words of visible characters\<close>

definition unlines :: "string list \<Rightarrow> string" where
  "unlines ls = concat (map (\<lambda>l. l @ [NL]) ls)"

definition one_line :: "string \<Rightarrow> bool" where
  \<comment> \<open>text that \<^verbatim>\<open>str::lines\<close> returns unchanged when it is a terminated line\<close>
  "one_line l \<longleftrightarrow> NL \<notin> set l \<and> (l = [] \<or> last l \<noteq> CR)"

lemma strip_cr_same: "strip_cr l = l \<longleftrightarrow> l = [] \<or> last l \<noteq> CR"
proof -
  have "butlast l \<noteq> l" if "l \<noteq> []" using that by (cases l rule: rev_cases) auto
  then show ?thesis by (auto simp: strip_cr_def)
qed

lemma strip_cr_Nil [simp]: "strip_cr [] = []"
  by (simp add: strip_cr_def)

lemma str_lines_Nil [simp]: "str_lines [] = []"
  by (simp add: str_lines_def)

lemma str_lines_unlines: "\<forall>l \<in> set ls. one_line l \<Longrightarrow> str_lines (unlines ls) = ls"
proof -
  assume ls: "\<forall>l \<in> set ls. one_line l"
  then have "split_on NL (unlines ls) = ls @ [[]]"
    unfolding unlines_def by (intro split_on_terminated) (simp add: one_line_def)
  moreover have "map strip_cr ls = ls"
    using ls by (simp add: map_idI strip_cr_same one_line_def)
  ultimately show ?thesis by (simp add: str_lines_def)
qed

lemma join_unlines: "ls \<noteq> [] \<Longrightarrow> join [NL] ls @ [NL] = unlines ls"
proof (induction ls)
  case (Cons l ls)
  then show ?case by (cases "ls = []") (simp_all add: unlines_def join_Cons)
qed simp

lemma unlines_append: "unlines (a @ b) = unlines a @ unlines b"
  by (simp add: unlines_def)

fun show_nat :: "nat \<Rightarrow> string" where
  "show_nat n = (if n < 10 then [char_of (48 + n)] else show_nat (n div 10) @ [char_of (48 + n mod 10)])"

declare show_nat.simps [simp del]

lemma digits_value_append:
  "digits_value n (a @ b) = (case digits_value n a of None \<Rightarrow> None | Some m \<Rightarrow> digits_value m b)"
  by (induction a arbitrary: n) auto

lemma digit_char [simp]: "n < 10 \<Longrightarrow> is_ascii_digit (char_of (48 + n))" for n :: nat
  by (simp add: is_ascii_digit_def)

lemma show_nat_digits: "\<forall>c \<in> set (show_nat n). is_ascii_digit c"
proof (induction n rule: show_nat.induct)
  case (1 n)
  then show ?case by (subst show_nat.simps) auto
qed

lemma show_nat_nonempty [simp]: "show_nat n \<noteq> []"
  by (subst show_nat.simps) simp

lemma digits_value_show: "digits_value 0 (show_nat n) = Some n"
proof (induction n rule: show_nat.induct)
  case (1 n)
  then show ?case by (subst show_nat.simps) (auto simp: digits_value_append)
qed

lemma show_nat_inject [simp]: "show_nat a = show_nat b \<longleftrightarrow> a = b"
  by (metis digits_value_show option.inject)

lemma parse_usize_show: "n \<le> usize_max \<Longrightarrow> parse_usize (show_nat n) = Some n"
proof -
  assume n: "n \<le> usize_max"
  obtain c cs where c: "show_nat n = c # cs" by (cases "show_nat n") auto
  then have "is_ascii_digit c" using show_nat_digits [of n] by simp
  then have "c \<noteq> CHR ''+''" by (auto simp: is_ascii_digit_def byte_val_def)
  then show ?thesis using n digits_value_show [of n] c by (simp add: parse_usize_def)
qed

definition visible :: "char \<Rightarrow> bool" where
  "visible c \<longleftrightarrow> byte_val c < 128 \<and> c \<notin> set ascii_ws"

lemma ws_head_visible [simp]: "visible c \<Longrightarrow> ws_head (c # cs) = 0"
  by (simp add: ws_head_def visible_def)

lemma ws_head_space [simp]: "ws_head (CHR '' '' # cs) = 1"
  by (simp add: ws_head_def ascii_ws_def)

lemma ws_tail_visible [simp]: "visible c \<Longrightarrow> ws_tail (s @ [c]) = 0"
  by (simp add: ws_tail_def visible_def)

lemma ws_tail_space [simp]: "ws_tail (s @ '' '') = 1"
  by (simp add: ws_tail_def ascii_ws_def)

lemma trim_start_visible: "visible c \<Longrightarrow> trim_start (c # cs) = c # cs"
  by (simp add: trim_start.simps)

lemma trim_start_space: "trim_start (CHR '' '' # cs) = trim_start cs"
  by (simp add: trim_start.simps [of "CHR '' '' # cs"])

lemma trim_end_visible: "visible c \<Longrightarrow> trim_end (s @ [c]) = s @ [c]"
  by (simp add: trim_end.simps)

lemma trim_end_space: "trim_end (s @ '' '') = trim_end s"
  by (simp add: trim_end.simps [of "s @ '' ''"])

lemma visible_digit: "is_ascii_digit c \<Longrightarrow> visible c"
  by (auto simp: visible_def is_ascii_digit_def ascii_ws_def byte_val_def)

lemma split_ws_from_visible:
  "\<forall>c \<in> set a. visible c \<Longrightarrow> acc @ a \<noteq> [] \<Longrightarrow> split_ws_from acc a = [acc @ a]"
  by (induction a arbitrary: acc) (simp_all add: split_ws_from.simps)

lemma split_ws_from_space:
  "\<forall>c \<in> set a. visible c \<Longrightarrow> acc @ a \<noteq> [] \<Longrightarrow>
   split_ws_from acc (a @ CHR '' '' # b) = (acc @ a) # split_ws_from [] b"
proof (induction a arbitrary: acc)
  case Nil
  then show ?case by (simp add: split_ws_from.simps [of acc "CHR '' '' # b"])
next
  case (Cons c a)
  then show ?case by (simp add: split_ws_from.simps [of acc "c # a @ CHR '' '' # b"])
qed

lemma split_whitespace_two:
  assumes "\<forall>c \<in> set a \<union> set b. visible c" and "a \<noteq> []" and "b \<noteq> []"
  shows "split_whitespace (a @ CHR '' '' # b) = [a, b]"
  using assms by (simp add: split_whitespace_def split_ws_from_space split_ws_from_visible)

end
