(* ===== verification/Stream_Decoder.thy ===== *)
theory Stream_Decoder
  imports Main
begin

text \<open>
  The contract of an incremental decoder: the terminal side of Telnet and the event-stream
  decoder of the model client both keep what an incomplete read leaves over, so that the
  result must not depend on where the network cuts the stream. The laws are what the two
  implementations prove about one read; the consequence for any sequence of reads is proved
  once, here.
\<close>

fun feed_all :: "('s \<Rightarrow> 'i list \<Rightarrow> 's \<times> 'o) \<Rightarrow> ('o \<Rightarrow> 'o \<Rightarrow> 'o) \<Rightarrow> 'o \<Rightarrow> 's \<Rightarrow> 'i list list \<Rightarrow> 's \<times> 'o" where
  \<comment> \<open>one \<open>feed\<close> per read, outputs collected in order\<close>
  "feed_all feed cat nothing s [] = (s, nothing)"
| "feed_all feed cat nothing s (chunk # chunks) =
     (case feed s chunk of (s', out) \<Rightarrow>
        (case feed_all feed cat nothing s' chunks of (s'', out') \<Rightarrow> (s'', cat out out')))"

locale stream_decoder =
  fixes feed :: "'s \<Rightarrow> 'i list \<Rightarrow> 's \<times> 'o"
    and cat :: "'o \<Rightarrow> 'o \<Rightarrow> 'o"
    and nothing :: 'o
    and ok :: "'s \<Rightarrow> bool"
  assumes feed_Nil: "ok s \<Longrightarrow> feed s [] = (s, nothing)"
    and feed_ok: "ok s \<Longrightarrow> ok (fst (feed s xs))"
    and feed_append: "ok s \<Longrightarrow>
      feed s (xs @ ys) = (fst (feed (fst (feed s xs)) ys),
                          cat (snd (feed s xs)) (snd (feed (fst (feed s xs)) ys)))"
begin

lemma feed_all_concat: "ok s \<Longrightarrow> feed_all feed cat nothing s chunks = feed s (concat chunks)"
proof (induction chunks arbitrary: s)
  case Nil
  then show ?case by (simp add: feed_Nil)
next
  case (Cons chunk chunks)
  obtain s' out where one: "feed s chunk = (s', out)" by fastforce
  with feed_ok [OF Cons.prems, of chunk] have "ok s'" by simp
  from Cons.IH [OF this] one feed_append [OF Cons.prems, of chunk "concat chunks"]
  show ?case by (cases "feed s' (concat chunks)") simp
qed

lemma chunking_irrelevant:
  assumes "ok s" and "concat chunks = concat chunks'"
  shows "feed_all feed cat nothing s chunks = feed_all feed cat nothing s chunks'"
  using assms by (simp add: feed_all_concat)

lemma feed_all_ok: "ok s \<Longrightarrow> ok (fst (feed_all feed cat nothing s chunks))"
  by (simp add: feed_all_concat feed_ok)

end

end
