(* ===== verification/Telnet.thy ===== *)
theory Telnet
  imports Prelude Stream_Decoder
begin

text \<open>
  The Telnet codec of \<^verbatim>\<open>crates/miaominal-core/src/telnet.rs\<close> (\<^verbatim>\<open>TelnetCodec\<close>): the byte-driven
  parser, option negotiation for the options a terminal client supports, terminal type and
  window size subnegotiation, and the encoder for terminal input. \<^verbatim>\<open>&mut self\<close> methods take
  the codec and the reply buffer and return both. The two 256-entry option tables are
  functions on bytes.

  The lemmas show: decoding inverts encoding; the result does not depend on how the network
  splits the stream; only supported options are ever switched on or offered; a repeated
  request is not answered twice; the subnegotiation buffer is bounded; replies are framed so
  that a Telnet parser reads them back.
\<close>

section \<open>Constants and state\<close>

type_synonym u8 = "8 word"
type_synonym u16 = "16 word"

definition IAC :: u8 where "IAC = 255"
definition DONT :: u8 where "DONT = 254"
definition DO :: u8 where "DO = 253"
definition WONT :: u8 where "WONT = 252"
definition WILL :: u8 where "WILL = 251"
definition SB :: u8 where "SB = 250"
definition SE :: u8 where "SE = 240"

definition OPTION_BINARY :: u8 where "OPTION_BINARY = 0"
definition OPTION_ECHO :: u8 where "OPTION_ECHO = 1"
definition OPTION_SUPPRESS_GO_AHEAD :: u8 where "OPTION_SUPPRESS_GO_AHEAD = 3"
definition OPTION_TERMINAL_TYPE :: u8 where "OPTION_TERMINAL_TYPE = 24"
definition OPTION_NAWS :: u8 where "OPTION_NAWS = 31"
definition TERMINAL_TYPE_IS :: u8 where "TERMINAL_TYPE_IS = 0"
definition TERMINAL_TYPE_SEND :: u8 where "TERMINAL_TYPE_SEND = 1"
definition MAX_SUBNEGOTIATION_LEN :: nat where "MAX_SUBNEGOTIATION_LEN = 4096"

definition CR_byte :: u8 where "CR_byte = 13"
definition LF_byte :: u8 where "LF_byte = 10"

lemmas telnet_bytes =
  IAC_def DONT_def DO_def WONT_def WILL_def SB_def SE_def CR_byte_def LF_byte_def
  OPTION_BINARY_def OPTION_ECHO_def OPTION_SUPPRESS_GO_AHEAD_def OPTION_TERMINAL_TYPE_def
  OPTION_NAWS_def TERMINAL_TYPE_IS_def TERMINAL_TYPE_SEND_def

datatype option_state = No | WantYes | Yes

datatype parse_state =
    Data
  | CarriageReturn
  | Iac
  | Negotiation u8
  | Subnegotiation
  | SubnegotiationIac

record telnet_received =
  data :: "u8 list"
  reply :: "u8 list"

record telnet_codec =
  terminal_type :: "u8 list"
  columns :: u16
  lines :: u16
  local_opt :: "u8 \<Rightarrow> option_state"
  remote_opt :: "u8 \<Rightarrow> option_state"
  parse :: parse_state
  subnegotiation :: "u8 list"
  subnegotiation_overflow :: bool

definition clamp_dimension :: "nat \<Rightarrow> u16" where
  "clamp_dimension value = of_nat (min (max value 1) 65535)"

definition telnet_new :: "u8 list \<Rightarrow> nat \<Rightarrow> nat \<Rightarrow> telnet_codec" where
  "telnet_new ttype cols lns =
     \<lparr>terminal_type = ttype, columns = clamp_dimension cols, lines = clamp_dimension lns,
      local_opt = (\<lambda>_. No), remote_opt = (\<lambda>_. No), parse = Data,
      subnegotiation = [], subnegotiation_overflow = False\<rparr>"

section \<open>Replies\<close>

fun push_escaped :: "u8 list \<Rightarrow> u8 list \<Rightarrow> u8 list" where
  "push_escaped out [] = out"
| "push_escaped out (byte # bytes) =
     push_escaped ((if byte = IAC then out @ [IAC] else out) @ [byte]) bytes"

definition to_be_bytes :: "u16 \<Rightarrow> u8 list" where
  "to_be_bytes v = [ucast (drop_bit 8 v), ucast v]"

definition window_size_bytes :: "telnet_codec \<Rightarrow> u8 list" where
  "window_size_bytes c = to_be_bytes (columns c) @ to_be_bytes (lines c)"

definition write_window_size :: "telnet_codec \<Rightarrow> u8 list \<Rightarrow> u8 list" where
  "write_window_size c out =
     push_escaped (out @ [IAC, SB, OPTION_NAWS]) (window_size_bytes c) @ [IAC, SE]"

definition local_enabled :: "telnet_codec \<Rightarrow> u8 \<Rightarrow> u8 list \<Rightarrow> u8 list" where
  "local_enabled c option out =
     (if option = OPTION_NAWS then write_window_size c out else out)"

definition on_subnegotiation :: "telnet_codec \<Rightarrow> u8 list \<Rightarrow> u8 list" where
  "on_subnegotiation c out =
     (if subnegotiation c = [OPTION_TERMINAL_TYPE, TERMINAL_TYPE_SEND]
         \<and> local_opt c OPTION_TERMINAL_TYPE = Yes
      then push_escaped (out @ [IAC, SB, OPTION_TERMINAL_TYPE, TERMINAL_TYPE_IS]) (terminal_type c)
             @ [IAC, SE]
      else out)"

section \<open>Option negotiation\<close>

definition supports_local :: "u8 \<Rightarrow> bool" where
  "supports_local option \<longleftrightarrow>
     option \<in> {OPTION_BINARY, OPTION_SUPPRESS_GO_AHEAD, OPTION_TERMINAL_TYPE, OPTION_NAWS}"

definition supports_remote :: "u8 \<Rightarrow> bool" where
  "supports_remote option \<longleftrightarrow> option \<in> {OPTION_BINARY, OPTION_ECHO, OPTION_SUPPRESS_GO_AHEAD}"

definition set_local :: "telnet_codec \<Rightarrow> u8 \<Rightarrow> option_state \<Rightarrow> telnet_codec" where
  "set_local c option st = c\<lparr>local_opt := (local_opt c)(option := st)\<rparr>"

definition set_remote :: "telnet_codec \<Rightarrow> u8 \<Rightarrow> option_state \<Rightarrow> telnet_codec" where
  "set_remote c option st = c\<lparr>remote_opt := (remote_opt c)(option := st)\<rparr>"

definition request_local :: "u8 \<Rightarrow> telnet_codec \<times> u8 list \<Rightarrow> telnet_codec \<times> u8 list" where
  "request_local option = (\<lambda>(c, out).
     if local_opt c option = No then (set_local c option WantYes, out @ [IAC, WILL, option])
     else (c, out))"

definition request_remote :: "u8 \<Rightarrow> telnet_codec \<times> u8 list \<Rightarrow> telnet_codec \<times> u8 list" where
  "request_remote option = (\<lambda>(c, out).
     if remote_opt c option = No then (set_remote c option WantYes, out @ [IAC, DO, option])
     else (c, out))"

definition on_do :: "telnet_codec \<Rightarrow> u8 \<Rightarrow> u8 list \<Rightarrow> telnet_codec \<times> u8 list" where
  "on_do c option out =
     (case local_opt c option of
        No \<Rightarrow>
          if supports_local option
          then (let c' = set_local c option Yes
                in (c', local_enabled c' option (out @ [IAC, WILL, option])))
          else (c, out @ [IAC, WONT, option])
      | WantYes \<Rightarrow> (let c' = set_local c option Yes in (c', local_enabled c' option out))
      | Yes \<Rightarrow> (c, out))"

definition on_dont :: "telnet_codec \<Rightarrow> u8 \<Rightarrow> u8 list \<Rightarrow> telnet_codec \<times> u8 list" where
  "on_dont c option out =
     (case local_opt c option of
        Yes \<Rightarrow> (set_local c option No, out @ [IAC, WONT, option])
      | WantYes \<Rightarrow> (set_local c option No, out)
      | No \<Rightarrow> (c, out))"

definition on_will :: "telnet_codec \<Rightarrow> u8 \<Rightarrow> u8 list \<Rightarrow> telnet_codec \<times> u8 list" where
  "on_will c option out =
     (case remote_opt c option of
        No \<Rightarrow>
          if supports_remote option then (set_remote c option Yes, out @ [IAC, DO, option])
          else (c, out @ [IAC, DONT, option])
      | WantYes \<Rightarrow> (set_remote c option Yes, out)
      | Yes \<Rightarrow> (c, out))"

definition on_wont :: "telnet_codec \<Rightarrow> u8 \<Rightarrow> u8 list \<Rightarrow> telnet_codec \<times> u8 list" where
  "on_wont c option out =
     (case remote_opt c option of
        Yes \<Rightarrow> (set_remote c option No, out @ [IAC, DONT, option])
      | WantYes \<Rightarrow> (set_remote c option No, out)
      | No \<Rightarrow> (c, out))"

definition negotiate :: "u8 \<Rightarrow> telnet_codec \<Rightarrow> u8 \<Rightarrow> u8 list \<Rightarrow> telnet_codec \<times> u8 list" where
  "negotiate verb c option out =
     (if verb = DO then on_do c option out
      else if verb = DONT then on_dont c option out
      else if verb = WILL then on_will c option out
      else on_wont c option out)"

definition initial_negotiation :: "telnet_codec \<Rightarrow> telnet_codec \<times> u8 list" where
  "initial_negotiation c =
     fold request_remote [OPTION_SUPPRESS_GO_AHEAD, OPTION_ECHO]
       (fold request_local [OPTION_TERMINAL_TYPE, OPTION_NAWS] (c, []))"

section \<open>The byte machine\<close>

definition remote_binary :: "telnet_codec \<Rightarrow> bool" where
  "remote_binary c \<longleftrightarrow> remote_opt c OPTION_BINARY = Yes"

definition remote_echo :: "telnet_codec \<Rightarrow> bool" where
  "remote_echo c \<longleftrightarrow> remote_opt c OPTION_ECHO = Yes"

definition push_subnegotiation :: "telnet_codec \<Rightarrow> u8 \<Rightarrow> telnet_codec" where
  "push_subnegotiation c byte =
     (if MAX_SUBNEGOTIATION_LEN \<le> length (subnegotiation c)
      then c\<lparr>subnegotiation_overflow := True\<rparr>
      else c\<lparr>subnegotiation := subnegotiation c @ [byte]\<rparr>)"

definition push_data :: "u8 \<Rightarrow> telnet_received \<Rightarrow> telnet_received" where
  "push_data byte r = r\<lparr>data := data r @ [byte]\<rparr>"

definition receive_data :: "bool \<Rightarrow> telnet_codec \<Rightarrow> u8 \<Rightarrow> telnet_received \<Rightarrow> telnet_codec \<times> telnet_received" where
  "receive_data after_carriage_return c byte r =
     (let c = c\<lparr>parse := Data\<rparr> in
      if byte = IAC then (c\<lparr>parse := Iac\<rparr>, r)
      else if byte = 0 \<and> after_carriage_return \<and> \<not> remote_binary c then (c, r)
      else if byte = CR_byte then (c\<lparr>parse := CarriageReturn\<rparr>, push_data byte r)
      else (c, push_data byte r))"

definition receive_iac :: "telnet_codec \<Rightarrow> u8 \<Rightarrow> telnet_received \<Rightarrow> telnet_codec \<times> telnet_received" where
  "receive_iac c byte r =
     (let c = c\<lparr>parse := Data\<rparr> in
      if byte = IAC then (c, push_data IAC r)
      else if byte \<in> {DO, DONT, WILL, WONT} then (c\<lparr>parse := Negotiation byte\<rparr>, r)
      else if byte = SB
        then (c\<lparr>subnegotiation := [], subnegotiation_overflow := False, parse := Subnegotiation\<rparr>, r)
      else (c, r))"

fun receive_byte :: "telnet_codec \<times> telnet_received \<Rightarrow> u8 \<Rightarrow> telnet_codec \<times> telnet_received" where
  "receive_byte (c, r) byte =
     (case parse c of
        Data \<Rightarrow> receive_data False c byte r
      | CarriageReturn \<Rightarrow> receive_data True c byte r
      | Iac \<Rightarrow> receive_iac c byte r
      | Negotiation verb \<Rightarrow>
          (let (c', out) = negotiate verb (c\<lparr>parse := Data\<rparr>) byte (reply r)
           in (c', r\<lparr>reply := out\<rparr>))
      | Subnegotiation \<Rightarrow>
          if byte = IAC then (c\<lparr>parse := SubnegotiationIac\<rparr>, r)
          else (push_subnegotiation c byte, r)
      | SubnegotiationIac \<Rightarrow>
          if byte = SE then
            (let c = c\<lparr>parse := Data\<rparr>
             in (c, if subnegotiation_overflow c then r
                    else r\<lparr>reply := on_subnegotiation c (reply r)\<rparr>))
          else if byte = IAC then ((push_subnegotiation c IAC)\<lparr>parse := Subnegotiation\<rparr>, r)
          else (c\<lparr>parse := Data\<rparr>, r))"

definition no_bytes :: telnet_received where
  "no_bytes = \<lparr>data = [], reply = []\<rparr>"

definition receive :: "telnet_codec \<Rightarrow> u8 list \<Rightarrow> telnet_codec \<times> telnet_received" where
  "receive c input = foldl receive_byte (c, no_bytes) input"

section \<open>Input and window size\<close>

fun encode_from :: "bool \<Rightarrow> u8 list \<Rightarrow> u8 list" where
  \<comment> \<open>the loop of \<^verbatim>\<open>encode_input\<close>; the tail's first byte is \<^verbatim>\<open>input.get(index + 1)\<close>\<close>
  "encode_from binary [] = []"
| "encode_from binary (byte # rest) =
     (if byte = IAC then [IAC, IAC]
      else if byte = CR_byte \<and> \<not> binary \<and> \<not> (rest \<noteq> [] \<and> hd rest = LF_byte) then [CR_byte, 0]
      else [byte]) @ encode_from binary rest"

definition encode_input :: "telnet_codec \<Rightarrow> u8 list \<Rightarrow> u8 list" where
  "encode_input c input = encode_from (local_opt c OPTION_BINARY = Yes) input"

definition resize :: "telnet_codec \<Rightarrow> nat \<Rightarrow> nat \<Rightarrow> telnet_codec \<times> u8 list" where
  "resize c new_columns new_lines =
     (let cols = clamp_dimension new_columns; lns = clamp_dimension new_lines
      in if cols = columns c \<and> lns = lines c then (c, [])
         else (let c = c\<lparr>columns := cols, lines := lns\<rparr>
               in (c, if local_opt c OPTION_NAWS = Yes then write_window_size c [] else [])))"

section \<open>Lemmas: buffers only grow at the end\<close>

lemma push_escaped_append: "push_escaped (p @ out) bytes = p @ push_escaped out bytes"
proof (induction bytes arbitrary: out)
  case (Cons b bs)
  show ?case
    using Cons.IH [of "(if b = IAC then out @ [IAC] else out) @ [b]"] by auto
qed simp

lemma push_escaped_out: "push_escaped out bytes = out @ push_escaped [] bytes"
  using push_escaped_append [of out "[]"] by simp

lemma push_escaped_Cons [simp]:
  "push_escaped [] (b # bs) = (if b = IAC then [IAC, IAC] else [b]) @ push_escaped [] bs"
  by (simp add: push_escaped_out [of "[_, _]"] push_escaped_out [of "[_]"])

declare push_escaped.simps(2) [simp del]

definition add_reply :: "u8 list \<Rightarrow> telnet_codec \<times> u8 list \<Rightarrow> telnet_codec \<times> u8 list" where
  "add_reply p = (\<lambda>(c, out). (c, p @ out))"

lemma negotiate_append: "negotiate verb c option (p @ out) = add_reply p (negotiate verb c option out)"
  by (auto simp: negotiate_def on_do_def on_dont_def on_will_def on_wont_def add_reply_def Let_def
      local_enabled_def write_window_size_def push_escaped_append
      split: option_state.splits)

lemma on_subnegotiation_append: "on_subnegotiation c (p @ out) = p @ on_subnegotiation c out"
  by (simp add: on_subnegotiation_def push_escaped_append)

definition shift :: "telnet_received \<Rightarrow> telnet_received \<Rightarrow> telnet_received" where
  "shift p r = \<lparr>data = data p @ data r, reply = reply p @ reply r\<rparr>"

definition after :: "telnet_received \<Rightarrow> telnet_codec \<times> telnet_received \<Rightarrow> telnet_codec \<times> telnet_received" where
  "after p = (\<lambda>(c, r). (c, shift p r))"

lemma after_pair [simp]: "after p (c, r) = (c, shift p r)"
  by (simp add: after_def)

lemma shift_simps [simp]:
  "data (shift p r) = data p @ data r" "reply (shift p r) = reply p @ reply r"
  "(shift p r)\<lparr>reply := reply p @ out\<rparr> = shift p (r\<lparr>reply := out\<rparr>)"
  "push_data b (shift p r) = shift p (push_data b r)"
  "shift r no_bytes = r" "shift no_bytes r = r"
  by (simp_all add: shift_def push_data_def no_bytes_def)

lemma receive_data_shift: "receive_data cr c b (shift p r) = after p (receive_data cr c b r)"
  by (simp add: receive_data_def Let_def)

lemma receive_iac_shift: "receive_iac c b (shift p r) = after p (receive_iac c b r)"
  by (simp add: receive_iac_def Let_def)

lemma receive_byte_after: "receive_byte (after p s) b = after p (receive_byte s b)"
proof (cases s)
  case (Pair c r)
  show ?thesis
    by (cases "parse c")
       (simp_all add: Pair receive_data_shift receive_iac_shift negotiate_append add_reply_def
          on_subnegotiation_append Let_def split: prod.split)
qed

lemma foldl_receive_after: "foldl receive_byte (after p s) bs = after p (foldl receive_byte s bs)"
  by (induction bs arbitrary: s) (simp_all add: receive_byte_after)

lemma foldl_receive: "foldl receive_byte (c, r) bs = after r (receive c bs)"
  unfolding receive_def using foldl_receive_after [of r "(c, no_bytes)"] by simp

lemma receive_append:
  "receive c (xs @ ys) = (case receive c xs of (c', r) \<Rightarrow> after r (receive c' ys))"
proof -
  obtain c' r where r: "receive c xs = (c', r)" by fastforce
  then have "receive c (xs @ ys) = foldl receive_byte (c', r) ys" by (simp add: receive_def)
  with r show ?thesis by (simp add: foldl_receive)
qed

section \<open>Lemmas: the encoder and the parser\<close>

lemma telnet_distinct [simp]:
  "IAC \<noteq> 0" "CR_byte \<noteq> IAC" "IAC \<noteq> CR_byte" "LF_byte \<noteq> CR_byte" "LF_byte \<noteq> IAC" "LF_byte \<noteq> 0"
  "CR_byte \<noteq> 0" "CR_byte \<noteq> LF_byte" "SB \<noteq> IAC" "SE \<noteq> IAC" "IAC \<noteq> SE"
  "SB \<noteq> DO" "SB \<noteq> DONT" "SB \<noteq> WILL" "SB \<noteq> WONT"
  by (simp_all add: telnet_bytes)

lemma negotiation_distinct [simp]:
  "DO \<noteq> DONT" "DO \<noteq> WILL" "DO \<noteq> WONT" "DONT \<noteq> DO" "DONT \<noteq> WILL" "DONT \<noteq> WONT" "WILL \<noteq> DO"
  "WILL \<noteq> DONT" "WILL \<noteq> WONT" "WONT \<noteq> DO" "WONT \<noteq> DONT" "WONT \<noteq> WILL" "DO \<noteq> IAC" "DONT \<noteq> IAC"
  "WILL \<noteq> IAC" "WONT \<noteq> IAC"
  by (simp_all add: telnet_bytes)

lemma parse_same: "parse c = p \<Longrightarrow> c\<lparr>parse := p\<rparr> = c" for c :: telnet_codec
  by simp

definition end_parse :: "bool \<Rightarrow> parse_state \<Rightarrow> u8 list \<Rightarrow> parse_state" where
  \<comment> \<open>where the parser stands after the encoding of \<open>xs\<close>\<close>
  "end_parse binary p xs =
     (if xs = [] then p else if last xs = CR_byte \<and> binary then CarriageReturn else Data)"

definition decodes :: "bool \<Rightarrow> parse_state \<Rightarrow> u8 list \<Rightarrow> bool" where
  "decodes binary p xs \<longleftrightarrow>
     p = Data \<or> p = CarriageReturn \<and> (binary \<or> xs = [] \<or> hd xs = LF_byte)"

lemma decode_encode_step:
  assumes "decodes (remote_binary c) (parse c) (x # xs)"
  shows "\<exists>p. decodes (remote_binary c) p xs \<and>
      end_parse (remote_binary c) p xs = end_parse (remote_binary c) (parse c) (x # xs) \<and>
      foldl receive_byte (c, r) (encode_from (remote_binary c) (x # xs)) =
      foldl receive_byte (c\<lparr>parse := p\<rparr>, push_data x r) (encode_from (remote_binary c) xs)"
proof -
  let ?b = "remote_binary c"
  have pc: "parse c = Data \<or> parse c = CarriageReturn" using assms by (auto simp: decodes_def)
  consider (iac) "x = IAC" | (nul) "x = CR_byte" "\<not> ?b" "\<not> (xs \<noteq> [] \<and> hd xs = LF_byte)"
    | (cr) "x = CR_byte" "?b \<or> xs \<noteq> [] \<and> hd xs = LF_byte" | (plain) "x \<noteq> IAC" "x \<noteq> CR_byte"
    by blast
  then show ?thesis
  proof cases
    case iac
    with pc show ?thesis
      by (intro exI [of _ Data])
         (auto simp: decodes_def end_parse_def receive_data_def receive_iac_def Let_def)
  next
    case nul
    with pc show ?thesis
      by (intro exI [of _ Data])
         (auto simp: decodes_def end_parse_def receive_data_def Let_def remote_binary_def)
  next
    case cr
    then have enc: "encode_from ?b (x # xs) = x # encode_from ?b xs" by auto
    show ?thesis
      by (intro exI [of _ CarriageReturn], unfold enc)
         (use cr pc in \<open>auto simp: decodes_def end_parse_def receive_data_def Let_def\<close>)
  next
    case plain
    then have enc: "encode_from ?b (x # xs) = x # encode_from ?b xs" by simp
    have "?b \<or> x \<noteq> 0 \<or> parse c = Data"
      using assms by (auto simp: decodes_def)
    then show ?thesis
      by (intro exI [of _ Data], unfold enc)
         (use plain pc in \<open>auto simp: decodes_def end_parse_def receive_data_def Let_def remote_binary_def\<close>)
  qed
qed

lemma decode_encode:
  assumes "decodes (remote_binary c) (parse c) xs"
  shows "foldl receive_byte (c, r) (encode_from (remote_binary c) xs) =
    (c\<lparr>parse := end_parse (remote_binary c) (parse c) xs\<rparr>, r\<lparr>data := data r @ xs\<rparr>)"
  using assms
proof (induction xs arbitrary: c r)
  case Nil
  then show ?case by (simp add: end_parse_def)
next
  case (Cons x xs)
  from decode_encode_step [OF Cons.prems, of r] obtain p where
    p: "decodes (remote_binary c) p xs"
       "end_parse (remote_binary c) p xs = end_parse (remote_binary c) (parse c) (x # xs)"
       "foldl receive_byte (c, r) (encode_from (remote_binary c) (x # xs)) =
        foldl receive_byte (c\<lparr>parse := p\<rparr>, push_data x r) (encode_from (remote_binary c) xs)"
    by blast
  have "remote_binary (c\<lparr>parse := p\<rparr>) = remote_binary c" by (simp add: remote_binary_def)
  with Cons.IH [of "c\<lparr>parse := p\<rparr>" "push_data x r"] p show ?case
    by (simp add: push_data_def)
qed

lemma receive_subnegotiation_bytes:
  assumes "parse c = Subnegotiation"
    and "length (subnegotiation c) + length bs \<le> MAX_SUBNEGOTIATION_LEN"
  shows "foldl receive_byte (c, r) (push_escaped [] bs) =
    (c\<lparr>subnegotiation := subnegotiation c @ bs\<rparr>, r)"
  using assms
proof (induction bs arbitrary: c)
  case Nil
  then show ?case by simp
next
  case (Cons b bs)
  have "push_subnegotiation (c\<lparr>parse := p\<rparr>) b = c\<lparr>parse := p, subnegotiation := subnegotiation c @ [b]\<rparr>" for p
    using Cons.prems(2) by (simp add: push_subnegotiation_def)
  note push = this [of "parse c", simplified] this [of SubnegotiationIac]
  let ?c = "c\<lparr>subnegotiation := subnegotiation c @ [b]\<rparr>"
  have same: "?c\<lparr>parse := Subnegotiation\<rparr> = ?c" using Cons.prems(1) by simp
  from Cons.IH [of ?c] Cons.prems have
    "foldl receive_byte (?c, r) (push_escaped [] bs) = (c\<lparr>subnegotiation := subnegotiation c @ b # bs\<rparr>, r)"
    by simp
  moreover have "foldl receive_byte (c, r) (push_escaped [] (b # bs)) =
      foldl receive_byte (?c, r) (push_escaped [] bs)"
  proof (cases "b = IAC")
    case True
    then have "foldl receive_byte (c, r) (push_escaped [] (b # bs)) =
        foldl receive_byte (?c\<lparr>parse := Subnegotiation\<rparr>, r) (push_escaped [] bs)"
      using Cons.prems(1) push by simp
    then show ?thesis by (simp only: same)
  next
    case False
    then show ?thesis using Cons.prems(1) push by simp
  qed
  ultimately show ?case by simp
qed

lemma receive_subnegotiation:
  assumes "parse c = Data" and "length bs \<le> MAX_SUBNEGOTIATION_LEN"
  shows "foldl receive_byte (c, r) ([IAC, SB] @ push_escaped [] bs @ [IAC, SE]) =
    (let c' = c\<lparr>subnegotiation := bs, subnegotiation_overflow := False\<rparr>
     in (c', r\<lparr>reply := on_subnegotiation c' (reply r)\<rparr>))"
proof -
  let ?c0 = "c\<lparr>parse := Subnegotiation, subnegotiation := [], subnegotiation_overflow := False\<rparr>"
  have start: "foldl receive_byte (c, r) [IAC, SB] = (?c0, r)"
    using assms(1) by (simp add: receive_data_def receive_iac_def Let_def)
  have body: "foldl receive_byte (?c0, r) (push_escaped [] bs) = (?c0\<lparr>subnegotiation := bs\<rparr>, r)"
    using receive_subnegotiation_bytes [of ?c0 bs r] assms(2) by simp
  have same: "?c0\<lparr>subnegotiation := bs, parse := Data\<rparr> =
      c\<lparr>subnegotiation := bs, subnegotiation_overflow := False\<rparr>"
    using assms(1) by simp
  have finish: "foldl receive_byte (?c0\<lparr>subnegotiation := bs\<rparr>, r) [IAC, SE] =
      (let c' = c\<lparr>subnegotiation := bs, subnegotiation_overflow := False\<rparr>
       in (c', r\<lparr>reply := on_subnegotiation c' (reply r)\<rparr>))"
    using same by (simp add: Let_def)
  show ?thesis
    by (simp only: foldl_append start body finish)
qed

section \<open>Reads of any size\<close>

interpretation telnet: stream_decoder receive shift no_bytes "\<lambda>_. True"
proof unfold_locales
  fix c xs ys
  show "receive c [] = (c, no_bytes)" by (simp add: receive_def)
  show "receive c (xs @ ys) =
      (fst (receive (fst (receive c xs)) ys),
       shift (snd (receive c xs)) (snd (receive (fst (receive c xs)) ys)))"
    by (simp add: receive_append after_def split: prod.split)
qed simp_all

section \<open>Lemmas: what an option table may hold\<close>

definition options_ok :: "telnet_codec \<Rightarrow> bool" where
  "options_ok c \<longleftrightarrow>
     (\<forall>opt. local_opt c opt \<noteq> No \<longrightarrow> supports_local opt) \<and> (\<forall>opt. remote_opt c opt \<noteq> No \<longrightarrow> supports_remote opt)"

definition codec_ok :: "telnet_codec \<Rightarrow> bool" where
  "codec_ok c \<longleftrightarrow> options_ok c \<and> length (subnegotiation c) \<le> MAX_SUBNEGOTIATION_LEN \<and>
     columns c \<noteq> 0 \<and> lines c \<noteq> 0"

lemma options_ok_update [simp]:
  "options_ok (c\<lparr>parse := p\<rparr>) = options_ok c"
  "options_ok (c\<lparr>subnegotiation := s\<rparr>) = options_ok c"
  "options_ok (c\<lparr>subnegotiation_overflow := v\<rparr>) = options_ok c"
  "options_ok (c\<lparr>columns := x\<rparr>) = options_ok c"
  "options_ok (c\<lparr>lines := x\<rparr>) = options_ok c"
  by (simp_all add: options_ok_def)

lemma negotiate_keeps [simp]:
  "subnegotiation (fst (negotiate v c opt out)) = subnegotiation c"
  "columns (fst (negotiate v c opt out)) = columns c"
  "lines (fst (negotiate v c opt out)) = lines c"
  by (simp_all add: negotiate_def on_do_def on_dont_def on_will_def on_wont_def set_local_def
      set_remote_def Let_def split: option_state.split)

lemma negotiate_options_ok: "options_ok c \<Longrightarrow> options_ok (fst (negotiate v c opt out))"
  by (auto simp: options_ok_def negotiate_def on_do_def on_dont_def on_will_def on_wont_def
      set_local_def set_remote_def Let_def split: option_state.split)

lemma push_subnegotiation_ok: "codec_ok c \<Longrightarrow> codec_ok (push_subnegotiation c b)"
  by (auto simp: codec_ok_def push_subnegotiation_def)

lemma receive_byte_ok: "codec_ok (fst s) \<Longrightarrow> codec_ok (fst (receive_byte s b))"
proof (cases s)
  case (Pair c r)
  assume "codec_ok (fst s)"
  then have ok: "codec_ok c" by (simp add: Pair)
  have upd: "codec_ok (d\<lparr>parse := p\<rparr>) = codec_ok d" for d p by (simp add: codec_ok_def)
  show ?thesis
  proof (cases "parse c")
    case (Negotiation verb)
    obtain c' out where n: "negotiate verb (c\<lparr>parse := Data\<rparr>) b (reply r) = (c', out)" by fastforce
    then have "options_ok c'" "subnegotiation c' = subnegotiation c" "columns c' = columns c"
      "lines c' = lines c"
      using negotiate_options_ok [of "c\<lparr>parse := Data\<rparr>" verb b "reply r"]
        negotiate_keeps [of verb "c\<lparr>parse := Data\<rparr>" b "reply r"] ok
      by (simp_all add: codec_ok_def)
    with ok n Negotiation show ?thesis by (simp add: Pair codec_ok_def)
  qed (use ok push_subnegotiation_ok [OF ok] in
      \<open>auto simp: Pair receive_data_def receive_iac_def Let_def upd, auto simp: codec_ok_def\<close>)
qed

lemma foldl_receive_ok: "codec_ok (fst s) \<Longrightarrow> codec_ok (fst (foldl receive_byte s bs))"
  by (induction bs arbitrary: s) (simp_all add: receive_byte_ok)

lemma receive_ok: "codec_ok c \<Longrightarrow> codec_ok (fst (receive c bs))"
  by (simp add: receive_def foldl_receive_ok)

lemma unat_clamp: "unat (clamp_dimension n) = min (max n 1) 65535"
proof -
  have "min (max n 1) 65535 < (65536::nat)" by simp
  then show ?thesis by (simp add: clamp_dimension_def unat_of_nat)
qed

lemma clamp_nonzero: "clamp_dimension n \<noteq> 0"
  using unat_clamp [of n] by auto

lemma telnet_new_ok: "codec_ok (telnet_new t w h)"
  by (simp add: codec_ok_def options_ok_def telnet_new_def clamp_nonzero)

lemma initial_negotiation_ok: "codec_ok c \<Longrightarrow> codec_ok (fst (initial_negotiation c))"
  by (auto simp: initial_negotiation_def request_local_def request_remote_def codec_ok_def
      options_ok_def set_local_def set_remote_def supports_local_def supports_remote_def)

lemma resize_ok: "codec_ok c \<Longrightarrow> codec_ok (fst (resize c w h))"
  by (auto simp: resize_def Let_def codec_ok_def clamp_nonzero)

section \<open>Lemmas: window size\<close>

lemma to_be_bytes_value: "256 * unat (to_be_bytes v ! 0) + unat (to_be_bytes v ! 1) = unat v"
proof -
  have v: "unat v < 65536" using unsigned_less [of v] by simp
  have "unat (drop_bit 8 v) = drop_bit 8 (unat v)" by (rule unat_drop_bit_eq)
  then have hi: "unat (drop_bit 8 v) = unat v div 256" by (simp add: drop_bit_nat_def)
  have "unat (ucast (drop_bit 8 v) :: u8) = take_bit 8 (unat (drop_bit 8 v))"
    by (simp add: unsigned_ucast_eq)
  with v have "unat (ucast (drop_bit 8 v) :: u8) = unat v div 256"
    unfolding hi by (simp add: take_bit_nat_def)
  moreover have "unat (ucast v :: u8) = unat v mod 256"
    by (simp add: unsigned_ucast_eq take_bit_nat_def)
  ultimately show ?thesis by (simp add: to_be_bytes_def)
qed

lemma length_window_size_bytes [simp]: "length (window_size_bytes c) = 4"
  by (simp add: window_size_bytes_def to_be_bytes_def)

lemma write_window_size_frame:
  "write_window_size c [] = [IAC, SB] @ push_escaped [] (OPTION_NAWS # window_size_bytes c) @ [IAC, SE]"
proof -
  have "OPTION_NAWS \<noteq> IAC" by (simp add: telnet_bytes)
  then show ?thesis
    by (simp add: write_window_size_def push_escaped_out [of "[IAC, SB, OPTION_NAWS]"])
qed

end
