(* ===== verification/Telnet_Properties.thy ===== *)
theory Telnet_Properties
  imports Telnet
begin

text \<open>
  What the Telnet codec promises: properties of one codec over any history, and of two codecs
  negotiating with each other. The network between two codecs is a pair of first-in first-out
  queues of negotiation verbs about one option; a step delivers one verb to \<^const>\<open>negotiate\<close> and
  queues the verb of its answer.
\<close>

section \<open>Histories of one codec\<close>

inductive telnet_reachable :: "telnet_codec \<Rightarrow> bool" where
  start: "telnet_reachable (telnet_new ttype cols lns)"
| opened_up: "telnet_reachable c \<Longrightarrow> telnet_reachable (fst (initial_negotiation c))"
| bytes: "telnet_reachable c \<Longrightarrow> telnet_reachable (fst (receive c input))"
| resized: "telnet_reachable c \<Longrightarrow> telnet_reachable (fst (resize c cols lns))"

lemma telnet_reachable_ok: "telnet_reachable c \<Longrightarrow> codec_ok c"
  by (induction rule: telnet_reachable.induct)
     (simp_all add: telnet_new_ok initial_negotiation_ok receive_ok resize_ok)

section \<open>Two codecs negotiating one option\<close>

record nego_net =
  near :: telnet_codec  \<comment> \<open>the side whose local option is negotiated: it sends \<open>WILL\<close> and \<open>WONT\<close>\<close>
  far :: telnet_codec   \<comment> \<open>the side that sends \<open>DO\<close> and \<open>DONT\<close>\<close>
  to_far :: "u8 list"
  to_near :: "u8 list"

definition answer_verbs :: "u8 list \<Rightarrow> u8 list" where
  \<comment> \<open>the negotiation verb a reply starts with, if it starts with one\<close>
  "answer_verbs out =
     (case out of
        x # v # _ \<Rightarrow> if x = IAC \<and> v \<in> {DO, DONT, WILL, WONT} then [v] else []
      | _ \<Rightarrow> [])"

inductive deliver :: "u8 \<Rightarrow> nego_net \<Rightarrow> nego_net \<Rightarrow> bool" where
  deliver_far:
    "to_far s = v # vs \<Longrightarrow> negotiate v (far s) opt [] = (c, out) \<Longrightarrow>
     deliver opt s (s\<lparr>far := c, to_far := vs, to_near := to_near s @ answer_verbs out\<rparr>)"
| deliver_near:
    "to_near s = v # vs \<Longrightarrow> negotiate v (near s) opt [] = (c, out) \<Longrightarrow>
     deliver opt s (s\<lparr>near := c, to_near := vs, to_far := to_far s @ answer_verbs out\<rparr>)"

inductive_cases deliverE: "deliver opt s t"

definition nego_start :: "u8 \<Rightarrow> bool \<Rightarrow> bool \<Rightarrow> telnet_codec \<Rightarrow> telnet_codec \<Rightarrow> nego_net" where
  \<comment> \<open>each side may or may not have sent its opening request for the option\<close>
  "nego_start opt near_asks far_asks n f =
     (let (n', n_out) = (if near_asks then request_local opt (n, []) else (n, []));
          (f', f_out) = (if far_asks then request_remote opt (f, []) else (f, []))
      in \<lparr>near = n', far = f', to_far = answer_verbs n_out, to_near = answer_verbs f_out\<rparr>)"

inductive nego_run :: "u8 \<Rightarrow> nat \<Rightarrow> nego_net \<Rightarrow> bool" where
  opened: "local_opt n opt = No \<Longrightarrow> remote_opt f opt = No \<Longrightarrow>
     nego_run opt 0 (nego_start opt near_asks far_asks n f)"
| delivered: "nego_run opt k s \<Longrightarrow> deliver opt s t \<Longrightarrow> nego_run opt (Suc k) t"

definition view :: "u8 \<Rightarrow> nego_net \<Rightarrow> option_state \<times> option_state \<times> u8 list \<times> u8 list" where
  "view opt s = (local_opt (near s) opt, remote_opt (far s) opt, to_far s, to_near s)"

inductive nego_inv :: "nat \<Rightarrow> option_state \<times> option_state \<times> u8 list \<times> u8 list \<Rightarrow> bool" where
  \<comment> \<open>every configuration two codecs can reach, with the deliveries made so far\<close>
  idle: "nego_inv 0 (No, No, [], [])"
| near_asks: "nego_inv 0 (WantYes, No, [WILL], [])"
| far_asks: "nego_inv 0 (No, WantYes, [], [DO])"
| both_ask: "nego_inv 0 (WantYes, WantYes, [WILL], [DO])"
| near_accepted: "nego_inv (Suc 0) (WantYes, Yes, [], [DO])"
| near_refused: "nego_inv (Suc 0) (WantYes, No, [], [DONT])"
| far_accepted: "nego_inv (Suc 0) (Yes, WantYes, [WILL], [])"
| far_refused: "nego_inv (Suc 0) (No, WantYes, [WONT], [])"
| agreed_on: "nego_inv (Suc (Suc 0)) (Yes, Yes, [], [])"
| agreed_off: "nego_inv (Suc (Suc 0)) (No, No, [], [])"

inductive_cases nego_inv_farE: "nego_inv k (a, b, v # vs, q)"
inductive_cases nego_inv_nearE: "nego_inv k (a, b, q, v # vs)"
inductive_cases nego_inv_quietE: "nego_inv k (a, b, [], [])"

lemma answer_verbs_simps [simp]:
  "answer_verbs [] = []"
  "answer_verbs (IAC # v # xs) = (if v \<in> {DO, DONT, WILL, WONT} then [v] else [])"
  by (simp_all add: answer_verbs_def)

lemma answer_window_size [simp]: "answer_verbs (write_window_size c []) = []"
  by (simp add: write_window_size_frame answer_verbs_def)

lemma write_window_size_out: "write_window_size c (p @ out) = p @ write_window_size c out"
  by (simp add: write_window_size_def push_escaped_append)

lemma answer_after_verb [simp]:
  "answer_verbs (write_window_size c [IAC, v, x]) = (if v \<in> {DO, DONT, WILL, WONT} then [v] else [])"
  using write_window_size_out [of c "[IAC, v, x]" "[]"] by simp

definition near_step :: "u8 \<Rightarrow> option_state \<Rightarrow> u8 \<Rightarrow> option_state \<times> u8 list" where
  "near_step opt st v =
    (if v = DO then
       (case st of
          No \<Rightarrow> if supports_local opt then (Yes, [WILL]) else (No, [WONT])
        | WantYes \<Rightarrow> (Yes, []) | Yes \<Rightarrow> (Yes, []))
     else
       (case st of No \<Rightarrow> (No, []) | WantYes \<Rightarrow> (No, []) | Yes \<Rightarrow> (No, [WONT])))"

definition far_step :: "u8 \<Rightarrow> option_state \<Rightarrow> u8 \<Rightarrow> option_state \<times> u8 list" where
  "far_step opt st v =
    (if v = WILL then
       (case st of
          No \<Rightarrow> if supports_remote opt then (Yes, [DO]) else (No, [DONT])
        | WantYes \<Rightarrow> (Yes, []) | Yes \<Rightarrow> (Yes, []))
     else
       (case st of No \<Rightarrow> (No, []) | WantYes \<Rightarrow> (No, []) | Yes \<Rightarrow> (No, [DONT])))"

lemma near_answers:
  assumes "negotiate v c opt [] = (c', out)" and "v = DO \<or> v = DONT"
  shows "near_step opt (local_opt c opt) v = (local_opt c' opt, answer_verbs out)"
  using assms
  by (auto simp: near_step_def negotiate_def on_do_def on_dont_def set_local_def local_enabled_def
      Let_def split: option_state.splits if_splits)

lemma far_answers:
  assumes "negotiate v c opt [] = (c', out)" and "v = WILL \<or> v = WONT"
  shows "far_step opt (remote_opt c opt) v = (remote_opt c' opt, answer_verbs out)"
  using assms
  by (auto simp: far_step_def negotiate_def on_will_def on_wont_def set_remote_def
      split: option_state.splits if_splits)

lemma near_inv:
  "nego_inv k (a, b, q, v # vs) \<Longrightarrow> near_step opt a v = (a', ans) \<Longrightarrow>
   (v = DO \<or> v = DONT) \<and> nego_inv (Suc k) (a', b, q @ ans, vs)"
  by (erule nego_inv_nearE) (auto simp: near_step_def intro: nego_inv.intros split: if_splits)

lemma far_inv:
  "nego_inv k (a, b, v # vs, q) \<Longrightarrow> far_step opt b v = (b', ans) \<Longrightarrow>
   (v = WILL \<or> v = WONT) \<and> nego_inv (Suc k) (a, b', vs, q @ ans)"
  by (erule nego_inv_farE) (auto simp: far_step_def intro: nego_inv.intros split: if_splits)

lemma deliver_inv:
  assumes "deliver opt s t" and inv: "nego_inv k (view opt s)"
  shows "nego_inv (Suc k) (view opt t)"
  using assms(1)
proof (cases rule: deliver.cases)
  case (deliver_far v vs c out)
  obtain b' ans where fs: "far_step opt (remote_opt (far s) opt) v = (b', ans)" by fastforce
  have "nego_inv k (local_opt (near s) opt, remote_opt (far s) opt, v # vs, to_near s)"
    using inv deliver_far(2) by (simp add: view_def)
  from far_inv [OF this fs] far_answers [OF deliver_far(3)] fs deliver_far(1) show ?thesis
    by (auto simp: view_def)
next
  case (deliver_near v vs c out)
  obtain a' ans where ns: "near_step opt (local_opt (near s) opt) v = (a', ans)" by fastforce
  have "nego_inv k (local_opt (near s) opt, remote_opt (far s) opt, to_far s, v # vs)"
    using inv deliver_near(2) by (simp add: view_def)
  from near_inv [OF this ns] near_answers [OF deliver_near(3)] ns deliver_near(1) show ?thesis
    by (auto simp: view_def)
qed

lemma nego_run_inv: "nego_run opt k s \<Longrightarrow> nego_inv k (view opt s)"
proof (induction rule: nego_run.induct)
  case (opened n opt f near_asks far_asks)
  then show ?case
    by (cases near_asks; cases far_asks)
       (simp_all add: nego_inv.intros nego_start_def view_def request_local_def request_remote_def set_local_def
          set_remote_def)
next
  case (delivered opt k s t)
  then show ?case by (blast intro: deliver_inv)
qed

section \<open>Properties\<close>

text \<open>C19: terminal input survives the wire. Whatever bytes one side encodes, the other side's
  parser delivers exactly those bytes as data and sends no reply, provided the two agree on
  whether this direction is binary and the receiver is between commands.\<close>

theorem telnet_input_roundtrip:
  assumes "(local_opt sender OPTION_BINARY = Yes) = (remote_opt receiver OPTION_BINARY = Yes)"
    and "parse receiver = Data"
  shows "snd (receive receiver (encode_input sender input)) = \<lparr>data = input, reply = []\<rparr>"
proof -
  have "encode_input sender input = encode_from (remote_binary receiver) input"
    using assms(1) by (simp add: encode_input_def remote_binary_def)
  moreover have "decodes (remote_binary receiver) (parse receiver) input"
    using assms(2) by (simp add: decodes_def)
  ultimately show ?thesis
    using decode_encode [of receiver input no_bytes] by (simp add: receive_def no_bytes_def)
qed

theorem telnet_input_roundtrip_witness:
  "snd (receive (telnet_new [] 80 24) (encode_input (telnet_new [] 80 24) [65, 13, 255, 0]))
   = \<lparr>data = [65, 13, 255, 0], reply = []\<rparr>"
  by (rule telnet_input_roundtrip) (simp_all add: telnet_new_def)

text \<open>C20: the codec does not care how the network splits the stream: any sequence of reads
  gives the same codec, the same terminal output and the same replies as one read of all
  the bytes.\<close>

theorem telnet_chunking:
  "feed_all receive shift no_bytes c chunks = receive c (concat chunks)"
  by (rule telnet.feed_all_concat) simp

text \<open>after any history of opening offers, received bytes and resizes, only options the
  client supports are requested or on, the subnegotiation buffer holds at most 4096 bytes and
  the window is at least 1 by 1.\<close>

theorem telnet_only_supported_options:
  assumes "telnet_reachable c"
  shows "(local_opt c opt \<noteq> No \<longrightarrow> supports_local opt) \<and>
    (remote_opt c opt \<noteq> No \<longrightarrow> supports_remote opt) \<and>
    length (subnegotiation c) \<le> MAX_SUBNEGOTIATION_LEN \<and> columns c \<noteq> 0 \<and> lines c \<noteq> 0"
  using telnet_reachable_ok [OF assms] by (simp add: codec_ok_def options_ok_def)

theorem telnet_only_supported_options_witness:
  "let c = fst (receive (telnet_new [] 80 24) [255, 253, 39]) in
   (local_opt c 39 \<noteq> No \<longrightarrow> supports_local 39) \<and> (remote_opt c 39 \<noteq> No \<longrightarrow> supports_remote 39) \<and>
    length (subnegotiation c) \<le> MAX_SUBNEGOTIATION_LEN \<and> columns c \<noteq> 0 \<and> lines c \<noteq> 0"
  unfolding Let_def
  by (rule telnet_only_supported_options) (rule telnet_reachable.bytes [OF telnet_reachable.start])

text \<open>C21: two codecs that negotiate an option never loop: from any opening requests at most two
  verbs are delivered before both queues are empty, and then the two sides agree on whether
  the option is on, with no request left unanswered.\<close>

theorem telnet_negotiation_converges:
  assumes "nego_run opt k s"
  shows "k \<le> 2 \<and>
    (to_far s = [] \<and> to_near s = [] \<longrightarrow>
       (local_opt (near s) opt = Yes \<and> remote_opt (far s) opt = Yes) \<or>
       (local_opt (near s) opt = No \<and> remote_opt (far s) opt = No))"
proof -
  have inv: "nego_inv k (view opt s)" using assms by (rule nego_run_inv)
  have "k \<le> 2" using inv by (auto elim: nego_inv.cases)
  moreover have "(a = Yes \<and> b = Yes) \<or> (a = No \<and> b = No)" if "nego_inv k (a, b, [], [])" for a b
    using that by (auto elim: nego_inv_quietE)
  ultimately show ?thesis using inv by (fastforce simp: view_def)
qed

theorem telnet_negotiation_converges_witness:
  "let s = nego_start OPTION_ECHO True False (telnet_new [] 80 24) (telnet_new [] 80 24) in
   (0::nat) \<le> 2 \<and>
    (to_far s = [] \<and> to_near s = [] \<longrightarrow>
       (local_opt (near s) OPTION_ECHO = Yes \<and> remote_opt (far s) OPTION_ECHO = Yes) \<or>
       (local_opt (near s) OPTION_ECHO = No \<and> remote_opt (far s) OPTION_ECHO = No))"
  unfolding Let_def
  by (rule telnet_negotiation_converges, rule nego_run.opened) (simp_all add: telnet_new_def)

text \<open>a repeated command is not answered again: when the same verb arrives a second time the
  codec is unchanged by it, and it replies only to repeat a refusal (the first time, too, it
  changed nothing and sent the same refusal).\<close>

theorem telnet_answered_once:
  assumes "negotiate verb c option [] = (c1, out1)"
    and "negotiate verb c1 option [] = (c2, out2)"
  shows "c2 = c1 \<and> (out2 = [] \<or> c1 = c \<and> out2 = out1 \<and>
    (out1 = [IAC, WONT, option] \<and> \<not> supports_local option \<or>
     out1 = [IAC, DONT, option] \<and> \<not> supports_remote option))"
  using assms
  by (auto simp: negotiate_def on_do_def on_dont_def on_will_def on_wont_def set_local_def
      set_remote_def Let_def split: option_state.splits if_splits)

theorem telnet_answered_once_witness:
  "let c = telnet_new [] 80 24; n1 = negotiate DO c 39 []; n2 = negotiate DO (fst n1) 39 [] in
   fst n2 = fst n1 \<and> (snd n2 = [] \<or> fst n1 = c \<and> snd n2 = snd n1 \<and>
    (snd n1 = [IAC, WONT, 39] \<and> \<not> supports_local 39 \<or>
     snd n1 = [IAC, DONT, 39] \<and> \<not> supports_remote 39))"
  unfolding Let_def by (rule telnet_answered_once) (rule prod.collapse [symmetric])+

text \<open>a resize is reported exactly when the size changed and the peer accepted window size
  reports, and a peer reading the report finds the new size, clamped to 1..65535, in the
  subnegotiation, even when a byte of it is 255.\<close>

theorem telnet_resize_report:
  assumes "resize c cols lns = (c', out)" and "parse peer = Data"
  shows "(out = [] \<longleftrightarrow> (columns c' = columns c \<and> lines c' = lines c) \<or> local_opt c OPTION_NAWS \<noteq> Yes) \<and>
    unat (columns c') = min (max cols 1) 65535 \<and> unat (lines c') = min (max lns 1) 65535 \<and>
    (out \<noteq> [] \<longrightarrow>
       (case receive peer out of (peer', got) \<Rightarrow>
          data got = [] \<and> parse peer' = Data \<and>
          (\<exists>w1 w2 h1 h2. subnegotiation peer' = [OPTION_NAWS, w1, w2, h1, h2] \<and>
             256 * unat w1 + unat w2 = min (max cols 1) 65535 \<and>
             256 * unat h1 + unat h2 = min (max lns 1) 65535)))"
proof -
  have size: "columns c' = clamp_dimension cols" "lines c' = clamp_dimension lns"
    using assms(1) by (auto simp: resize_def Let_def split: if_splits)
  have out: "out = (if (columns c' = columns c \<and> lines c' = lines c) \<or> local_opt c OPTION_NAWS \<noteq> Yes
      then [] else write_window_size c' [])"
    using assms(1) by (auto simp: resize_def Let_def write_window_size_def window_size_bytes_def split: if_splits)
  have nonempty: "write_window_size c' [] \<noteq> []" by (simp add: write_window_size_frame)
  let ?bs = "OPTION_NAWS # window_size_bytes c'"
  have "length ?bs \<le> MAX_SUBNEGOTIATION_LEN" by (simp add: MAX_SUBNEGOTIATION_LEN_def)
  from receive_subnegotiation [OF assms(2) this, of no_bytes]
  have "case receive peer (write_window_size c' []) of (peer', got) \<Rightarrow>
      data got = [] \<and> parse peer' = Data \<and> subnegotiation peer' = ?bs"
    using assms(2) by (simp add: receive_def write_window_size_frame Let_def no_bytes_def)
  moreover have "?bs = [OPTION_NAWS, to_be_bytes (columns c') ! 0, to_be_bytes (columns c') ! 1,
      to_be_bytes (lines c') ! 0, to_be_bytes (lines c') ! 1]"
    by (simp add: window_size_bytes_def to_be_bytes_def)
  moreover have "256 * unat (to_be_bytes (columns c') ! 0) + unat (to_be_bytes (columns c') ! 1) =
      min (max cols 1) 65535"
    "256 * unat (to_be_bytes (lines c') ! 0) + unat (to_be_bytes (lines c') ! 1) = min (max lns 1) 65535"
    unfolding to_be_bytes_value size unat_clamp by simp_all
  ultimately have "case receive peer (write_window_size c' []) of (peer', got) \<Rightarrow>
      data got = [] \<and> parse peer' = Data \<and>
          (\<exists>w1 w2 h1 h2. subnegotiation peer' = [OPTION_NAWS, w1, w2, h1, h2] \<and>
             256 * unat w1 + unat w2 = min (max cols 1) 65535 \<and>
             256 * unat h1 + unat h2 = min (max lns 1) 65535)"
    by (auto split: prod.splits)
  then show ?thesis
    using out nonempty size unat_clamp by auto
qed

theorem telnet_resize_report_witness:
  "let c = fst (receive (telnet_new [] 80 24) [255, 253, 31]); res = resize c 255 50;
       peer = telnet_new [] 80 24 in
   (snd res = [] \<longleftrightarrow> (columns (fst res) = columns c \<and> lines (fst res) = lines c)
       \<or> local_opt c OPTION_NAWS \<noteq> Yes) \<and>
    unat (columns (fst res)) = min (max 255 1) 65535 \<and> unat (lines (fst res)) = min (max 50 1) 65535 \<and>
    (snd res \<noteq> [] \<longrightarrow>
       (case receive peer (snd res) of (peer', got) \<Rightarrow>
          data got = [] \<and> parse peer' = Data \<and>
          (\<exists>w1 w2 h1 h2. subnegotiation peer' = [OPTION_NAWS, w1, w2, h1, h2] \<and>
             256 * unat w1 + unat w2 = min (max 255 1) 65535 \<and>
             256 * unat h1 + unat h2 = min (max 50 1) 65535)))"
  unfolding Let_def
  by (rule telnet_resize_report, rule prod.collapse [symmetric]) (simp add: telnet_new_def)

end
