(* ===== verification/Utf8.thy ===== *)
theory Utf8
  imports Prelude
begin

text \<open>
  \<^verbatim>\<open>String::from_utf8_lossy\<close>, which the event-stream decoder and the Telnet login watcher call
  on bytes from the network: valid UTF-8 is kept, every maximal invalid sequence becomes
  U+FFFD. \<^term>\<open>seq_len\<close> is the length of the well-formed sequence at the front (0 if there is
  none), following the byte ranges of the Unicode standard's table 3-7; \<^term>\<open>bad_len\<close> is the
  length of the invalid prefix that one replacement character stands for.
\<close>

definition in_range :: "nat \<Rightarrow> nat \<Rightarrow> char \<Rightarrow> bool" where
  "in_range lo hi c \<longleftrightarrow> lo \<le> byte_val c \<and> byte_val c \<le> hi"

definition is_continuation :: "char \<Rightarrow> bool" where
  "is_continuation c \<longleftrightarrow> in_range 128 191 c"

definition second_ok :: "char \<Rightarrow> char \<Rightarrow> bool" where
  \<comment> \<open>may \<open>c2\<close> follow the lead byte \<open>c1\<close>\<close>
  "second_ok c1 c2 =
     (if byte_val c1 = 224 then in_range 160 191 c2
      else if byte_val c1 = 237 then in_range 128 159 c2
      else if byte_val c1 = 240 then in_range 144 191 c2
      else if byte_val c1 = 244 then in_range 128 143 c2
      else is_continuation c2)"

definition lead_len :: "char \<Rightarrow> nat" where
  \<comment> \<open>length announced by a lead byte, 0 for a byte that cannot lead\<close>
  "lead_len c =
     (if byte_val c < 128 then 1
      else if in_range 194 223 c then 2
      else if in_range 224 239 c then 3
      else if in_range 240 244 c then 4
      else 0)"

fun good_prefix :: "char \<Rightarrow> nat \<Rightarrow> string \<Rightarrow> nat" where
  \<comment> \<open>how many of the \<open>n\<close> bytes wanted after the lead byte are there and valid; \<open>n = 3\<close> at most\<close>
  "good_prefix c1 0 cs = 0"
| "good_prefix c1 (Suc n) [] = 0"
| "good_prefix c1 (Suc n) (c2 # cs) =
     (if second_ok c1 c2 then Suc (length (takeWhile is_continuation (take n cs))) else 0)"

definition seq_len :: "string \<Rightarrow> nat" where
  "seq_len s =
     (case s of [] \<Rightarrow> 0
      | c # cs \<Rightarrow>
          if lead_len c = 0 then 0
          else if good_prefix c (lead_len c - 1) cs = lead_len c - 1 then lead_len c else 0)"

definition bad_len :: "string \<Rightarrow> nat" where
  "bad_len s =
     (case s of [] \<Rightarrow> 0
      | c # cs \<Rightarrow> if lead_len c = 0 then 1 else Suc (good_prefix c (lead_len c - 1) cs))"

definition replacement :: string where
  "replacement = [CHR 0xEF, CHR 0xBF, CHR 0xBD]"

lemma seq_len_Cons_le: "seq_len s \<le> length s"
proof (cases s)
  case (Cons c cs)
  have "good_prefix c n cs \<le> length cs" for n
    by (cases "(c, n, cs)" rule: good_prefix.cases)
       (auto intro!: order_trans [OF length_takeWhile_le])
  from this [of "lead_len c - 1"] Cons show ?thesis by (auto simp: seq_len_def)
qed (simp add: seq_len_def)

function from_utf8_lossy :: "string \<Rightarrow> string" where
  "from_utf8_lossy s =
     (if s = [] then []
      else if 0 < seq_len s then take (seq_len s) s @ from_utf8_lossy (drop (seq_len s) s)
      else replacement @ from_utf8_lossy (drop (bad_len s) s))"
  by pat_completeness auto
termination
  by (relation "measure length") (auto simp: bad_len_def split: list.splits)

declare from_utf8_lossy.simps [simp del]

text \<open>Valid UTF-8: the strings \<^term>\<open>from_utf8_lossy\<close> reads without a replacement.\<close>

function valid_utf8 :: "string \<Rightarrow> bool" where
  "valid_utf8 s =
     (if s = [] then True
      else if 0 < seq_len s then valid_utf8 (drop (seq_len s) s) else False)"
  by pat_completeness auto
termination
  by (relation "measure length") auto

declare valid_utf8.simps [simp del]

lemma from_utf8_lossy_Nil [simp]: "from_utf8_lossy [] = []"
  by (simp add: from_utf8_lossy.simps)

lemma from_utf8_lossy_valid: "valid_utf8 s \<Longrightarrow> from_utf8_lossy s = s"
proof (induction s rule: valid_utf8.induct)
  case (1 s)
  show ?case
  proof (cases "s = []")
    case False
    with "1.prems" have "0 < seq_len s" "valid_utf8 (drop (seq_len s) s)"
      by (auto simp: valid_utf8.simps [of s] split: if_splits)
    with "1.IH" False show ?thesis
      by (simp add: from_utf8_lossy.simps [of s])
  qed simp
qed

lemma seq_len_ascii [simp]: "byte_val c < 128 \<Longrightarrow> seq_len (c # cs) = 1"
  by (simp add: seq_len_def lead_len_def)

lemma valid_utf8_Nil [simp]: "valid_utf8 []"
  by (simp add: valid_utf8.simps)

lemma valid_utf8_Cons_ascii [simp]: "byte_val c < 128 \<Longrightarrow> valid_utf8 (c # s) = valid_utf8 s"
  by (simp add: valid_utf8.simps [of "c # s"])

lemma valid_utf8_ascii: "\<forall>c \<in> set s. byte_val c < 128 \<Longrightarrow> valid_utf8 s"
  by (induction s) simp_all

lemma from_utf8_lossy_ascii: "\<forall>c \<in> set s. byte_val c < 128 \<Longrightarrow> from_utf8_lossy s = s"
  by (intro from_utf8_lossy_valid valid_utf8_ascii)

end
