(* ===== verification/Telnet_Login.thy ===== *)
theory Telnet_Login
  imports Utf8 "HOL-Library.Sublist"
begin

text \<open>
  \<^verbatim>\<open>TelnetAutoLogin\<close> of \<^verbatim>\<open>crates/miaominal-core/src/telnet.rs\<close>: watches the terminal output for
  login prompts and types the saved user name and password, once each. Output is given as
  UTF-8 bytes; the tail is cut at a character boundary as the code's loop does.
\<close>

definition AUTO_LOGIN_OBSERVATION_LIMIT :: nat where
  "AUTO_LOGIN_OBSERVATION_LIMIT = 64 * 1024"

definition AUTO_LOGIN_TAIL_LIMIT :: nat where
  "AUTO_LOGIN_TAIL_LIMIT = 128"

record auto_login =
  username :: "string option"
  password :: "string option"
  has_credentials :: bool
  awaiting_manual_password :: bool
  logged_in :: bool
  tail :: string
  observed :: nat

definition login_new :: "string \<Rightarrow> string \<Rightarrow> auto_login" where
  "login_new user pass =
     (let user = trim user;
          u = (if user \<noteq> [] then Some user else None);
          p = (if pass \<noteq> [] then Some pass else None)
      in \<lparr>username = u, password = p, has_credentials = (u \<noteq> None \<or> p \<noteq> None),
          awaiting_manual_password = False, logged_in = False, tail = [], observed = 0\<rparr>)"

definition ready_for_startup :: "auto_login \<Rightarrow> bool" where
  "ready_for_startup l \<longleftrightarrow>
     \<not> has_credentials l \<or> logged_in l \<or> AUTO_LOGIN_OBSERVATION_LIMIT \<le> observed l"

definition note_user_input :: "auto_login \<Rightarrow> string \<Rightarrow> auto_login" where
  "note_user_input l input =
     (if awaiting_manual_password l \<and> CR \<in> set input
      then l\<lparr>awaiting_manual_password := False, logged_in := True\<rparr> else l)"

definition saturating_add :: "nat \<Rightarrow> nat \<Rightarrow> nat" where
  "saturating_add a b = min (a + b) usize_max"

definition cut_tail :: "string \<Rightarrow> string" where
  \<comment> \<open>the last 128 bytes, less the continuation bytes a cut would leave at the front\<close>
  "cut_tail s =
     (if AUTO_LOGIN_TAIL_LIMIT < length s
      then dropWhile is_continuation (drop (length s - AUTO_LOGIN_TAIL_LIMIT) s) else s)"

definition watch :: "auto_login \<Rightarrow> string \<Rightarrow> auto_login" where
  \<comment> \<open>the bookkeeping of \<^verbatim>\<open>observe\<close> before the prompt is looked at\<close>
  "watch l output =
     l\<lparr>observed := saturating_add (observed l) (length output),
       tail := cut_tail (tail l @ to_ascii_lowercase (from_utf8_lossy output))\<rparr>"

definition observe :: "auto_login \<Rightarrow> string \<Rightarrow> auto_login \<times> string option" where
  "observe l output =
     (if ready_for_startup l then (l, None)
      else
        let l = watch l output; prompt = trim_end (tail l) in
        if ends_with prompt ''password:'' then
          (let l = l\<lparr>tail := [], username := None\<rparr>
           in case password l of
                Some p \<Rightarrow> (l\<lparr>password := None, logged_in := True\<rparr>, Some (p @ [CR]))
              | None \<Rightarrow> (l\<lparr>awaiting_manual_password := True\<rparr>, None))
        else if ends_with prompt ''login:'' \<or> ends_with prompt ''username:''
                \<or> ends_with prompt ''user name:'' then
          (case username l of
             None \<Rightarrow> (l, None)
           | Some u \<Rightarrow> (l\<lparr>username := None, tail := []\<rparr>, Some (u @ [CR])))
        else (l, None))"

text \<open>A session interleaves terminal output and the user's own typing.\<close>

datatype login_event = Output string | Typed string

fun login_step :: "auto_login \<Rightarrow> login_event \<Rightarrow> auto_login \<times> string option" where
  "login_step l (Output s) = observe l s"
| "login_step l (Typed s) = (note_user_input l s, None)"

fun login_run :: "auto_login \<Rightarrow> login_event list \<Rightarrow> auto_login \<times> string list" where
  "login_run l [] = (l, [])"
| "login_run l (e # es) =
     (case login_step l e of (l', line) \<Rightarrow>
        (case login_run l' es of (l'', ls) \<Rightarrow>
           (l'', (case line of None \<Rightarrow> ls | Some x \<Rightarrow> x # ls))))"

section \<open>Lemmas\<close>

definition login_line :: "string option \<Rightarrow> string list" where
  "login_line x = (case x of None \<Rightarrow> [] | Some s \<Rightarrow> [s @ [CR]])"

definition pending :: "auto_login \<Rightarrow> string list" where
  \<comment> \<open>the lines the watcher may still type, in order\<close>
  "pending l = login_line (username l) @ login_line (password l)"

lemma watch_simps [simp]:
  "username (watch l s) = username l" "password (watch l s) = password l"
  "has_credentials (watch l s) = has_credentials l" "logged_in (watch l s) = logged_in l"
  by (simp_all add: watch_def)

lemma observe_pending:
  "observe l out = (l', line) \<Longrightarrow>
   subseq ((case line of None \<Rightarrow> [] | Some x \<Rightarrow> [x]) @ pending l') (pending l)"
  by (auto simp: observe_def Let_def pending_def login_line_def split: if_splits option.splits)

lemma login_step_pending:
  "login_step l e = (l', line) \<Longrightarrow>
   subseq ((case line of None \<Rightarrow> [] | Some x \<Rightarrow> [x]) @ pending l') (pending l)"
proof (cases e)
  case (Typed s)
  assume "login_step l e = (l', line)"
  with Typed show ?thesis by (auto simp: note_user_input_def pending_def)
qed (simp add: observe_pending)

lemma login_run_pending: "subseq (snd (login_run l es)) (pending l)"
proof (induction es arbitrary: l)
  case (Cons e es)
  obtain l' line where step: "login_step l e = (l', line)" by fastforce
  have "subseq (snd (login_run l (e # es)))
      ((case line of None \<Rightarrow> [] | Some x \<Rightarrow> [x]) @ pending l')"
    using Cons.IH [of l'] step by (auto split: prod.splits option.splits)
  then show ?case using login_step_pending [OF step] by (rule subseq_order.order_trans)
qed simp

lemma observe_ready: "ready_for_startup l \<Longrightarrow> observe l out = (l, None)"
  by (simp add: observe_def)

lemma length_cut_tail: "length (cut_tail s) \<le> AUTO_LOGIN_TAIL_LIMIT"
  using length_dropWhile_le [of is_continuation "drop (length s - AUTO_LOGIN_TAIL_LIMIT) s"]
  by (auto simp: cut_tail_def)

lemma observe_tail_bound:
  assumes "length (tail l) \<le> AUTO_LOGIN_TAIL_LIMIT"
  shows "length (tail (fst (observe l out))) \<le> AUTO_LOGIN_TAIL_LIMIT"
proof -
  have "length (tail (watch l out)) \<le> AUTO_LOGIN_TAIL_LIMIT"
    by (simp add: watch_def length_cut_tail)
  with assms show ?thesis
    by (auto simp: observe_def Let_def split: option.splits)
qed

lemma observed_mono: "observed l \<le> usize_max \<Longrightarrow> observed l \<le> observed (fst (observe l out))"
  by (auto simp: observe_def Let_def watch_def saturating_add_def split: option.splits)

lemma limit_below_max: "AUTO_LOGIN_OBSERVATION_LIMIT \<le> usize_max"
  by (simp add: AUTO_LOGIN_OBSERVATION_LIMIT_def usize_max_def)

lemma ready_stays: "ready_for_startup l \<Longrightarrow> ready_for_startup (fst (login_step l e))"
  by (cases e) (auto simp: observe_ready note_user_input_def ready_for_startup_def)

lemma login_run_ready_stays: "ready_for_startup l \<Longrightarrow> ready_for_startup (fst (login_run l es))"
proof (induction es arbitrary: l)
  case (Cons e es)
  obtain l' line where step: "login_step l e = (l', line)" by fastforce
  with Cons.prems ready_stays [of l e] have "ready_for_startup l'" by simp
  with Cons.IH [of l'] step show ?case by (cases "login_run l' es") simp
qed simp

lemma login_run_ready_silent: "ready_for_startup l \<Longrightarrow> snd (login_run l es) = []"
proof (induction es arbitrary: l)
  case (Cons e es)
  have "snd (login_step l e) = None"
    using Cons.prems by (cases e) (simp_all add: observe_ready)
  then show ?case
    using Cons.IH [OF ready_stays [OF Cons.prems], of e] by (auto split: prod.splits)
qed simp

section \<open>Properties\<close>

text \<open>C22: whatever the server prints and the user types, the watcher types the saved user name
  (trimmed) and the saved password at most once each, and never the user name after the
  password.\<close>

theorem auto_login_types_each_secret_once:
  "subseq (snd (login_run (login_new user pass) events)) [trim user @ [CR], pass @ [CR]]"
proof -
  have "subseq (pending (login_new user pass)) [trim user @ [CR], pass @ [CR]]"
    by (simp add: pending_def login_line_def login_new_def Let_def)
  with login_run_pending show ?thesis by (rule subseq_order.order_trans)
qed

text \<open>once the login phase is over it stays over, whatever follows, and nothing more is
  typed into the terminal.\<close>

theorem auto_login_over_is_final:
  assumes "ready_for_startup l"
  shows "ready_for_startup (fst (login_run l events)) \<and> snd (login_run l events) = []"
  using assms by (simp add: login_run_ready_stays login_run_ready_silent)

theorem auto_login_over_is_final_witness:
  "ready_for_startup (fst (login_run (login_new [] []) [Output ''login: '', Typed ''root'']))
   \<and> snd (login_run (login_new [] []) [Output ''login: '', Typed ''root'']) = []"
proof -
  have "ready_for_startup (login_new [] [])"
    by (simp add: ready_for_startup_def login_new_def trim_def trim_start.simps trim_end.simps)
  then show ?thesis by (rule auto_login_over_is_final)
qed

end
