(* ===== verification/Sse.thy ===== *)
theory Sse
  imports Utf8 Stream_Decoder
begin

text \<open>
  The server-sent events decoder of \<^verbatim>\<open>crates/miaominal-agent/src/model/sse.rs\<close> that reads the
  model provider's stream: \<^verbatim>\<open>SseDecoder\<close> with its byte buffer and its \<open>scanned\<close> mark, the line
  loop of \<^verbatim>\<open>push\<close>, \<^verbatim>\<open>finish\<close>, \<^verbatim>\<open>process_line\<close> and \<^verbatim>\<open>dispatch\<close>.

  \<open>push_spec\<close> is the specification: split what is buffered at the line feeds and process the
  complete lines. The index loop refines it, from which the independence of network chunks
  and the round trip of an encoded event follow.
\<close>

record sse_event =
  event_name :: "string option"
  event_data :: string

record sse_decoder =
  buffer :: string
  scanned :: nat
  pending_event :: "string option"
  pending_data :: string
  has_data :: bool

definition sse_new :: sse_decoder where
  "sse_new = \<lparr>buffer = [], scanned = 0, pending_event = None, pending_data = [], has_data = False\<rparr>"

definition dispatch :: "sse_decoder \<Rightarrow> sse_decoder \<times> sse_event option" where
  "dispatch d =
     (let ev = pending_event d; d = d\<lparr>pending_event := None\<rparr>
      in if \<not> has_data d then (d, None)
         else (d\<lparr>has_data := False, pending_data := []\<rparr>,
               Some \<lparr>event_name = ev, event_data = pending_data d\<rparr>))"

definition field_value :: "string \<Rightarrow> string \<times> string" where
  "field_value line =
     (case split_once (CHR '':'') line of
        Some (field, val) \<Rightarrow>
          (field, case strip_prefix '' '' val of None \<Rightarrow> val | Some v \<Rightarrow> v)
      | None \<Rightarrow> (line, []))"

definition process_line :: "sse_decoder \<Rightarrow> string \<Rightarrow> sse_decoder \<times> sse_event option" where
  "process_line d line =
     (if line = [] then dispatch d
      else if starts_with line '':'' then (d, None)
      else
        case field_value line of (field, val) \<Rightarrow>
          if field = ''data'' then
            (d\<lparr>pending_data := pending_data d @ (if has_data d then [NL] else []) @ val,
               has_data := True\<rparr>, None)
          else if field = ''event'' then (d\<lparr>pending_event := Some val\<rparr>, None)
          else (d, None))"

definition emitted :: "sse_event option \<Rightarrow> sse_event list" where
  "emitted e = (case e of None \<Rightarrow> [] | Some x \<Rightarrow> [x])"

lemma buffer_process_line [simp]: "buffer (fst (process_line d line)) = buffer d"
  by (simp add: process_line_def dispatch_def Let_def split: prod.split)

lemma scanned_process_line [simp]: "scanned (fst (process_line d line)) = scanned d"
  by (simp add: process_line_def dispatch_def Let_def split: prod.split)

definition line_end :: "string \<Rightarrow> nat \<Rightarrow> nat \<Rightarrow> nat" where
  "line_end buf start stop = (if start < stop \<and> buf ! (stop - 1) = CR then stop - 1 else stop)"

function push_loop ::
  "sse_decoder \<Rightarrow> nat \<Rightarrow> nat \<Rightarrow> sse_event list \<Rightarrow> sse_decoder \<times> nat \<times> sse_event list" where
  \<comment> \<open>\<open>start\<close> is the first byte of the line, \<open>search_from\<close> where to look for its end\<close>
  "push_loop d start search_from events =
     (case position (\<lambda>b. b = NL) (drop search_from (buffer d)) of
        None \<Rightarrow> (d, start, events)
      | Some offset \<Rightarrow>
          let stop = search_from + offset;
              line = from_utf8_lossy
                       (take (line_end (buffer d) start stop - start) (drop start (buffer d)));
              step = process_line d line
          in push_loop (fst step) (stop + 1) (stop + 1) (events @ emitted (snd step)))"
  by pat_completeness auto
termination
  by (relation "measure (\<lambda>(d, start, search_from, events). length (buffer d) - search_from)")
     (auto simp del: position_None dest: position_less)

declare push_loop.simps [simp del]

definition push :: "sse_decoder \<Rightarrow> string \<Rightarrow> sse_decoder \<times> sse_event list" where
  "push d bytes =
     (let d = d\<lparr>buffer := buffer d @ bytes\<rparr>
      in case push_loop d 0 (scanned d) [] of (d', start, events) \<Rightarrow>
           let rest = drop start (buffer d')
           in (d'\<lparr>buffer := rest, scanned := length rest\<rparr>, events))"

definition finish :: "sse_decoder \<Rightarrow> sse_decoder \<times> sse_event list" where
  "finish d =
     (let (d1, first) =
        (if buffer d \<noteq> [] then
           (case process_line (d\<lparr>buffer := []\<rparr>) (from_utf8_lossy (strip_cr (buffer d))) of
              (d', e) \<Rightarrow> (d', emitted e))
         else (d, []));
        (d2, e) = dispatch (d1\<lparr>scanned := 0\<rparr>)
      in (d2, first @ emitted e))"

section \<open>Specification by lines\<close>

fun process_lines :: "sse_decoder \<Rightarrow> string list \<Rightarrow> sse_decoder \<times> sse_event list" where
  "process_lines d [] = (d, [])"
| "process_lines d (l # ls) =
     (case process_line d (from_utf8_lossy (strip_cr l)) of (d', e) \<Rightarrow>
        (case process_lines d' ls of (d'', es) \<Rightarrow> (d'', emitted e @ es)))"

definition push_spec :: "sse_decoder \<Rightarrow> string \<Rightarrow> sse_decoder \<times> sse_event list" where
  "push_spec d bytes =
     (let ps = split_on NL (buffer d @ bytes)
      in case process_lines d (butlast ps) of (d', events) \<Rightarrow>
           (d'\<lparr>buffer := last ps, scanned := length (last ps)\<rparr>, events))"

definition sse_ok :: "sse_decoder \<Rightarrow> bool" where
  \<comment> \<open>everything buffered has been scanned and holds no line feed\<close>
  "sse_ok d \<longleftrightarrow> scanned d = length (buffer d) \<and> NL \<notin> set (buffer d)"

section \<open>Lemmas\<close>

lemma buffer_process_lines [simp]: "buffer (fst (process_lines d ls)) = buffer d"
proof (induction ls arbitrary: d)
  case (Cons l ls)
  obtain d' e where p: "process_line d (from_utf8_lossy (strip_cr l)) = (d', e)" by fastforce
  then have "buffer d' = buffer d"
    using buffer_process_line [of d "from_utf8_lossy (strip_cr l)"] by simp
  with p Cons.IH [of d'] show ?case by (cases "process_lines d' ls") simp
qed simp

lemma process_lines_append:
  "process_lines d (xs @ ys) =
     (fst (process_lines (fst (process_lines d xs)) ys),
      snd (process_lines d xs) @ snd (process_lines (fst (process_lines d xs)) ys))"
  by (induction xs arbitrary: d) (simp_all split: prod.split)

lemma dispatch_buffer: "dispatch (d\<lparr>buffer := b, scanned := n\<rparr>) =
  (case dispatch d of (d', e) \<Rightarrow> (d'\<lparr>buffer := b, scanned := n\<rparr>, e))"
  by (simp add: dispatch_def Let_def)

lemma process_line_buffer: "process_line (d\<lparr>buffer := b, scanned := n\<rparr>) l =
  (case process_line d l of (d', e) \<Rightarrow> (d'\<lparr>buffer := b, scanned := n\<rparr>, e))"
  by (simp add: process_line_def dispatch_buffer split: prod.split)

lemma process_lines_buffer: "process_lines (d\<lparr>buffer := b, scanned := n\<rparr>) ls =
  (case process_lines d ls of (d', es) \<Rightarrow> (d'\<lparr>buffer := b, scanned := n\<rparr>, es))"
  by (induction ls arbitrary: d) (simp_all add: process_line_buffer split: prod.split)

lemma line_end_strip_cr:
  "take (line_end (pre @ l @ suf) (length pre) (length pre + length l) - length pre)
     (drop (length pre) (pre @ l @ suf)) = strip_cr l"
proof (cases l rule: rev_cases)
  case (snoc l' c)
  have "(pre @ l @ suf) ! (length pre + length l - 1) = c"
    unfolding snoc by (simp add: nth_append)
  with snoc show ?thesis
    by (auto simp: line_end_def strip_cr_def)
qed (simp add: line_end_def strip_cr_def)

lemma push_loop_lines:
  assumes "buffer d = pre @ mid @ suf" and "NL \<notin> set mid"
  shows "\<exists>stop. push_loop d (length pre) (length pre + length mid) events =
      (fst (process_lines d (butlast (split_on NL (mid @ suf)))), stop,
       events @ snd (process_lines d (butlast (split_on NL (mid @ suf))))) \<and>
    drop stop (buffer d) = last (split_on NL (mid @ suf))"
  using assms
proof (induction "length suf" arbitrary: d pre mid suf events rule: less_induct)
  case less
  have from_here: "drop (length pre + length mid) (buffer d) = suf"
    using less.prems(1) by simp
  show ?case
  proof (cases "position (\<lambda>b. b = NL) suf")
    case None
    then have "NL \<notin> set (mid @ suf)" using less.prems(2) by auto
    with None from_here less.prems(1) show ?thesis
      by (subst push_loop.simps) (simp add: split_on_no_sep del: position_None)
  next
    case (Some offset)
    then obtain a x b where "suf = a @ x # b" "length a = offset" "x = NL" "\<forall>y \<in> set a. y \<noteq> NL"
      by (rule position_SomeE)
    then have suf: "suf = a @ NL # b" and off: "offset = length a" and a: "NL \<notin> set a" by auto
    let ?l = "mid @ a"
    have no_nl: "NL \<notin> set ?l" using less.prems(2) a by simp
    have buf: "buffer d = pre @ ?l @ NL # b" using less.prems(1) suf by simp
    have parts: "split_on NL (mid @ suf) = ?l # split_on NL b"
      using split_on_append_sep [OF no_nl, of b] suf by simp
    let ?stop = "length pre + length ?l"
    let ?step = "process_line d (from_utf8_lossy (strip_cr ?l))"
    have line: "take (line_end (buffer d) (length pre) ?stop - length pre)
        (drop (length pre) (buffer d)) = strip_cr ?l"
      unfolding buf by (rule line_end_strip_cr)
    have step: "push_loop d (length pre) (length pre + length mid) events =
        push_loop (fst ?step) (?stop + 1) (?stop + 1) (events @ emitted (snd ?step))"
      using Some from_here off line
      by (subst push_loop.simps) (simp add: Let_def add.assoc)
    have "buffer (fst ?step) = (pre @ ?l @ [NL]) @ [] @ b" using buf by simp
    from less.hyps [OF _ this, of "events @ emitted (snd ?step)"] suf obtain e where
      "push_loop (fst ?step) (?stop + 1) (?stop + 1) (events @ emitted (snd ?step)) =
        (fst (process_lines (fst ?step) (butlast (split_on NL b))), e,
         (events @ emitted (snd ?step)) @ snd (process_lines (fst ?step) (butlast (split_on NL b))))"
      "drop e (buffer (fst ?step)) = last (split_on NL b)"
      by (auto simp: add.assoc)
    with step parts show ?thesis by (auto split: prod.split)
  qed
qed

lemma push_refines_spec:
  assumes "sse_ok d"
  shows "push d bytes = push_spec d bytes"
proof -
  let ?d = "d\<lparr>buffer := buffer d @ bytes, scanned := scanned d\<rparr>"
  let ?ps = "split_on NL (buffer d @ bytes)"
  have "buffer ?d = [] @ buffer d @ bytes" "NL \<notin> set (buffer d)"
    using assms by (simp_all add: sse_ok_def)
  from push_loop_lines [OF this, of "[]"] assms obtain stop where
    loop: "push_loop ?d 0 (scanned d) [] =
      (fst (process_lines ?d (butlast ?ps)), stop, snd (process_lines ?d (butlast ?ps)))"
    and rest: "drop stop (buffer d @ bytes) = last ?ps"
    by (auto simp: sse_ok_def)
  have "buffer (fst (process_lines ?d (butlast ?ps))) = buffer d @ bytes" by simp
  moreover have "length (buffer d @ bytes) - stop = length (last ?ps)"
    using arg_cong [OF rest, of length] by simp
  ultimately have "push d bytes =
      ((fst (process_lines ?d (butlast ?ps)))\<lparr>buffer := last ?ps, scanned := length (last ?ps)\<rparr>,
       snd (process_lines ?d (butlast ?ps)))"
    using loop rest by (simp add: push_def Let_def)
  then show ?thesis
    unfolding process_lines_buffer push_spec_def Let_def by (simp split: prod.split)
qed

section \<open>Reads of any size\<close>

lemma push_spec_ok: "sse_ok (fst (push_spec d bytes))"
  by (simp add: push_spec_def sse_ok_def Let_def last_split_on split: prod.split)

lemma push_spec_Nil: "sse_ok d \<Longrightarrow> push_spec d [] = (d, [])"
  by (simp add: push_spec_def sse_ok_def split_on_no_sep)

lemma push_spec_append:
  "push_spec d (xs @ ys) =
     (fst (push_spec (fst (push_spec d xs)) ys),
      snd (push_spec d xs) @ snd (push_spec (fst (push_spec d xs)) ys))"
proof -
  let ?ps = "split_on NL (buffer d @ xs)"
  let ?qs = "split_on NL (last ?ps @ ys)"
  have split: "split_on NL (buffer d @ xs @ ys) = butlast ?ps @ ?qs"
    using split_on_append [of NL "buffer d @ xs" ys] by simp
  then have parts: "butlast (split_on NL (buffer d @ xs @ ys)) = butlast ?ps @ butlast ?qs"
    "last (split_on NL (buffer d @ xs @ ys)) = last ?qs"
    by (simp_all add: butlast_append)
  obtain d1 e1 where one: "process_lines d (butlast ?ps) = (d1, e1)" by fastforce
  obtain d2 e2 where two: "process_lines d1 (butlast ?qs) = (d2, e2)" by fastforce
  have "process_lines d (butlast ?ps @ butlast ?qs) = (d2, e1 @ e2)"
    using one two by (simp add: process_lines_append)
  then show ?thesis
    unfolding push_spec_def Let_def parts one
    by (simp add: one two process_lines_buffer)
qed

interpretation sse: stream_decoder push "(@)" "[]" sse_ok
proof unfold_locales
  fix d :: sse_decoder and xs ys
  assume ok: "sse_ok d"
  show "push d [] = (d, [])" using ok by (simp add: push_refines_spec push_spec_Nil)
  show after: "sse_ok (fst (push d xs))" for xs using ok by (simp add: push_refines_spec push_spec_ok)
  show "push d (xs @ ys) = (fst (push (fst (push d xs)) ys),
      snd (push d xs) @ snd (push (fst (push d xs)) ys))"
    using push_spec_append [of d xs ys] after [of xs] ok by (simp add: push_refines_spec)
qed

lemma sse_new_ok [simp]: "sse_ok sse_new"
  by (simp add: sse_ok_def sse_new_def)

section \<open>Encoding events\<close>

definition data_lines :: "string \<Rightarrow> string list" where
  "data_lines s = map (\<lambda>l. ''data: '' @ l) (split_on NL s)"

definition event_lines :: "sse_event \<Rightarrow> string list" where
  "event_lines e =
     (case event_name e of None \<Rightarrow> [] | Some n \<Rightarrow> [''event: '' @ n])
     @ data_lines (event_data e) @ [[]]"

definition encode_events :: "sse_event list \<Rightarrow> string" where
  "encode_events es = concat (map (\<lambda>l. l @ [NL]) (concat (map event_lines es)))"

definition plain_line :: "string \<Rightarrow> bool" where
  \<comment> \<open>text that can stand on one line of the stream\<close>
  "plain_line l \<longleftrightarrow> NL \<notin> set l \<and> strip_cr l = l \<and> valid_utf8 l"

definition encodable :: "sse_event \<Rightarrow> bool" where
  "encodable e \<longleftrightarrow>
     (case event_name e of None \<Rightarrow> True | Some n \<Rightarrow> plain_line n) \<and>
     list_all plain_line (split_on NL (event_data e))"

lemma byte_val_CHR [simp]: "byte_val (Char b0 b1 b2 b3 b4 b5 b6 False) < 128"
proof -
  have "byte_val (Char b0 b1 b2 b3 b4 b5 b6 False) = horner_sum of_bool 2 [b0, b1, b2, b3, b4, b5, b6]"
    by (simp add: byte_val_def of_char_def)
  also have "\<dots> < 2 ^ 7"
    using horner_sum_of_bool_2_less [of "[b0, b1, b2, b3, b4, b5, b6]"] by simp
  finally show ?thesis by simp
qed

lemma strip_cr_prefixed: "strip_cr l = l \<Longrightarrow> p \<noteq> [] \<Longrightarrow> last p \<noteq> CR \<Longrightarrow> strip_cr (p @ l) = p @ l"
  by (cases l) (simp_all add: strip_cr_same)

lemma process_data_line:
  assumes "plain_line l"
  shows "process_line d (from_utf8_lossy (strip_cr (''data: '' @ l))) =
    (d\<lparr>pending_data := pending_data d @ (if has_data d then [NL] else []) @ l, has_data := True\<rparr>, None)"
proof -
  have "from_utf8_lossy (strip_cr (''data: '' @ l)) = ''data: '' @ l"
    using assms strip_cr_prefixed [of l "''data: ''"] from_utf8_lossy_valid [of "''data: '' @ l"]
    by (simp add: plain_line_def)
  then show ?thesis
    using strip_prefix_append [of "'' ''" l] by (simp add: process_line_def field_value_def)
qed

lemma process_event_line:
  assumes "plain_line n"
  shows "process_line d (from_utf8_lossy (strip_cr (''event: '' @ n))) =
    (d\<lparr>pending_event := Some n\<rparr>, None)"
proof -
  have "from_utf8_lossy (strip_cr (''event: '' @ n)) = ''event: '' @ n"
    using assms strip_cr_prefixed [of n "''event: ''"] from_utf8_lossy_valid [of "''event: '' @ n"]
    by (simp add: plain_line_def)
  then show ?thesis
    using strip_prefix_append [of "'' ''" n] by (simp add: process_line_def field_value_def)
qed

lemma process_data_lines:
  "list_all plain_line ls \<Longrightarrow> ls \<noteq> [] \<Longrightarrow>
   process_lines d (map (\<lambda>l. ''data: '' @ l) ls) =
     (d\<lparr>pending_data := pending_data d @ (if has_data d then [NL] else []) @ join [NL] ls,
        has_data := True\<rparr>, [])"
proof (induction ls arbitrary: d)
  case (Cons l ls)
  then show ?case
    by (cases "ls = []") (auto simp: process_data_line [simplified] emitted_def join_Cons)
qed simp

lemma process_event_lines:
  assumes "encodable e"
  shows "process_lines sse_new (event_lines e) = (sse_new, [e])"
proof -
  have data: "list_all plain_line (split_on NL (event_data e))"
    using assms by (simp add: encodable_def)
  let ?d = "sse_new\<lparr>pending_event := event_name e\<rparr>"
  have head: "process_lines sse_new (case event_name e of None \<Rightarrow> [] | Some n \<Rightarrow> [''event: '' @ n]) = (?d, [])"
    using assms process_event_line
    by (cases "event_name e") (simp_all add: encodable_def sse_new_def emitted_def)
  have body: "process_lines ?d (data_lines (event_data e)) =
      (?d\<lparr>pending_data := event_data e, has_data := True\<rparr>, [])"
    using process_data_lines [OF data, of ?d] by (simp add: sse_new_def data_lines_def)
  have tail: "process_lines (?d\<lparr>pending_data := event_data e, has_data := True\<rparr>) [[]] = (sse_new, [e])"
    by (simp add: process_line_def dispatch_def sse_new_def emitted_def)
  show ?thesis
    unfolding event_lines_def process_lines_append head using body tail by simp
qed

lemma process_encoded_events:
  "list_all encodable es \<Longrightarrow> process_lines sse_new (concat (map event_lines es)) = (sse_new, es)"
  by (induction es) (simp_all add: process_lines_append process_event_lines)

lemma event_lines_no_nl: "encodable e \<Longrightarrow> l \<in> set (event_lines e) \<Longrightarrow> NL \<notin> set l"
  by (auto simp: event_lines_def data_lines_def encodable_def plain_line_def list_all_iff split: option.splits)

section \<open>Properties\<close>

text \<open>C23: the index loop that remembers how far it has scanned computes exactly the line-by-line
  specification: split the buffered bytes and the new ones at the line feeds, process every
  complete line, keep the rest.\<close>

theorem sse_push_refines_line_spec:
  assumes "scanned d = length (buffer d)" and "NL \<notin> set (buffer d)"
  shows "push d bytes = push_spec d bytes"
  using assms by (simp add: push_refines_spec sse_ok_def)

theorem sse_push_refines_line_spec_witness:
  "push sse_new (''data: a'' @ [NL, NL] @ ''da'') = push_spec sse_new (''data: a'' @ [NL, NL] @ ''da'')"
  by (rule sse_push_refines_line_spec) (simp_all add: sse_new_def)

text \<open>C24: the events do not depend on how the network cuts the response into reads, not even
  inside a UTF-8 character or between a carriage return and its line feed.\<close>

theorem sse_chunking:
  "feed_all push (@) [] sse_new chunks = push sse_new (concat chunks)"
  by (rule sse.feed_all_concat) simp

text \<open>C25: every sequence of events, written out as a server does, is read back as it was, and the
  decoder is ready for the next one.\<close>

theorem sse_events_roundtrip:
  assumes "list_all encodable es"
  shows "push sse_new (encode_events es) = (sse_new, es)"
proof -
  have "\<forall>l \<in> set (concat (map event_lines es)). NL \<notin> set l"
    using assms event_lines_no_nl by (fastforce simp: list_all_iff)
  from split_on_terminated [OF this]
  have parts: "split_on NL (encode_events es) = concat (map event_lines es) @ [[]]"
    by (simp add: encode_events_def)
  have "buffer sse_new = []" by (simp add: sse_new_def)
  then have "push_spec sse_new (encode_events es) = (sse_new\<lparr>buffer := [], scanned := 0\<rparr>, es)"
    using process_encoded_events [OF assms] parts by (simp add: push_spec_def)
  then show ?thesis by (simp add: push_refines_spec) (simp add: sse_new_def)
qed

theorem sse_events_roundtrip_witness:
  "let es = [\<lparr>event_name = Some ''delta'', event_data = ''a'' @ [NL] @ ''b''\<rparr>,
             \<lparr>event_name = None, event_data = []\<rparr>]
   in push sse_new (encode_events es) = (sse_new, es)"
  unfolding Let_def
  by (rule sse_events_roundtrip) (simp add: encodable_def plain_line_def strip_cr_def)

end
