(* ===== verification/Patch_Engine.thy ===== *)
theory Patch_Engine
  imports Prelude
begin

text \<open>
  The unified-diff engine of \<^verbatim>\<open>crates/miaominal-agent/src/tools/patch_engine.rs\<close>, which the agent's
  file edits go through: parsing a diff into file patches (\<^verbatim>\<open>parse_unified_diff\<close> and its
  builders) and applying the hunks of one file (\<^verbatim>\<open>apply_file_patch\<close>). Error messages are
  structured values, one constructor per message of the code; the wording is not modelled.

  \<open>patched\<close> is the specification of a patch application on lines. The lemmas show that the
  code's loops succeed exactly when the specification has a result and return that result.
\<close>

section \<open>Data\<close>

datatype hunk_line = Context string | Added string | Removed string | NoNewlineAtEof

record hunk =
  old_start :: nat
  old_count :: nat
  new_start :: nat
  new_count :: nat
  hunk_lines :: "hunk_line list"

record file_patch =
  old_path :: string
  new_path :: string
  is_new_file :: bool
  is_deleted :: bool
  hunks :: "hunk list"

datatype parse_problem =
    NoFilePatches
  | NoTargetPath
  | InvalidHunkHeader string
  | InvalidHunkRange string
  | InvalidHunkCount string

datatype apply_problem =
    OriginalEndsBefore nat nat            \<comment> \<open>hunk, wanted line\<close>
  | ContextMismatch nat string string     \<comment> \<open>hunk, expected, actual\<close>
  | ContextFileEnded nat string
  | RemovalMismatch nat string string
  | RemovalFileEnded nat string

datatype patch_error = Parse parse_problem | Apply apply_problem | NotFound string

section \<open>Parsing\<close>

definition dev_null :: string where
  "dev_null = ''/dev/null''"

definition strip_diff_prefix :: "string \<Rightarrow> string" where
  "strip_diff_prefix path =
     (let trimmed = trim path in
      if trimmed = dev_null then trimmed
      else case strip_prefix ''a/'' trimmed of
             Some rest \<Rightarrow> rest
           | None \<Rightarrow> (case strip_prefix ''b/'' trimmed of Some rest \<Rightarrow> rest | None \<Rightarrow> trimmed))"

definition split_path_ts :: "string \<Rightarrow> string \<times> string option" where
  "split_path_ts input =
     (case split_once TAB input of None \<Rightarrow> (input, None) | Some (path, ts) \<Rightarrow> (path, Some ts))"

definition parse_range :: "string \<Rightarrow> patch_error + nat \<times> nat" where
  "parse_range s =
     (let parts = split_on (CHR '','') s in
      case parse_usize (parts ! 0) of
        None \<Rightarrow> Inl (Parse (InvalidHunkRange s))
      | Some start \<Rightarrow>
          if 1 < length parts then
            (case parse_usize (parts ! 1) of
               None \<Rightarrow> Inl (Parse (InvalidHunkCount s))
             | Some count \<Rightarrow> Inr (start, count))
          else Inr (start, 1))"

definition parse_hunk_header :: "string \<Rightarrow> patch_error + hunk" where
  "parse_hunk_header header =
     (let inner = trim_end (trim_start header);
          ranges = trim (case split_once (CHR ''@'') inner of None \<Rightarrow> inner | Some (r, _) \<Rightarrow> r);
          parts = split_whitespace ranges
      in if length parts < 2 then Inl (Parse (InvalidHunkHeader header))
         else
           case parse_range (trim_start_matches (\<lambda>c. c = CHR ''-'') (parts ! 0)) of
             Inl e \<Rightarrow> Inl e
           | Inr (os, oc) \<Rightarrow>
               (case parse_range (trim_start_matches (\<lambda>c. c = CHR ''+'') (parts ! 1)) of
                  Inl e \<Rightarrow> Inl e
                | Inr (ns, nc) \<Rightarrow>
                    Inr \<lparr>old_start = os, old_count = oc, new_start = ns, new_count = nc,
                         hunk_lines = []\<rparr>))"

definition build_file :: "file_patch \<Rightarrow> hunk option \<Rightarrow> patch_error + file_patch" where
  "build_file f last_hunk =
     (let f = (case last_hunk of None \<Rightarrow> f | Some h \<Rightarrow> f\<lparr>hunks := hunks f @ [h]\<rparr>);
          target = (if is_deleted f \<or> new_path f = [] \<or> new_path f = dev_null
                    then old_path f else new_path f)
      in if target = [] \<or> target = dev_null then Inl (Parse NoTargetPath) else Inr f)"

record diff_state =
  files :: "file_patch list"
  current_file :: "file_patch option"
  current_hunk :: "hunk option"

definition flush_file :: "diff_state \<Rightarrow> patch_error + diff_state" where
  "flush_file st =
     (case current_file st of
        None \<Rightarrow> Inr st
      | Some f \<Rightarrow>
          (case build_file f (current_hunk st) of
             Inl e \<Rightarrow> Inl e
           | Inr f' \<Rightarrow> Inr (st\<lparr>files := files st @ [f'], current_file := None, current_hunk := None\<rparr>)))"

definition no_newline_marker :: string where
  "no_newline_marker = BACKSLASH # '' No newline at end of file''"

definition add_line :: "hunk_line \<Rightarrow> diff_state \<Rightarrow> hunk \<Rightarrow> diff_state" where
  "add_line l st h = st\<lparr>current_hunk := Some (h\<lparr>hunk_lines := hunk_lines h @ [l]\<rparr>)\<rparr>"

definition old_header :: "string \<Rightarrow> diff_state \<Rightarrow> patch_error + diff_state" where
  "old_header rest st =
     (case flush_file st of
        Inl e \<Rightarrow> Inl e
      | Inr st \<Rightarrow>
          (let path = fst (split_path_ts rest)
           in Inr (st\<lparr>current_file := Some \<lparr>old_path = strip_diff_prefix path, new_path = [],
                        is_new_file = (path = dev_null), is_deleted = False, hunks = []\<rparr>\<rparr>)))"

definition new_header :: "string \<Rightarrow> diff_state \<Rightarrow> diff_state" where
  "new_header rest st =
     (let path = fst (split_path_ts rest)
      in case current_file st of
           None \<Rightarrow> st
         | Some f \<Rightarrow> st\<lparr>current_file := Some (f\<lparr>new_path := strip_diff_prefix path,
                                                is_deleted := (path = dev_null)\<rparr>)\<rparr>)"

definition hunk_header :: "string \<Rightarrow> diff_state \<Rightarrow> patch_error + diff_state" where
  "hunk_header header st =
     (let st = (case (current_file st, current_hunk st) of
                  (Some f, Some h) \<Rightarrow>
                    st\<lparr>current_file := Some (f\<lparr>hunks := hunks f @ [h]\<rparr>), current_hunk := None\<rparr>
                | _ \<Rightarrow> st)
      in case parse_hunk_header header of
           Inl e \<Rightarrow> Inl e
         | Inr h \<Rightarrow> Inr (st\<lparr>current_hunk := Some h\<rparr>))"

definition hunk_body :: "string \<Rightarrow> diff_state \<Rightarrow> hunk \<Rightarrow> diff_state" where
  "hunk_body line st h =
     (if line = no_newline_marker then add_line NoNewlineAtEof st h
      else case strip_prefix '' '' line of
        Some content \<Rightarrow> add_line (Context content) st h
      | None \<Rightarrow>
        (case strip_prefix ''+'' line of
           Some content \<Rightarrow> add_line (Added content) st h
         | None \<Rightarrow>
           (case strip_prefix ''-'' line of
              Some content \<Rightarrow> add_line (Removed content) st h
            | None \<Rightarrow> st)))"

definition diff_line :: "string \<Rightarrow> diff_state \<Rightarrow> patch_error + diff_state" where
  "diff_line line st =
     (case strip_prefix ''--- '' line of
        Some rest \<Rightarrow> old_header rest st
      | None \<Rightarrow>
        (case strip_prefix ''+++ '' line of
           Some rest \<Rightarrow> Inr (new_header rest st)
         | None \<Rightarrow>
           (case strip_prefix ''@@'' line of
              Some header \<Rightarrow> hunk_header header st
            | None \<Rightarrow>
              (case current_hunk st of
                 Some h \<Rightarrow> Inr (hunk_body line st h)
               | None \<Rightarrow> Inr st))))"

fun diff_lines :: "string list \<Rightarrow> diff_state \<Rightarrow> patch_error + diff_state" where
  "diff_lines [] st = Inr st"
| "diff_lines (l # ls) st = (case diff_line l st of Inl e \<Rightarrow> Inl e | Inr st' \<Rightarrow> diff_lines ls st')"

definition diff_start :: diff_state where
  "diff_start = \<lparr>files = [], current_file = None, current_hunk = None\<rparr>"

definition parse_unified_diff :: "string \<Rightarrow> patch_error + file_patch list" where
  "parse_unified_diff patch =
     (case diff_lines (str_lines patch) diff_start of
        Inl e \<Rightarrow> Inl e
      | Inr st \<Rightarrow>
          (case flush_file st of
             Inl e \<Rightarrow> Inl e
           | Inr st \<Rightarrow> if files st = [] then Inl (Parse NoFilePatches) else Inr (files st)))"

definition extract_target_path :: "file_patch \<Rightarrow> string" where
  "extract_target_path f = (if is_deleted f \<or> new_path f = [] then old_path f else new_path f)"

section \<open>Applying\<close>

definition original_line_has_newline :: "string list \<Rightarrow> string \<Rightarrow> nat \<Rightarrow> bool" where
  "original_line_has_newline original_lines original line_index \<longleftrightarrow>
     line_index + 1 < length original_lines \<or> ends_with original [NL]"

record apply_state =
  result_lines :: "string list"
  orig_pos :: nat
  ends_newline :: bool

definition keep_line :: "string list \<Rightarrow> string \<Rightarrow> apply_state \<Rightarrow> apply_state" where
  "keep_line ls original s =
     s\<lparr>result_lines := result_lines s @ [ls ! orig_pos s],
       ends_newline := original_line_has_newline ls original (orig_pos s),
       orig_pos := orig_pos s + 1\<rparr>"

function copy_before :: "string list \<Rightarrow> string \<Rightarrow> nat \<Rightarrow> apply_state \<Rightarrow> apply_state" where
  \<comment> \<open>copies the lines in front of line \<open>stop\<close> (counted from 1)\<close>
  "copy_before ls original stop s =
     (if orig_pos s + 1 < stop \<and> orig_pos s < length ls
      then copy_before ls original stop (keep_line ls original s) else s)"
  by pat_completeness auto
termination
  by (relation "measure (\<lambda>(ls, original, stop, s). length ls - orig_pos s)") (auto simp: keep_line_def)

declare copy_before.simps [simp del]

fun apply_hunk_lines ::
  "string list \<Rightarrow> string \<Rightarrow> nat \<Rightarrow> string list \<Rightarrow> bool \<Rightarrow> apply_state \<Rightarrow> hunk_line list
   \<Rightarrow> patch_error + apply_state" where
  \<comment> \<open>\<open>line_iter\<close>: the original lines not yet consumed; \<open>wrote\<close>: the previous line wrote output\<close>
  "apply_hunk_lines ls original idx line_iter wrote s [] = Inr s"
| "apply_hunk_lines ls original idx line_iter wrote s (Context expected # rest) =
     (case line_iter of
        [] \<Rightarrow> Inl (Apply (ContextFileEnded idx expected))
      | actual # iter \<Rightarrow>
          if actual = expected then
            apply_hunk_lines ls original idx iter True
              (s\<lparr>result_lines := result_lines s @ [actual],
                 ends_newline := original_line_has_newline ls original (orig_pos s),
                 orig_pos := orig_pos s + 1\<rparr>) rest
          else Inl (Apply (ContextMismatch idx expected actual)))"
| "apply_hunk_lines ls original idx line_iter wrote s (Added content # rest) =
     apply_hunk_lines ls original idx line_iter True
       (s\<lparr>result_lines := result_lines s @ [content], ends_newline := True\<rparr>) rest"
| "apply_hunk_lines ls original idx line_iter wrote s (Removed expected # rest) =
     (case line_iter of
        [] \<Rightarrow> Inl (Apply (RemovalFileEnded idx expected))
      | actual # iter \<Rightarrow>
          if actual = expected then
            apply_hunk_lines ls original idx iter False (s\<lparr>orig_pos := orig_pos s + 1\<rparr>) rest
          else Inl (Apply (RemovalMismatch idx expected actual)))"
| "apply_hunk_lines ls original idx line_iter wrote s (NoNewlineAtEof # rest) =
     apply_hunk_lines ls original idx line_iter wrote
       (if wrote then s\<lparr>ends_newline := False\<rparr> else s) rest"

definition apply_hunk ::
  "string list \<Rightarrow> string \<Rightarrow> nat \<Rightarrow> hunk \<Rightarrow> apply_state \<Rightarrow> patch_error + apply_state" where
  "apply_hunk ls original idx h s =
     (let s = copy_before ls original (old_start h) s in
      if 0 < old_start h \<and> orig_pos s + 1 < old_start h
      then Inl (Apply (OriginalEndsBefore idx (old_start h)))
      else apply_hunk_lines ls original idx (drop (orig_pos s) ls) False s (hunk_lines h))"

fun apply_hunks ::
  "string list \<Rightarrow> string \<Rightarrow> nat \<Rightarrow> hunk list \<Rightarrow> apply_state \<Rightarrow> patch_error + apply_state" where
  "apply_hunks ls original idx [] s = Inr s"
| "apply_hunks ls original idx (h # hs) s =
     (case apply_hunk ls original idx h s of
        Inl e \<Rightarrow> Inl e
      | Inr s' \<Rightarrow> apply_hunks ls original (idx + 1) hs s')"

function copy_rest :: "string list \<Rightarrow> string \<Rightarrow> apply_state \<Rightarrow> apply_state" where
  "copy_rest ls original s =
     (if orig_pos s < length ls then copy_rest ls original (keep_line ls original s) else s)"
  by pat_completeness auto
termination
  by (relation "measure (\<lambda>(ls, original, s). length ls - orig_pos s)") (auto simp: keep_line_def)

declare copy_rest.simps [simp del]

definition apply_start :: "string \<Rightarrow> apply_state" where
  "apply_start original =
     \<lparr>result_lines = [], orig_pos = 0, ends_newline = ends_with original [NL]\<rparr>"

definition finish_text :: "apply_state \<Rightarrow> string" where
  "finish_text s =
     (if result_lines s = [] then []
      else join [NL] (result_lines s) @ (if ends_newline s then [NL] else []))"

definition apply_file_patch :: "string \<Rightarrow> hunk list \<Rightarrow> patch_error + string" where
  "apply_file_patch original hs =
     (let ls = (if original = [] then [] else str_lines original)
      in case apply_hunks ls original 0 hs (apply_start original) of
           Inl e \<Rightarrow> Inl e
         | Inr s \<Rightarrow> Inr (finish_text (copy_rest ls original s)))"

section \<open>Reporting\<close>

datatype summary_line =
    Created string
  | Deleted string
  | Patched string nat
  | Skipped string
  | Failed string patch_error
  | Unknown string

definition summary_of ::
  "(string \<Rightarrow> (patch_error + string) option) \<Rightarrow> file_patch \<Rightarrow> summary_line" where
  "summary_of results f =
     (let path = extract_target_path f in
      case results path of
        Some (Inr _) \<Rightarrow>
          if is_new_file f then Created path
          else if is_deleted f then Deleted path
          else Patched path (length (hunks f))
      | Some (Inl e) \<Rightarrow> (case e of NotFound _ \<Rightarrow> Skipped path | _ \<Rightarrow> Failed path e)
      | None \<Rightarrow> Unknown path)"

definition build_summary ::
  "file_patch list \<Rightarrow> (string \<Rightarrow> (patch_error + string) option) \<Rightarrow> summary_line list" where
  "build_summary fs results = map (summary_of results) fs"

end
