(* ===== verification/Patch_Properties.thy ===== *)
theory Patch_Properties
  imports Patch_Engine "HOL-Library.Multiset"
begin

text \<open>
  The specification of a patch application on lines and the proof that \<^const>\<open>apply_file_patch\<close>
  meets it, with what follows: no line is lost or invented, a patch made for a text turns it
  into the new text, and the inputs on which the code departs from the meaning of a unified
  diff.
\<close>

section \<open>Specification\<close>

fun old_side :: "hunk_line list \<Rightarrow> string list" where
  "old_side [] = []"
| "old_side (Context l # ls) = l # old_side ls"
| "old_side (Removed l # ls) = l # old_side ls"
| "old_side (Added l # ls) = old_side ls"
| "old_side (NoNewlineAtEof # ls) = old_side ls"

fun new_side :: "hunk_line list \<Rightarrow> string list" where
  "new_side [] = []"
| "new_side (Context l # ls) = l # new_side ls"
| "new_side (Removed l # ls) = new_side ls"
| "new_side (Added l # ls) = l # new_side ls"
| "new_side (NoNewlineAtEof # ls) = new_side ls"

fun added_lines :: "hunk_line list \<Rightarrow> string list" where
  "added_lines [] = []"
| "added_lines (Added l # ls) = l # added_lines ls"
| "added_lines (_ # ls) = added_lines ls"

fun removed_lines :: "hunk_line list \<Rightarrow> string list" where
  "removed_lines [] = []"
| "removed_lines (Removed l # ls) = l # removed_lines ls"
| "removed_lines (_ # ls) = removed_lines ls"

text \<open>\<open>patched pos hs old new\<close>: the lines \<open>old\<close> start at index \<open>pos\<close> of the file; replacing in them
  the old side of every hunk, each at its start line, by its new side gives \<open>new\<close>.\<close>

inductive patched :: "nat \<Rightarrow> hunk list \<Rightarrow> string list \<Rightarrow> string list \<Rightarrow> bool" where
  no_hunks: "patched pos [] rest rest"
| one_hunk:
    "length skipped = old_start h - 1 - pos \<Longrightarrow>
     patched (pos + length skipped + length (old_side (hunk_lines h))) hs rest new \<Longrightarrow>
     patched pos (h # hs) (skipped @ old_side (hunk_lines h) @ rest)
                          (skipped @ new_side (hunk_lines h) @ new)"

inductive_cases patched_NilE [elim!]: "patched pos [] old new"
inductive_cases patched_ConsE: "patched pos (h # hs) old new"

lemma regroup:
  fixes k a b c d e f g h :: "'a multiset"
  assumes "a + b = c + d" and "e + f = g + h"
  shows "k + (a + e) + (b + f) = k + (c + g) + (d + h)"
proof -
  have "k + (a + e) + (b + f) = k + ((a + b) + (e + f))" by (simp add: ac_simps)
  also have "\<dots> = k + (c + g) + (d + h)" unfolding assms by (simp add: ac_simps)
  finally show ?thesis .
qed

lemma patched_conserves:
  "patched pos hs old new \<Longrightarrow>
   mset old + mset (concat (map (added_lines \<circ> hunk_lines) hs)) =
   mset new + mset (concat (map (removed_lines \<circ> hunk_lines) hs))"
proof (induction rule: patched.induct)
  case (one_hunk skipped h pos hs rest new)
  have "mset (old_side ls) + mset (added_lines ls) = mset (new_side ls) + mset (removed_lines ls)" for ls
    by (induction ls rule: old_side.induct) simp_all
  from regroup [OF this [of "hunk_lines h"] one_hunk.IH, of "mset skipped"] show ?case
    by (simp add: add.assoc)
qed simp

section \<open>The loops meet the specification\<close>

lemma keep_line_simps [simp]:
  "result_lines (keep_line ls o1 s) = result_lines s @ [ls ! orig_pos s]"
  "orig_pos (keep_line ls o1 s) = orig_pos s + 1"
  by (simp_all add: keep_line_def)

lemma copy_before_result:
  "orig_pos s \<le> length ls \<Longrightarrow>
   result_lines (copy_before ls o1 stop s) =
     result_lines s @ take (stop - 1 - orig_pos s) (drop (orig_pos s) ls) \<and>
   orig_pos (copy_before ls o1 stop s) = min (length ls) (orig_pos s + (stop - 1 - orig_pos s))"
proof (induction ls o1 stop s rule: copy_before.induct)
  case (1 ls o1 stop s)
  show ?case
  proof (cases "orig_pos s + 1 < stop \<and> orig_pos s < length ls")
    case True
    then have "drop (orig_pos s) ls = ls ! orig_pos s # drop (Suc (orig_pos s)) ls"
      by (simp add: Cons_nth_drop_Suc)
    moreover have "stop - 1 - orig_pos s = Suc (stop - 1 - Suc (orig_pos s))"
      using True by linarith
    ultimately show ?thesis using "1.IH" True by (subst (1 2) copy_before.simps) simp
  next
    case False
    then have "stop - 1 - orig_pos s = 0 \<or> orig_pos s = length ls" using "1.prems" by auto
    with False show ?thesis using "1.prems" by (subst (1 2) copy_before.simps) auto
  qed
qed

lemma copy_rest_result:
  "orig_pos s \<le> length ls \<Longrightarrow>
   result_lines (copy_rest ls o1 s) = result_lines s @ drop (orig_pos s) ls"
proof (induction ls o1 s rule: copy_rest.induct)
  case (1 ls o1 s)
  then show ?case
    by (cases "orig_pos s < length ls") (subst copy_rest.simps, simp add: Cons_nth_drop_Suc)+
qed

lemma apply_hunk_lines_sound:
  "apply_hunk_lines ls o1 i iter wrote s hl = Inr s' \<Longrightarrow>
   \<exists>rest. iter = old_side hl @ rest \<and> result_lines s' = result_lines s @ new_side hl \<and>
     orig_pos s' = orig_pos s + length (old_side hl)"
  by (induction ls o1 i iter wrote s hl rule: apply_hunk_lines.induct)
     (force split: list.splits if_splits)+

lemma apply_hunk_lines_complete:
  "\<exists>s'. apply_hunk_lines ls o1 i (old_side hl @ rest) wrote s hl = Inr s'"
  by (induction hl arbitrary: wrote s rule: old_side.induct) simp_all

lemma apply_hunks_sound:
  assumes "apply_hunks ls o1 i hs s = Inr s'" and "orig_pos s \<le> length ls"
  shows "\<exists>new. patched (orig_pos s) hs (drop (orig_pos s) ls) new \<and> orig_pos s' \<le> length ls \<and>
    result_lines s' @ drop (orig_pos s') ls = result_lines s @ new"
  using assms
proof (induction hs arbitrary: i s)
  case Nil
  then show ?case by (auto intro: patched.no_hunks)
next
  case (Cons h hs)
  let ?c = "copy_before ls o1 (old_start h) s"
  let ?n = "old_start h - 1 - orig_pos s"
  note copied = copy_before_result [OF Cons.prems(2), of o1 "old_start h"]
  obtain s1 where one: "apply_hunk ls o1 i h s = Inr s1"
    and rest: "apply_hunks ls o1 (i + 1) hs s1 = Inr s'"
    using Cons.prems(1) by (auto split: sum.splits)
  then have reached: "\<not> (0 < old_start h \<and> orig_pos ?c + 1 < old_start h)"
    and lines: "apply_hunk_lines ls o1 i (drop (orig_pos ?c) ls) False ?c (hunk_lines h) = Inr s1"
    by (auto simp: apply_hunk_def Let_def split: if_splits)
  have pos: "orig_pos ?c = orig_pos s + ?n" using copied reached Cons.prems(2) by auto
  then have in_range: "orig_pos s + ?n \<le> length ls" using copied by simp
  from apply_hunk_lines_sound [OF lines] obtain tail where
    tail: "drop (orig_pos ?c) ls = old_side (hunk_lines h) @ tail"
    and s1: "result_lines s1 = result_lines ?c @ new_side (hunk_lines h)"
      "orig_pos s1 = orig_pos ?c + length (old_side (hunk_lines h))"
    by blast
  have "length (drop (orig_pos ?c) ls) = length (old_side (hunk_lines h)) + length tail"
    by (simp add: tail)
  then have s1_range: "orig_pos s1 \<le> length ls" using s1(2) pos in_range by simp
  have drop_s1: "drop (orig_pos s1) ls = tail"
    using arg_cong [OF tail, of "drop (length (old_side (hunk_lines h)))"] s1(2)
    by (simp add: add.commute)
  from Cons.IH [OF rest s1_range] drop_s1 obtain new where
    new: "patched (orig_pos s1) hs tail new" "orig_pos s' \<le> length ls"
      "result_lines s' @ drop (orig_pos s') ls = result_lines s1 @ new"
    by auto
  let ?sk = "take ?n (drop (orig_pos s) ls)"
  have len: "length ?sk = ?n" using in_range by simp
  have "drop (orig_pos s) ls = ?sk @ old_side (hunk_lines h) @ tail"
    using tail pos by (metis add.commute append_take_drop_id drop_drop)
  moreover have "patched (orig_pos s) (h # hs) (?sk @ old_side (hunk_lines h) @ tail)
      (?sk @ new_side (hunk_lines h) @ new)"
    using new(1) s1(2) pos len by (intro patched.one_hunk) simp_all
  ultimately show ?case using new copied s1(1) by auto
qed

lemma apply_hunks_complete:
  assumes "patched (orig_pos s) hs (drop (orig_pos s) ls) new" and "orig_pos s \<le> length ls"
  shows "\<exists>s'. apply_hunks ls o1 i hs s = Inr s'"
  using assms
proof (induction hs arbitrary: i s new)
  case (Cons h hs)
  let ?c = "copy_before ls o1 (old_start h) s"
  note copied = copy_before_result [OF Cons.prems(2), of o1 "old_start h"]
  from Cons.prems(1) obtain skipped rest new' where
    parts: "drop (orig_pos s) ls = skipped @ old_side (hunk_lines h) @ rest"
      "length skipped = old_start h - 1 - orig_pos s"
      "patched (orig_pos s + length skipped + length (old_side (hunk_lines h))) hs rest new'"
    by (auto elim: patched_ConsE)
  have "length (drop (orig_pos s) ls) = length skipped + length (old_side (hunk_lines h)) + length rest"
    using parts(1) by simp
  then have room: "orig_pos s + length skipped + length (old_side (hunk_lines h)) \<le> length ls"
    using Cons.prems(2) by simp
  have pos: "orig_pos ?c = orig_pos s + length skipped" using copied parts(2) room by simp
  have iter: "drop (orig_pos ?c) ls = old_side (hunk_lines h) @ rest"
    using arg_cong [OF parts(1), of "drop (length skipped)"] pos by (simp add: add.commute)
  obtain s1 where s1: "apply_hunk_lines ls o1 i (drop (orig_pos ?c) ls) False ?c (hunk_lines h) = Inr s1"
    unfolding iter using apply_hunk_lines_complete by blast
  have reached: "\<not> (orig_pos ?c + 1 < old_start h)" using pos parts(2) by simp
  have pos1: "orig_pos s1 = orig_pos s + length skipped + length (old_side (hunk_lines h))"
    using apply_hunk_lines_sound [OF s1] pos by auto
  have "drop (orig_pos s1) ls = rest"
    using arg_cong [OF iter, of "drop (length (old_side (hunk_lines h)))"] pos pos1
    by (simp add: add.commute)
  then obtain s' where "apply_hunks ls o1 (i + 1) hs s1 = Inr s'"
    using Cons.IH [of s1 new' "i + 1"] parts(3) pos1 room by auto
  then show ?case using s1 reached by (auto simp: apply_hunk_def Let_def)
qed auto

lemma patched_deterministic: "patched pos hs old new \<Longrightarrow> patched pos hs old new' \<Longrightarrow> new' = new"
proof (induction arbitrary: new' rule: patched.induct)
  case (one_hunk skipped h pos hs rest new)
  from one_hunk.prems obtain sk r n where
    eq: "skipped @ old_side (hunk_lines h) @ rest = sk @ old_side (hunk_lines h) @ r"
      "new' = sk @ new_side (hunk_lines h) @ n" "length sk = old_start h - 1 - pos"
      "patched (pos + length sk + length (old_side (hunk_lines h))) hs r n"
    by (auto elim: patched_ConsE)
  have "skipped = sk" "rest = r" using eq(1,3) one_hunk.hyps(1) by simp_all
  with one_hunk.IH eq(2,4) show ?case by simp
qed auto

section \<open>Text\<close>

lemma apply_file_patch_lines:
  "apply_file_patch original hs =
     (case apply_hunks (str_lines original) original 0 hs (apply_start original) of
        Inl e \<Rightarrow> Inl e
      | Inr s \<Rightarrow> Inr (finish_text (copy_rest (str_lines original) original s)))"
proof -
  have "(if original = [] then [] else str_lines original) = str_lines original" by simp
  then show ?thesis unfolding apply_file_patch_def Let_def by (rule arg_cong)
qed

lemma apply_sound:
  assumes "apply_hunks ls o1 0 hs (apply_start o1) = Inr s"
  shows "patched 0 hs ls (result_lines (copy_rest ls o1 s))"
proof -
  have "orig_pos (apply_start o1) \<le> length ls" by (simp add: apply_start_def)
  from apply_hunks_sound [OF assms this] obtain new where
    "patched 0 hs ls new" "orig_pos s \<le> length ls" "result_lines s @ drop (orig_pos s) ls = new"
    by (auto simp: apply_start_def)
  then show ?thesis by (simp add: copy_rest_result)
qed

lemma apply_complete: "patched 0 hs ls new \<Longrightarrow> \<exists>s. apply_hunks ls o1 0 hs (apply_start o1) = Inr s"
  using apply_hunks_complete [of "apply_start o1" hs ls new o1 0] by (simp add: apply_start_def)

definition newline_kept :: "apply_state \<Rightarrow> bool" where
  "newline_kept s \<longleftrightarrow> (result_lines s \<noteq> [] \<longrightarrow> ends_newline s)"

definition terminated :: "string list \<Rightarrow> string \<Rightarrow> bool" where
  "terminated ls original \<longleftrightarrow> ls = [] \<or> ends_with original [NL]"

lemma keep_line_newline: "terminated ls o1 \<Longrightarrow> ls \<noteq> [] \<Longrightarrow> newline_kept (keep_line ls o1 s)"
  by (simp add: newline_kept_def keep_line_def original_line_has_newline_def terminated_def)

lemma copy_before_newline:
  "terminated ls o1 \<Longrightarrow> newline_kept s \<Longrightarrow> newline_kept (copy_before ls o1 stop s)"
proof (induction ls o1 stop s rule: copy_before.induct)
  case (1 ls o1 stop s)
  show ?case
  proof (cases "orig_pos s + 1 < stop \<and> orig_pos s < length ls")
    case True
    then have "newline_kept (keep_line ls o1 s)" using "1.prems"(1) by (auto intro: keep_line_newline)
    with "1.IH" [OF True "1.prems"(1)] True show ?thesis by (simp add: copy_before.simps [of ls o1 stop s])
  next
    case False
    then have "copy_before ls o1 stop s = s" by (auto simp: copy_before.simps [of ls o1 stop s])
    with "1.prems" show ?thesis by simp
  qed
qed

lemma copy_rest_newline:
  "terminated ls o1 \<Longrightarrow> newline_kept s \<Longrightarrow> newline_kept (copy_rest ls o1 s)"
proof (induction ls o1 s rule: copy_rest.induct)
  case (1 ls o1 s)
  show ?case
  proof (cases "orig_pos s < length ls")
    case True
    then have "newline_kept (keep_line ls o1 s)" using "1.prems"(1) by (auto intro: keep_line_newline)
    with "1.IH" [OF True "1.prems"(1)] True show ?thesis by (simp add: copy_rest.simps [of ls o1 s])
  next
    case False
    with "1.prems" show ?thesis by (simp add: copy_rest.simps [of ls o1 s])
  qed
qed

lemma apply_hunk_lines_newline:
  "apply_hunk_lines ls o1 i iter wrote s hl = Inr s' \<Longrightarrow> terminated ls o1 \<Longrightarrow> newline_kept s \<Longrightarrow>
   NoNewlineAtEof \<notin> set hl \<Longrightarrow> (iter \<noteq> [] \<Longrightarrow> ls \<noteq> []) \<Longrightarrow> newline_kept s'"
  by (induction ls o1 i iter wrote s hl rule: apply_hunk_lines.induct)
     (auto simp: newline_kept_def terminated_def original_line_has_newline_def
        split: list.splits if_splits)

lemma apply_hunks_newline:
  "apply_hunks ls o1 i hs s = Inr s' \<Longrightarrow> terminated ls o1 \<Longrightarrow> newline_kept s \<Longrightarrow>
   \<forall>h \<in> set hs. NoNewlineAtEof \<notin> set (hunk_lines h) \<Longrightarrow> newline_kept s'"
proof (induction hs arbitrary: i s)
  case (Cons h hs)
  obtain s1 where s1: "apply_hunk ls o1 i h s = Inr s1" "apply_hunks ls o1 (i + 1) hs s1 = Inr s'"
    using Cons.prems(1) by (auto split: sum.splits)
  let ?c = "copy_before ls o1 (old_start h) s"
  have "apply_hunk_lines ls o1 i (drop (orig_pos ?c) ls) False ?c (hunk_lines h) = Inr s1"
    using s1(1) by (auto simp: apply_hunk_def Let_def split: if_splits)
  from apply_hunk_lines_newline [OF this Cons.prems(2) copy_before_newline [OF Cons.prems(2,3)]]
  have "newline_kept s1" using Cons.prems(4) by fastforce
  with Cons.IH [OF s1(2)] Cons.prems show ?case by simp
qed simp

lemma terminated_unlines: "terminated ls (unlines ls)"
proof (cases ls rule: rev_cases)
  case (snoc ys y)
  then have "unlines ls = (unlines ys @ y) @ [NL]" by (simp add: unlines_def)
  then show ?thesis by (simp add: terminated_def suffix_def)
qed (simp add: terminated_def)

lemma apply_unlines:
  assumes "patched 0 hs old new"
    and "\<forall>h \<in> set hs. NoNewlineAtEof \<notin> set (hunk_lines h)"
    and "\<forall>l \<in> set old. one_line l"
  shows "apply_file_patch (unlines old) hs = Inr (unlines new)"
proof -
  let ?o = "unlines old"
  have ls: "str_lines ?o = old" using assms(3) by (rule str_lines_unlines)
  obtain s where s: "apply_hunks old ?o 0 hs (apply_start ?o) = Inr s"
    using apply_complete [OF assms(1)] by blast
  have result: "result_lines (copy_rest old ?o s) = new"
    using patched_deterministic [OF assms(1) apply_sound [OF s]] .
  have "newline_kept (apply_start ?o)" by (simp add: newline_kept_def apply_start_def)
  then have "newline_kept (copy_rest old ?o s)"
    using apply_hunks_newline [OF s terminated_unlines _ assms(2)]
    by (intro copy_rest_newline terminated_unlines) simp
  then have "finish_text (copy_rest old ?o s) = unlines new"
    using result by (auto simp: finish_text_def newline_kept_def join_unlines unlines_def)
  then show ?thesis using s by (simp add: apply_file_patch_lines ls)
qed

end
