(* ===== verification/Patch_Roundtrip.thy ===== *)
theory Patch_Roundtrip
  imports Patch_Properties
begin

text \<open>
  Printing file patches as a unified diff, the proof that \<^const>\<open>parse_unified_diff\<close> reads the
  print back, the properties of the patch engine, and the inputs on which the code departs
  from the meaning of a unified diff.
\<close>

section \<open>Printing\<close>

definition print_range :: "nat \<Rightarrow> nat \<Rightarrow> string" where
  "print_range s n = show_nat s @ '','' @ show_nat n"

definition print_header :: "hunk \<Rightarrow> string" where
  "print_header h =
     ''@@ -'' @ print_range (old_start h) (old_count h) @ '' +'' @
     print_range (new_start h) (new_count h) @ '' @@''"

fun print_line :: "hunk_line \<Rightarrow> string" where
  "print_line (Context l) = '' '' @ l"
| "print_line (Added l) = ''+'' @ l"
| "print_line (Removed l) = ''-'' @ l"
| "print_line NoNewlineAtEof = no_newline_marker"

definition print_hunk :: "hunk \<Rightarrow> string list" where
  "print_hunk h = print_header h # map print_line (hunk_lines h)"

definition print_file :: "file_patch \<Rightarrow> string list" where
  "print_file f =
     [''--- '' @ (if is_new_file f then dev_null else ''a/'' @ old_path f),
      ''+++ '' @ (if is_deleted f then dev_null else ''b/'' @ new_path f)]
     @ concat (map print_hunk (hunks f))"

definition print_files :: "file_patch list \<Rightarrow> string" where
  "print_files fs = unlines (concat (map print_file fs))"

section \<open>What can be printed\<close>

definition plain_path :: "string \<Rightarrow> bool" where
  "plain_path p \<longleftrightarrow> p \<noteq> [] \<and> TAB \<notin> set p \<and> NL \<notin> set p \<and> visible (last p)"

fun printable_line :: "hunk_line \<Rightarrow> bool" where
  "printable_line (Context l) = one_line l"
| "printable_line (Added l) = (one_line l \<and> \<not> starts_with l ''++ '')"
| "printable_line (Removed l) = (one_line l \<and> \<not> starts_with l ''-- '')"
| "printable_line NoNewlineAtEof = True"

definition printable_hunk :: "hunk \<Rightarrow> bool" where
  "printable_hunk h \<longleftrightarrow>
     old_start h \<le> usize_max \<and> old_count h \<le> usize_max \<and> new_start h \<le> usize_max \<and>
     new_count h \<le> usize_max \<and> list_all printable_line (hunk_lines h)"

definition printable_file :: "file_patch \<Rightarrow> bool" where
  "printable_file f \<longleftrightarrow>
     (if is_new_file f then old_path f = dev_null else plain_path (old_path f)) \<and>
     (if is_deleted f then new_path f = dev_null else plain_path (new_path f)) \<and>
     \<not> (is_new_file f \<and> is_deleted f) \<and>
     old_path f \<noteq> (if is_deleted f then dev_null else []) \<and>
     (\<not> is_deleted f \<longrightarrow> new_path f \<noteq> dev_null) \<and>
     list_all printable_hunk (hunks f)"

section \<open>Headers\<close>

lemma not_special_digit:
  "is_ascii_digit c \<Longrightarrow> c \<noteq> CHR '','' \<and> c \<noteq> CHR ''@'' \<and> c \<noteq> CHR ''-'' \<and> c \<noteq> CHR ''+'' \<and> c \<noteq> NL \<and> c \<noteq> CR"
  by (auto simp: is_ascii_digit_def byte_val_def)

lemma set_print_range: "c \<in> set (print_range s n) \<Longrightarrow> is_ascii_digit c \<or> c = CHR '',''"
  using show_nat_digits by (auto simp: print_range_def)

lemma visible_print_range: "c \<in> set (print_range s n) \<Longrightarrow> visible c"
proof -
  assume "c \<in> set (print_range s n)"
  then consider "is_ascii_digit c" | "c = CHR '',''" using set_print_range by blast
  then show "visible c"
    by cases (simp add: visible_digit, simp add: visible_def ascii_ws_def byte_val_def)
qed

lemma not_at_print_range: "CHR ''@'' \<notin> set (print_range s n)"
  using set_print_range [of "CHR ''@''" s n] not_special_digit [of "CHR ''@''"] by auto

lemma print_range_ends:
  obtains c d cs ds where "print_range s n = c # cs" "is_ascii_digit c"
    "print_range s n = ds @ [d]" "visible d"
proof -
  obtain c cs where "show_nat s = c # cs" by (cases "show_nat s") auto
  moreover from this have "is_ascii_digit c" using show_nat_digits [of s] by simp
  moreover obtain d ds where "show_nat n = ds @ [d]" by (cases "show_nat n" rule: rev_cases) auto
  moreover from this have "visible d" using show_nat_digits [of n] visible_digit by simp
  ultimately show thesis
    using that [of c "cs @ '','' @ show_nat n" "show_nat s @ '','' @ ds" d] by (simp add: print_range_def)
qed

lemma parse_range_print:
  assumes "s \<le> usize_max" "n \<le> usize_max"
  shows "parse_range (print_range s n) = Inr (s, n)"
proof -
  have comma: "CHR '','' \<notin> set (show_nat k)" for k
    using show_nat_digits [of k] not_special_digit by blast
  have "split_on (CHR '','') (print_range s n) = [show_nat s, show_nat n]"
    unfolding print_range_def
    using split_on_append_sep [OF comma [of s], of "show_nat n"] split_on_no_sep [OF comma [of n]]
    by simp
  then show ?thesis by (simp add: parse_range_def parse_usize_show assms)
qed

lemma trim_start_matches_range:
  "c0 = CHR ''-'' \<or> c0 = CHR ''+'' \<Longrightarrow>
   trim_start_matches (\<lambda>c. c = c0) (c0 # print_range s n) = print_range s n"
proof -
  assume c0: "c0 = CHR ''-'' \<or> c0 = CHR ''+''"
  obtain c cs where c: "print_range s n = c # cs" "is_ascii_digit c" by (rule print_range_ends)
  with c0 not_special_digit [OF c(2)] have "c \<noteq> c0" by auto
  with c(1) show ?thesis by (simp add: trim_start_matches_def)
qed

lemma parse_header_print:
  assumes "a \<le> usize_max" "b \<le> usize_max" "c \<le> usize_max" "d \<le> usize_max"
  shows "parse_hunk_header ('' -'' @ print_range a b @ '' +'' @ print_range c d @ '' @@'') =
    Inr \<lparr>old_start = a, old_count = b, new_start = c, new_count = d, hunk_lines = []\<rparr>"
proof -
  let ?a = "CHR ''-'' # print_range a b"
  let ?b = "CHR ''+'' # print_range c d"
  let ?header = "'' -'' @ print_range a b @ '' +'' @ print_range c d @ '' @@''"
  let ?body = "?a @ CHR '' '' # ?b"
  have vis: "visible (CHR ''-'')" "visible (CHR ''+'')" "visible (CHR ''@'')"
    by (simp_all add: visible_def ascii_ws_def byte_val_def)
  have header: "?header = CHR '' '' # ?body @ '' @@''" by simp
  have "trim_start ?header = ?body @ '' @@''"
    unfolding header trim_start_space using trim_start_visible [OF vis(1)] by simp
  moreover have "trim_end (?body @ '' @@'') = ?body @ '' @@''"
    using trim_end_visible [OF vis(3), of "?body @ '' @''"] by simp
  ultimately have inner: "trim_end (trim_start ?header) = (?body @ '' '') @ CHR ''@'' # ''@''"
    by simp
  have "CHR ''@'' \<notin> set (?body @ '' '')"
    using not_at_print_range by simp
  then have once: "split_once (CHR ''@'') ((?body @ '' '') @ CHR ''@'' # ''@'') = Some (?body @ '' '', ''@'')"
    by (rule split_once_append)
  obtain x xs where last: "print_range c d = xs @ [x]" "visible x"
    using print_range_ends [of c d] by metis
  have "trim_start (?body @ '' '') = ?body @ '' ''" using trim_start_visible [OF vis(1)] by simp
  moreover have "trim_end (?body @ '' '') = ?body"
    unfolding trim_end_space using trim_end_visible [OF last(2), of "?a @ '' +'' @ xs"] last(1) by simp
  ultimately have ranges: "trim (?body @ '' '') = ?body" by (simp only: trim_def)
  have words: "split_whitespace ?body = [?a, ?b]"
    by (rule split_whitespace_two) (use vis visible_print_range in auto)
  have strips: "trim_start_matches (\<lambda>c. c = CHR ''-'') ?a = print_range a b"
    "trim_start_matches (\<lambda>c. c = CHR ''+'') ?b = print_range c d"
    by (rule trim_start_matches_range, simp)+
  have two: "\<not> length [?a, ?b] < 2" "[?a, ?b] ! 0 = ?a" "[?a, ?b] ! 1 = ?b" by simp_all
  show ?thesis
    unfolding parse_hunk_header_def inner Let_def once option.case prod.case ranges words if_not_P [OF two(1)]
      two(2,3) strips parse_range_print [OF assms(1,2)] parse_range_print [OF assms(3,4)] sum.case ..
qed

lemma trim_plain: "visible c \<Longrightarrow> visible (last p) \<Longrightarrow> p \<noteq> [] \<Longrightarrow> trim (c # p) = c # p"
  by (cases p rule: rev_cases)
     (simp_all add: trim_def trim_start_visible trim_end_visible [of _ "c # _", simplified])

lemma strip_diff_prefix_plain:
  assumes "plain_path p"
  shows "strip_diff_prefix (''a/'' @ p) = p" "strip_diff_prefix (''b/'' @ p) = p"
proof -
  have "visible (CHR ''a'')" "visible (CHR ''b'')"
    by (simp_all add: visible_def ascii_ws_def byte_val_def)
  then have trimmed: "trim (''a/'' @ p) = ''a/'' @ p" "trim (''b/'' @ p) = ''b/'' @ p"
    using trim_plain [of "CHR ''a''" "''/'' @ p"] trim_plain [of "CHR ''b''" "''/'' @ p"] assms
    by (simp_all add: plain_path_def)
  then show "strip_diff_prefix (''a/'' @ p) = p" "strip_diff_prefix (''b/'' @ p) = p"
    using strip_prefix_append [of "''a/''" p] strip_prefix_append [of "''b/''" p]
    by (simp_all add: strip_diff_prefix_def dev_null_def strip_prefix_def)
qed

lemma strip_diff_prefix_null: "strip_diff_prefix dev_null = dev_null"
proof -
  have "visible (CHR ''/'')" "visible (CHR ''l'')"
    by (simp_all add: visible_def ascii_ws_def byte_val_def)
  then have "trim dev_null = dev_null"
    using trim_plain [of "CHR ''/''" "''dev/null''"] by (simp add: dev_null_def)
  then show ?thesis by (simp add: strip_diff_prefix_def)
qed

lemma split_path_plain: "TAB \<notin> set p \<Longrightarrow> fst (split_path_ts p) = p"
  by (simp add: split_path_ts_def split_once_None [THEN iffD2])

section \<open>Reading the print back\<close>

definition commit :: "file_patch \<Rightarrow> hunk option \<Rightarrow> file_patch" where
  "commit f open_hunk = (case open_hunk of None \<Rightarrow> f | Some h \<Rightarrow> f\<lparr>hunks := hunks f @ [h]\<rparr>)"

definition reading :: "file_patch list \<Rightarrow> file_patch \<Rightarrow> hunk option \<Rightarrow> diff_state" where
  "reading fs f open_hunk = \<lparr>files = fs, current_file = Some f, current_hunk = open_hunk\<rparr>"

lemma commit_open: "commit f (Some h) = f\<lparr>hunks := hunks f @ [h]\<rparr>"
  by (simp add: commit_def)

lemma diff_lines_append:
  "diff_lines (a @ b) st = (case diff_lines a st of Inl e \<Rightarrow> Inl e | Inr st' \<Rightarrow> diff_lines b st')"
  by (induction a arbitrary: st) (simp_all split: sum.split)

lemma diff_line_body:
  assumes "printable_line l"
  shows "diff_line (print_line l) (reading fs f (Some h)) =
    Inr (reading fs f (Some (h\<lparr>hunk_lines := hunk_lines h @ [l]\<rparr>)))"
  using assms
  by (cases l) (simp_all add: diff_line_def strip_prefix_def hunk_body_def add_line_def
      no_newline_marker_def reading_def)

lemma diff_lines_body:
  "list_all printable_line ls \<Longrightarrow>
   diff_lines (map print_line ls) (reading fs f (Some h)) =
     Inr (reading fs f (Some (h\<lparr>hunk_lines := hunk_lines h @ ls\<rparr>)))"
  by (induction ls arbitrary: h) (simp_all add: diff_line_body)

lemma diff_line_header:
  assumes "printable_hunk h"
  shows "diff_line (print_header h) (reading fs f open_hunk) =
    Inr (reading fs (commit f open_hunk) (Some (h\<lparr>hunk_lines := []\<rparr>)))"
proof -
  let ?rest = "'' -'' @ print_range (old_start h) (old_count h) @ '' +'' @
     print_range (new_start h) (new_count h) @ '' @@''"
  have "parse_hunk_header ?rest = Inr (h\<lparr>hunk_lines := []\<rparr>)"
    using assms parse_header_print [of "old_start h" "old_count h" "new_start h" "new_count h"]
    by (simp add: printable_hunk_def del: append.simps)
  moreover have "print_header h = ''@@'' @ ?rest" by (simp add: print_header_def)
  moreover have "strip_prefix ''--- '' (''@@'' @ ?rest) = None" "strip_prefix ''+++ '' (''@@'' @ ?rest) = None"
    "strip_prefix ''@@'' (''@@'' @ ?rest) = Some ?rest"
    by (simp_all add: strip_prefix_def)
  ultimately show ?thesis
    by (simp add: diff_line_def hunk_header_def reading_def commit_def Let_def del: append.simps split: option.split)
qed

lemma diff_lines_hunk:
  assumes "printable_hunk h"
  shows "diff_lines (print_hunk h) (reading fs f open_hunk) =
    Inr (reading fs (commit f open_hunk) (Some h))"
  using assms diff_lines_body [of "hunk_lines h" fs "commit f open_hunk" "h\<lparr>hunk_lines := []\<rparr>"]
  by (simp add: print_hunk_def diff_line_header printable_hunk_def)

lemma diff_lines_hunks:
  "list_all printable_hunk hs \<Longrightarrow>
   \<exists>f' o'. diff_lines (concat (map print_hunk hs)) (reading fs f open_hunk) = Inr (reading fs f' o') \<and>
     commit f' o' = (commit f open_hunk)\<lparr>hunks := hunks (commit f open_hunk) @ hs\<rparr>"
proof (induction hs arbitrary: f open_hunk)
  case Nil
  then show ?case by auto
next
  case (Cons h hs)
  from Cons.IH [of "commit f open_hunk" "Some h"] Cons.prems obtain f' o' where
    "diff_lines (concat (map print_hunk hs)) (reading fs (commit f open_hunk) (Some h)) = Inr (reading fs f' o')"
    "commit f' o' = (commit (commit f open_hunk) (Some h))
       \<lparr>hunks := hunks (commit (commit f open_hunk) (Some h)) @ hs\<rparr>"
    by auto
  moreover have "diff_lines (concat (map print_hunk (h # hs))) (reading fs f open_hunk) =
      diff_lines (concat (map print_hunk hs)) (reading fs (commit f open_hunk) (Some h))"
    using Cons.prems by (simp add: diff_lines_append diff_lines_hunk)
  ultimately show ?case by (intro exI [of _ f'] exI [of _ o']) (simp add: commit_open)
qed

definition flushed :: "file_patch list \<Rightarrow> diff_state" where
  "flushed fs = \<lparr>files = fs, current_file = None, current_hunk = None\<rparr>"

lemma flush_reading:
  "flush_file (reading fs f open_hunk) =
     (let g = commit f open_hunk;
          target = (if is_deleted g \<or> new_path g = [] \<or> new_path g = dev_null then old_path g else new_path g)
      in if target = [] \<or> target = dev_null then Inl (Parse NoTargetPath) else Inr (flushed (fs @ [g])))"
  by (simp add: flush_file_def reading_def build_file_def commit_def flushed_def Let_def split: option.split)

lemma diff_lines_file:
  assumes "printable_file f" and "flush_file st = Inr (flushed fs)"
  shows "\<exists>st'. diff_lines (print_file f) st = Inr st' \<and> flush_file st' = Inr (flushed (fs @ [f]))"
proof -
  let ?old = "if is_new_file f then dev_null else ''a/'' @ old_path f"
  let ?new = "if is_deleted f then dev_null else ''b/'' @ new_path f"
  let ?f1 = "\<lparr>old_path = old_path f, new_path = [], is_new_file = is_new_file f, is_deleted = False, hunks = []\<rparr>"
  let ?f2 = "f\<lparr>hunks := []\<rparr>"
  have tabs: "TAB \<notin> set ?old" "TAB \<notin> set ?new"
    using assms(1) by (auto simp: printable_file_def plain_path_def dev_null_def)
  have old: "strip_diff_prefix ?old = old_path f" "(?old = dev_null) = is_new_file f"
    using assms(1) strip_diff_prefix_plain(1) [of "old_path f"] strip_diff_prefix_null
    by (simp_all add: printable_file_def) (simp add: dev_null_def)
  have new: "strip_diff_prefix ?new = new_path f" "(?new = dev_null) = is_deleted f"
    using assms(1) strip_diff_prefix_plain(2) [of "new_path f"] strip_diff_prefix_null
    by (simp_all add: printable_file_def) (simp add: dev_null_def)
  have "diff_line (''--- '' @ ?old) st = Inr (reading fs ?f1 None)"
    unfolding diff_line_def strip_prefix_append option.case old_header_def assms(2) sum.case
      split_path_plain [OF tabs(1)] Let_def old
    by (simp add: flushed_def reading_def)
  moreover have "diff_line (''+++ '' @ ?new) (reading fs ?f1 None) = Inr (reading fs ?f2 None)"
  proof -
    have "strip_prefix ''--- '' (''+++ '' @ ?new) = None" by (simp add: strip_prefix_def)
    then show ?thesis
      unfolding diff_line_def strip_prefix_append option.case new_header_def
        split_path_plain [OF tabs(2)] Let_def new
      by (simp add: reading_def)
  qed
  moreover obtain f' o' where
    body: "diff_lines (concat (map print_hunk (hunks f))) (reading fs ?f2 None) = Inr (reading fs f' o')"
    "commit f' o' = f"
    using diff_lines_hunks [of "hunks f" fs ?f2 None] assms(1)
    by (auto simp: commit_def printable_file_def)
  ultimately have "diff_lines (print_file f) st = Inr (reading fs f' o')"
    unfolding print_file_def diff_lines_append diff_lines.simps by simp
  moreover have "flush_file (reading fs f' o') = Inr (flushed (fs @ [f]))"
    using assms(1) by (simp add: flush_reading body(2) printable_file_def plain_path_def Let_def split: if_splits)
  ultimately show ?thesis by blast
qed

lemma diff_lines_files:
  "list_all printable_file gs \<Longrightarrow> flush_file st = Inr (flushed fs) \<Longrightarrow>
   \<exists>st'. diff_lines (concat (map print_file gs)) st = Inr st' \<and> flush_file st' = Inr (flushed (fs @ gs))"
proof (induction gs arbitrary: st fs)
  case (Cons g gs)
  then obtain st1 where "diff_lines (print_file g) st = Inr st1" "flush_file st1 = Inr (flushed (fs @ [g]))"
    using diff_lines_file by force
  with Cons.IH [of st1 "fs @ [g]"] Cons.prems(1) show ?case by (auto simp: diff_lines_append)
qed simp

lemma one_line_print_line: "printable_line l \<Longrightarrow> one_line (print_line l)"
  by (cases l) (auto simp: one_line_def no_newline_marker_def)

lemma one_line_header: "one_line (print_header h)"
proof -
  have "c \<noteq> NL" if "c \<in> set (print_range s n)" for c s n
    using set_print_range [OF that] not_special_digit by auto
  then show ?thesis by (auto simp: one_line_def print_header_def)
qed

lemma one_line_path: "plain_path p \<Longrightarrow> NL \<notin> set q \<Longrightarrow> one_line (q @ p)"
  by (auto simp: one_line_def plain_path_def visible_def ascii_ws_def)

lemma one_line_file: "printable_file f \<Longrightarrow> l \<in> set (print_file f) \<Longrightarrow> one_line l"
  using one_line_path [of "old_path f" "''--- a/''"] one_line_path [of "new_path f" "''+++ b/''"]
    one_line_header one_line_print_line
  by (auto simp: print_file_def printable_file_def print_hunk_def printable_hunk_def list_all_iff
      split: if_splits) (auto simp: one_line_def dev_null_def)


lemma diff_lines_start:
  assumes "list_all printable_file fs"
  obtains st where "diff_lines (concat (map print_file fs)) diff_start = Inr st"
    "flush_file st = Inr (flushed fs)"
  using diff_lines_files [OF assms, of diff_start "[]"]
  by (auto simp: flush_file_def diff_start_def flushed_def)

section \<open>Properties\<close>


definition sample_patch :: file_patch where
  "sample_patch = \<lparr>old_path = ''a.rs'', new_path = ''b.rs'', is_new_file = False, is_deleted = False,
     hunks = [\<lparr>old_start = 2, old_count = 2, new_start = 2, new_count = 2,
               hunk_lines = [Context ''x'', Removed ''y'', Added ''z'']\<rparr>]\<rparr>"

lemma printable_sample: "printable_file sample_patch"
  by (simp add: sample_patch_def printable_file_def plain_path_def printable_hunk_def one_line_def
      dev_null_def visible_def ascii_ws_def byte_val_def usize_max_def)


text \<open>C16: Applying a patch refines the line-level specification on every input. Whatever it rejects
  has no result: some hunk's old side is not at the place its header says. Whatever it returns is
  the text of the specification's result: each hunk's old side, at its start line, replaced by its
  new side, all other lines copied, with or without a final newline.\<close>

theorem patch_apply_meets_spec:
  "case apply_file_patch original hs of
     Inl _ \<Rightarrow> \<not> (\<exists>new. patched 0 hs (str_lines original) new)
   | Inr out \<Rightarrow> \<exists>new. patched 0 hs (str_lines original) new \<and>
       (out = join [NL] new \<or> new \<noteq> [] \<and> out = join [NL] new @ [NL])"
proof (cases "apply_hunks (str_lines original) original 0 hs (apply_start original)")
  case (Inl e)
  moreover from this have "\<not> patched 0 hs (str_lines original) new" for new
    using apply_complete [of hs "str_lines original" new original] by auto
  ultimately show ?thesis by (simp add: apply_file_patch_lines)
next
  case (Inr s)
  let ?new = "result_lines (copy_rest (str_lines original) original s)"
  have "patched 0 hs (str_lines original) ?new" using Inr by (rule apply_sound)
  moreover have "apply_file_patch original hs = Inr (finish_text (copy_rest (str_lines original) original s))"
    by (simp add: apply_file_patch_lines Inr)
  ultimately show ?thesis by (auto simp: finish_text_def intro!: exI [of _ ?new])
qed

text \<open>No line is lost or invented: when a patch applies, the result has exactly the original's
  lines, as a multiset, without the lines the hunks remove and with the lines they add.\<close>

theorem patch_conserves_lines:
  assumes "apply_file_patch original hs = Inr out"
  shows "\<exists>new. (out = join [NL] new \<or> out = join [NL] new @ [NL]) \<and>
    mset (str_lines original) + mset (concat (map (added_lines \<circ> hunk_lines) hs)) =
    mset new + mset (concat (map (removed_lines \<circ> hunk_lines) hs))"
proof -
  obtain s where s: "apply_hunks (str_lines original) original 0 hs (apply_start original) = Inr s"
    and out: "out = finish_text (copy_rest (str_lines original) original s)"
    using assms by (auto simp: apply_file_patch_lines split: sum.splits)
  from patched_conserves [OF apply_sound [OF s]] show ?thesis
    by (intro exI) (auto simp: out finish_text_def)
qed

text \<open>A patch made for a text turns it into the new text: if the hunks rewrite the lines \<open>old\<close>
  into the lines \<open>new\<close> and carry no end-of-file marker, applying them to the newline-terminated text
  of \<open>old\<close> succeeds and returns, byte for byte, the newline-terminated text of \<open>new\<close>.\<close>

theorem patch_rewrites_its_text:
  assumes "patched 0 hs old new"
    and "\<forall>h \<in> set hs. NoNewlineAtEof \<notin> set (hunk_lines h)"
    and "\<forall>l \<in> set old. one_line l"
  shows "apply_file_patch (unlines old) hs = Inr (unlines new)"
  using assms by (rule apply_unlines)

lemma patched_sample:
  "patched 0 (hunks sample_patch) [''w'', ''x'', ''y'', ''v''] [''w'', ''x'', ''z'', ''v'']"
  using patched.one_hunk [of "[''w'']" "hd (hunks sample_patch)" 0 "[]" "[''v'']" "[''v'']"]
  by (simp add: sample_patch_def patched.no_hunks)

theorem patch_rewrites_its_text_witness:
  "apply_file_patch (unlines [''w'', ''x'', ''y'', ''v'']) (hunks sample_patch) =
     Inr (unlines [''w'', ''x'', ''z'', ''v''])"
  by (rule patch_rewrites_its_text [OF patched_sample])
     (simp_all add: sample_patch_def one_line_def)

lemma sample_applies:
  "apply_file_patch (unlines [''w'', ''x'', ''y'', ''v'']) (hunks sample_patch) =
     Inr (unlines [''w'', ''x'', ''z'', ''v''])"
  by (rule apply_unlines [OF patched_sample]) (simp_all add: sample_patch_def one_line_def)

theorem patch_conserves_lines_witness:
  "\<exists>new. (unlines [''w'', ''x'', ''z'', ''v''] = join [NL] new \<or>
          unlines [''w'', ''x'', ''z'', ''v''] = join [NL] new @ [NL]) \<and>
    mset (str_lines (unlines [''w'', ''x'', ''y'', ''v''])) +
      mset (concat (map (added_lines \<circ> hunk_lines) (hunks sample_patch))) =
    mset new + mset (concat (map (removed_lines \<circ> hunk_lines) (hunks sample_patch)))"
  by (rule patch_conserves_lines [OF sample_applies])

section \<open>Where the code departs from a unified diff\<close>

text \<open>A hunk header \<^verbatim>\<open>@@ -1,0 +2,1 @@\<close> (the print of an insertion after line 1, without context)
  inserts in front of line 1: the code ignores the old count, which for a count of zero makes the
  start the line \<^emph>\<open>before\<close> the insertion.\<close>

definition insertion_after_1 :: hunk where
  "insertion_after_1 = \<lparr>old_start = 1, old_count = 0, new_start = 2, new_count = 1, hunk_lines = [Added ''b'']\<rparr>"

lemma zero_context_insertion_lands_one_line_early:
  "apply_file_patch (unlines [''a'', ''c'']) [insertion_after_1] = Inr (unlines [''b'', ''a'', ''c''])"
proof (rule apply_unlines)
  show "patched 0 [insertion_after_1] [''a'', ''c''] [''b'', ''a'', ''c'']"
    using patched.one_hunk [of "[]" insertion_after_1 0 "[]" "[''a'', ''c'']" "[''a'', ''c'']"]
    by (simp add: insertion_after_1_def patched.no_hunks)
qed (simp_all add: insertion_after_1_def one_line_def)

text \<open>A text with CRLF line ends comes out with LF line ends, even from a patch that changes
  nothing.\<close>

definition CRLF :: string where
  "CRLF = [CR, NL]"

lemma crlf_becomes_lf: "apply_file_patch (''a'' @ CRLF @ ''b'' @ CRLF) [] = Inr (unlines [''a'', ''b''])"
proof -
  let ?o = "''a'' @ CRLF @ ''b'' @ CRLF" and ?ls = "[''a'', ''b'']"
  have ls: "str_lines ?o = ?ls" by (simp add: CRLF_def str_lines_def strip_cr_def)
  have kept: "original_line_has_newline ?ls ?o i" for i
  proof -
    have "?o = (''a'' @ CRLF @ ''b'' @ [CR]) @ [NL]" by (simp add: CRLF_def)
    then have "ends_with ?o [NL]" by (rule suffixI)
    then show ?thesis by (simp add: original_line_has_newline_def)
  qed
  let ?s = "\<lambda>rs n. \<lparr>result_lines = rs, orig_pos = n, ends_newline = True\<rparr>"
  have "apply_start ?o = ?s [] 0"
    using kept [of 7] by (simp add: apply_start_def original_line_has_newline_def del: append.simps)
  moreover have "copy_rest ?ls ?o (?s [] 0) = copy_rest ?ls ?o (?s [''a''] 1)"
    by (subst copy_rest.simps) (simp add: keep_line_def kept [simplified])
  moreover have "copy_rest ?ls ?o (?s [''a''] 1) = copy_rest ?ls ?o (?s ?ls 2)"
    by (subst copy_rest.simps) (simp add: keep_line_def kept [simplified] numeral_2_eq_2)
  moreover have "copy_rest ?ls ?o (?s ?ls 2) = ?s ?ls 2"
    by (subst copy_rest.simps) simp
  moreover have "finish_text (?s ?ls 2) = unlines ?ls" by (simp add: finish_text_def unlines_def)
  ultimately show ?thesis unfolding apply_file_patch_lines ls by simp
qed

text \<open>The removal of a line that is a comment of SQL, Lua or Haskell, \<^verbatim>\<open>-- old\<close>, prints as a line that
  starts with three dashes, and the code reads it as the header of another file.\<close>

lemma removed_comment_line_starts_a_file:
  "diff_line (print_line (Removed ''-- old'')) (reading [] sample_patch (Some insertion_after_1)) =
     Inr (reading [sample_patch\<lparr>hunks := hunks sample_patch @ [insertion_after_1]\<rparr>]
       \<lparr>old_path = ''old'', new_path = [], is_new_file = False, is_deleted = False, hunks = []\<rparr> None)"
proof -
  have "flush_file (reading [] sample_patch (Some insertion_after_1)) =
      Inr (flushed [sample_patch\<lparr>hunks := hunks sample_patch @ [insertion_after_1]\<rparr>])"
    by (simp add: flush_reading commit_def sample_patch_def dev_null_def)
  moreover have "trim ''old'' = ''old''"
    using trim_plain [of "CHR ''o''" "''ld''"] by (simp add: visible_def ascii_ws_def byte_val_def)
  then have "strip_diff_prefix ''old'' = ''old''"
    by (simp add: strip_diff_prefix_def dev_null_def strip_prefix_def)
  moreover have "fst (split_path_ts ''old'') = ''old''" by (rule split_path_plain) simp
  ultimately show ?thesis
    by (simp add: diff_line_def strip_prefix_def old_header_def flushed_def reading_def dev_null_def)
qed

end
