(* ===== verification/Path_Location.thy ===== *)
theory Path_Location
  imports Prelude
begin

text \<open>
  What a path means: the list of names it leads to from a starting directory (\<open>walk\<close>). The locale
  \<open>path_cleaner\<close> is the contract of a function that rewrites a path without changing where it
  leads; the path guard and the path denylist are both proved to be such functions.
\<close>

definition segments :: "string \<Rightarrow> string list" where
  "segments p = split_on (CHR ''/'') p"

definition is_name :: "string \<Rightarrow> bool" where
  "is_name seg \<longleftrightarrow> seg \<noteq> [] \<and> seg \<noteq> ''.'' \<and> seg \<noteq> ''..''"

lemma is_name_simps [simp]: "\<not> is_name []" "\<not> is_name ''.''" "\<not> is_name ''..''"
  by (simp_all add: is_name_def)

fun walk :: "string list \<Rightarrow> string list \<Rightarrow> string list" where
  "walk at [] = at"
| "walk at (seg # segs) =
     walk (if seg = [] \<or> seg = ''.'' then at
           else if seg = ''..'' then butlast at
           else at @ [seg]) segs"

lemma walk_append: "walk at (a @ b) = walk (walk at a) b"
  by (induction a arbitrary: at) auto

lemma walk_names: "list_all is_name ns \<Longrightarrow> walk at ns = at @ ns"
  by (induction ns arbitrary: at) (auto simp: is_name_def)

lemma walk_down: "''..'' \<notin> set segs \<Longrightarrow> walk at segs = at @ filter is_name segs"
  by (induction segs arbitrary: at) (auto simp: is_name_def)

lemma walk_all_names:
  "list_all is_name at \<Longrightarrow> list_all is_name (walk at segs)"
proof (induction segs arbitrary: at)
  case (Cons seg segs)
  let ?at = "if seg = [] \<or> seg = ''.'' then at else if seg = ''..'' then butlast at else at @ [seg]"
  have "list_all is_name ?at"
    using Cons.prems by (auto simp: list_all_iff is_name_def dest: in_set_butlastD)
  then show ?case unfolding walk.simps by (rule Cons.IH)
qed simp

lemma set_walk: "set (walk at segs) \<subseteq> set at \<union> set segs"
proof (induction segs arbitrary: at)
  case (Cons seg segs)
  have "set (butlast at) \<subseteq> set at" by (auto dest: in_set_butlastD)
  then show ?case using Cons.IH [of at] Cons.IH [of "butlast at"] Cons.IH [of "at @ [seg]"] by auto
qed simp

lemma segments_join:
  "ns \<noteq> [] \<Longrightarrow> \<forall>n \<in> set ns. CHR ''/'' \<notin> set n \<Longrightarrow> segments (join ''/'' ns) = ns"
  unfolding segments_def by (rule split_on_join)

lemma segments_slash: "segments (CHR ''/'' # p) = [] # segments p"
  using split_on_append_sep [of "CHR ''/''" "[]" p] by (simp add: segments_def)

lemma segments_root: "segments ''/'' = [[], []]"
  using segments_slash [of "[]"] by (simp add: segments_def)

lemma segments_no_slash: "n \<in> set (segments p) \<Longrightarrow> CHR ''/'' \<notin> set n"
  unfolding segments_def by (rule split_on_parts)

lemma segments_under: "segments (a @ CHR ''/'' # b) = segments a @ segments b"
proof -
  have "split_on (CHR ''/'') (last (split_on (CHR ''/'') a) @ CHR ''/'' # b) =
      last (split_on (CHR ''/'') a) # split_on (CHR ''/'') b"
    using last_split_on by (rule split_on_append_sep)
  then show ?thesis
    using split_on_append [of "CHR ''/''" a "CHR ''/'' # b"] by (simp add: segments_def)
qed

locale path_cleaner =
  fixes clean :: "string \<Rightarrow> string option"
    and reads_as :: "string \<Rightarrow> string"
  assumes no_parent: "clean p = Some r \<Longrightarrow> ''..'' \<notin> set (segments r)"
    and same_place: "clean p = Some r \<Longrightarrow> walk [] (segments r) = walk [] (segments (reads_as p))"
begin

lemma clean_stays_below: "clean p = Some r \<Longrightarrow> \<exists>down. walk at (segments r) = at @ down"
  using walk_down no_parent by blast

lemma place_of_clean: "clean p = Some r \<Longrightarrow> walk [] (segments (reads_as p)) = filter is_name (segments r)"
  using walk_down no_parent same_place by fastforce

lemma clean_injective:
  "clean p = Some r \<Longrightarrow> clean q = Some r \<Longrightarrow>
   walk [] (segments (reads_as p)) = walk [] (segments (reads_as q))"
  by (metis same_place)

lemma under_root:
  assumes "clean p = Some (root @ CHR ''/'' # rest)"
  shows "\<exists>down. walk [] (segments (reads_as p)) = walk [] (segments root) @ down"
proof -
  have "''..'' \<notin> set (segments rest)"
    using no_parent [OF assms] by (simp add: segments_under)
  then have "walk [] (segments (reads_as p)) = walk [] (segments root) @ filter is_name (segments rest)"
    unfolding same_place [OF assms, symmetric] by (simp add: segments_under walk_append walk_down)
  then show ?thesis by blast
qed

end

end
