(* ===== verification/Agent_Error.thy ===== *)
theory Agent_Error
  imports Prelude
begin

text \<open>
  The error type of the agent crate, \<^verbatim>\<open>crates/miaominal-agent/src/error.rs\<close>, and the text it
  displays. An \<^verbatim>\<open>anyhow::Error\<close> of a backend is the text it displays.
\<close>

record model_error =
  status :: "nat option"
  message :: string
  retryable :: bool
  context_overflow :: bool

datatype agent_error =
    ApprovalRequired string
  | Cancelled
  | Denied string string
  | InvalidArguments string
  | InvalidPath string
  | JobNotFound string
  | PosixOnly string
  | ProfileNotFound string
  | UnsupportedProvider string
  | UnsupportedReasoningEffort string string
  | UnsupportedRoute string
  | UnknownTool string
  | Model model_error
  | Backend string

type_synonym 'a agent_result = "agent_error + 'a"

fun error_text :: "agent_error \<Rightarrow> string" where
  "error_text (ApprovalRequired tool_name) = ''tool `'' @ tool_name @ ''` requires user approval''"
| "error_text Cancelled = ''agent tool execution cancelled''"
| "error_text (Denied tool_name reason) = ''tool `'' @ tool_name @ ''` was denied: '' @ reason"
| "error_text (InvalidArguments m) = ''invalid tool arguments: '' @ m"
| "error_text (InvalidPath m) = ''invalid workspace path: '' @ m"
| "error_text (JobNotFound job_id) = ''agent job `'' @ job_id @ ''` was not found''"
| "error_text (PosixOnly m) = m"
| "error_text (ProfileNotFound profile_id) = ''profile `'' @ profile_id @ ''` was not found''"
| "error_text (UnsupportedProvider m) = m"
| "error_text (UnsupportedReasoningEffort provider model) =
     ''provider `'' @ provider @ ''` model `'' @ model @ ''` does not support configurable reasoning effort''"
| "error_text (UnsupportedRoute route) = ''backend route `'' @ route @ ''` is not supported''"
| "error_text (UnknownTool tool_name) = ''unknown agent tool `'' @ tool_name @ ''`''"
| "error_text (Model e) =
     (case status e of
        Some code \<Rightarrow> ''model request failed ('' @ show_nat code @ ''): '' @ message e
      | None \<Rightarrow> ''model request failed: '' @ message e)"
| "error_text (Backend e) = e"

end
