(* ===== verification/Profile.thy ===== *)
theory Profile
  imports Prelude "HOL-Library.Word"
begin

text \<open>
  The data of the application, \<^verbatim>\<open>crates/miaominal-core/src\<close>: session profiles and their import
  (\<^verbatim>\<open>profile.rs\<close>), proxies (\<^verbatim>\<open>proxy.rs\<close>), snippets (\<^verbatim>\<open>snippet.rs\<close>) and managed keys (\<^verbatim>\<open>keychain.rs\<close>).
  Ports and times are words of their width.
\<close>

section \<open>Session profiles\<close>

datatype ProfileKind = SshKind | TelnetKind | RdpKind | LocalKind

datatype AuthMethod = PasswordAuth | KeyFileAuth | ManagedKeyAuth | AgentAuth | KeyboardInteractiveAuth

datatype PortForwardKind = LocalForward | RemoteForward

datatype ShellType = Posix | Fish | PowerShell | Cmd

record PortForwardRule =
  rule_id :: string
  rule_label :: string
  rule_kind :: PortForwardKind
  listen_host :: string
  listen_port :: "16 word"
  target_host :: string
  target_port :: "16 word"
  rule_enabled :: bool

record SessionEnvironmentVariable =
  variable_name :: string
  variable_value :: string

record SessionProfile =
  profile_id :: string
  profile_name :: string
  profile_group :: string
  tags :: "string list"
  profile_kind :: ProfileKind
  host :: string
  port :: "16 word"
  username :: string
  plain_password :: string \<comment> \<open>never serialised, as \<open>plain_passphrase\<close>\<close>
  auth_method :: "AuthMethod option"
  private_key_path :: string
  managed_key_id :: string
  agent_identity :: string
  agent_identity_label :: string
  certificate_path :: string
  plain_passphrase :: string
  agent_forwarding :: bool
  startup_command :: string
  charset :: string
  environment_variables :: "SessionEnvironmentVariable list"
  profile_shell :: ShellType
  proxy_jump_profile_ids :: "string list"
  entry_proxy_id :: "string option"
  has_stored_password :: bool
  has_stored_passphrase :: bool
  port_forwarding_rules :: "PortForwardRule list"
  is_favorite :: bool
  remote_path_favorites :: "string list"
  local_shell :: string
  local_shell_args :: string
  local_working_directory :: string
  telnet_agent_exec :: bool
  last_connected_at :: "64 word option"

definition DEFAULT_SESSION_CHARSET :: string where "DEFAULT_SESSION_CHARSET = ''UTF-8''"

definition blank_profile :: "string \<Rightarrow> nat \<Rightarrow> SessionProfile" where
  "blank_profile i ordinal =
     \<lparr>profile_id = i, profile_name = ''Session '' @ show_nat ordinal, profile_group = [], tags = [],
      profile_kind = SshKind, host = [], port = 22, username = [], plain_password = [],
      auth_method = Some PasswordAuth, private_key_path = [], managed_key_id = [], agent_identity = [],
      agent_identity_label = [], certificate_path = [], plain_passphrase = [], agent_forwarding = False,
      startup_command = [], charset = DEFAULT_SESSION_CHARSET, environment_variables = [],
      profile_shell = Posix, proxy_jump_profile_ids = [], entry_proxy_id = None,
      has_stored_password = False, has_stored_passphrase = False, port_forwarding_rules = [],
      is_favorite = False, remote_path_favorites = [], local_shell = [], local_shell_args = [],
      local_working_directory = [], telnet_agent_exec = False, last_connected_at = None\<rparr>"

definition blank_local :: "string \<Rightarrow> nat \<Rightarrow> SessionProfile" where
  "blank_local i ordinal =
     (blank_profile i ordinal)\<lparr>profile_kind := LocalKind, auth_method := None,
        profile_name := ''Local '' @ show_nat ordinal\<rparr>"

definition is_local :: "SessionProfile \<Rightarrow> bool" where "is_local p \<longleftrightarrow> profile_kind p = LocalKind"
definition is_ssh :: "SessionProfile \<Rightarrow> bool" where "is_ssh p \<longleftrightarrow> profile_kind p = SshKind"
definition is_telnet :: "SessionProfile \<Rightarrow> bool" where "is_telnet p \<longleftrightarrow> profile_kind p = TelnetKind"

definition agent_suggests_only :: "SessionProfile \<Rightarrow> bool" where
  "agent_suggests_only p \<longleftrightarrow> is_telnet p \<and> \<not> telnet_agent_exec p"

definition summary :: "SessionProfile \<Rightarrow> string" where
  "summary p =
     (if is_local p then
        (let shell = trim (local_shell p) in if shell = [] then ''localhost'' else shell)
      else if trim (username p) = [] then host p @ '':'' @ show_nat (unat (port p))
      else username p @ ''@'' @ host p @ '':'' @ show_nat (unat (port p)))"

definition connection_label :: "SessionProfile \<Rightarrow> string" where
  "connection_label p = (if trim (profile_name p) = [] then summary p else profile_name p)"

definition effective_auth_method :: "SessionProfile \<Rightarrow> AuthMethod" where
  "effective_auth_method p =
     (case auth_method p of
        Some m \<Rightarrow> m
      | None \<Rightarrow>
          if trim (managed_key_id p) \<noteq> [] then ManagedKeyAuth
          else if trim (agent_identity p) \<noteq> [] then AgentAuth
          else if trim (private_key_path p) \<noteq> [] then KeyFileAuth
          else PasswordAuth)"

definition ensure_auth_method :: "SessionProfile \<Rightarrow> SessionProfile" where
  "ensure_auth_method p = p\<lparr>auth_method := Some (effective_auth_method p)\<rparr>"

lemma effective_auth_method_simps [simp]:
  "auth_method p = Some m \<Longrightarrow> effective_auth_method p = m"
  "effective_auth_method (ensure_auth_method p) = effective_auth_method p"
  by (simp_all add: effective_auth_method_def ensure_auth_method_def)

lemma ensure_auth_method_idem [simp]: "ensure_auth_method (ensure_auth_method p) = ensure_auth_method p"
  by (simp add: ensure_auth_method_def effective_auth_method_def)

lemma ensure_auth_method_fixed: "auth_method p \<noteq> None \<Longrightarrow> ensure_auth_method p = p"
  by (auto simp: ensure_auth_method_def effective_auth_method_def)

lemma ensure_auth_method_simps [simp]:
  "profile_id (ensure_auth_method p) = profile_id p" "is_local (ensure_auth_method p) = is_local p"
  "last_connected_at (ensure_auth_method p) = last_connected_at p"
  "port_forwarding_rules (ensure_auth_method p) = port_forwarding_rules p"
  by (simp_all add: ensure_auth_method_def is_local_def)

section \<open>Import\<close>

datatype ImportSourceKind = OpenSshConfig | PuttyRegistry | SecureCrtXml | FinalShellJson

fun source_label :: "ImportSourceKind \<Rightarrow> string" where
  "source_label OpenSshConfig = ''OpenSSH''"
| "source_label PuttyRegistry = ''PuTTY''"
| "source_label SecureCrtXml = ''SecureCRT''"
| "source_label FinalShellJson = ''FinalShell''"

fun expected_extensions :: "ImportSourceKind \<Rightarrow> string list" where
  "expected_extensions OpenSshConfig = [''config'']"
| "expected_extensions PuttyRegistry = [''reg'']"
| "expected_extensions SecureCrtXml = [''xml'']"
| "expected_extensions FinalShellJson = [''json'']"

definition accepts_path :: "ImportSourceKind \<Rightarrow> string option \<Rightarrow> bool" where
  \<comment> \<open>the argument is the extension of the path, as the standard library reads it\<close>
  "accepts_path source extension =
     (source = OpenSshConfig \<or>
      (case extension of
         None \<Rightarrow> False
       | Some e \<Rightarrow> list_ex (\<lambda>candidate. eq_ignore_ascii_case candidate e) (expected_extensions source)))"

datatype ImportIssueKind =
  UnsupportedProtocolIssue | MissingRequiredField | UnsupportedCredential | UnsupportedFeature | InvalidEntry

datatype ImportField = HostField | UsernameField | ProtocolField

datatype ImportIssueReason =
  UnsupportedHostPattern | ProxyJumpNotImported | IncludeNotExpanded | MatchNotEvaluated string
  | MultipleIdentityFiles | NoLiteralHostAlias | MissingField ImportField | UnsupportedProtocol string
  | InvalidPort string | CredentialProfileNotFound string | EncryptedPasswordNotImported
  | PasswordCouldNotBeDecoded | KeyReferenceNotImported | GlobalPublicKeyPathMissing
  | AgentForwardingUnresolved string

fun field_text :: "ImportField \<Rightarrow> string" where
  "field_text HostField = ''host''"
| "field_text UsernameField = ''username''"
| "field_text ProtocolField = ''protocol''"

fun reason_text :: "ImportIssueReason \<Rightarrow> string" where
  "reason_text UnsupportedHostPattern =
     ''OpenSSH wildcard or negated Host patterns are not imported as profiles''"
| "reason_text ProxyJumpNotImported = ''ProxyJump is not imported yet''"
| "reason_text IncludeNotExpanded = ''Include directives are not expanded during import''"
| "reason_text (MatchNotEvaluated e) = ''OpenSSH Match condition `'' @ e @ ''` was not evaluated''"
| "reason_text MultipleIdentityFiles =
     ''multiple IdentityFile values matched; only the first one was imported''"
| "reason_text NoLiteralHostAlias = ''no importable OpenSSH host aliases were found in this block''"
| "reason_text (MissingField f) = ''missing '' @ field_text f"
| "reason_text (UnsupportedProtocol p) = ''protocol '' @ p @ '' is not supported''"
| "reason_text (InvalidPort v) = ''invalid port `'' @ v @ ''`''"
| "reason_text (CredentialProfileNotFound p) = ''credential profile '' @ p @ '' was not found''"
| "reason_text EncryptedPasswordNotImported = ''stored password is encrypted and was not imported''"
| "reason_text PasswordCouldNotBeDecoded = ''stored password could not be decoded and was not imported''"
| "reason_text KeyReferenceNotImported = ''key reference was not exported as a local key path''"
| "reason_text GlobalPublicKeyPathMissing = ''global public key is enabled but no key path was exported''"
| "reason_text (AgentForwardingUnresolved v) = ''agent forwarding setting '' @ v @ '' could not be resolved''"

record ImportIssue =
  issue_kind :: ImportIssueKind
  entry_name :: string
  issue_reason :: ImportIssueReason

record ImportedSessionDraft =
  draft_source :: ImportSourceKind
  draft_name :: string
  draft_group :: string
  draft_host :: string
  draft_port :: "16 word"
  draft_username :: string
  draft_password :: "string option"
  draft_auth_method :: AuthMethod
  draft_private_key_path :: string
  draft_certificate_path :: string
  draft_passphrase :: "string option"
  draft_agent_forwarding :: bool
  draft_startup_command :: string
  draft_charset :: string

definition unwrap_or_default :: "string option \<Rightarrow> string" where
  "unwrap_or_default v = (case v of Some s \<Rightarrow> s | None \<Rightarrow> [])"

definition into_session_profile :: "ImportedSessionDraft \<Rightarrow> string \<Rightarrow> SessionProfile" where
  "into_session_profile d i =
     (let p = blank_profile i 1;
          password = unwrap_or_default (draft_password d);
          passphrase = unwrap_or_default (draft_passphrase d)
      in ensure_auth_method
        (p\<lparr>profile_name := draft_name d,
           profile_group := (if trim (draft_group d) = [] then source_label (draft_source d) else draft_group d),
           host := draft_host d, port := draft_port d, username := draft_username d,
           plain_password := password, auth_method := Some (draft_auth_method d),
           private_key_path := draft_private_key_path d, certificate_path := draft_certificate_path d,
           plain_passphrase := passphrase, agent_forwarding := draft_agent_forwarding d,
           startup_command := draft_startup_command d,
           charset := (if trim (draft_charset d) = [] then DEFAULT_SESSION_CHARSET else draft_charset d),
           profile_shell := Posix, has_stored_password := password \<noteq> [], has_stored_passphrase := passphrase \<noteq> []\<rparr>))"

record ImportedBatch =
  batch_sessions :: "ImportedSessionDraft list"
  batch_issues :: "ImportIssue list"

definition push_issue :: "ImportIssueKind \<Rightarrow> string \<Rightarrow> ImportIssueReason \<Rightarrow> ImportedBatch \<Rightarrow> ImportedBatch" where
  "push_issue k n r b = b\<lparr>batch_issues := batch_issues b @ [\<lparr>issue_kind = k, entry_name = n, issue_reason = r\<rparr>]\<rparr>"

definition issue_count :: "ImportIssueKind \<Rightarrow> ImportedBatch \<Rightarrow> nat" where
  "issue_count k b = length (filter (\<lambda>i. issue_kind i = k) (batch_issues b))"

lemma issue_count_push: "issue_count k (push_issue k' n r b) = issue_count k b + (if k' = k then 1 else 0)"
  by (simp add: issue_count_def push_issue_def)

end
