(* ===== verification/Path_Guard.thy ===== *)
theory Path_Guard
  imports Path_Location Agent_Error Profile
begin

text \<open>
  The path guard and shell quoting of the agent, \<^verbatim>\<open>crates/miaominal-agent/src/path_guard.rs\<close>.
  \<open>resolve_workspace_path\<close> vets a path of the model before it reaches the remote host;
  \<open>shell_quote\<close> and the builders on top of it make the command lines in which a path is sent.
  Quoting for \<^verbatim>\<open>cmd.exe\<close> panics in the code and is None here.
\<close>

section \<open>Operations\<close>

datatype RemotePathKind = File | Directory

datatype AuthorizedRemotePath = Authorized string

fun as_str :: "AuthorizedRemotePath \<Rightarrow> string" where
  "as_str (Authorized path) = path"

definition slashes :: "string \<Rightarrow> string" where
  "slashes p = replace_char BACKSLASH ''/'' p"

fun collect_parts :: "string list \<Rightarrow> string list \<Rightarrow> agent_error + string list" where
  "collect_parts parts [] = Inr parts"
| "collect_parts parts (part # rest) =
     (if part = [] \<or> part = ''.'' then collect_parts parts rest
      else if part = ''..'' then
        Inl (InvalidPath ''`..` segments cannot escape the agent workspace'')
      else collect_parts (parts @ [part]) rest)"

definition has_control :: "string \<Rightarrow> bool" where
  "has_control p \<longleftrightarrow> NUL \<in> set p \<or> NL \<in> set p \<or> CR \<in> set p"

definition resolve_workspace_path :: "string \<Rightarrow> string agent_result" where
  "resolve_workspace_path path =
     (let trimmed = trim path in
      if trimmed = [] \<or> trimmed = ''.'' then Inr ''.''
      else if starts_with trimmed ''~'' then
        Inl (InvalidPath ''home expansion is outside the agent workspace policy'')
      else if has_control trimmed then
        Inl (InvalidPath ''path contains unsupported control characters'')
      else
        let normalized = slashes trimmed in
        case collect_parts [] (segments normalized) of
          Inl e \<Rightarrow> Inl e
        | Inr parts \<Rightarrow>
            if parts = [] then Inr ''.''
            else if \<not> starts_with normalized ''/'' then Inr (join ''/'' parts)
            else Inr (''/'' @ join ''/'' parts))"

definition shell_quote_posix :: "string \<Rightarrow> string" where
  "shell_quote_posix v = [QUOTE] @ replace_char QUOTE [QUOTE, DQUOTE, QUOTE, DQUOTE, QUOTE] v @ [QUOTE]"

definition shell_quote_fish :: "string \<Rightarrow> string" where
  "shell_quote_fish v =
     [QUOTE] @ replace_char QUOTE [BACKSLASH, QUOTE] (replace_char BACKSLASH [BACKSLASH, BACKSLASH] v) @ [QUOTE]"

definition shell_quote_powershell :: "string \<Rightarrow> string" where
  "shell_quote_powershell v = [QUOTE] @ replace_char QUOTE [QUOTE, QUOTE] v @ [QUOTE]"

fun shell_quote :: "string \<Rightarrow> ShellType \<Rightarrow> string option" where
  \<comment> \<open>None: the code panics\<close>
  "shell_quote v Posix = Some (shell_quote_posix v)"
| "shell_quote v Fish = Some (shell_quote_fish v)"
| "shell_quote v PowerShell = Some (shell_quote_powershell v)"
| "shell_quote v Cmd = None"

definition drive_path :: "string \<Rightarrow> bool" where
  "drive_path s \<longleftrightarrow>
     3 \<le> length s \<and> is_ascii_alphabetic (s ! 0) \<and> s ! 1 = CHR '':'' \<and> s ! 2 = CHR ''/''"

definition slash_drive_path :: "string \<Rightarrow> bool" where
  "slash_drive_path s \<longleftrightarrow>
     4 \<le> length s \<and> s ! 0 = CHR ''/'' \<and> is_ascii_alphabetic (s ! 1) \<and> s ! 2 = CHR '':'' \<and> s ! 3 = CHR ''/''"

definition windows_form :: "string \<Rightarrow> string option" where
  \<comment> \<open>the part of \<^verbatim>\<open>canonical_path_for_shell\<close> for PowerShell and \<^verbatim>\<open>cmd.exe\<close>\<close>
  "windows_form normalized =
     (if drive_path normalized then Some normalized
      else if slash_drive_path normalized then Some (drop 1 normalized)
      else if starts_with normalized ''//'' then Some (replace_char (CHR ''/'') [BACKSLASH] normalized)
      else None)"

definition canonical_path_for_shell :: "string \<Rightarrow> ShellType \<Rightarrow> string agent_result" where
  "canonical_path_for_shell path shell_type =
     (if path = [] \<or> (\<exists>c \<in> set path. c = NUL \<or> c = CR \<or> c = NL) then
        Inl (InvalidPath ''canonical path contains unsupported control characters'')
      else if shell_type \<noteq> PowerShell \<and> shell_type \<noteq> Cmd then Inr path
      else
        case windows_form (slashes path) of
          Some r \<Rightarrow> Inr r
        | None \<Rightarrow> Inl (InvalidPath (''SFTP canonical path `'' @ path @
               ''` cannot be represented by the Windows exec shell'')))"

definition cd_prefix :: "ShellType \<Rightarrow> string \<Rightarrow> string option" where
  "cd_prefix shell_type cwd =
     (case shell_quote cwd shell_type of
        None \<Rightarrow> None
      | Some quoted \<Rightarrow>
          (case shell_type of
             Posix \<Rightarrow> Some (''cd '' @ [DQUOTE] @ ''$HOME'' @ [DQUOTE] @ '' && cd '' @ quoted)
           | Fish \<Rightarrow> Some (''cd '' @ [DQUOTE] @ ''$HOME'' @ [DQUOTE] @ ''; and cd '' @ quoted)
           | PowerShell \<Rightarrow>
               Some (''Set-Location -LiteralPath $env:USERPROFILE; Set-Location -LiteralPath '' @ quoted)
           | Cmd \<Rightarrow> None))"

fun env_setup :: "ShellType \<Rightarrow> string" where
  "env_setup Posix =
     ''export PAGER=cat SYSTEMD_PAGER= GIT_PAGER=cat LESS= LANG=C.UTF-8 '' @
     ''NO_COLOR=1 CLICOLOR=0 TERM=xterm-256color''"
| "env_setup Fish =
     ''set -x PAGER cat; set -x SYSTEMD_PAGER '' @ [DQUOTE, DQUOTE] @ ''; set -x GIT_PAGER cat; '' @
     ''set -x LESS '' @ [DQUOTE, DQUOTE] @ ''; set -x LANG C.UTF-8; set -x NO_COLOR 1; '' @
     ''set -x CLICOLOR 0; set -x TERM xterm-256color''"
| "env_setup PowerShell =
     concat (map (\<lambda>(name, v). ''$env:'' @ name @ ''='' @ [QUOTE] @ v @ [QUOTE] @ ''; '')
       [(''PAGER'', ''cat''), (''SYSTEMD_PAGER'', []), (''GIT_PAGER'', ''cat''), (''LESS'', []),
        (''LANG'', ''C.UTF-8''), (''NO_COLOR'', ''1''), (''CLICOLOR'', ''0'')]) @
     ''$env:TERM='' @ [QUOTE] @ ''xterm-256color'' @ [QUOTE]"
| "env_setup Cmd =
     concat (map (\<lambda>v. ''SET '' @ [DQUOTE] @ v @ [DQUOTE] @ '' & '')
       [''PAGER=cat'', ''SYSTEMD_PAGER='', ''GIT_PAGER=cat'', ''LESS='', ''LANG=C.UTF-8'', ''NO_COLOR=1'',
        ''CLICOLOR=0'']) @
     ''SET '' @ [DQUOTE] @ ''TERM=xterm-256color'' @ [DQUOTE]"

fun temp_file :: "ShellType \<Rightarrow> string" where
  "temp_file PowerShell = ''(New-TemporaryFile).FullName''"
| "temp_file Cmd = ''%TEMP%'' @ [BACKSLASH] @ ''miaominal-%RANDOM%.tmp''"
| "temp_file _ = ''mktemp''"

fun head_bytes_cmd :: "ShellType \<Rightarrow> string \<Rightarrow> nat \<Rightarrow> string" where
  "head_bytes_cmd PowerShell file_var n =
     ''[System.IO.File]::ReadAllBytes('' @ file_var @ '')[0..'' @ show_nat n @ '']''"
| "head_bytes_cmd Cmd file_var n = []"
| "head_bytes_cmd _ file_var n = ''head -c '' @ show_nat n @ '' '' @ file_var"

fun exit_code_var :: "ShellType \<Rightarrow> string" where
  "exit_code_var PowerShell = ''$LASTEXITCODE''"
| "exit_code_var Cmd = ''%ERRORLEVEL%''"
| "exit_code_var _ = ''$?''"

fun line_ending :: "ShellType \<Rightarrow> string" where
  "line_ending Posix = [NL]"
| "line_ending Fish = [NL]"
| "line_ending _ = [CR]"

section \<open>The resolved path\<close>

lemma collect_parts_walk:
  "collect_parts parts segs = Inr out \<Longrightarrow> ''..'' \<notin> set segs \<and> out = parts @ filter is_name segs"
  by (induction parts segs rule: collect_parts.induct) (auto simp: is_name_def split: if_splits)

lemma collect_parts_ok:
  "''..'' \<notin> set segs \<Longrightarrow> collect_parts parts segs = Inr (parts @ filter is_name segs)"
  by (induction segs arbitrary: parts) (auto simp: is_name_def)

lemma starts_with_slash: "starts_with p ''/'' \<longleftrightarrow> (\<exists>q. p = CHR ''/'' # q)"
  by (cases p) auto

definition absolute :: "string \<Rightarrow> bool" where
  "absolute p \<longleftrightarrow> starts_with p ''/''"

lemma resolve_cases:
  assumes "resolve_workspace_path p = Inr r"
  obtains (dot) "r = ''.''" "filter is_name (segments (slashes (trim p))) = []"
      "''..'' \<notin> set (segments (slashes (trim p)))"
  | (names) ns where "ns = filter is_name (segments (slashes (trim p)))" "ns \<noteq> []"
      "''..'' \<notin> set (segments (slashes (trim p)))" "\<not> has_control (trim p)"
      "r = (if absolute (slashes (trim p)) then ''/'' else []) @ join ''/'' ns"
proof (cases "trim p = [] \<or> trim p = ''.''")
  case True
  with assms have "r = ''.''" by (simp add: resolve_workspace_path_def)
  moreover have "segments (slashes (trim p)) = [trim p]"
    using True by (auto simp: slashes_def segments_def)
  ultimately show thesis using True by (intro dot) (auto simp: is_name_def)
next
  case False
  let ?s = "slashes (trim p)"
  from assms False have ctl: "\<not> has_control (trim p)"
    by (auto simp: resolve_workspace_path_def Let_def split: if_splits)
  obtain parts where parts: "collect_parts [] (segments ?s) = Inr parts"
    using assms False by (auto simp: resolve_workspace_path_def Let_def split: if_splits sum.splits)
  note found = collect_parts_walk [OF parts]
  have r: "r = (if parts = [] then ''.'' else (if absolute ?s then ''/'' else []) @ join ''/'' parts)"
    using assms False parts
    by (auto simp: resolve_workspace_path_def Let_def absolute_def split: if_splits)
  show thesis
  proof (cases "parts = []")
    case True
    with found r show thesis by (intro dot) auto
  next
    case False
    with found r ctl show thesis by (intro names [of parts]) auto
  qed
qed

lemma segments_resolved:
  assumes "\<forall>n \<in> set ns. CHR ''/'' \<notin> set n" and "ns \<noteq> []"
  shows "segments ((if b then ''/'' else []) @ join ''/'' ns) = (if b then [[]] else []) @ ns"
  using segments_join [OF assms(2,1)] segments_slash [of "join ''/'' ns"] by simp

lemma resolve_walk:
  assumes "resolve_workspace_path p = Inr r"
  shows "''..'' \<notin> set (segments r)" "filter is_name (segments r) = filter is_name (segments (slashes (trim p)))"
    "''..'' \<notin> set (segments (slashes (trim p)))"
proof -
  have "''..'' \<notin> set (segments r) \<and>
      filter is_name (segments r) = filter is_name (segments (slashes (trim p))) \<and>
      ''..'' \<notin> set (segments (slashes (trim p)))"
    using assms
  proof (cases rule: resolve_cases)
    case dot
    then show ?thesis by (simp add: segments_def is_name_def)
  next
    case (names ns)
    have "\<forall>n \<in> set ns. CHR ''/'' \<notin> set n" using names(1) segments_no_slash by auto
    from segments_resolved [OF this names(2), of "absolute (slashes (trim p))"] names
    show ?thesis by auto
  qed
  then show "''..'' \<notin> set (segments r)" "filter is_name (segments r) = filter is_name (segments (slashes (trim p)))"
    "''..'' \<notin> set (segments (slashes (trim p)))" by simp_all
qed

definition resolved :: "string \<Rightarrow> string option" where
  "resolved p = (case resolve_workspace_path p of Inl _ \<Rightarrow> None | Inr r \<Rightarrow> Some r)"

lemma resolved_Some [simp]: "resolved p = Some r \<longleftrightarrow> resolve_workspace_path p = Inr r"
  by (auto simp: resolved_def split: sum.splits)

interpretation guard: path_cleaner resolved "\<lambda>p. slashes (trim p)"
  by unfold_locales (auto simp: resolve_walk walk_down)

lemma set_slashes: "c \<in> set (slashes p) \<Longrightarrow> c \<in> set p \<or> c = CHR ''/''"
  unfolding slashes_def by (induction p) (auto split: if_splits)

lemma no_backslash_slashes [simp]: "BACKSLASH \<notin> set (slashes p)"
  by (simp add: slashes_def not_in_replace_char)

lemma first_char:
  assumes "n \<in> set (segments p)" and "is_name n"
  obtains c cs where "n = c # cs" "c \<noteq> CHR ''/''"
proof (cases n)
  case Nil
  with assms(2) show thesis by simp
next
  case (Cons c cs)
  with segments_no_slash [OF assms(1)] show thesis by (intro that) auto
qed

lemma resolve_names:
  assumes "ns = filter is_name (segments q)" and "ns \<noteq> []"
  shows "join ''/'' ns \<noteq> []" "\<not> absolute (join ''/'' ns)" "set (join ''/'' ns) \<subseteq> insert (CHR ''/'') (set q)"
proof -
  obtain n ms where ns: "ns = n # ms" using assms(2) by (cases ns) auto
  have mem: "x \<in> set (segments q) \<and> is_name x" if "x \<in> set ns" for x using that assms(1) by simp
  obtain c cs where c: "n = c # cs" "c \<noteq> CHR ''/''"
    using first_char [of n q] mem [of n] ns by auto
  then show "join ''/'' ns \<noteq> []" "\<not> absolute (join ''/'' ns)"
    by (cases ms; simp add: ns absolute_def)+
  have "set x \<subseteq> set q" if "x \<in> set ns" for x
    using mem [OF that] set_split_on by (auto simp: segments_def)
  then show "set (join ''/'' ns) \<subseteq> insert (CHR ''/'') (set q)"
    using set_join [of "''/''" ns] by fastforce
qed

lemma resolve_chars:
  assumes "resolve_workspace_path p = Inr r"
  shows "r \<noteq> [] \<and> BACKSLASH \<notin> set r \<and> \<not> has_control r"
  using assms
proof (cases rule: resolve_cases)
  case (names ns)
  note parts = resolve_names [OF names(1,2)]
  have sub: "set r \<subseteq> insert (CHR ''/'') (set (slashes (trim p)))"
    using parts(3) names(5) by auto
  have "c \<in> set (trim p)" if "c \<in> set r" "c \<noteq> CHR ''/''" for c
    using that sub set_slashes by blast
  then have "\<not> has_control r" using names(4) by (auto simp: has_control_def)
  moreover have "BACKSLASH \<notin> set r" using sub no_backslash_slashes by auto
  ultimately show ?thesis using parts(1) names(5) by simp
qed (simp_all add: has_control_def)

lemma resolve_absolute:
  assumes "resolve_workspace_path p = Inr r"
  shows "r = ''.'' \<or> absolute r = absolute (slashes (trim p))"
  using assms
proof (cases rule: resolve_cases)
  case (names ns)
  from resolve_names(2) [OF names(1,2)] names(5) show ?thesis by (auto simp: absolute_def)
qed simp

section \<open>What the guard promises\<close>

definition place_from :: "string list \<Rightarrow> string \<Rightarrow> string list" where
  \<comment> \<open>where a path leads: from the root when it is absolute, else from the given directory\<close>
  "place_from at p = walk (if absolute p then [] else at) (segments p)"


lemma trim_between: "visible c \<Longrightarrow> visible d \<Longrightarrow> trim (c # s @ [d]) = c # s @ [d]"
  using trim_end_visible [of d "c # s"] by (simp add: trim_def trim_start_visible)

lemma visible_samples:
  "visible (CHR ''a'')" "visible (CHR ''c'')" "visible (CHR ''x'')" "visible (CHR ''/'')" "visible (CHR ''.'')"
  by (simp_all add: visible_def ascii_ws_def byte_val_def)

lemma resolve_sample: "resolve_workspace_path ''a/./b//c'' = Inr ''a/b/c''"
  using trim_between [of "CHR ''a''" "CHR ''c''" "''/./b//''"] visible_samples
  by (simp add: resolve_workspace_path_def has_control_def slashes_def segments_def Let_def)


text \<open>The guard rejects a path exactly when, trimmed, it starts with a tilde, contains a NUL or a
  line break, or has a parent segment (with \<^verbatim>\<open>/\<close> or \<^verbatim>\<open>\\<close> as separator); nothing else is rejected.\<close>

theorem guard_rejects_exactly:
  "(\<exists>m. resolve_workspace_path p = Inl (InvalidPath m)) \<longleftrightarrow>
     starts_with (trim p) ''~'' \<or> has_control (trim p) \<or> ''..'' \<in> set (segments (slashes (trim p)))"
proof -
  have plain: "\<not> has_control t \<and> ''..'' \<notin> set (segments (slashes t))" if "t = [] \<or> t = ''.''" for t
    using that by (auto simp: has_control_def slashes_def segments_def)
  have bad: "\<exists>m. collect_parts parts segs = Inl (InvalidPath m)" if "''..'' \<in> set segs" for parts segs
    using that by (induction parts segs rule: collect_parts.induct) auto
  show ?thesis
  proof (cases "trim p = [] \<or> trim p = ''.''")
    case True
    with plain [OF True] show ?thesis by (auto simp: resolve_workspace_path_def)
  next
    case False
    then show ?thesis
      using bad [of "segments (slashes (trim p))" "[]"]
        collect_parts_ok [of "segments (slashes (trim p))" "[]"]
      by (cases "''..'' \<in> set (segments (slashes (trim p)))")
         (auto simp: resolve_workspace_path_def Let_def)
  qed
qed

section \<open>Quoting\<close>

text \<open>How each shell reads a word; whatever these readers do not read literally is refused. The
  single-quote characters of PowerShell include the four curly ones.\<close>

datatype quoting = Unquoted | InSingle | InDouble

fun posix_word :: "quoting \<Rightarrow> string \<Rightarrow> string option" where
  "posix_word Unquoted [] = Some []"
| "posix_word Unquoted (c # s) =
     (if c = QUOTE then posix_word InSingle s
      else if c = DQUOTE then posix_word InDouble s
      else if is_ascii_alphanumeric c \<or> c \<in> set ''-_./:'' then map_option (Cons c) (posix_word Unquoted s)
      else None)"
| "posix_word InSingle [] = None"
| "posix_word InSingle (c # s) =
     (if c = QUOTE then posix_word Unquoted s else map_option (Cons c) (posix_word InSingle s))"
| "posix_word InDouble [] = None"
| "posix_word InDouble (c # s) =
     (if c = DQUOTE then posix_word Unquoted s
      else if c \<in> {CHR ''$'', BACKTICK, BACKSLASH} then None
      else map_option (Cons c) (posix_word InDouble s))"

fun fish_quoted :: "string \<Rightarrow> string option" where
  "fish_quoted [] = None"
| "fish_quoted [c] = (if c = QUOTE then Some [] else None)"
| "fish_quoted (c # d # s) =
     (if c = QUOTE then None
      else if c = BACKSLASH \<and> (d = BACKSLASH \<or> d = QUOTE) then map_option (Cons d) (fish_quoted s)
      else map_option (Cons c) (fish_quoted (d # s)))"

definition curly_quotes :: "string list" where
  "curly_quotes = map (\<lambda>c. [CHR 0xE2, CHR 0x80, c]) [CHR 0x98, CHR 0x99, CHR 0x9A, CHR 0x9B]"

fun powershell_quoted :: "string \<Rightarrow> string option" where
  "powershell_quoted [] = None"
| "powershell_quoted (c # s) =
     (if c = QUOTE then
        (case s of
           [] \<Rightarrow> Some []
         | d # s' \<Rightarrow> if d = QUOTE then map_option (Cons QUOTE) (powershell_quoted s') else None)
      else if \<exists>q \<in> set curly_quotes. starts_with (c # s) q then None
      else map_option (Cons c) (powershell_quoted s))"

fun read_word :: "ShellType \<Rightarrow> string \<Rightarrow> string option" where
  "read_word Posix w = posix_word Unquoted w"
| "read_word Fish w = (case w of [] \<Rightarrow> None | c # s \<Rightarrow> if c = QUOTE then fish_quoted s else None)"
| "read_word PowerShell w = (case w of [] \<Rightarrow> None | c # s \<Rightarrow> if c = QUOTE then powershell_quoted s else None)"
| "read_word Cmd w = None"

lemma posix_reads_back:
  "posix_word InSingle (replace_char QUOTE [QUOTE, DQUOTE, QUOTE, DQUOTE, QUOTE] v @ [QUOTE]) = Some v"
  by (induction v) simp_all

definition fish_body :: "string \<Rightarrow> string" where
  "fish_body v = replace_char QUOTE [BACKSLASH, QUOTE] (replace_char BACKSLASH [BACKSLASH, BACKSLASH] v)"

lemma fish_body_simps [simp]:
  "fish_body [] = []"
  "fish_body (c # v) =
     (if c = BACKSLASH \<or> c = QUOTE then [BACKSLASH, c] else [c]) @ fish_body v"
  by (simp_all add: fish_body_def)

lemma fish_reads_back: "fish_quoted (fish_body v @ [QUOTE]) = Some v"
proof (induction v)
  case (Cons c v)
  obtain d s where "fish_body v @ [QUOTE] = d # s" by (cases "fish_body v") auto
  with Cons show ?case by auto
qed simp

lemma prefix_of_quoted:
  "QUOTE \<notin> set q \<Longrightarrow> starts_with (replace_char QUOTE [QUOTE, QUOTE] v @ [QUOTE]) q \<Longrightarrow> starts_with v q"
proof (induction v arbitrary: q)
  case Nil
  then show ?case by (cases q) auto
next
  case (Cons c v)
  then show ?case by (cases q) (auto split: if_splits)
qed

lemma powershell_reads_back:
  "\<forall>q \<in> set curly_quotes. \<not> contains v q \<Longrightarrow>
   powershell_quoted (replace_char QUOTE [QUOTE, QUOTE] v @ [QUOTE]) = Some v"
proof (induction v)
  case (Cons c v)
  then have IH: "powershell_quoted (replace_char QUOTE [QUOTE, QUOTE] v @ [QUOTE]) = Some v"
    by (auto simp: sublist_Cons_right)
  have "\<not> starts_with (c # replace_char QUOTE [QUOTE, QUOTE] v @ [QUOTE]) q"
    if "c \<noteq> QUOTE" "q \<in> set curly_quotes" for q
  proof
    assume "starts_with (c # replace_char QUOTE [QUOTE, QUOTE] v @ [QUOTE]) q"
    moreover have "QUOTE \<notin> set q" using that(2) by (auto simp: curly_quotes_def)
    ultimately have "starts_with (c # v) q"
      using prefix_of_quoted [of q "c # v"] that(1) by simp
    then show False using Cons.prems that(2) by (auto simp: sublist_Cons_right)
  qed
  with IH show ?case by auto
qed simp


lemma shell_quote_reads_back:
  assumes "shell_type \<noteq> Cmd"
    and "shell_type = PowerShell \<Longrightarrow> \<forall>q \<in> set curly_quotes. \<not> contains v q"
  obtains w where "shell_quote v shell_type = Some w" "read_word shell_type w = Some v"
proof (cases shell_type)
  case Posix
  then show thesis using posix_reads_back that [of "shell_quote_posix v"] by (simp add: shell_quote_posix_def)
next
  case Fish
  then show thesis using fish_reads_back [of v] that [of "shell_quote_fish v"]
    by (simp add: shell_quote_fish_def fish_body_def)
next
  case PowerShell
  then show thesis using powershell_reads_back assms(2) that [of "shell_quote_powershell v"]
    by (simp add: shell_quote_powershell_def)
qed (use assms in simp)

text \<open>C18: Quoting is safe for every shell that has a quoting rule: the shell reads the quoted text as
  one word, which is the original value byte for byte, so nothing in the value is expanded, ends
  the word or starts a command. The value may be anything for POSIX shells and fish; for PowerShell
  it must not contain one of the four curly quotes.\<close>

theorem quoting_reads_back:
  assumes "shell_type \<noteq> Cmd"
    and "shell_type = PowerShell \<longrightarrow> (\<forall>q \<in> set curly_quotes. \<not> contains v q)"
  shows "\<exists>w. shell_quote v shell_type = Some w \<and> read_word shell_type w = Some v"
  using shell_quote_reads_back [OF assms(1)] assms(2) by metis

theorem quoting_reads_back_witness:
  "\<exists>w. shell_quote (''it'' @ [QUOTE] @ ''s'') PowerShell = Some w \<and>
       read_word PowerShell w = Some (''it'' @ [QUOTE] @ ''s'')"
  by (rule quoting_reads_back) (simp_all add: curly_quotes_def sublist_code)

text \<open>The directory prefix of a command line is a fixed text followed by one word which the shell
  reads as the directory: no directory name can smuggle in a command.\<close>

theorem cd_prefix_is_inert:
  assumes "shell_type \<noteq> Cmd"
    and "shell_type = PowerShell \<longrightarrow> (\<forall>q \<in> set curly_quotes. \<not> contains cwd q)"
  shows "\<exists>w. cd_prefix shell_type cwd = Some (
      (case shell_type of
         Posix \<Rightarrow> ''cd '' @ [DQUOTE] @ ''$HOME'' @ [DQUOTE] @ '' && cd ''
       | Fish \<Rightarrow> ''cd '' @ [DQUOTE] @ ''$HOME'' @ [DQUOTE] @ ''; and cd ''
       | _ \<Rightarrow> ''Set-Location -LiteralPath $env:USERPROFILE; Set-Location -LiteralPath '') @ w) \<and>
    read_word shell_type w = Some cwd"
proof -
  obtain w where "shell_quote cwd shell_type = Some w" "read_word shell_type w = Some cwd"
    using shell_quote_reads_back [OF assms(1)] assms(2) by metis
  then show ?thesis using assms(1) by (cases shell_type) (auto simp: cd_prefix_def)
qed

theorem cd_prefix_is_inert_witness:
  "\<exists>w. cd_prefix Fish (''a'' @ [QUOTE] @ ''; rm b'') = Some (''cd '' @ [DQUOTE] @ ''$HOME'' @ [DQUOTE] @ ''; and cd '' @ w) \<and>
    read_word Fish w = Some (''a'' @ [QUOTE] @ ''; rm b'')"
  using cd_prefix_is_inert [of Fish "''a'' @ [QUOTE] @ ''; rm b''"] by simp

definition native_windows :: "string \<Rightarrow> bool" where
  "native_windows r \<longleftrightarrow> drive_path r \<or> starts_with r [BACKSLASH, BACKSLASH]"

lemma set_backslashes: "c \<in> set (replace_char (CHR ''/'') [BACKSLASH] p) \<Longrightarrow> c \<in> set p \<or> c = BACKSLASH"
  by (induction p) (auto split: if_splits)

lemma has_control_slashes: "has_control (slashes p) \<Longrightarrow> has_control p"
  using set_slashes by (fastforce simp: has_control_def)

text \<open>For the Windows shells a canonical path that is let through is native: it starts with a
  drive letter, a colon and a slash, or with two backslashes, and no NUL or line break is in it.\<close>

theorem canonical_path_is_native:
  assumes "canonical_path_for_shell p shell_type = Inr r" and "shell_type = PowerShell \<or> shell_type = Cmd"
  shows "native_windows r \<and> \<not> has_control r"
proof -
  have ctl: "\<not> has_control p" using assms(1)
    by (auto simp: canonical_path_for_shell_def has_control_def split: if_splits)
  let ?n = "slashes p"
  have ctl_slashes: "\<not> has_control ?n" using ctl has_control_slashes by blast
  have form: "windows_form ?n = Some r"
    using assms by (auto simp: canonical_path_for_shell_def split: if_splits option.splits)
  consider (drive) "drive_path ?n" "r = ?n" | (slash) "slash_drive_path ?n" "r = drop 1 ?n"
    | (unc) "starts_with ?n ''//''" "r = replace_char (CHR ''/'') [BACKSLASH] ?n"
    using form unfolding windows_form_def by (metis option.inject option.distinct(1))
  then show ?thesis
  proof cases
    case drive
    then show ?thesis using ctl_slashes by (simp add: native_windows_def)
  next
    case slash
    have "drive_path r"
      using slash by (auto simp: slash_drive_path_def drive_path_def numeral_2_eq_2 numeral_3_eq_3)
    moreover have "\<not> has_control r"
      unfolding slash(2) using ctl_slashes by (auto simp: has_control_def dest: in_set_dropD)
    ultimately show ?thesis by (simp add: native_windows_def)
  next
    case unc
    then obtain q where "?n = ''//'' @ q" by (auto simp: prefix_def)
    then have "starts_with r [BACKSLASH, BACKSLASH]" using unc(2) by simp
    moreover have "\<not> has_control r"
      unfolding unc(2) using set_backslashes ctl_slashes by (force simp: has_control_def)
    ultimately show ?thesis by (simp add: native_windows_def)
  qed
qed

lemma canonical_sample:
  "canonical_path_for_shell ''/C:/Users'' Cmd = Inr ''C:/Users''"
  by (simp add: canonical_path_for_shell_def windows_form_def slashes_def drive_path_def slash_drive_path_def Let_def
      is_ascii_alphabetic_def is_ascii_upper_def is_ascii_lower_def byte_val_def)

theorem canonical_path_is_native_witness: "native_windows ''C:/Users'' \<and> \<not> has_control ''C:/Users''"
  by (rule canonical_path_is_native [OF canonical_sample]) simp

section \<open>Where the code departs from its contract\<close>

text \<open>The root directory becomes the workspace directory: an absolute path without names loses its
  slash.\<close>

lemma trim_single: "visible c \<Longrightarrow> trim [c] = [c]"
  using trim_end_visible [of c "[]"] by (simp add: trim_def trim_start_visible)

lemma root_becomes_the_workspace: "resolve_workspace_path ''/'' = Inr ''.''"
  using trim_single [of "CHR ''/''"] visible_samples segments_root
  by (simp add: resolve_workspace_path_def has_control_def slashes_def Let_def)

text \<open>A path under a directory named by a tilde passes when a dot segment is in front of it, and the
  result is the path the guard refuses when it is given.\<close>

lemma tilde_survives_behind_a_dot:
  "resolve_workspace_path ''./~/x'' = Inr ''~/x''"
  "\<exists>m. resolve_workspace_path ''~/x'' = Inl m"
proof -
  have v: "visible (CHR ''~'')" by (simp add: visible_def ascii_ws_def byte_val_def)
  show "resolve_workspace_path ''./~/x'' = Inr ''~/x''"
    using trim_between [of "CHR ''.''" "CHR ''x''" "''/~/''"] visible_samples
    by (simp add: resolve_workspace_path_def has_control_def slashes_def segments_def Let_def)
  show "\<exists>m. resolve_workspace_path ''~/x'' = Inl m"
    using trim_between [of "CHR ''~''" "CHR ''x''" "''/''"] visible_samples v
    by (simp add: resolve_workspace_path_def has_control_def slashes_def segments_def Let_def)
qed

text \<open>A curly quote in a value ends the quoted string of PowerShell: the quoted value is not one
  word.\<close>

lemma curly_quote_breaks_out:
  assumes "q \<in> set curly_quotes"
  shows "\<exists>w. shell_quote (q @ ''; x'') PowerShell = Some w \<and> read_word PowerShell w = None"
  using assms by (auto simp: shell_quote_powershell_def curly_quotes_def)

text \<open>The PowerShell command for the first \<open>n\<close> bytes of a file slices the range \<open>0..n\<close>, which is
  inclusive and has \<open>n + 1\<close> elements.\<close>

lemma powershell_head_is_inclusive:
  "head_bytes_cmd PowerShell v n = ''[System.IO.File]::ReadAllBytes('' @ v @ '')[0..'' @ show_nat n @ '']''"
  by simp

end
