(* ===== verification/Shell_Lexer.thy ===== *)
theory Shell_Lexer
  imports Prelude
begin

text \<open>
  The shell lexer of the command policy, \<^verbatim>\<open>crates/miaominal-agent/src/policy/shell.rs\<close>. The
  code's \<^verbatim>\<open>chars\<close> and index \<^verbatim>\<open>i\<close> are the field \<open>input\<close>, the characters from index \<^verbatim>\<open>i\<close> on:
  \<^verbatim>\<open>self.i += n\<close> drops \<open>n\<close> of them and \<^verbatim>\<open>peek(n)\<close> looks at the \<open>n\<close>-th. Every loop that moves the
  index is a recursion on the input; \<open>step_shrinks\<close> shows that one round of \<^verbatim>\<open>run\<close> consumes
  input, so the main loop ends.
\<close>

section \<open>State\<close>

record redirect =
  op :: string
  target :: string
  fd_dup :: bool

record segment =
  words :: "string list"
  redirects :: "redirect list"

datatype ShellDialect = PosixDialect | PowerShellDialect | CmdDialect

record parsed =
  segments_of :: "segment list"
  substitutions :: "string list"
  unparsable :: bool
  ifs :: bool

record pending_heredoc =
  delimiter :: string
  strip_tabs :: bool
  segment_index :: nat
  redirect_index :: nat

record lexer =
  dialect :: ShellDialect
  input :: string
  out :: parsed
  seg :: segment
  word :: string
  in_word :: bool
  pending_redirect :: "string option"
  heredocs :: "pending_heredoc list"

definition is_output :: "redirect \<Rightarrow> bool" where
  "is_output r \<longleftrightarrow> CHR ''>'' \<in> set (op r)"

definition no_segment :: segment where
  "no_segment = \<lparr>words = [], redirects = []\<rparr>"

definition no_output :: parsed where
  "no_output = \<lparr>segments_of = [], substitutions = [], unparsable = False, ifs = False\<rparr>"

definition lexer_start :: "string \<Rightarrow> ShellDialect \<Rightarrow> lexer" where
  "lexer_start command d =
     \<lparr>dialect = d, input = command, out = no_output, seg = no_segment, word = [], in_word = False,
      pending_redirect = None, heredocs = []\<rparr>"

definition peek :: "lexer \<Rightarrow> nat \<Rightarrow> char option" where
  "peek l n = (if n < length (input l) then Some (input l ! n) else None)"

definition skip :: "nat \<Rightarrow> lexer \<Rightarrow> lexer" where
  "skip n l = l\<lparr>input := drop n (input l)\<rparr>"

definition push_word :: "string \<Rightarrow> lexer \<Rightarrow> lexer" where
  "push_word s l = l\<lparr>word := word l @ s\<rparr>"

definition enter_word :: "lexer \<Rightarrow> lexer" where
  "enter_word l = l\<lparr>in_word := True\<rparr>"

definition flag_unparsable :: "lexer \<Rightarrow> lexer" where
  "flag_unparsable l = l\<lparr>out := (out l)\<lparr>unparsable := True\<rparr>\<rparr>"

definition flag_ifs :: "lexer \<Rightarrow> lexer" where
  "flag_ifs l = l\<lparr>out := (out l)\<lparr>ifs := True\<rparr>\<rparr>"

definition push_substitution :: "string \<Rightarrow> lexer \<Rightarrow> lexer" where
  "push_substitution s l = l\<lparr>out := (out l)\<lparr>substitutions := substitutions (out l) @ [s]\<rparr>\<rparr>"

definition push_redirect :: "redirect \<Rightarrow> lexer \<Rightarrow> lexer" where
  "push_redirect r l = l\<lparr>seg := (seg l)\<lparr>redirects := redirects (seg l) @ [r]\<rparr>\<rparr>"

section \<open>Words, redirections and segments\<close>

definition all_digits :: "string \<Rightarrow> bool" where
  "all_digits w \<longleftrightarrow> list_all is_ascii_digit w"

definition end_word :: "lexer \<Rightarrow> lexer" where
  "end_word l =
     (if \<not> in_word l then l
      else
        let w = word l;
            l' = l\<lparr>word := [], in_word := False, pending_redirect := None\<rparr>
        in case pending_redirect l of
             Some p \<Rightarrow>
               if p = ''<<'' \<or> p = ''<<-'' then
                 push_redirect \<lparr>op = ''<<'', target = [], fd_dup = False\<rparr> l'
                   \<lparr>heredocs := heredocs l @
                      [\<lparr>delimiter = w, strip_tabs = (p = ''<<-''),
                        segment_index = length (segments_of (out l)),
                        redirect_index = length (redirects (seg l))\<rparr>]\<rparr>
               else
                 push_redirect
                   \<lparr>op = p, target = w,
                    fd_dup = ((p = ''>&'' \<or> p = ''<&'') \<and> (w = ''-'' \<or> all_digits w))\<rparr> l'
           | None \<Rightarrow> l'\<lparr>seg := (seg l)\<lparr>words := words (seg l) @ [w]\<rparr>\<rparr>)"

definition drop_pending :: "lexer \<Rightarrow> lexer" where
  \<comment> \<open>a separator after an operator without target\<close>
  "drop_pending l =
     (case pending_redirect l of
        None \<Rightarrow> l
      | Some _ \<Rightarrow> flag_unparsable (l\<lparr>pending_redirect := None\<rparr>))"

definition flush_segment :: "lexer \<Rightarrow> lexer" where
  "flush_segment l =
     (if words (seg l) \<noteq> [] \<or> redirects (seg l) \<noteq> []
      then l\<lparr>out := (out l)\<lparr>segments_of := segments_of (out l) @ [seg l]\<rparr>, seg := no_segment\<rparr>
      else l)"

definition separator :: "lexer \<Rightarrow> lexer" where
  "separator l = flush_segment (drop_pending (end_word l))"

definition start_redirect :: "string \<Rightarrow> nat \<Rightarrow> lexer \<Rightarrow> lexer" where
  "start_redirect p len l =
     skip len ((if pending_redirect l \<noteq> None then flag_unparsable l else l)\<lparr>pending_redirect := Some p\<rparr>)"

section \<open>Expansions\<close>

fun close_at :: "char \<Rightarrow> char \<Rightarrow> nat \<Rightarrow> char option \<Rightarrow> string \<Rightarrow> nat option" where
  \<comment> \<open>the index of the delimiter that closes the first one of the text\<close>
  "close_at opn cls depth quote [] = None"
| "close_at opn cls depth quote (c # s) =
     (case quote of
        Some q \<Rightarrow>
          if c = BACKSLASH \<and> q = DQUOTE then
            (case s of [] \<Rightarrow> None | _ # s' \<Rightarrow> map_option (\<lambda>k. k + 2) (close_at opn cls depth quote s'))
          else map_option Suc (close_at opn cls depth (if c = q then None else quote) s)
      | None \<Rightarrow>
          if c = BACKSLASH then
            (case s of [] \<Rightarrow> None | _ # s' \<Rightarrow> map_option (\<lambda>k. k + 2) (close_at opn cls depth quote s'))
          else if c = QUOTE \<or> c = DQUOTE then map_option Suc (close_at opn cls depth (Some c) s)
          else if c = opn then map_option Suc (close_at opn cls (depth + 1) None s)
          else if c = cls then
            (if depth - 1 = 0 then Some 0 else map_option Suc (close_at opn cls (depth - 1) None s))
          else map_option Suc (close_at opn cls depth None s))"

definition capture_balanced :: "nat \<Rightarrow> char \<Rightarrow> char \<Rightarrow> lexer \<Rightarrow> string \<times> string \<times> bool" where
  \<comment> \<open>the inner text, the input after the closing delimiter, and whether there is one; the opening
     delimiter is at the given offset of the input\<close>
  "capture_balanced offset opn cls l =
     (let s = drop offset (input l) in
      case close_at opn cls 0 None s of
        Some k \<Rightarrow> (take (k - 1) (drop 1 s), drop (k + 1) s, True)
      | None \<Rightarrow> (drop 1 s, [], False))"

definition after_capture :: "string \<times> string \<times> bool \<Rightarrow> lexer \<Rightarrow> lexer" where
  "after_capture cap l =
     (case cap of (_, rest, closed) \<Rightarrow> (if closed then l else flag_unparsable l)\<lparr>input := rest\<rparr>)"

definition ellipsis :: string where
  "ellipsis = [CHR 0xE2, CHR 0x80, CHR 0xA6]"

fun add_inner :: "char \<Rightarrow> string \<times> string \<times> bool \<Rightarrow> string \<times> string \<times> bool" where
  "add_inner c (inner, rest, closed) = (c # inner, rest, closed)"

fun backtick_body :: "string \<Rightarrow> string \<times> string \<times> bool" where
  "backtick_body [] = ([], [], False)"
| "backtick_body (c # s) =
     (if c = BACKTICK then ([], s, True)
      else if c = BACKSLASH then
        (case s of [] \<Rightarrow> add_inner c (backtick_body s) | d # s' \<Rightarrow> add_inner d (backtick_body s'))
      else add_inner c (backtick_body s))"

definition backtick :: "lexer \<Rightarrow> lexer" where
  "backtick l =
     (case backtick_body (drop 1 (input l)) of
        (inner, rest, closed) \<Rightarrow>
          push_substitution inner
            (push_word ([BACKTICK] @ ellipsis @ [BACKTICK])
              (after_capture (inner, rest, closed) (enter_word l))))"

definition dollar :: "lexer \<Rightarrow> lexer" where
  "dollar l0 =
     (let l = enter_word l0 in
      if peek l 1 = Some (CHR ''('') \<and> peek l 2 = Some (CHR ''('') then
        let cap = capture_balanced 1 (CHR ''('') (CHR '')'') l
        in push_word (''$(('' @ ellipsis @ ''))'') (after_capture cap l)
      else if peek l 1 = Some (CHR ''('') then
        let cap = capture_balanced 1 (CHR ''('') (CHR '')'') l
        in push_substitution (fst cap) (push_word (''$('' @ ellipsis @ '')'') (after_capture cap l))
      else if peek l 1 = Some (CHR ''{'') then
        let cap = capture_balanced 1 (CHR ''{'') (CHR ''}'') l;
            inner = fst cap;
            l1 = after_capture cap l;
            l2 = (if contains inner ''IFS'' then flag_ifs l1 else l1);
            l3 = (if contains inner ''$('' \<or> BACKTICK \<in> set inner then push_substitution inner l2 else l2)
        in push_word (''${'' @ inner @ ''}'') l3
      else
        let l1 = (if take 3 (drop 1 (input l)) = ''IFS'' then flag_ifs l else l)
        in skip 1 (push_word ''$'' l1))"

definition redirect_op :: "char \<Rightarrow> char option \<Rightarrow> char option \<Rightarrow> string \<times> nat" where
  "redirect_op c next next2 =
     (if c = CHR ''>'' then
        (if next = Some (CHR ''>'') then (''>>'', 2)
         else if next = Some (CHR ''|'') then (''>|'', 2)
         else if next = Some (CHR ''&'') then (''>&'', 2)
         else (''>'', 1))
      else if c = CHR ''<'' then
        (if next = Some (CHR ''<'') \<and> next2 = Some (CHR ''<'') then (''<<<'', 3)
         else if next = Some (CHR ''<'') \<and> next2 = Some (CHR ''-'') then (''<<-'', 3)
         else if next = Some (CHR ''<'') then (''<<'', 2)
         else if next = Some (CHR ''>'') then (''<>'', 2)
         else if next = Some (CHR ''&'') then (''<&'', 2)
         else (''<'', 1))
      else (''<'', 1))"

definition redirect_step :: "char \<Rightarrow> lexer \<Rightarrow> lexer" where
  "redirect_step c l =
     (if peek l 1 = Some (CHR ''('') then
        let l1 = end_word l;
            cap = capture_balanced 1 (CHR ''('') (CHR '')'') l1
        in enter_word
             (push_word ((if c = CHR ''<'' then ''<('' else ''>('') @ ellipsis @ '')'')
               (push_substitution (fst cap) (after_capture cap l1)))
      else
        let l1 = (if in_word l \<and> word l \<noteq> [] \<and> all_digits (word l)
                  then l\<lparr>word := [], in_word := False\<rparr> else end_word l);
            (p, len) = redirect_op c (peek l1 1) (peek l1 2)
        in start_redirect p len l1)"

section \<open>Input is consumed\<close>

lemma skip_simps [simp]:
  "input (skip n l) = drop n (input l)" "dialect (skip n l) = dialect l" "out (skip n l) = out l"
  "seg (skip n l) = seg l" "word (skip n l) = word l" "in_word (skip n l) = in_word l"
  "pending_redirect (skip n l) = pending_redirect l" "heredocs (skip n l) = heredocs l"
  by (simp_all add: skip_def)

lemma setter_input [simp]:
  "input (push_word w l) = input l" "input (enter_word l) = input l" "input (flag_unparsable l) = input l"
  "input (flag_ifs l) = input l" "input (push_substitution w l) = input l" "input (push_redirect r l) = input l"
  "input (end_word l) = input l" "input (drop_pending l) = input l" "input (flush_segment l) = input l"
  "input (separator l) = input l"
  by (simp_all add: push_word_def enter_word_def flag_unparsable_def flag_ifs_def push_substitution_def
      push_redirect_def end_word_def drop_pending_def flush_segment_def separator_def Let_def
      split: option.split)

lemma setter_dialect [simp]:
  "dialect (push_word w l) = dialect l" "dialect (enter_word l) = dialect l" "dialect (flag_unparsable l) = dialect l"
  "dialect (flag_ifs l) = dialect l" "dialect (push_substitution w l) = dialect l" "dialect (push_redirect r l) = dialect l"
  "dialect (end_word l) = dialect l" "dialect (drop_pending l) = dialect l" "dialect (flush_segment l) = dialect l"
  "dialect (separator l) = dialect l"
  by (simp_all add: push_word_def enter_word_def flag_unparsable_def flag_ifs_def push_substitution_def
      push_redirect_def end_word_def drop_pending_def flush_segment_def separator_def Let_def
      split: option.split)

lemma after_capture_input [simp]:
  "input (after_capture cap l) = fst (snd cap)" "dialect (after_capture cap l) = dialect l"
  by (simp_all add: after_capture_def flag_unparsable_def split: prod.split)

lemma peek_input: "input a = input b \<Longrightarrow> peek a = peek b"
  by (rule ext) (simp add: peek_def)

lemma peek_simps [simp]:
  "peek (push_word w l) = peek l" "peek (enter_word l) = peek l" "peek (end_word l) = peek l"
  by (rule peek_input, simp)+

lemma start_redirect_input [simp]:
  "input (start_redirect p n l) = drop n (input l)" "dialect (start_redirect p n l) = dialect l"
  by (simp_all add: start_redirect_def)

lemma capture_shrinks:
  "length (fst (snd (capture_balanced n opn cls l))) \<le> length (input l) - n"
  by (auto simp: capture_balanced_def Let_def split: option.split)

lemma capture_input: "input a = input b \<Longrightarrow> capture_balanced n opn cls a = capture_balanced n opn cls b"
  by (simp add: capture_balanced_def)

lemma add_inner_rest [simp]: "snd (add_inner c r) = snd r"
  by (cases r) simp

lemma backtick_body_shrinks: "length (fst (snd (backtick_body s))) \<le> length s"
proof (induction s rule: backtick_body.induct)
  case (2 c s)
  show ?case
  proof (cases "c = BACKTICK \<or> c \<noteq> BACKSLASH")
    case True
    with "2.IH"(3) show ?thesis by auto
  next
    case False
    with "2.IH"(2) show ?thesis by (cases s) (auto intro: le_SucI)
  qed
qed simp

lemma backtick_shrinks:
  "input l \<noteq> [] \<Longrightarrow> length (input (backtick l)) < length (input l)"
  "dialect (backtick l) = dialect l"
  using backtick_body_shrinks [of "drop 1 (input l)"]
  by (auto simp: backtick_def split: prod.split) (cases "input l"; simp)

lemma dollar_dialect [simp]: "dialect (dollar l) = dialect l"
  by (simp add: dollar_def Let_def)

lemma dollar_shrinks: "input l \<noteq> [] \<Longrightarrow> length (input (dollar l)) < length (input l)"
proof -
  assume ne: "input l \<noteq> []"
  have "length (fst (snd (capture_balanced 1 opn cls (enter_word l)))) < length (input l)" for opn cls
    using capture_shrinks [of 1 opn cls "enter_word l"] ne by (cases "input l") auto
  moreover have "length (input l) - 1 < length (input l)" using ne by simp
  ultimately show ?thesis by (simp add: dollar_def Let_def)
qed

lemma expansion_shrinks:
  "input l = c # s \<Longrightarrow> length (input (dollar l)) < Suc (length s)"
  "input l = c # s \<Longrightarrow> length (input (backtick l)) < Suc (length s)"
  using dollar_shrinks [of l] backtick_shrinks(1) [of l] by simp_all

lemma redirect_op_pos: "redirect_op c a b = (p, n) \<Longrightarrow> 0 < n"
  by (auto simp: redirect_op_def split: if_splits)

lemma redirect_dialect [simp]: "dialect (redirect_step c l) = dialect l"
  by (simp add: redirect_step_def Let_def split: prod.split)

lemma redirect_shrinks: "input l \<noteq> [] \<Longrightarrow> length (input (redirect_step c l)) < length (input l)"
proof -
  assume ne: "input l \<noteq> []"
  have "length (fst (snd (capture_balanced 1 opn cls (end_word l)))) < length (input l)" for opn cls
    using capture_shrinks [of 1 opn cls "end_word l"] ne by (cases "input l") auto
  then show ?thesis using ne by (auto simp: redirect_step_def Let_def dest!: redirect_op_pos split: prod.split)
qed

section \<open>Quoted text, here-documents and the main loop\<close>

definition double_step :: "char \<Rightarrow> lexer \<Rightarrow> lexer" where
  \<comment> \<open>one round of the loop of \<^verbatim>\<open>double_quoted\<close>, for a character that does not close the quote\<close>
  "double_step c l =
     (if c = BACKSLASH \<and> dialect l = PosixDialect then
        (case peek l 1 of
           Some next \<Rightarrow>
             if next = NL then skip 2 l
             else if next \<in> {CHR ''$'', BACKTICK, DQUOTE, BACKSLASH} then skip 2 (push_word [next] l)
             else skip 1 (push_word [BACKSLASH] l)
         | None \<Rightarrow> skip 1 (push_word [BACKSLASH] l))
      else if c = BACKTICK \<and> dialect l = PowerShellDialect then
        (case peek l 1 of Some next \<Rightarrow> skip 2 (push_word [next] l) | None \<Rightarrow> skip 2 l)
      else if c = BACKTICK \<and> dialect l = PosixDialect then backtick l
      else if c = CHR ''$'' \<and> dialect l \<noteq> CmdDialect then dollar l
      else skip 1 (push_word [c] l))"

lemma double_step_shrinks:
  assumes "input l = c # s"
  shows "length (input (double_step c l)) < length (input l)" "dialect (double_step c l) = dialect l"
proof -
  have "length s - Suc 0 < Suc (length s)" by simp
  then show "length (input (double_step c l)) < length (input l)" "dialect (double_step c l) = dialect l"
    using expansion_shrinks [OF assms] backtick_shrinks(2) [of l]
    by (simp_all add: double_step_def assms split: option.split)
qed

lemma double_step_shorter: "input l = c # s \<Longrightarrow> length (input (double_step c l)) < Suc (length s)"
  using double_step_shrinks(1) [of l c s] by simp

function double_loop :: "lexer \<Rightarrow> lexer" where
  \<comment> \<open>the loop of \<^verbatim>\<open>double_quoted\<close>, behind the opening quote\<close>
  "double_loop l =
     (case input l of
        [] \<Rightarrow> flag_unparsable l
      | c # s \<Rightarrow> if c = DQUOTE then skip 1 l else double_loop (double_step c l))"
  by pat_completeness auto
termination
  by (relation "measure (length \<circ> input)") (auto simp: double_step_shorter)

declare double_loop.simps [simp del]

definition double_quoted :: "lexer \<Rightarrow> lexer" where
  "double_quoted l = double_loop (skip 1 (enter_word l))"

definition single_quoted :: "lexer \<Rightarrow> lexer" where
  \<comment> \<open>the arm of \<^verbatim>\<open>run\<close> for a single quote\<close>
  "single_quoted l0 =
     (let l = skip 1 (enter_word l0) in
      case position (\<lambda>c. c = QUOTE) (input l) of
        Some n \<Rightarrow> skip (n + 1) (push_word (take n (input l)) l)
      | None \<Rightarrow> (flag_unparsable (push_word (input l) l))\<lparr>input := []\<rparr>)"

definition heredoc_line_end :: "string \<Rightarrow> nat" where
  "heredoc_line_end s = (case position (\<lambda>c. c = NL) s of None \<Rightarrow> length s | Some n \<Rightarrow> n)"

definition closes_heredoc :: "pending_heredoc \<Rightarrow> string \<Rightarrow> bool" where
  "closes_heredoc h line \<longleftrightarrow>
     trim_end_matches (\<lambda>c. c = CR)
       (if strip_tabs h then trim_start_matches (\<lambda>c. c = TAB) line else line) = delimiter h"

function read_body :: "pending_heredoc \<Rightarrow> string \<Rightarrow> string \<Rightarrow> string \<times> string" where
  \<comment> \<open>the body of one here-document, and the input behind it\<close>
  "read_body h body s =
     (if s = [] then (body, [])
      else
        let line = take (heredoc_line_end s) s;
            rest = drop (heredoc_line_end s + 1) s
        in if closes_heredoc h line then (body, rest)
           else read_body h (body @ line @ [NL]) rest)"
  by pat_completeness auto
termination by (relation "measure (\<lambda>(h, body, s). length s)") auto

declare read_body.simps [simp del]

definition set_body :: "pending_heredoc \<Rightarrow> string \<Rightarrow> segment list \<Rightarrow> segment list" where
  "set_body h body segs =
     (if segment_index h < length segs \<and> redirect_index h < length (redirects (segs ! segment_index h))
      then
        let sg = segs ! segment_index h;
            r = redirects sg ! redirect_index h
        in segs[segment_index h := sg\<lparr>redirects := (redirects sg)[redirect_index h := r\<lparr>target := body\<rparr>]\<rparr>]
      else segs)"

fun read_bodies :: "pending_heredoc list \<Rightarrow> lexer \<Rightarrow> lexer" where
  "read_bodies [] l = l"
| "read_bodies (h # hs) l =
     (case read_body h [] (input l) of
        (body, rest) \<Rightarrow>
          read_bodies hs
            (l\<lparr>input := rest, out := (out l)\<lparr>segments_of := set_body h body (segments_of (out l))\<rparr>\<rparr>))"

definition read_heredoc_bodies :: "lexer \<Rightarrow> lexer" where
  "read_heredoc_bodies l = read_bodies (heredocs l) (l\<lparr>heredocs := []\<rparr>)"

definition is_escape :: "ShellDialect \<Rightarrow> char \<Rightarrow> bool" where
  "is_escape d c =
     (case d of
        PosixDialect \<Rightarrow> c = BACKSLASH
      | PowerShellDialect \<Rightarrow> c = BACKTICK
      | CmdDialect \<Rightarrow> c = CHR ''^'')"

definition escape_step :: "lexer \<Rightarrow> lexer" where
  "escape_step l =
     (case peek l 1 of
        None \<Rightarrow> skip 1 l
      | Some next \<Rightarrow>
          if next = NL then skip 2 l
          else if next = CR \<and> peek l 2 = Some NL then skip 3 l
          else skip 2 (enter_word (push_word [next] l)))"

definition ampersand :: "lexer \<Rightarrow> lexer" where
  "ampersand l =
     (if peek l 1 = Some (CHR ''&'') then skip 2 (separator l)
      else if peek l 1 = Some (CHR ''>'') then
        (if peek l 2 = Some (CHR ''>'') then start_redirect ''&>>'' 3 (end_word l)
         else start_redirect ''&>'' 2 (end_word l))
      else skip 1 (separator l))"

definition step :: "char \<Rightarrow> lexer \<Rightarrow> lexer" where
  \<comment> \<open>one round of the loop of \<^verbatim>\<open>run\<close>, for the first character of the input\<close>
  "step c l =
     (if is_escape (dialect l) c then escape_step l
      else if c = CHR '' '' \<or> c = TAB then skip 1 (end_word l)
      else if c = QUOTE \<and> dialect l \<noteq> CmdDialect then single_quoted l
      else if c = DQUOTE then double_quoted l
      else if c = BACKTICK \<and> dialect l = PosixDialect then backtick l
      else if c = CHR ''$'' \<and> dialect l \<noteq> CmdDialect then dollar l
      else if c = CHR ''#'' \<and> \<not> in_word l \<and> dialect l \<noteq> CmdDialect then
        l\<lparr>input := dropWhile (\<lambda>c. c \<noteq> NL) (input l)\<rparr>
      else if c = CHR ''|'' then
        skip (if peek l 1 = Some (CHR ''|'') \<or> peek l 1 = Some (CHR ''&'') then 2 else 1) (separator l)
      else if c = CHR ''&'' then ampersand l
      else if c = CHR '';'' then
        skip (if peek l 1 = Some (CHR '';'') then 2 else 1) (separator l)
      else if c = NL then read_heredoc_bodies (skip 1 (separator l))
      else if c = CR then skip 1 (separator l)
      else if c = CHR ''('' \<and> \<not> in_word l then skip 1 (separator l)
      else if c = CHR '')'' then skip 1 (separator l)
      else if c = CHR ''>'' \<or> c = CHR ''<'' then redirect_step c l
      else skip 1 (enter_word (push_word [c] l)))"

lemma double_loop_shrinks:
  "length (input (double_loop l)) \<le> length (input l)" "dialect (double_loop l) = dialect l"
proof -
  have "length (input (double_loop l)) \<le> length (input l) \<and> dialect (double_loop l) = dialect l"
  proof (induction l rule: double_loop.induct)
    case (1 l)
    show ?case
    proof (cases "input l")
      case Nil
      then show ?thesis by (simp add: double_loop.simps [of l])
    next
      case (Cons c s)
      with "1.IH" [OF Cons] double_step_shrinks [OF Cons] show ?thesis
        by (auto simp: double_loop.simps [of l])
    qed
  qed
  then show "length (input (double_loop l)) \<le> length (input l)" "dialect (double_loop l) = dialect l"
    by simp_all
qed

lemma read_body_shrinks: "length (snd (read_body h body s)) \<le> length s"
proof (induction h body s rule: read_body.induct)
  case (1 h body s)
  show ?case
  proof (cases "s = []")
    case True
    then show ?thesis by (simp add: read_body.simps [of h body "[]"])
  next
    case False
    have "length (snd (read_body h (body @ take (heredoc_line_end s) s @ [NL]) (drop (heredoc_line_end s + 1) s)))
        \<le> length s" if "\<not> closes_heredoc h (take (heredoc_line_end s) s)"
      using "1.IH" [OF False refl refl that] by simp
    with False show ?thesis by (simp add: read_body.simps [of h body s] Let_def)
  qed
qed

lemma read_bodies_shrinks: "length (input (read_bodies hs l)) \<le> length (input l)"
proof (induction hs arbitrary: l)
  case (Cons h hs)
  obtain body rest where r: "read_body h [] (input l) = (body, rest)" by (cases "read_body h [] (input l)")
  have "length rest \<le> length (input l)" using read_body_shrinks [of h "[]" "input l"] r by simp
  with r Cons [of "l\<lparr>input := rest, out := (out l)\<lparr>segments_of := set_body h body (segments_of (out l))\<rparr>\<rparr>"]
  show ?case by simp
qed simp

lemma single_quoted_shrinks: "input l = c # s \<Longrightarrow> length (input (single_quoted l)) < length (input l)"
  by (auto simp: single_quoted_def Let_def split: option.split)

lemma step_shrinks:
  assumes "input l = c # s"
  shows "length (input (step c l)) < length (input l)"
proof -
  have "length (input (double_quoted l)) < length (input l)"
    using double_loop_shrinks(1) [of "skip 1 (enter_word l)"] assms by (simp add: double_quoted_def)
  moreover have "length (input (read_heredoc_bodies (skip 1 (separator l)))) < length (input l)"
    using read_bodies_shrinks [of "heredocs (separator l)" "(skip 1 (separator l))\<lparr>heredocs := []\<rparr>"] assms
    by (simp add: read_heredoc_bodies_def)
  moreover have "length (input (redirect_step c l)) < length (input l)"
    using redirect_shrinks [of l c] assms by simp
  moreover have "c = CHR ''#'' \<Longrightarrow> length (dropWhile (\<lambda>c. c \<noteq> NL) (input l)) < length (input l)"
    using length_dropWhile_le [of "\<lambda>c. c \<noteq> NL" s] assms by simp
  moreover have "length (input (escape_step l)) < length (input l)" "length (input (ampersand l)) < length (input l)"
    using assms by (auto simp: escape_step_def ampersand_def split: option.split)
  ultimately show ?thesis
    using expansion_shrinks [OF assms] single_quoted_shrinks [OF assms] assms
    by (simp add: step_def)
qed

function lex :: "lexer \<Rightarrow> lexer" where
  \<comment> \<open>the loop of \<^verbatim>\<open>run\<close>\<close>
  "lex l = (case input l of [] \<Rightarrow> l | c # s \<Rightarrow> lex (step c l))"
  by pat_completeness auto
termination
  by (relation "measure (length \<circ> input)") (use step_shrinks in auto)

declare lex.simps [simp del]

definition run :: "lexer \<Rightarrow> lexer" where
  "run l = (separator (lex l))\<lparr>heredocs := []\<rparr>"

definition parse_dialect :: "string \<Rightarrow> ShellDialect \<Rightarrow> parsed" where
  "parse_dialect command d = out (run (lexer_start command d))"

end
