(* ===== verification/Policy_Paths.thy ===== *)
theory Policy_Paths
  imports Path_Location Agent_Error Path_Guard
begin

text \<open>
  The agent's policy of \<^verbatim>\<open>crates/miaominal-agent/src/policy/mod.rs\<close> on tools and paths: the risk
  levels, the denylist of sensitive paths, the patterns refused to grep, the denylist of command
  lines, and the guard \<open>AgentPolicy\<close> (its guard of commands is in the theory of the command
  policy). \<open>sensitive_place\<close> says what the denylist means of a path's names; the lemmas show that
  the text comparisons of the code decide exactly that.
\<close>

section \<open>Risk levels and decisions\<close>

datatype AgentRiskLevel =
    L0ReadOnly | L1LowMutation | L2ServiceImpacting | L3Dangerous | L4Forbidden

fun level :: "AgentRiskLevel \<Rightarrow> nat" where
  "level L0ReadOnly = 0"
| "level L1LowMutation = 1"
| "level L2ServiceImpacting = 2"
| "level L3Dangerous = 3"
| "level L4Forbidden = 4"

lemma level_inject [simp]: "level a = level b \<longleftrightarrow> a = b"
  by (cases a; cases b) simp_all

instantiation AgentRiskLevel :: linorder
begin

definition less_eq_AgentRiskLevel :: "AgentRiskLevel \<Rightarrow> AgentRiskLevel \<Rightarrow> bool" where
  "less_eq_AgentRiskLevel a b \<longleftrightarrow> level a \<le> level b"

definition less_AgentRiskLevel :: "AgentRiskLevel \<Rightarrow> AgentRiskLevel \<Rightarrow> bool" where
  "less_AgentRiskLevel a b \<longleftrightarrow> level a < level b"

instance
  by standard (auto simp: less_eq_AgentRiskLevel_def less_AgentRiskLevel_def)

end

lemmas risk_order = less_eq_AgentRiskLevel_def less_AgentRiskLevel_def

lemma least_risk [simp]: "L0ReadOnly \<le> r" and greatest_risk [simp]: "r \<le> L4Forbidden"
  by (cases r; simp add: risk_order)+

lemma top_risk [simp]: "L4Forbidden \<le> r \<longleftrightarrow> r = L4Forbidden"
  by (cases r) (simp_all add: risk_order)

lemma bot_risk [simp]: "r \<le> L0ReadOnly \<longleftrightarrow> r = L0ReadOnly"
  by (cases r) (simp_all add: risk_order)

datatype AgentPathAccess = Read | Edit

datatype AgentPolicyDecision = Allow | NeedsApproval string | Deny string

section \<open>Paths\<close>

fun collect_components :: "string list \<Rightarrow> string list \<Rightarrow> string list" where
  "collect_components components [] = components"
| "collect_components components (c # rest) =
     (if c = [] \<or> c = ''.'' then collect_components components rest
      else if c = ''..'' then collect_components (butlast components) rest
      else collect_components (components @ [c]) rest)"

definition normalize_path :: "string \<Rightarrow> string" where
  "normalize_path path =
     (let replaced = to_lowercase (slashes path);
          normalized = join ''/'' (collect_components [] (segments replaced))
      in if starts_with replaced ''/'' then ''/'' @ normalized else normalized)"

definition SENSITIVE_EXACT_PATHS :: "string list" where
  "SENSITIVE_EXACT_PATHS = [''/etc/shadow'', ''/etc/sudoers'']"

definition SENSITIVE_PATH_TREES :: "string list" where
  "SENSITIVE_PATH_TREES = [''/root'', ''/var/lib/mysql'', ''/var/lib/postgresql'']"

definition SENSITIVE_COMPONENTS :: "string list" where
  "SENSITIVE_COMPONENTS = [''.ssh'']"

definition SENSITIVE_BASENAMES :: "string list" where
  "SENSITIVE_BASENAMES = [''id_rsa'', ''id_dsa'', ''id_ecdsa'', ''id_ed25519'']"

definition SENSITIVE_BASENAME_SUFFIXES :: "string list" where
  "SENSITIVE_BASENAME_SUFFIXES = [''.env'', ''.pem'', ''.key'', ''.p12'', ''.pfx'', ''.rdp'', ''.kdbx'']"

definition SENSITIVE_BASENAME_CONTAINS :: "string list" where
  "SENSITIVE_BASENAME_CONTAINS = [''.env.'']"

definition SENSITIVE_WINDOWS_PATH_TREES :: "string list" where
  "SENSITIVE_WINDOWS_PATH_TREES = [''c:/windows/system32/config'']"

definition SENSITIVE_PATH_CONTAINS :: "string list" where
  "SENSITIVE_PATH_CONTAINS =
     [''ntds.dit'', ''appdata/roaming/mozilla/firefox/profiles'',
      ''appdata/local/google/chrome/user data/default'']"

definition path_is_within :: "string \<Rightarrow> string \<Rightarrow> bool" where
  "path_is_within path root \<longleftrightarrow>
     path = root \<or>
     (case strip_prefix root path of None \<Rightarrow> False | Some rest \<Rightarrow> starts_with rest ''/'')"

definition components_of :: "string \<Rightarrow> string list" where
  "components_of normalized = filter (\<lambda>c. c \<noteq> []) (segments normalized)"

definition basename_of :: "string list \<Rightarrow> string" where
  "basename_of components = (if components = [] then [] else last components)"

definition is_sensitive_path :: "string \<Rightarrow> bool" where
  "is_sensitive_path path =
     (let normalized = normalize_path path;
          windows_normalized = trim_start_matches (\<lambda>c. c = CHR ''/'') normalized;
          components = components_of normalized;
          basename = basename_of components
      in normalized \<in> set SENSITIVE_EXACT_PATHS
         \<or> (\<exists>root \<in> set SENSITIVE_PATH_TREES. path_is_within normalized root)
         \<or> (\<exists>c \<in> set components. c \<in> set SENSITIVE_COMPONENTS)
         \<or> basename \<in> set SENSITIVE_BASENAMES
         \<or> (\<exists>ending \<in> set SENSITIVE_BASENAME_SUFFIXES. ends_with basename ending)
         \<or> (\<exists>needle \<in> set SENSITIVE_BASENAME_CONTAINS. contains basename needle)
         \<or> (\<exists>root \<in> set SENSITIVE_WINDOWS_PATH_TREES. path_is_within windows_normalized root)
         \<or> (\<exists>needle \<in> set SENSITIVE_PATH_CONTAINS. contains normalized needle))"

definition find_test :: "string \<Rightarrow> string \<Rightarrow> string" where
  \<comment> \<open>one test of a \<^verbatim>\<open>find\<close> command, its pattern in single quotes\<close>
  "find_test flag pattern = flag @ '' '' @ [QUOTE] @ pattern @ [QUOTE]"

definition find_tests :: "string list" where
  "find_tests =
     map (find_test ''-ipath'') SENSITIVE_EXACT_PATHS
     @ concat (map (\<lambda>root. [find_test ''-ipath'' root, find_test ''-ipath'' (root @ ''/*'')])
                 SENSITIVE_PATH_TREES)
     @ map (find_test ''-iname'') SENSITIVE_COMPONENTS
     @ map (find_test ''-iname'') SENSITIVE_BASENAMES
     @ map (\<lambda>ending. find_test ''-iname'' (''*'' @ ending)) SENSITIVE_BASENAME_SUFFIXES
     @ map (\<lambda>needle. find_test ''-iname'' (''*'' @ needle @ ''*'')) SENSITIVE_BASENAME_CONTAINS
     @ concat (map (\<lambda>root. [find_test ''-ipath'' (''*'' @ root), find_test ''-ipath'' (''*'' @ root @ ''/*'')])
                 SENSITIVE_WINDOWS_PATH_TREES)
     @ map (\<lambda>needle. find_test ''-ipath'' (''*'' @ needle @ ''*'')) SENSITIVE_PATH_CONTAINS"

definition posix_find_sensitive_predicate :: string where
  "posix_find_sensitive_predicate =
     [BACKSLASH] @ ''( '' @ join '' -o '' find_tests @ '' '' @ [BACKSLASH] @ '')''"

definition is_sensitive_grep_pattern :: "string \<Rightarrow> bool" where
  "is_sensitive_grep_pattern pattern =
     (let normalized = to_lowercase pattern in
        \<exists>needle \<in> set [''private key'', ''password'', ''token'', ''secret'', ''id_rsa'', ''id_ed25519''].
          contains normalized needle)"

section \<open>The denylist of command lines\<close>

definition is_forbidden_command :: "string \<Rightarrow> bool" where
  "is_forbidden_command n \<longleftrightarrow>
     contains n '' rm -rf /''
     \<or> contains n '' rm -fr /''
     \<or> contains n '' mkfs''
     \<or> (contains n '' dd '' \<and> contains n '' of=/dev/'')
     \<or> ((contains n '' curl '' \<or> contains n '' wget '')
         \<and> (contains n '' | sh'' \<or> contains n '' | bash'' \<or> contains n ''|sh'' \<or> contains n ''|bash''))
     \<or> contains n '' eval ''
     \<or> contains n '' chmod -r 777 /''
     \<or> contains n '' iptables ''
     \<or> contains n '' ufw ''
     \<or> contains n '' format c:''
     \<or> contains n '' format /''
     \<or> contains n '' diskpart''
     \<or> contains n '' reg delete''
     \<or> contains n '' bcdedit''
     \<or> (contains n '' icacls'' \<and> contains n ''/deny'')
     \<or> contains n '' del /f /s c:''
     \<or> contains n '' rmdir /s /q c:''
     \<or> contains n '' remove-item -recurse -force c:''
     \<or> contains n '' clear-recyclebin -force''
     \<or> contains n '' stop-computer''
     \<or> contains n '' restart-computer''"

definition normalize_command :: "string \<Rightarrow> string" where
  "normalize_command command = '' '' @ join '' '' (split_whitespace (to_lowercase command)) @ '' ''"

section \<open>The guard of tools and paths\<close>

definition ALLOWED_TOOLS :: "string list" where
  "ALLOWED_TOOLS =
     [''workspace_info'', ''host_info'', ''read'', ''read_file'', ''list'', ''list_dir'', ''glob'',
      ''grep'', ''web_search'', ''web_fetch'', ''ask_user'', ''terminal_read'', ''update_plan'',
      ''job_poll'', ''run_shell'', ''shell'', ''job_start'', ''job_stop'']"

definition APPROVED_TOOLS :: "string list" where
  "APPROVED_TOOLS = [''apply_patch'', ''edit_file'', ''write_file'', ''approval'']"

definition decide :: "string \<Rightarrow> bool \<Rightarrow> AgentPolicyDecision" where
  "decide tool_name approved =
     (if tool_name \<in> set ALLOWED_TOOLS then Allow
      else if tool_name \<in> set APPROVED_TOOLS then
        (if approved then Allow
         else NeedsApproval (''tool `'' @ tool_name @ ''` can affect state or external IO''))
      else Deny ''tool is not registered in the agent policy'')"

fun enforced :: "string \<Rightarrow> AgentPolicyDecision \<Rightarrow> unit agent_result" where
  \<comment> \<open>the \<^verbatim>\<open>match\<close> of \<^verbatim>\<open>enforce\<close>, \<^verbatim>\<open>enforce_path\<close> and \<^verbatim>\<open>enforce_command\<close> on a decision\<close>
  "enforced tool_name Allow = Inr ()"
| "enforced tool_name (NeedsApproval reason) = Inl (ApprovalRequired tool_name)"
| "enforced tool_name (Deny reason) = Inl (Denied tool_name reason)"

definition enforce :: "string \<Rightarrow> bool \<Rightarrow> unit agent_result" where
  "enforce tool_name approved = enforced tool_name (decide tool_name approved)"

definition decide_path :: "AgentPathAccess \<Rightarrow> string \<Rightarrow> bool \<Rightarrow> AgentPolicyDecision" where
  "decide_path access path approved =
     (if is_sensitive_path path then
        Deny (''path `'' @ path @ ''` is blocked by the sensitive path denylist'')
      else case access of
             Read \<Rightarrow> Allow
           | Edit \<Rightarrow> if approved then Allow
                     else NeedsApproval (''editing `'' @ path @ ''` requires approval''))"

fun access_text :: "AgentPathAccess \<Rightarrow> string" where
  "access_text Read = ''Read''"
| "access_text Edit = ''Edit''"

definition enforce_path :: "AgentPathAccess \<Rightarrow> string \<Rightarrow> bool \<Rightarrow> unit agent_result" where
  "enforce_path access path approved =
     enforced (access_text access @ '':'' @ path) (decide_path access path approved)"

section \<open>Lower-case text\<close>

definition kelvin :: string where "kelvin = [CHR 0xE2, CHR 0x84, CHR 0xAA]"

definition dotted_I :: string where "dotted_I = [CHR 0xC4, CHR 0xB0]"

definition lowered :: "string \<Rightarrow> bool" where
  "lowered s \<longleftrightarrow> (\<forall>c \<in> set s. \<not> is_ascii_upper c) \<and> \<not> contains s kelvin \<and> \<not> contains s dotted_I"

lemma lowered_fixed: "lowered s \<Longrightarrow> to_lowercase s = s"
proof (induction s)
  case (Cons c s)
  have "lowered s" using Cons.prems by (auto simp: lowered_def sublist_Cons_right)
  moreover have "\<not> starts_with (c # s) kelvin" "\<not> starts_with (c # s) dotted_I" "\<not> is_ascii_upper c"
    using Cons.prems by (auto simp: lowered_def sublist_Cons_right)
  ultimately show ?case
    using Cons.IH by (auto simp: kelvin_def dotted_I_def ascii_lower_fixed)
qed simp

lemma ascii_lower_low: "byte_val (ascii_lower c) \<ge> 128 \<Longrightarrow> ascii_lower c = c"
  by (auto simp: ascii_lower_def is_ascii_upper_def split: if_splits)

lemma to_lowercase_cases:
  obtains (kelvin) "starts_with (c # cs) kelvin" "to_lowercase (c # cs) = CHR ''k'' # to_lowercase (drop 2 cs)"
  | (dotted) "\<not> starts_with (c # cs) kelvin" "starts_with (c # cs) dotted_I"
      "to_lowercase (c # cs) = CHR ''i'' # CHR 0xCC # CHR 0x87 # to_lowercase (drop 1 cs)"
  | (plain) "\<not> starts_with (c # cs) kelvin" "\<not> starts_with (c # cs) dotted_I"
      "to_lowercase (c # cs) = ascii_lower c # to_lowercase cs"
  unfolding kelvin_def dotted_I_def to_lowercase.simps(2) by argo

lemma prefix_to_lowercase:
  "\<forall>b \<in> set w. 128 \<le> byte_val b \<Longrightarrow> starts_with (to_lowercase s) w \<Longrightarrow> starts_with s w"
proof (induction s arbitrary: w)
  case (Cons c cs)
  show ?case
  proof (cases w)
    case w: (Cons b v)
    have high: "128 \<le> byte_val b" using w Cons.prems(1) by simp
    then have ne: "b \<noteq> CHR ''k''" "b \<noteq> CHR ''i''" by (auto simp: byte_val_def)
    show ?thesis
    proof (cases c cs rule: to_lowercase_cases)
      case plain
      have head: "b = ascii_lower c" and rest: "starts_with (to_lowercase cs) v"
        using Cons.prems(2) w plain(3) by simp_all
      have "b = c" using head high ascii_lower_low by metis
      moreover have "starts_with cs v" using Cons.IH [OF _ rest] Cons.prems(1) w by simp
      ultimately show ?thesis using w by simp
    qed (use Cons.prems(2) w ne in auto)
  qed simp
qed simp

lemma lowered_Cons:
  "lowered (c # s) \<longleftrightarrow>
     \<not> is_ascii_upper c \<and> \<not> starts_with (c # s) kelvin \<and> \<not> starts_with (c # s) dotted_I \<and> lowered s"
  by (auto simp: lowered_def sublist_Cons_right)

lemma high_patterns: "\<forall>b \<in> set kelvin. 128 \<le> byte_val b" "\<forall>b \<in> set dotted_I. 128 \<le> byte_val b"
  by (simp_all add: kelvin_def dotted_I_def byte_val_def)

lemma lowered_ascii: "byte_val c < 128 \<Longrightarrow> \<not> is_ascii_upper c \<Longrightarrow> lowered s \<Longrightarrow> lowered (c # s)"
  by (auto simp: lowered_Cons kelvin_def dotted_I_def byte_val_def)

lemma lowered_Nil [simp]: "lowered []"
  by (simp add: lowered_def kelvin_def dotted_I_def)

lemma lowered_to_lowercase [simp]: "lowered (to_lowercase s)"
proof (induction s rule: to_lowercase.induct)
  case (2 c cs)
  show ?case
  proof (cases c cs rule: to_lowercase_cases)
    case kelvin
    with "2.IH"(1) have "lowered (to_lowercase (drop 2 cs))" by (simp add: kelvin_def)
    then show ?thesis unfolding kelvin(2)
      by (intro lowered_ascii) (simp_all add: is_ascii_upper_def byte_val_def)
  next
    case dotted
    with "2.IH"(2) have "lowered (to_lowercase (drop 1 cs))" by (simp add: kelvin_def dotted_I_def)
    then have "lowered (CHR 0xCC # CHR 0x87 # to_lowercase (drop 1 cs))"
      by (simp add: lowered_Cons kelvin_def dotted_I_def is_ascii_upper_def byte_val_def)
    then show ?thesis unfolding dotted(3)
      by (intro lowered_ascii [of "CHR ''i''"]) (simp_all add: is_ascii_upper_def byte_val_def)
  next
    case plain
    have "\<not> starts_with (to_lowercase (c # cs)) kelvin" "\<not> starts_with (to_lowercase (c # cs)) dotted_I"
      using plain(1,2) prefix_to_lowercase high_patterns by blast+
    moreover have "lowered (to_lowercase cs)"
      using "2.IH"(3) plain(1,2) by (simp add: kelvin_def dotted_I_def)
    ultimately show ?thesis unfolding plain(3) lowered_Cons by simp
  qed
qed simp

lemma to_lowercase_idem [simp]: "to_lowercase (to_lowercase s) = to_lowercase s"
  by (rule lowered_fixed) simp

lemma lowered_sublist: "lowered s \<Longrightarrow> sublist t s \<Longrightarrow> lowered t"
  by (auto simp: lowered_def dest: set_mono_sublist sublist_order.order_trans)

lemma prefix_before: "starts_with (a @ d # b) w \<Longrightarrow> d \<notin> set w \<Longrightarrow> starts_with a w"
proof (induction a arbitrary: w)
  case Nil
  then show ?case by (cases w) auto
next
  case (Cons c a)
  then show ?case by (cases w) auto
qed

lemma lowered_slash: "lowered a \<Longrightarrow> lowered b \<Longrightarrow> lowered (a @ CHR ''/'' # b)"
proof (induction a)
  case Nil
  then show ?case by (simp add: lowered_ascii is_ascii_upper_def byte_val_def)
next
  case (Cons c a)
  have "CHR ''/'' \<notin> set kelvin" "CHR ''/'' \<notin> set dotted_I" by (simp_all add: kelvin_def dotted_I_def)
  then have "\<not> starts_with (c # a @ CHR ''/'' # b) kelvin" "\<not> starts_with (c # a @ CHR ''/'' # b) dotted_I"
    using Cons.prems(1) prefix_before [where a = "c # a" and d = "CHR ''/''" and b = b] by (auto simp: lowered_Cons)
  moreover have "lowered (a @ CHR ''/'' # b)" using Cons by (simp add: lowered_Cons)
  ultimately show ?case using Cons.prems(1) by (simp add: lowered_Cons)
qed

lemma segment_sublist: "p \<in> set (split_on c s) \<Longrightarrow> sublist p s"
proof (induction s arbitrary: p)
  case (Cons x s)
  obtain q qs where q: "split_on c s = q # qs" by (cases "split_on c s") auto
  have "starts_with s q"
    using join_split_on [of c s] q by (cases qs) (auto simp: prefix_def)
  then show ?case using Cons q
    by (auto simp: sublist_Cons_right split: if_splits)
qed simp

lemma lowered_join: "\<forall>n \<in> set ns. lowered n \<Longrightarrow> lowered (join ''/'' ns)"
proof (induction ns)
  case (Cons n ns)
  then show ?case by (cases "ns = []") (simp_all add: join_Cons lowered_slash)
qed simp


section \<open>The normalised path\<close>

lemma collect_components_walk: "collect_components at segs = walk at segs"
  by (induction at segs rule: collect_components.induct) auto

definition place :: "string \<Rightarrow> string list" where
  \<comment> \<open>where a path leads, in lower case and with backslashes read as slashes\<close>
  "place p = walk [] (segments (to_lowercase (slashes p)))"

definition rooted :: "string \<Rightarrow> bool" where
  "rooted p \<longleftrightarrow> absolute (to_lowercase (slashes p))"

definition path_text :: "bool \<Rightarrow> string list \<Rightarrow> string" where
  "path_text root ns = (if root then ''/'' else []) @ join ''/'' ns"

lemma normalize_path_place: "normalize_path p = path_text (rooted p) (place p)"
  by (simp add: normalize_path_def collect_components_walk place_def rooted_def absolute_def
      path_text_def Let_def)

definition clean_names :: "string list \<Rightarrow> bool" where
  "clean_names ns \<longleftrightarrow> (\<forall>n \<in> set ns. is_name n \<and> CHR ''/'' \<notin> set n \<and> BACKSLASH \<notin> set n \<and> lowered n)"

lemma lower_backslash: "BACKSLASH \<notin> set s \<Longrightarrow> BACKSLASH \<notin> set (to_lowercase s)"
proof (induction s rule: to_lowercase.induct)
  case (2 c cs)
  have "ascii_lower c \<noteq> BACKSLASH" if "c \<noteq> BACKSLASH"
  proof
    assume eq: "ascii_lower c = BACKSLASH"
    then have "is_ascii_upper c" using that ascii_lower_fixed by metis
    then have "byte_val (ascii_lower c) \<ge> 97" by (simp add: ascii_lower_def is_ascii_upper_def)
    with eq show False by (simp add: byte_val_def)
  qed
  moreover have "BACKSLASH \<notin> set (drop n cs)" for n using "2.prems" in_set_dropD by fastforce
  ultimately show ?case using 2 by (cases c cs rule: to_lowercase_cases) (auto simp: kelvin_def dotted_I_def)
qed simp

lemma clean_names_place [simp]: "clean_names (place p)"
proof -
  let ?s = "to_lowercase (slashes p)"
  have "list_all is_name (place p)" unfolding place_def by (rule walk_all_names) simp
  moreover have "n \<in> set (segments ?s)" if "n \<in> set (place p)" for n
    using that set_walk [of "[]" "segments ?s"] by (auto simp: place_def)
  moreover have "CHR ''/'' \<notin> set n \<and> BACKSLASH \<notin> set n \<and> lowered n" if "n \<in> set (segments ?s)" for n
  proof -
    have "sublist n ?s" using that segment_sublist by (simp add: segments_def)
    then show ?thesis
      using segments_no_slash [OF that] lower_backslash [OF no_backslash_slashes, of p]
        lowered_sublist [OF lowered_to_lowercase] set_mono_sublist by blast
  qed
  ultimately show ?thesis by (auto simp: clean_names_def list_all_iff)
qed

lemma clean_names_simps [simp]: "clean_names []" "clean_names (n # ns) \<Longrightarrow> clean_names ns"
  by (simp_all add: clean_names_def)

lemma clean_first: "clean_names ns \<Longrightarrow> ns \<noteq> [] \<Longrightarrow> \<exists>c s. join ''/'' ns = c # s \<and> c \<noteq> CHR ''/''"
proof -
  assume ns: "clean_names ns" "ns \<noteq> []"
  obtain n ms where n: "ns = n # ms" using ns(2) by (cases ns) auto
  then have "n \<noteq> []" "CHR ''/'' \<notin> set n" using ns(1) by (auto simp: clean_names_def)
  then show ?thesis using n by (cases n; cases ms) auto
qed

lemma text_of_clean:
  assumes "clean_names ns"
  shows "slashes (path_text root ns) = path_text root ns"
    and "to_lowercase (path_text root ns) = path_text root ns"
    and "absolute (path_text root ns) = root"
    and "walk [] (segments (path_text root ns)) = ns"
    and "components_of (path_text root ns) = ns"
    and "trim_start_matches (\<lambda>c. c = CHR ''/'') (path_text root ns) = join ''/'' ns"
proof -
  have chars: "BACKSLASH \<notin> set (join ''/'' ns)"
    using assms set_join [of "''/''" ns] by (auto simp: clean_names_def)
  then show "slashes (path_text root ns) = path_text root ns"
    by (simp add: slashes_def path_text_def replace_char_id)
  have "lowered (join ''/'' ns)" using assms by (intro lowered_join) (simp add: clean_names_def)
  then have "lowered (path_text root ns)"
    by (auto simp: path_text_def is_ascii_upper_def byte_val_def intro!: lowered_ascii)
  then show "to_lowercase (path_text root ns) = path_text root ns" by (rule lowered_fixed)
  show "absolute (path_text root ns) = root"
    using clean_first [OF assms] by (cases "ns = []") (auto simp: absolute_def path_text_def)
  have names: "list_all is_name ns" using assms by (auto simp: clean_names_def list_all_iff)
  have segs: "segments (join ''/'' ns) = (if ns = [] then [[]] else ns)"
    using segments_join [of ns] assms by (auto simp: clean_names_def segments_def)
  then show "walk [] (segments (path_text root ns)) = ns"
    using walk_names [OF names, of "[]"] by (auto simp: path_text_def segments_slash)
  have "filter (\<lambda>c. c \<noteq> []) ns = ns"
    using assms by (intro filter_True) (auto simp: clean_names_def)
  then show "components_of (path_text root ns) = ns"
    using segs by (auto simp: components_of_def path_text_def segments_slash)
  show "trim_start_matches (\<lambda>c. c = CHR ''/'') (path_text root ns) = join ''/'' ns"
    using clean_first [OF assms] by (cases "ns = []") (auto simp: trim_start_matches_def path_text_def)
qed

lemma place_of_text: "clean_names ns \<Longrightarrow> place (path_text root ns) = ns"
  and rooted_of_text: "clean_names ns \<Longrightarrow> rooted (path_text root ns) = root"
  by (simp_all add: place_def rooted_def text_of_clean)

lemma place_normalize [simp]: "place (normalize_path p) = place p"
  and rooted_normalize [simp]: "rooted (normalize_path p) = rooted p"
  by (simp_all add: normalize_path_place place_of_text rooted_of_text)

definition normalized :: "string \<Rightarrow> string option" where
  "normalized p = Some (normalize_path p)"

lemma segments_clean: "clean_names ns \<Longrightarrow> ''..'' \<notin> set (segments (path_text root ns))"
proof -
  assume ns: "clean_names ns"
  then have "segments (join ''/'' ns) = (if ns = [] then [[]] else ns)"
    using segments_join [of ns] by (auto simp: clean_names_def segments_def)
  then show ?thesis using ns by (auto simp: path_text_def segments_slash clean_names_def)
qed

interpretation denylist: path_cleaner normalized "\<lambda>p. to_lowercase (slashes p)"
proof unfold_locales
  fix p r
  assume "normalized p = Some r"
  then have r: "r = path_text (rooted p) (place p)" by (simp add: normalized_def normalize_path_place)
  show "''..'' \<notin> set (segments r)" unfolding r by (rule segments_clean) simp
  show "walk [] (segments r) = walk [] (segments (to_lowercase (slashes p)))"
    unfolding r by (simp add: text_of_clean) (simp add: place_def)
qed

section \<open>What the denylist means\<close>

lemma join_append: "a \<noteq> [] \<Longrightarrow> b \<noteq> [] \<Longrightarrow> join sep (a @ b) = join sep a @ sep @ join sep b"
proof (induction a)
  case (Cons x a)
  then show ?case by (cases "a = []") (simp_all add: join_Cons)
qed simp

lemma join_clean_inject:
  assumes "clean_names ns" and "clean_names ms" and "ns \<noteq> []" and "ms \<noteq> []" and "join ''/'' ns = join ''/'' ms"
  shows "ns = ms"
proof -
  have "segments (join ''/'' ns) = ns" "segments (join ''/'' ms) = ms"
    using segments_join [of ns] segments_join [of ms] assms(1-4) by (simp_all add: clean_names_def)
  then show ?thesis using assms(5) by metis
qed

lemma within_join:
  assumes "clean_names ns" and "clean_names ms" and "ms \<noteq> []"
  shows "path_is_within (join ''/'' ns) (join ''/'' ms) \<longleftrightarrow> prefix ms ns"
proof
  assume "path_is_within (join ''/'' ns) (join ''/'' ms)"
  then consider (eq) "join ''/'' ns = join ''/'' ms"
    | (below) q where "join ''/'' ns = join ''/'' ms @ CHR ''/'' # q"
    by (auto simp: path_is_within_def text_simps starts_with_slash split: option.splits)
  then show "prefix ms ns"
  proof cases
    case eq
    have "ns \<noteq> []" using eq clean_first [OF assms(2,3)] by auto
    from join_clean_inject [OF assms(1,2) this assms(3) eq] show ?thesis by simp
  next
    case (below q)
    then have "ns \<noteq> []" by auto
    then have "ns = segments (join ''/'' ns)"
      using segments_join [of ns] assms(1) by (simp add: clean_names_def)
    also have "\<dots> = ms @ segments q"
      unfolding below segments_under using segments_join [of ms] assms(2,3) by (simp add: clean_names_def)
    finally show ?thesis by (rule prefixI)
  qed
next
  assume "prefix ms ns"
  then obtain k where k: "ns = ms @ k" by (auto simp: prefix_def)
  show "path_is_within (join ''/'' ns) (join ''/'' ms)"
    using join_append [OF assms(3), of k "''/''"] by (cases "k = []") (simp_all add: k path_is_within_def)
qed

lemma within_rooted:
  "path_is_within (CHR ''/'' # a) (CHR ''/'' # b) = path_is_within a b"
  by (simp add: path_is_within_def strip_prefix_def)

lemma within_relative:
  "clean_names ns \<Longrightarrow> \<not> path_is_within (join ''/'' ns) (CHR ''/'' # b)"
  using clean_first [of ns] by (cases "ns = []") (auto simp: path_is_within_def strip_prefix_def)

definition private_name :: "string \<Rightarrow> bool" where
  "private_name n \<longleftrightarrow>
     n \<in> set SENSITIVE_BASENAMES
     \<or> (\<exists>ending \<in> set SENSITIVE_BASENAME_SUFFIXES. ends_with n ending)
     \<or> (\<exists>needle \<in> set SENSITIVE_BASENAME_CONTAINS. contains n needle)"

definition sensitive_place :: "bool \<Rightarrow> string list \<Rightarrow> bool" where
  "sensitive_place root ns \<longleftrightarrow>
     (root \<and> (ns = [''etc'', ''shadow''] \<or> ns = [''etc'', ''sudoers'']
        \<or> prefix [''root''] ns \<or> prefix [''var'', ''lib'', ''mysql''] ns \<or> prefix [''var'', ''lib'', ''postgresql''] ns))
     \<or> ''.ssh'' \<in> set ns
     \<or> private_name (basename_of ns)
     \<or> prefix [''c:'', ''windows'', ''system32'', ''config''] ns
     \<or> (\<exists>needle \<in> set SENSITIVE_PATH_CONTAINS. contains (join ''/'' ns) needle)"

lemma clean_constants:
  "clean_names [''etc'', ''shadow'']" "clean_names [''etc'', ''sudoers'']" "clean_names [''root'']"
  "clean_names [''var'', ''lib'', ''mysql'']" "clean_names [''var'', ''lib'', ''postgresql'']"
  "clean_names [''c:'', ''windows'', ''system32'', ''config'']"
  by (simp_all add: clean_names_def is_name_def lowered_ascii is_ascii_upper_def byte_val_def)

lemma exact_text:
  assumes "clean_names ns" and "clean_names ms" and "ms \<noteq> []"
  shows "path_text root ns = CHR ''/'' # join ''/'' ms \<longleftrightarrow> root \<and> ns = ms"
proof (cases root)
  case True
  have "ns = ms" if eq: "join ''/'' ns = join ''/'' ms"
  proof -
    have "ns \<noteq> []" using eq clean_first [OF assms(2,3)] by auto
    from join_clean_inject [OF assms(1,2) this assms(3) eq] show ?thesis .
  qed
  with True show ?thesis by (auto simp: path_text_def)
next
  case False
  then show ?thesis using clean_first [OF assms(1)] by (cases "ns = []") (auto simp: path_text_def)
qed

lemma tree_text:
  assumes "clean_names ns" and "clean_names ms" and "ms \<noteq> []"
  shows "path_is_within (path_text root ns) (CHR ''/'' # join ''/'' ms) \<longleftrightarrow> root \<and> prefix ms ns"
  using within_join [OF assms] within_relative [OF assms(1)]
  by (auto simp: path_text_def within_rooted)

lemma contains_text:
  "needle \<in> set SENSITIVE_PATH_CONTAINS \<Longrightarrow>
   contains (path_text root ns) needle = contains (join ''/'' ns) needle"
  by (auto simp: SENSITIVE_PATH_CONTAINS_def path_text_def sublist_Cons_right)

lemma sensitive_place_text:
  assumes "clean_names ns"
  shows "path_text root ns \<in> set SENSITIVE_EXACT_PATHS \<longleftrightarrow>
      root \<and> (ns = [''etc'', ''shadow''] \<or> ns = [''etc'', ''sudoers''])"
    and "(\<exists>tree \<in> set SENSITIVE_PATH_TREES. path_is_within (path_text root ns) tree) \<longleftrightarrow>
      root \<and> (prefix [''root''] ns \<or> prefix [''var'', ''lib'', ''mysql''] ns
        \<or> prefix [''var'', ''lib'', ''postgresql''] ns)"
    and "(\<exists>tree \<in> set SENSITIVE_WINDOWS_PATH_TREES. path_is_within (join ''/'' ns) tree) \<longleftrightarrow>
      prefix [''c:'', ''windows'', ''system32'', ''config''] ns"
proof -
  show "path_text root ns \<in> set SENSITIVE_EXACT_PATHS \<longleftrightarrow>
      root \<and> (ns = [''etc'', ''shadow''] \<or> ns = [''etc'', ''sudoers''])"
    using exact_text [OF assms clean_constants(1), of root] exact_text [OF assms clean_constants(2), of root]
    by (auto simp: SENSITIVE_EXACT_PATHS_def)
  show "(\<exists>tree \<in> set SENSITIVE_PATH_TREES. path_is_within (path_text root ns) tree) \<longleftrightarrow>
      root \<and> (prefix [''root''] ns \<or> prefix [''var'', ''lib'', ''mysql''] ns
        \<or> prefix [''var'', ''lib'', ''postgresql''] ns)"
    using tree_text [OF assms clean_constants(3), of root] tree_text [OF assms clean_constants(4), of root]
      tree_text [OF assms clean_constants(5), of root]
    by (auto simp: SENSITIVE_PATH_TREES_def)
  show "(\<exists>tree \<in> set SENSITIVE_WINDOWS_PATH_TREES. path_is_within (join ''/'' ns) tree) \<longleftrightarrow>
      prefix [''c:'', ''windows'', ''system32'', ''config''] ns"
    using within_join [OF assms clean_constants(6)] by (simp add: SENSITIVE_WINDOWS_PATH_TREES_def)
qed

lemma is_sensitive_place: "is_sensitive_path p \<longleftrightarrow> sensitive_place (rooted p) (place p)"
proof -
  let ?t = "path_text (rooted p) (place p)"
  have shape: "components_of ?t = place p" "trim_start_matches (\<lambda>c. c = CHR ''/'') ?t = join ''/'' (place p)"
    by (simp_all add: text_of_clean)
  have needles: "(\<exists>needle \<in> set SENSITIVE_PATH_CONTAINS. contains ?t needle) \<longleftrightarrow>
      (\<exists>needle \<in> set SENSITIVE_PATH_CONTAINS. contains (join ''/'' (place p)) needle)"
    using contains_text by blast
  have ssh: "(\<exists>c \<in> set (place p). c \<in> set SENSITIVE_COMPONENTS) \<longleftrightarrow> ''.ssh'' \<in> set (place p)"
    by (auto simp: SENSITIVE_COMPONENTS_def)
  show ?thesis
    unfolding is_sensitive_path_def Let_def normalize_path_place shape needles ssh
      sensitive_place_text [OF clean_names_place] sensitive_place_def private_name_def
    by blast
qed

section \<open>Properties\<close>

text \<open>C13: The denylist decides where a path leads, not how it is written: its text comparisons accept
  exactly the places the specification calls sensitive (the two account files and what is below the
  protected trees of an absolute path; anything with a \<^verbatim>\<open>.ssh\<close> component; key, certificate and
  environment files by name; the Windows registry hives and browser profiles).\<close>

theorem denylist_decides_the_place: "is_sensitive_path p \<longleftrightarrow> sensitive_place (rooted p) (place p)"
  by (rule is_sensitive_place)

text \<open>Normalising a path is idempotent and changes neither the place it leads to nor the verdict
  of the denylist.\<close>

theorem normalize_path_is_canonical:
  "normalize_path (normalize_path p) = normalize_path p \<and> place (normalize_path p) = place p \<and>
   is_sensitive_path (normalize_path p) = is_sensitive_path p"
  by (simp add: is_sensitive_place) (simp add: normalize_path_place place_of_text rooted_of_text)

text \<open>The path guard of the tools: a path passes exactly when it is not sensitive and is either
  read or the edit is approved. Approval never opens a sensitive path.\<close>

theorem path_guard_passes:
  "enforce_path access p approved = Inr () \<longleftrightarrow>
     \<not> sensitive_place (rooted p) (place p) \<and> (access = Read \<or> approved)"
  by (cases access) (simp_all add: enforce_path_def decide_path_def is_sensitive_place)

text \<open>The tool guard fails closed: a tool passes exactly when it is one of the listed tools that
  read or are guarded elsewhere, or one of the four editing tools and approved.\<close>

theorem tool_guard_passes:
  "enforce tool_name approved = Inr () \<longleftrightarrow>
     tool_name \<in> set ALLOWED_TOOLS \<or> tool_name \<in> set APPROVED_TOOLS \<and> approved"
  by (simp add: enforce_def decide_def)

lemma place_below:
  assumes "clean_names ms" and "ms \<noteq> []" and "''..'' \<notin> set (segments (to_lowercase (slashes rest)))"
    and "to_lowercase (slashes (path_text True ms @ CHR ''/'' # rest)) =
      path_text True ms @ CHR ''/'' # to_lowercase (slashes rest)"
  shows "rooted (path_text True ms @ CHR ''/'' # rest)"
    and "prefix ms (place (path_text True ms @ CHR ''/'' # rest))"
proof -
  show "rooted (path_text True ms @ CHR ''/'' # rest)"
    unfolding rooted_def assms(4) by (simp add: absolute_def path_text_def)
  show "prefix ms (place (path_text True ms @ CHR ''/'' # rest))"
    unfolding place_def assms(4) segments_under walk_append text_of_clean(4) [OF assms(1)]
    using walk_down [OF assms(3)] by simp
qed

lemma protected_trees:
  "set SENSITIVE_PATH_TREES =
     path_text True ` {[''root''], [''var'', ''lib'', ''mysql''], [''var'', ''lib'', ''postgresql'']}"
  by (simp add: SENSITIVE_PATH_TREES_def path_text_def)

lemma tree_lower:
  "tree \<in> set SENSITIVE_PATH_TREES \<Longrightarrow>
   to_lowercase (slashes (tree @ CHR ''/'' # rest)) = tree @ CHR ''/'' # to_lowercase (slashes rest)"
  by (auto simp: SENSITIVE_PATH_TREES_def slashes_def ascii_lower_def is_ascii_upper_def byte_val_def)

text \<open>Everything below a protected tree is protected: whatever follows the tree and a slash, as long
  as it does not climb with a parent segment, the path is refused for reading and for editing,
  approved or not.\<close>

theorem protected_trees_are_closed:
  assumes "tree \<in> set SENSITIVE_PATH_TREES"
    and "''..'' \<notin> set (segments (to_lowercase (slashes rest)))"
  shows "\<exists>tool reason. enforce_path access (tree @ CHR ''/'' # rest) approved = Inl (Denied tool reason)"
proof -
  obtain ms where ms: "tree = path_text True ms"
    "ms \<in> {[''root''], [''var'', ''lib'', ''mysql''], [''var'', ''lib'', ''postgresql'']}"
    using assms(1) unfolding protected_trees by blast
  then have "clean_names ms" "ms \<noteq> []" using clean_constants by auto
  from place_below [OF this assms(2)] tree_lower [OF assms(1), of rest] ms
  have "sensitive_place (rooted (tree @ CHR ''/'' # rest)) (place (tree @ CHR ''/'' # rest))"
    unfolding sensitive_place_def by auto
  then show ?thesis by (simp add: enforce_path_def decide_path_def is_sensitive_place)
qed

theorem protected_trees_are_closed_witness:
  "\<exists>tool reason. enforce_path Read (''/root'' @ CHR ''/'' # ''notes.txt'') False = Inl (Denied tool reason)"
  by (rule protected_trees_are_closed)
     (simp_all add: SENSITIVE_PATH_TREES_def slashes_def segments_def ascii_lower_def is_ascii_upper_def
        byte_val_def)

end
