(* ===== verification/Command_Policy.thy ===== *)
theory Command_Policy
  imports Shell_Lexer Policy_Paths
begin

text \<open>
  The risk assessment of shell command lines, \<^verbatim>\<open>crates/miaominal-agent/src/policy/command.rs\<close>: the
  classification of one program call (\<open>classify_program\<close>, in groups of the code's \<^verbatim>\<open>match\<close> arms), the
  wrappers that run another command (\<open>unwrap\<close>), the assessment of words, segments and whole
  commands (the mutual recursion of \<^verbatim>\<open>assess\<close>, \<^verbatim>\<open>assess_segment\<close> and \<^verbatim>\<open>classify_words\<close>), and the command
  guard of \<^verbatim>\<open>AgentPolicy\<close>. The code recurses into substitutions and scripts up to depth 4; every
  other recursion shortens the argument list, which is what the termination proof uses.
\<close>

section \<open>Assessments\<close>

record CommandAssessment =
  risk :: AgentRiskLevel
  reason :: string
  grant_prefix :: "string option"
  sensitive_path :: "string option"
  uses_sudo :: bool

definition read_only_assessment :: CommandAssessment where
  "read_only_assessment =
     \<lparr>risk = L0ReadOnly, reason = ''read-only'', grant_prefix = None, sensitive_path = None, uses_sudo = False\<rparr>"

definition merge :: "CommandAssessment \<Rightarrow> CommandAssessment \<Rightarrow> CommandAssessment" where
  "merge into other =
     (let r = into\<lparr>uses_sudo := uses_sudo into \<or> uses_sudo other,
                   sensitive_path := (if sensitive_path into = None then sensitive_path other
                                      else sensitive_path into)\<rparr>
      in if risk into < risk other then
           r\<lparr>risk := risk other, reason := reason other, grant_prefix := grant_prefix other\<rparr>
         else if grant_prefix into = None \<and> risk other = risk into then
           r\<lparr>grant_prefix := grant_prefix other\<rparr>
         else r)"

definition raise :: "CommandAssessment \<Rightarrow> AgentRiskLevel \<Rightarrow> string \<Rightarrow> string option \<Rightarrow> CommandAssessment" where
  "raise r new_risk why pre =
     (if risk r < new_risk then r\<lparr>risk := new_risk, reason := why, grant_prefix := pre\<rparr> else r)"

definition verdict :: "AgentRiskLevel \<Rightarrow> string \<Rightarrow> string \<Rightarrow> CommandAssessment" where
  "verdict rk why pre =
     \<lparr>risk = rk, reason = why, grant_prefix = Some pre, sensitive_path = None, uses_sudo = False\<rparr>"

abbreviation "L0 \<equiv> L0ReadOnly"
abbreviation "L1 \<equiv> L1LowMutation"
abbreviation "L2 \<equiv> L2ServiceImpacting"
abbreviation "L3 \<equiv> L3Dangerous"
abbreviation "L4 \<equiv> L4Forbidden"

section \<open>Sensitive paths and writes\<close>

definition token_candidates :: "string \<Rightarrow> string list" where
  "token_candidates token =
     [token]
     @ (case split_once (CHR ''='') token of None \<Rightarrow> [] | Some (_, v) \<Rightarrow> [v])
     @ (if starts_with token ''-''
        then (case split_once (CHR '':'') token of None \<Rightarrow> [] | Some (_, v) \<Rightarrow> [v]) else [])"

definition trim_candidate :: "string \<Rightarrow> string" where
  "trim_candidate candidate =
     (let c = trim_matches (\<lambda>c. c \<in> set '',[]{}'') candidate
      in case strip_prefix ''file://'' c of Some rest \<Rightarrow> rest | None \<Rightarrow> c)"

definition segment_tokens :: "segment \<Rightarrow> string list" where
  "segment_tokens s =
     words s @ map target (filter (\<lambda>r. op r \<noteq> ''<<'' \<and> \<not> fd_dup r) (redirects s))"

definition sensitive_in_segment :: "segment \<Rightarrow> string option" where
  "sensitive_in_segment s =
     find (\<lambda>c. c \<noteq> [] \<and> is_sensitive_path c)
       (map trim_candidate (concat (map token_candidates (segment_tokens s))))"

definition SYSTEM_PATH_PREFIXES :: "string list" where
  "SYSTEM_PATH_PREFIXES =
     [''/etc'', ''/usr'', ''/boot'', ''/bin'', ''/sbin'', ''/lib'', ''/lib64'', ''/opt'',
         ''/var/lib'',
      ''/sys'', ''/proc'', ''/dev'', ''/root'']"

definition WINDOWS_SYSTEM_PATH_PREFIXES :: "string list" where
  "WINDOWS_SYSTEM_PATH_PREFIXES = [''c:/windows'', ''c:/program files'', ''c:/programdata'']"

definition is_system_path :: "string \<Rightarrow> bool" where
  "is_system_path path =
     (let normalized = normalize_path path;
          windows = trim_start_matches (\<lambda>c. c = CHR ''/'') normalized
      in normalized \<notin> set [''/dev/null'', ''/dev/stdout'', ''/dev/stderr''] \<and>
         ((\<exists>p \<in> set SYSTEM_PATH_PREFIXES. path_is_within normalized p) \<or>
          (\<exists>p \<in> set WINDOWS_SYSTEM_PATH_PREFIXES. path_is_within windows p)))"

definition is_harmless_sink :: "string \<Rightarrow> bool" where
  "is_harmless_sink t \<longleftrightarrow>
     to_ascii_lowercase t \<in> set [''/dev/null'', ''/dev/stdout'', ''/dev/stderr'', ''nul'',
         ''$null'', ''-'']"

definition write_risk :: "string \<Rightarrow> AgentRiskLevel" where
  "write_risk t = (if is_harmless_sink t then L0 else if is_system_path t then L2 else L1)"

definition redirect_risk :: "redirect \<Rightarrow> AgentRiskLevel" where
  "redirect_risk r = (if \<not> is_output r \<or> fd_dup r then L0 else write_risk (target r))"

section \<open>A program call\<close>

definition looks_like_assignment :: "string \<Rightarrow> bool" where
  "looks_like_assignment token =
     (case split_once (CHR ''='') token of
        None \<Rightarrow> False
      | Some (name, _) \<Rightarrow>
          name \<noteq> [] \<and> \<not> starts_with name ''-'' \<and>
          list_all (\<lambda>c. c = CHR ''_'' \<or> is_ascii_alphanumeric c) name)"

definition strip_assignments :: "string list \<Rightarrow> string list" where
  "strip_assignments ws = dropWhile looks_like_assignment ws"

definition program_name :: "string \<Rightarrow> string option" where
  "program_name w =
     (if CHR ''/'' \<in> set w \<or> BACKSLASH \<in> set w then None
      else
        let lower = to_lowercase w in
        Some (case List.find (\<lambda>s. ends_with lower s) [''.exe'', ''.cmd'', ''.bat'',
            ''.com''] of
                Some s \<Rightarrow> take (length lower - length s) lower
              | None \<Rightarrow> lower))"

record Ctx =
  program :: string
  args :: "string list"

definition is_option :: "string \<Rightarrow> bool" where
  "is_option arg \<longleftrightarrow> starts_with arg ''-''"

definition ctx_sub :: "Ctx \<Rightarrow> string option" where
  "ctx_sub ctx = map_option to_lowercase (List.find (\<lambda>a. \<not> is_option a) (args ctx))"

definition ctx_first :: "Ctx \<Rightarrow> string option" where
  "ctx_first ctx = (case args ctx of [] \<Rightarrow> None | a # _ \<Rightarrow> Some (to_lowercase a))"

definition has :: "Ctx \<Rightarrow> string \<Rightarrow> bool" where
  "has ctx flag \<longleftrightarrow>
     (\<exists>arg \<in> set (args ctx). eq_ignore_ascii_case arg flag \<or>
        starts_with (to_lowercase arg) (to_lowercase flag @ ''=''))"

definition has_any :: "Ctx \<Rightarrow> string list \<Rightarrow> bool" where
  "has_any ctx flags \<longleftrightarrow> (\<exists>flag \<in> set flags. has ctx flag)"

definition has_short :: "Ctx \<Rightarrow> char \<Rightarrow> bool" where
  "has_short ctx letter \<longleftrightarrow>
     (\<exists>arg \<in> set (args ctx).
        is_option arg \<and> \<not> starts_with arg ''--'' \<and> 1 < length arg \<and>
        list_all is_ascii_alphabetic (drop 1 arg) \<and> letter \<in> set (drop 1 arg))"

definition positional :: "Ctx \<Rightarrow> string list" where
  "positional ctx = filter (\<lambda>a. \<not> is_option a) (args ctx)"

definition ctx_prefix :: "bool \<Rightarrow> Ctx \<Rightarrow> string" where
  "ctx_prefix with_sub ctx =
     (case (with_sub, ctx_sub ctx) of
        (True, Some sub) \<Rightarrow> program ctx @ '' '' @ sub
      | _ \<Rightarrow> program ctx)"

definition or_empty :: "string option \<Rightarrow> string" where
  "or_empty s = (case s of None \<Rightarrow> [] | Some v \<Rightarrow> v)"

definition nth_arg :: "Ctx \<Rightarrow> nat \<Rightarrow> string option" where
  "nth_arg ctx n = (if n < length (args ctx) then Some (args ctx ! n) else None)"

definition windows2 :: "string list \<Rightarrow> (string \<times> string) list" where
  "windows2 xs = zip xs (drop 1 xs)"

definition value_of :: "string list \<Rightarrow> Ctx \<Rightarrow> string option" where
  \<comment> \<open>the argument behind the first of the given options\<close>
  "value_of flags ctx = map_option snd (List.find (\<lambda>w. fst w \<in> set flags) (windows2 (args ctx)))"

definition read_only :: "Ctx \<Rightarrow> string \<Rightarrow> CommandAssessment" where
  "read_only ctx why = verdict L0 why (ctx_prefix False ctx)"

definition plainly :: "AgentRiskLevel \<Rightarrow> string \<Rightarrow> Ctx \<Rightarrow> CommandAssessment" where
  "plainly rk why ctx = verdict rk why (ctx_prefix False ctx)"

definition with_sub :: "AgentRiskLevel \<Rightarrow> string \<Rightarrow> Ctx \<Rightarrow> CommandAssessment" where
  "with_sub rk why ctx = verdict rk why (ctx_prefix True ctx)"

section \<open>Containers, curl, packages\<close>

definition classify_container :: "Ctx \<Rightarrow> CommandAssessment" where
  "classify_container ctx =
     (let pos = map to_lowercase (positional ctx);
          sub = (if pos = [] then [] else pos ! 0);
          second = (if length pos < 2 then [] else pos ! 1);
          pre = ctx_prefix True ctx;
          ro = verdict L0 ''read-only'' pre
      in if sub \<in> set [''ps'', ''logs'', ''inspect'', ''images'', ''stats'', ''version'',
          ''info'', ''top'', ''port'', ''diff'', ''history'', ''search'', ''events''] then ro
         else if sub = ''compose'' then
           (if second \<in> set [''ps'', ''logs'', ''config'', ''ls'', ''images'', ''top'',
               ''version'', ''port''] then ro
            else if second \<in> set [''down'',
                ''rm''] then verdict L3 ''removes containers'' (pre @ '' '' @ second)
            else verdict L2 ''changes containers'' (pre @ '' '' @ second))
         else if sub \<in> set [''container'', ''image'', ''volume'', ''network'', ''system'',
             ''context'', ''node'', ''service'', ''stack''] then
           (if second \<in> set [''ls'', ''list'', ''inspect'', ''df'', ''info'', ''ps'',
               ''logs'', ''history''] then ro
            else if second \<in> set [''rm'', ''remove'', ''prune'', ''kill'']
              then verdict L3 ''removes resources'' (pre @ '' '' @ second)
            else verdict L2 ''changes resources'' (pre @ '' '' @ second))
         else if sub \<in> set [''rm'', ''rmi'', ''kill'',
             ''prune''] then verdict L3 ''removes containers or images'' pre
         else verdict L2 ''changes containers'' pre)"

definition curl_writes :: "string \<Rightarrow> bool" where
  "curl_writes arg \<longleftrightarrow>
     arg \<in> set [''-o'', ''-O'', ''--output'', ''--remote-name'', ''--remote-name-all'',
         ''-T'', ''--upload-file'', ''-K'', ''--config'', ''-c'', ''--cookie-jar'']
     \<or> starts_with arg ''--output=''
     \<or> (is_option arg \<and> \<not> starts_with arg ''--'' \<and> list_all is_ascii_alphabetic (drop 1 arg) \<and>
        (CHR ''o'' \<in> set arg \<or> CHR ''O'' \<in> set arg))"

definition curl_sends :: "string \<Rightarrow> bool" where
  "curl_sends arg \<longleftrightarrow>
     starts_with arg ''-d'' \<or> starts_with arg ''--data'' \<or> starts_with arg ''-F'' \<or> starts_with arg ''--form''
     \<or> arg = ''--json''"

definition attached_method :: "string \<Rightarrow> string option" where
  "attached_method a =
     (case strip_prefix ''-X'' a of None \<Rightarrow> None | Some m \<Rightarrow> if m = [] then None else Some m)"

definition curl_method :: "Ctx \<Rightarrow> string option" where
  "curl_method ctx =
     (case value_of [''-X'', ''--request''] ctx of
        Some m \<Rightarrow> Some (to_uppercase m)
      | None \<Rightarrow> (case List.map_filter attached_method (args ctx) of
                   [] \<Rightarrow> None | m # _ \<Rightarrow> Some (to_uppercase m)))"

definition classify_curl :: "Ctx \<Rightarrow> CommandAssessment" where
  "classify_curl ctx =
     (let pre = ctx_prefix False ctx;
          safe_method = (case curl_method ctx of None \<Rightarrow> True | Some m \<Rightarrow> m \<in> set [''GET'', ''HEAD'', ''OPTIONS''])
      in if list_ex curl_writes (args ctx) then
           verdict (max (write_risk (or_empty (value_of [''-o'', ''--output''] ctx))) L1)
             ''downloads to a file'' pre
         else if list_ex curl_sends (args ctx) \<or> \<not> safe_method then
           verdict L1 ''sends data to a remote endpoint'' pre
         else verdict L0 ''read-only'' pre)"

definition classify_package :: "Ctx \<Rightarrow> CommandAssessment" where
  "classify_package ctx =
     (let pre = ctx_prefix True ctx;
          sub = or_empty (ctx_sub ctx);
          ro = (sub \<in> set [''list'', ''search'', ''show'', ''info'', ''policy'',
              ''depends'', ''rdepends'', ''outdated'', ''check'', ''history'', ''freeze'',
                  ''view'', ''ls'', ''why'', ''audit'', ''repolist'', ''provides'',
                      ''whatprovides'', ''query'', ''doctor'', ''config'', ''help'']
                \<or> (program ctx = ''dpkg'' \<and> has_any ctx [''-l'', ''-L'', ''-s'',
                    ''-S'', ''--list'', ''--status'', ''--search'', ''--listfiles''])
                \<or> (program ctx = ''pacman'' \<and>
                   (case args ctx of [] \<Rightarrow> False | a # _ \<Rightarrow> starts_with a ''-Q'')))
      in if ro then verdict L0 ''read-only'' pre else verdict L2 ''changes installed packages'' pre)"

definition sed_script_writes :: "string \<Rightarrow> bool" where
  "sed_script_writes arg =
     (let trimmed = trim arg
      in ends_with trimmed ''/e'' \<or> contains trimmed ''/w '' \<or> starts_with trimmed ''w '')"

section \<open>The programs\<close>

definition classify_services :: "Ctx \<Rightarrow> CommandAssessment option" where
  \<comment> \<open>systemctl, service, journalctl, the container and cluster tools, git\<close>
  "classify_services ctx =
     (let p = program ctx; sub = or_empty (ctx_sub ctx) in
      if p = ''systemctl'' then Some
        (if sub = [] \<or> sub \<in> set [''status'', ''show'', ''cat'', ''help'',
            ''get-default''] then read_only ctx ''read-only''
         else if starts_with sub ''list-'' \<or> starts_with sub ''is-'' then read_only ctx ''read-only''
         else if sub \<in> set [''start'', ''stop'', ''restart'', ''reload'', ''try-restart'',
             ''reload-or-restart'', ''enable'', ''disable'', ''mask'', ''unmask'',
                 ''daemon-reload'', ''kill'', ''reset-failed'', ''set-property'', ''edit'',
                     ''preset'', ''link'']
           then with_sub L2 ''changes service state'' ctx
         else if sub \<in> set [''poweroff'', ''reboot'', ''halt'', ''kexec'', ''isolate'',
             ''rescue'', ''emergency'', ''suspend'', ''hibernate'', ''default'']
           then with_sub L3 ''changes system power state'' ctx
         else with_sub L1 ''systemctl subcommand'' ctx)
      else if p = ''service'' then
        (let action = or_empty (map_option to_lowercase (nth_arg ctx 1)) in Some
         (if action = ''status'' \<or> action = [] then read_only ctx ''read-only''
          else verdict L2 ''changes service state'' (''service '' @ action)))
      else if p = ''journalctl'' then Some
        (if has_any ctx [''--flush'', ''--rotate'', ''--sync'', ''--vacuum-size'',
            ''--vacuum-time'', ''--vacuum-files'', ''--relinquish-var'', ''--setup-keys'']
         then plainly L1 ''maintains the journal'' ctx
         else read_only ctx ''read-only'')
      else if p \<in> set [''docker'', ''podman'', ''nerdctl''] then Some (classify_container ctx)
      else if p \<in> set [''kubectl'', ''oc''] then Some
        (if sub \<in> set [''get'', ''describe'', ''logs'', ''top'', ''explain'', ''version'',
            ''api-resources'', ''api-versions'', ''cluster-info'', ''events'', ''diff'']
           then read_only ctx ''read-only''
         else if sub \<in> set [''auth'', ''config''] \<and> \<not> has_any ctx [''set'',
             ''set-context'', ''use-context''] then read_only ctx ''read-only''
         else if sub \<in> set [''delete'', ''drain'',
             ''replace''] then with_sub L3 ''destructive cluster change'' ctx
         else with_sub L2 ''changes cluster state'' ctx)
      else if p = ''helm'' then Some
        (if sub \<in> set [''list'', ''ls'', ''status'', ''history'', ''get'', ''show'',
            ''search'', ''template'', ''version'', ''env'', ''lint'']
           then read_only ctx ''read-only''
         else if sub \<in> set [''uninstall'', ''delete'',
             ''rollback''] then with_sub L3 ''destructive release change'' ctx
         else with_sub L2 ''changes releases'' ctx)
      else if p = ''git'' then Some
        (if sub \<in> set [''status'', ''log'', ''diff'', ''show'', ''rev-parse'',
            ''ls-files'', ''ls-tree'', ''blame'', ''describe'', ''shortlog'', ''reflog'',
                ''grep'', ''cat-file'', ''rev-list'', ''for-each-ref'', ''show-ref'',
                    ''whatchanged'', ''version'']
           then read_only ctx ''read-only''
         else if sub \<in> set [''branch'', ''tag'', ''remote'', ''stash''] \<and>
             (length (args ctx) = 1 \<or> has_any ctx [''-a'', ''-r'', ''--list'', ''-l'',
                 ''-v'', ''-vv'', ''list''])
           then read_only ctx ''read-only''
         else if sub = ''config'' \<and> has_any ctx [''--get'', ''--list'', ''-l'',
             ''--get-all''] then read_only ctx ''read-only''
         else if sub = ''apply'' then with_sub L3 ''applies a patch'' ctx
         else if sub = ''reset'' \<and> has ctx ''--hard'' then with_sub L3 ''discards changes'' ctx
         else if sub = ''clean'' then with_sub L3 ''deletes untracked files'' ctx
         else if sub = ''push'' \<and> has_any ctx [''--force'', ''-f'',
             ''--force-with-lease''] then with_sub L3 ''force-pushes'' ctx
         else if sub \<in> set [''checkout'', ''restore''] \<and> has_any ctx [''--'',
             ''.''] then with_sub L3 ''discards changes'' ctx
         else with_sub L1 ''modifies the repository'' ctx)
      else None)"

definition awk_dangerous :: "string \<Rightarrow> bool" where
  "awk_dangerous arg \<longleftrightarrow>
     contains arg ''system('' \<or> contains arg ''| getline'' \<or> contains arg ''|getline''
     \<or> contains arg ''print >'' \<or> contains arg ''printf >'' \<or> contains arg ''print >>''
     \<or> contains arg (DQUOTE # '' |'') \<or> contains arg ''|&''"

definition tee_target :: "Ctx \<Rightarrow> AgentRiskLevel \<times> string" where
  "tee_target ctx =
     foldl (\<lambda>(rk, t) file. if rk < write_risk file then (write_risk file, file) else (rk, t))
       (L0, []) (positional ctx)"

definition CTL_TOOLS :: "string list" where
  "CTL_TOOLS = [''hostnamectl'', ''timedatectl'', ''localectl'', ''loginctl'', ''resolvectl'', ''networkctl'']"

definition classify_tools :: "Ctx \<Rightarrow> CommandAssessment option" where
  \<comment> \<open>ip, sed, awk, find, rg, curl, wget, tee, top, sort, hostname, date and the \<^verbatim>\<open>*ctl\<close> tools\<close>
  "classify_tools ctx =
     (let p = program ctx; sub = or_empty (ctx_sub ctx) in
      if p = ''ip'' then Some
        (if list_ex (\<lambda>arg. to_lowercase arg \<in> set [''add'', ''del'', ''delete'',
            ''set'', ''flush'', ''change'', ''replace'', ''append'', ''prepend'',
                ''exec'']) (args ctx)
         then with_sub L2 ''changes network configuration'' ctx
         else read_only ctx ''read-only'')
      else if p = ''sed'' then Some
        (if list_ex (\<lambda>arg. starts_with arg ''-i'' \<or> starts_with arg ''--in-place'') (args ctx)
            \<or> list_ex sed_script_writes (args ctx)
         then
           let pos = positional ctx; t = (if pos = [] then [] else last pos)
           in plainly (max (write_risk t) L1) (''edits `'' @ t @ ''` in place'') ctx
         else read_only ctx ''read-only'')
      else if p \<in> set [''awk'', ''gawk'', ''mawk'', ''nawk''] then Some
        (if list_ex awk_dangerous (args ctx)
         then plainly L1 ''awk program runs commands or writes files'' ctx
         else read_only ctx ''read-only'')
      else if p = ''find'' then Some
        (if has_any ctx [''-delete''] then plainly L3 ''deletes files'' ctx
         else if has_any ctx [''-exec'', ''-execdir'', ''-ok'',
             ''-okdir''] then plainly L2 ''runs commands on found files'' ctx
         else if has_any ctx [''-fls'', ''-fprint'', ''-fprint0'',
             ''-fprintf''] then plainly L1 ''writes find output to a file'' ctx
         else read_only ctx ''read-only'')
      else if p = ''rg'' \<and> has_any ctx [''--pre'',
          ''--pre-glob''] then Some (plainly L1 ''runs a preprocessor'' ctx)
      else if p = ''curl'' then Some (classify_curl ctx)
      else if p = ''wget'' then Some
        (if has ctx ''--spider'' \<or> list_ex (\<lambda>w. w = (''-O'',
            ''-'')) (windows2 (args ctx))
            \<or> has_any ctx [''-qO-'', ''-O-'', ''--output-document=-'']
         then read_only ctx ''read-only''
         else plainly L1 ''downloads a file'' ctx)
      else if p = ''tee'' then Some
        (case tee_target ctx of (rk, t) \<Rightarrow>
           if rk = L0 then read_only ctx ''read-only''
           else plainly rk (''writes to `'' @ t @ ''`'') ctx)
      else if p = ''top'' then Some (read_only ctx ''read-only'')
      else if p = ''sort'' then Some
        (case value_of [''-o'', ''--output''] ctx of
           Some t \<Rightarrow> plainly (max (write_risk t) L1) ''writes sorted output'' ctx
         | None \<Rightarrow> read_only ctx ''read-only'')
      else if p = ''hostname'' then Some
        (if positional ctx \<noteq> [] then plainly L2 ''changes the hostname'' ctx
         else read_only ctx ''read-only'')
      else if p = ''date'' \<and> has_any ctx [''-s'',
          ''--set''] then Some (plainly L2 ''changes the system clock'' ctx)
      else if p \<in> set CTL_TOOLS then Some
        (if sub = [] \<or> sub = ''status'' \<or> sub = ''show'' \<or> starts_with sub ''list'' \<or> sub = ''query''
         then read_only ctx ''read-only''
         else with_sub L2 ''changes system settings'' ctx)
      else None)"

definition classify_system :: "Ctx \<Rightarrow> CommandAssessment option" where
  \<comment> \<open>rpm, dmesg, mount, sysctl, crontab, servers and package managers\<close>
  "classify_system ctx =
     (let p = program ctx in
      if p = ''rpm'' then Some
        (if (case args ctx of [] \<Rightarrow> False | a # _ \<Rightarrow> starts_with a ''-q'') then read_only ctx ''read-only''
         else plainly L2 ''changes installed packages'' ctx)
      else if p = ''dmesg'' \<and> has_any ctx [''-c'', ''-C'', ''--clear'', ''--read-clear''] then
        Some (plainly L1 ''clears the kernel ring buffer'' ctx)
      else if p = ''mount'' \<and> args ctx \<noteq> [] \<and> \<not> has_any ctx [''-l'',
          ''--list''] then
        Some (plainly L2 ''mounts a filesystem'' ctx)
      else if p = ''umount'' then Some (plainly L2 ''unmounts a filesystem'' ctx)
      else if p = ''sysctl'' then Some
        (if has_any ctx [''-w'', ''--write'', ''-p'', ''--load'', ''--system'']
            \<or> list_ex (\<lambda>arg. CHR ''='' \<in> set arg \<and> \<not> is_option arg) (args ctx)
         then plainly L2 ''changes kernel parameters'' ctx
         else read_only ctx ''read-only'')
      else if p = ''crontab'' then Some
        (if has ctx ''-l'' then read_only ctx ''read-only''
         else if has ctx ''-r'' then plainly L3 ''removes the crontab'' ctx
         else plainly L2 ''changes scheduled jobs'' ctx)
      else if p \<in> set [''nginx'', ''apachectl'', ''apache2ctl'', ''httpd'', ''sshd'',
          ''haproxy''] then Some
        (if has_any ctx [''-t'', ''-T'', ''configtest'',
            ''-S''] then read_only ctx ''validates configuration''
         else if has ctx ''-s'' then plainly L2 ''signals the server'' ctx
         else plainly L2 ''starts a server'' ctx)
      else if p \<in> set [''apt'', ''apt-get'', ''yum'', ''dnf'', ''zypper'', ''apk'',
          ''pacman'', ''brew'', ''snap'', ''flatpak'', ''dpkg'', ''pip'', ''pip3'', ''npm'',
              ''pnpm'', ''yarn'', ''gem'', ''cargo'', ''choco'', ''winget'', ''scoop'']
        then Some (classify_package ctx)
      else None)"

definition tar_lists :: "Ctx \<Rightarrow> bool" where
  "tar_lists ctx =
     (case args ctx of
        [] \<Rightarrow> False
      | a # _ \<Rightarrow> CHR ''t'' \<in> set (trim_start_matches (\<lambda>c. c = CHR ''-'') a) \<and>
                 \<not> (CHR ''x'' \<in> set a \<or> CHR ''c'' \<in> set a))"

definition FILE_WRITERS :: "string list" where
  "FILE_WRITERS =
     [''mv'', ''cp'', ''ln'', ''mkdir'', ''touch'', ''install'', ''rsync'', ''scp'',
         ''truncate'', ''patch'', ''tar'',
      ''unzip'', ''zip'', ''gzip'', ''gunzip'', ''copy-item'', ''cpi'', ''new-item'', ''ni'',
          ''set-content'',
      ''add-content'', ''out-file'', ''rename-item'', ''copy'', ''xcopy'', ''robocopy'',
          ''md'', ''mkdir.exe'',
      ''expand-archive'', ''compress-archive'']"

definition classify_files :: "Ctx \<Rightarrow> CommandAssessment option" where
  \<comment> \<open>deletion, file changes, permissions, processes, power, accounts and dynamic code\<close>
  "classify_files ctx =
     (let p = program ctx in
      if p \<in> set [''rm'', ''rmdir'', ''unlink'', ''shred'', ''del'', ''erase'',
          ''rd''] then Some
        (if has_short ctx (CHR ''r'') \<or> has_short ctx (CHR ''R'') \<or> has ctx ''--recursive'' \<or> has ctx ''/s''
            \<or> p = ''shred''
         then plainly L3 ''recursively deletes files'' ctx
         else plainly L2 ''deletes files'' ctx)
      else if p \<in> set [''remove-item'', ''ri''] then Some
        (if has_any ctx [''-recurse'', ''-r''] then plainly L3 ''recursively deletes files'' ctx
         else plainly L2 ''deletes files'' ctx)
      else if p \<in> set FILE_WRITERS then Some
        (if p = ''tar'' \<and> tar_lists ctx then read_only ctx ''lists an archive''
         else if p = ''unzip'' \<and> has ctx ''-l'' then read_only ctx ''lists an archive''
         else
           let rk = foldl (\<lambda>rk path. max rk (write_risk path)) L1 (positional ctx)
           in plainly (if p = ''install'' then max rk L2 else rk) ''modifies files'' ctx)
      else if p \<in> set [''chmod'', ''chown'', ''chgrp'', ''chattr'', ''setfacl''] then Some
        (if has_short ctx (CHR ''R'') \<or> has ctx ''--recursive''
         then plainly L3 ''recursively changes permissions'' ctx
         else plainly L2 ''changes permissions'' ctx)
      else if p \<in> set [''kill'', ''pkill'', ''killall'', ''stop-process'', ''taskkill''] then
        Some (plainly L2 ''terminates processes'' ctx)
      else if p \<in> set [''reboot'', ''shutdown'', ''poweroff'', ''halt'', ''init'',
          ''telinit''] then
        Some (plainly L3 ''changes system power state'' ctx)
      else if p \<in> set [''useradd'', ''userdel'', ''usermod'', ''groupadd'', ''groupdel'',
          ''groupmod'', ''passwd'', ''chpasswd'', ''visudo'', ''adduser'', ''deluser'']
        then Some (plainly L3 ''changes accounts'' ctx)
      else if p \<in> set [''invoke-expression'', ''iex'', ''eval'', ''source'', ''.''] then
        Some (plainly L3 ''evaluates dynamic code'' ctx)
      else None)"

definition classify_windows :: "Ctx \<Rightarrow> CommandAssessment option" where
  \<comment> \<open>web requests, Windows services, accounts, the registry and the network\<close>
  "classify_windows ctx =
     (let p = program ctx; sub = or_empty (ctx_first ctx) in
      if p \<in> set [''invoke-webrequest'', ''iwr'', ''invoke-restmethod'', ''irm'',
          ''wget.exe''] then Some
        (if has_any ctx [''-outfile'', ''-infile'', ''-body'',
            ''-method''] then plainly L1 ''sends or downloads data'' ctx
         else read_only ctx ''read-only'')
      else if p \<in> set [''restart-service'', ''stop-service'', ''start-service'',
          ''set-service'', ''suspend-service'', ''resume-service'', ''new-service'']
        then Some (plainly L2 ''changes service state'' ctx)
      else if p = ''sc'' then Some
        (if sub \<in> set [''query'', ''queryex'', ''qc'', ''qdescription'',
            ''getdisplayname'', ''getkeyname'', ''enumdepend'', ''sdshow'']
         then read_only ctx ''read-only''
         else with_sub L2 ''changes service state'' ctx)
      else if p = ''net'' then Some
        (if sub \<in> set [''user'', ''localgroup'',
            ''group''] \<and> 2 < length (args ctx) then with_sub L3 ''changes accounts'' ctx
         else if sub = ''start'' \<and> length (args ctx) = 1 then read_only ctx ''read-only''
         else if sub \<in> set [''stop'', ''start'', ''pause'',
             ''continue''] then with_sub L2 ''changes service state'' ctx
         else if sub \<in> set [''use'', ''share'', ''session''] \<and> 1 < length (args ctx)
           then with_sub L2 ''changes network resources'' ctx
         else if sub \<in> set [''view'', ''statistics'', ''config'', ''accounts'', ''use'',
             ''share'', ''session'', ''user'', ''localgroup'', ''group'']
           then read_only ctx ''read-only''
         else with_sub L1 ''net subcommand'' ctx)
      else if p = ''reg'' then Some
        (if sub \<in> set [''query'', ''compare'', ''export''] then read_only ctx ''read-only''
         else with_sub L3 ''changes the registry'' ctx)
      else if p \<in> set [''set-acl'', ''icacls'', ''takeown'', ''new-localuser'',
          ''add-localgroupmember'', ''remove-localuser'', ''set-localuser'',
              ''set-executionpolicy'', ''set-itemproperty'', ''new-itemproperty'',
                  ''remove-itemproperty'', ''move-item'', ''mi'', ''move'']
        then Some (plainly L3 ''changes system state'' ctx)
      else if p = ''netsh'' then Some
        (if list_ex (\<lambda>arg. to_lowercase arg \<in> set [''show'',
            ''dump'']) (args ctx) \<and>
            \<not> list_ex (\<lambda>arg. to_lowercase arg \<in> set [''set'', ''add'',
                ''delete'', ''reset'']) (args ctx)
         then read_only ctx ''read-only''
         else with_sub L2 ''changes network configuration'' ctx)
      else None)"

definition POSIX_INSPECTION :: "string list" where
  "POSIX_INSPECTION =
     [''cat'', ''tac'', ''head'', ''tail'', ''less'', ''more'', ''wc'', ''uniq'', ''cut'', ''tr'',
     ''grep'', ''egrep'', ''fgrep'', ''zgrep'', ''zcat'', ''bzcat'', ''xzcat'', ''ls'', ''ll'',
     ''dir'', ''vdir'', ''stat'', ''file'', ''du'', ''df'', ''date'', ''free'', ''uptime'',
     ''ps'', ''pgrep'', ''pidof'', ''id'', ''groups'', ''whoami'', ''uname'', ''printenv'',
     ''which'', ''whereis'', ''type'', ''echo'', ''printf'', ''pwd'', ''ss'', ''netstat'',
     ''lsof'', ''lsblk'', ''blkid'', ''findmnt'', ''last'', ''lastlog'', ''w'', ''who'',
     ''vmstat'', ''iostat'', ''mpstat'', ''pidstat'', ''sar'', ''nproc'', ''lscpu'', ''lsmem'',
     ''lspci'', ''lsusb'', ''lsmod'', ''getent'', ''dig'', ''nslookup'', ''host'', ''ping'',
     ''traceroute'', ''tracepath'', ''mtr'', ''md5sum'', ''sha1sum'', ''sha256sum'',
     ''sha512sum'', ''cksum'', ''base64'', ''jq'', ''yq'', ''column'', ''diff'', ''cmp'',
     ''readlink'', ''realpath'', ''basename'', ''dirname'', ''test'', ''['', ''true'', ''false'',
     ''sleep'', ''seq'', ''tree'', ''nl'', ''od'', ''hexdump'', ''xxd'', ''strings'', ''rev'',
     ''fold'', ''fmt'', ''expand'', ''comm'', ''join'', ''paste'', ''arch'', ''getconf'',
     ''locale'', ''tty'', ''env'', ''lsns'', ''lsattr'', ''getfacl'', ''namei'', ''dpkg-query'',
     ''apt-cache'', ''apt-config'', ''rg'', ''ag'', ''fd'', ''locate'', ''dmidecode'', ''ipcs'',
     ''systemd-analyze'', ''systemd-cgls'', ''htop'', ''atop'', ''iotop'', ''glances'',
     ''nvidia-smi'', ''sensors'', ''fuser'', ''pstree'', ''ulimit'', ''umask'']"

definition WINDOWS_INSPECTION :: "string list" where
  "WINDOWS_INSPECTION =
     [''where'', ''ipconfig'', ''systeminfo'', ''tasklist'', ''ver'', ''findstr'', ''query'',
     ''qwinsta'', ''driverquery'', ''getmac'', ''nbtstat'', ''pathping'', ''tracert'', ''fc'',
     ''gpresult'', ''cls'', ''clear'', ''select-string'', ''select-object'', ''where-object'',
     ''sort-object'', ''format-table'', ''format-list'', ''format-wide'', ''measure-object'',
     ''group-object'', ''test-path'', ''test-connection'', ''test-netconnection'',
     ''resolve-dnsname'', ''out-string'', ''out-host'', ''convertto-json'', ''convertfrom-json'',
     ''convertto-csv'', ''convertfrom-csv'', ''write-output'', ''write-host'',
     ''foreach-object'', ''compare-object'', ''gc'', ''gci'', ''gps'', ''gsv'', ''sls'',
     ''select'', ''ft'', ''fl'', ''measure'', ''resolve-path'', ''split-path'', ''join-path'']"

definition READ_ONLY_PROGRAMS :: "string list" where
  "READ_ONLY_PROGRAMS = POSIX_INSPECTION @ WINDOWS_INSPECTION"

definition MUTATING_VERBS :: "string list" where
  "MUTATING_VERBS =
     [''set-'', ''new-'', ''remove-'', ''clear-'', ''disable-'', ''enable-'', ''uninstall-'',
         ''install-'',
      ''register-'', ''unregister-'', ''restart-'', ''stop-'', ''start-'']"

definition classify_rest :: "Ctx \<Rightarrow> CommandAssessment" where
  "classify_rest ctx =
     (let p = program ctx in
      if starts_with p ''get-'' then read_only ctx ''read-only''
      else if p \<in> set READ_ONLY_PROGRAMS then read_only ctx ''read-only''
      else if \<exists>verb \<in> set MUTATING_VERBS. starts_with p verb then plainly L2 ''changes system state'' ctx
      else plainly L1 (''runs `'' @ p @ ''`'') ctx)"

definition or_else :: "'a option \<Rightarrow> 'a option \<Rightarrow> 'a option" where
  "or_else a b = (case a of None \<Rightarrow> b | Some x \<Rightarrow> Some x)"

definition classify_program :: "Ctx \<Rightarrow> CommandAssessment" where
  "classify_program ctx =
     (if length (args ctx) = 1 \<and> args ctx ! 0 \<in> set [''--version'', ''-V'',
         ''--help''] then read_only ctx ''read-only''
      else
        case or_else (classify_services ctx) (or_else (classify_tools ctx)
               (or_else (classify_system ctx) (or_else (classify_files ctx) (classify_windows ctx)))) of
          Some a \<Rightarrow> a
        | None \<Rightarrow> classify_rest ctx)"

end
