(* ===== verification/Command_Assess.thy ===== *)
theory Command_Assess
  imports Command_Policy
begin

text \<open>
  The recursive part of \<^verbatim>\<open>crates/miaominal-agent/src/policy/command.rs\<close>: the wrappers that run
  another command, the mutual recursion of the assessment, \<^verbatim>\<open>assess_command\<close> with its second
  reading of backslashes, and the command guard of \<^verbatim>\<open>policy/mod.rs\<close>.
\<close>

section \<open>Wrappers\<close>

text \<open>What the wrapper \<^verbatim>\<open>match\<close> of \<^verbatim>\<open>classify_words\<close> decides: a verdict, the words of the command it
  runs (as root or not; never empty, so given by head and tail), or a script to assess.\<close>

datatype wrapped =
    Verdict CommandAssessment
  | RunAsRoot string "string list"
  | RunWords string "string list"
  | Script string ShellDialect
  | NoWrapper

fun option_words :: "string list \<Rightarrow> nat" where
  \<comment> \<open>the index behind the options of sudo; it may exceed the length by one\<close>
  "option_words [] = 0"
| "option_words (a # rest) =
     (if is_option a then
        if a \<in> set [''-u'', ''-g'', ''-C'', ''-p'', ''-h'']
        then (case rest of [] \<Rightarrow> 2 | _ # rest' \<Rightarrow> 2 + option_words rest')
        else 1 + option_words rest
      else 0)"

definition first_operand :: "string list \<Rightarrow> nat" where
  "first_operand as = (case position (\<lambda>a. \<not> is_option a) as of None \<Rightarrow> length as | Some n \<Rightarrow> n)"

fun skipped_words :: "string \<Rightarrow> nat \<Rightarrow> string list \<Rightarrow> string list" where
  \<comment> \<open>the words behind those that env, timeout and the like take themselves\<close>
  "skipped_words prog index [] = []"
| "skipped_words prog index (a # rest) =
     (if is_option a
         \<or> (prog = ''env'' \<and> looks_like_assignment a)
         \<or> (prog = ''timeout'' \<and> index = 0 \<and> (case a of [] \<Rightarrow> False | c # _ \<Rightarrow> is_ascii_digit c))
      then skipped_words prog (index + 1) rest
      else a # rest)"

definition run_or_read :: "string \<Rightarrow> string list \<Rightarrow> wrapped" where
  "run_or_read prog rest =
     (case rest of [] \<Rightarrow> Verdict (verdict L0 ''read-only'' prog) | w # as \<Rightarrow> RunWords w as)"

definition WRAPPERS :: "string list" where
  "WRAPPERS =
     [''env'', ''nice'', ''nohup'', ''time'', ''command'', ''stdbuf'', ''ionice'', ''timeout'', ''watch'', ''exec'',
      ''builtin'']"

definition unwrap_sudo :: "string \<Rightarrow> string list \<Rightarrow> wrapped" where
  "unwrap_sudo prog as =
     (case drop (min (max (option_words as) (first_operand as)) (length as)) as of
        [] \<Rightarrow> Verdict ((verdict L3 ''opens a root shell'' prog)\<lparr>uses_sudo := True\<rparr>)
      | w # rest \<Rightarrow> RunAsRoot w rest)"

definition unwrap_shell :: "string \<Rightarrow> string list \<Rightarrow> wrapped" where
  "unwrap_shell prog as =
     (case position (\<lambda>a. a = ''-c'' \<or> a = ''-lc'') as of
        Some n \<Rightarrow>
          if n + 1 < length as then Script (as ! (n + 1)) PosixDialect
          else Verdict (verdict L1 ''runs a shell script'' prog)
      | None \<Rightarrow> Verdict (verdict L1 ''runs a shell script'' prog))"

definition unwrap_powershell :: "string \<Rightarrow> string list \<Rightarrow> wrapped" where
  "unwrap_powershell prog as =
     (case position (\<lambda>a. to_lowercase a \<in> set [''-c'', ''-command'', ''/c'', ''/command'']) as of
        Some n \<Rightarrow>
          let script = join '' '' (drop (n + 1) as)
          in if script \<noteq> [] then Script script PowerShellDialect
             else Verdict (verdict L1 ''runs a PowerShell script'' prog)
      | None \<Rightarrow> Verdict (verdict L1 ''runs a PowerShell script'' prog))"

definition unwrap_cmd :: "string \<Rightarrow> string list \<Rightarrow> wrapped" where
  "unwrap_cmd prog as =
     (case position (\<lambda>a. eq_ignore_ascii_case a ''/c'' \<or> eq_ignore_ascii_case a ''/k'') as of
        Some n \<Rightarrow> Script (join '' '' (drop (n + 1) as)) CmdDialect
      | None \<Rightarrow> Verdict (verdict L1 ''runs cmd.exe'' prog))"

definition unwrap :: "string \<Rightarrow> string list \<Rightarrow> wrapped" where
  "unwrap prog as =
     (if prog = ''sudo'' \<or> prog = ''doas'' then unwrap_sudo prog as
      else if prog \<in> set WRAPPERS then run_or_read prog (skipped_words prog 0 as)
      else if prog = ''xargs'' then run_or_read prog (drop (first_operand as) as)
      else if prog \<in> set [''sh'', ''bash'', ''zsh'', ''dash'', ''ksh'', ''ash''] then unwrap_shell prog as
      else if prog = ''powershell'' \<or> prog = ''pwsh'' then unwrap_powershell prog as
      else if prog = ''cmd'' then unwrap_cmd prog as
      else NoWrapper)"

lemma skipped_words_shorter: "length (skipped_words prog i as) \<le> length as"
  by (induction prog i as rule: skipped_words.induct) auto

lemma run_or_read_cases:
  "run_or_read prog rest = RunWords w as \<longleftrightarrow> rest = w # as"
  "run_or_read prog rest \<noteq> RunAsRoot w as"
  by (auto simp: run_or_read_def split: list.splits)

lemma drop_shorter: "drop n as = w # rest \<Longrightarrow> length rest < length as"
proof -
  assume "drop n as = w # rest"
  then have "length (w # rest) = length as - n" by (metis length_drop)
  then show ?thesis by simp
qed

lemma unwrap_sudo_shorter: "unwrap_sudo prog as = RunAsRoot w rest \<Longrightarrow> length rest < length as"
  using drop_shorter by (auto simp: unwrap_sudo_def split: list.splits)

lemma unwrap_kinds [simp]:
  "unwrap_sudo prog as \<noteq> RunWords w rest" "unwrap_shell prog as \<noteq> RunWords w rest"
  "unwrap_powershell prog as \<noteq> RunWords w rest" "unwrap_cmd prog as \<noteq> RunWords w rest"
  "unwrap_shell prog as \<noteq> RunAsRoot w rest" "unwrap_powershell prog as \<noteq> RunAsRoot w rest"
  "unwrap_cmd prog as \<noteq> RunAsRoot w rest"
  by (simp_all add: unwrap_sudo_def unwrap_shell_def unwrap_powershell_def unwrap_cmd_def Let_def
      split: list.split option.split)

lemma unwrap_less:
  "unwrap prog as = RunWords w rest \<Longrightarrow> length rest < length as"
  "unwrap prog as = RunAsRoot w rest \<Longrightarrow> length rest < length as"
proof -
  show "unwrap prog as = RunWords w rest \<Longrightarrow> length rest < length as"
    using drop_shorter skipped_words_shorter [of prog 0 as]
    by (auto simp: unwrap_def run_or_read_cases split: if_splits)
  show "unwrap prog as = RunAsRoot w rest \<Longrightarrow> length rest < length as"
    using unwrap_sudo_shorter by (auto simp: unwrap_def run_or_read_cases split: if_splits)
qed

section \<open>The assessment\<close>

definition MAX_DEPTH :: nat where
  "MAX_DEPTH = 4"

fun next_level :: "AgentRiskLevel \<Rightarrow> AgentRiskLevel" where
  "next_level L0ReadOnly = L0ReadOnly"
| "next_level L1LowMutation = L2ServiceImpacting"
| "next_level L2ServiceImpacting = L3Dangerous"
| "next_level r = r"

definition as_root :: "CommandAssessment \<Rightarrow> CommandAssessment" where
  "as_root a =
     (if risk a \<noteq> L0 \<and> risk a < L3
      then a\<lparr>risk := next_level (risk a), reason := reason a @ '' (as root)'', uses_sudo := True\<rparr>
      else a\<lparr>uses_sudo := True\<rparr>)"

definition note_sensitive :: "CommandAssessment \<Rightarrow> segment \<Rightarrow> CommandAssessment" where
  "note_sensitive r s =
     (case sensitive_in_segment s of
        None \<Rightarrow> r
      | Some path \<Rightarrow> if sensitive_path r = None then r\<lparr>sensitive_path := Some path\<rparr> else r)"

definition sensitive_reason :: "string \<Rightarrow> string" where
  "sensitive_reason path = ''references sensitive path `'' @ path @ ''`''"

definition forbid_sensitive :: "CommandAssessment \<Rightarrow> CommandAssessment" where
  "forbid_sensitive r =
     (case sensitive_path r of
        None \<Rightarrow> r
      | Some path \<Rightarrow> r\<lparr>risk := L4, reason := sensitive_reason path\<rparr>)"

definition parse_flags :: "parsed \<Rightarrow> CommandAssessment" where
  \<comment> \<open>the assessment after the checks of \<^verbatim>\<open>unparsable\<close> and \<^verbatim>\<open>ifs\<close>\<close>
  "parse_flags parsed =
     (let r = (if unparsable parsed
               then raise read_only_assessment L1 ''command could not be parsed reliably'' None
               else read_only_assessment)
      in if ifs parsed then raise r L3 ''uses $IFS obfuscation'' None else r)"

definition redirect_assessment :: "redirect list \<Rightarrow> CommandAssessment" where
  "redirect_assessment rs =
     foldl (\<lambda>r rd. raise r (redirect_risk rd) (''writes to `'' @ target rd @ ''`'') None)
       read_only_assessment rs"

definition assess_measure :: "nat \<Rightarrow> nat \<times> nat \<times> nat" where
  "assess_measure depth = (5 - depth, if MAX_DEPTH < depth then 0 else 3, 0)"

function (sequential) assess :: "string \<Rightarrow> ShellDialect \<Rightarrow> nat \<Rightarrow> CommandAssessment"
  and assess_segment :: "segment \<Rightarrow> nat \<Rightarrow> CommandAssessment"
  and classify_words :: "string \<Rightarrow> string list \<Rightarrow> nat \<Rightarrow> CommandAssessment" where
  "assess command d depth =
     (if is_forbidden_command (normalize_command command) then
        read_only_assessment\<lparr>risk := L4, reason := ''blocked by the command denylist''\<rparr>
      else if MAX_DEPTH < depth then
        read_only_assessment\<lparr>risk := L1, reason := ''nested too deeply to analyse''\<rparr>
      else
        let parsed = parse_dialect command d;
            r1 = foldl (\<lambda>r sub. merge r (assess sub d (depth + 1))) (parse_flags parsed)
                   (substitutions parsed);
            r2 = foldl (\<lambda>r s. merge (note_sensitive r s) (assess_segment s depth)) r1
                   (segments_of parsed)
        in forbid_sensitive r2)"
| "assess_segment s depth =
     (let r = redirect_assessment (redirects s) in
      case strip_assignments (words s) of
        [] \<Rightarrow> r
      | w # as \<Rightarrow> merge r (classify_words w as depth))"
| "classify_words w as depth =
     (case program_name w of
        None \<Rightarrow> verdict L1 (''runs path-qualified program `'' @ w @ ''`'') w
      | Some prog \<Rightarrow>
          (case unwrap prog as of
             Verdict a \<Rightarrow> a
           | RunAsRoot v rest \<Rightarrow> as_root (classify_words v rest depth)
           | RunWords v rest \<Rightarrow> classify_words v rest depth
           | Script script d \<Rightarrow> assess script d (depth + 1)
           | NoWrapper \<Rightarrow> classify_program \<lparr>program = prog, args = as\<rparr>))"
  by pat_completeness auto

termination
proof (relation "inv_image (less_than <*lex*> less_than <*lex*> less_than)
    (\<lambda>x. case x of
       Inl (command, d, depth) \<Rightarrow> assess_measure depth
     | Inr (Inl (s, depth)) \<Rightarrow> (5 - depth, 2, 0)
     | Inr (Inr (w, as, depth)) \<Rightarrow> (5 - depth, 1, length as))", goal_cases)
  case 1
  show ?case by (intro wf_inv_image wf_lex_prod wf_less_than)
qed (auto simp: assess_measure_def MAX_DEPTH_def intro: unwrap_less)

declare assess.simps [simp del] assess_segment.simps [simp del] classify_words.simps [simp del]

definition assess_command :: "string \<Rightarrow> ShellDialect \<Rightarrow> CommandAssessment" where
  "assess_command command d =
     (let r = assess command d 0 in
      if sensitive_path r = None \<and> BACKSLASH \<in> set command then
        let literal = (if d = PosixDialect then CmdDialect else PosixDialect) in
        (case List.map_filter sensitive_in_segment (segments_of (parse_dialect command literal)) of
           [] \<Rightarrow> r
         | path # _ \<Rightarrow> r\<lparr>risk := L4, reason := sensitive_reason path, sensitive_path := Some path\<rparr>)
      else r)"

definition classify_command :: "string \<Rightarrow> AgentRiskLevel" where
  "classify_command command = risk (assess_command command PosixDialect)"

section \<open>The command guard\<close>

fun risk_text :: "AgentRiskLevel \<Rightarrow> string" where
  "risk_text L0ReadOnly = ''L0ReadOnly''"
| "risk_text L1LowMutation = ''L1LowMutation''"
| "risk_text L2ServiceImpacting = ''L2ServiceImpacting''"
| "risk_text L3Dangerous = ''L3Dangerous''"
| "risk_text L4Forbidden = ''L4Forbidden''"

definition decide_command :: "string \<Rightarrow> bool \<Rightarrow> AgentPolicyDecision" where
  "decide_command command approved =
     (let a = assess_command command PosixDialect in
      case sensitive_path a of
        Some path \<Rightarrow>
          Deny (''command `'' @ command @ ''` references sensitive path `'' @ path
                @ ''`, which is blocked by the sensitive path denylist'')
      | None \<Rightarrow>
          if risk a = L4 then
            Deny (''command `'' @ command @ ''` is blocked by the command denylist'')
          else if approved \<or> risk a = L0 then Allow
          else NeedsApproval (''command `'' @ command @ ''` has risk level '' @ risk_text (risk a)
                 @ '': '' @ reason a))"

definition enforce_command :: "string \<Rightarrow> bool \<Rightarrow> unit agent_result" where
  "enforce_command command approved = enforced (''shell:'' @ command) (decide_command command approved)"

end
