(* ===== verification/Risk_Fold.thy ===== *)
theory Risk_Fold
  imports Policy_Paths
begin

text \<open>
  The contract of an accumulator that collects risk: adding a part never lowers the risk and reaches
  the risk of the part. The folds of the command assessment (over redirections, substitutions and
  segments) are proved to be such accumulators, so the whole is at least as risky as each part.
\<close>

locale risk_fold =
  fixes add :: "'a \<Rightarrow> 'x \<Rightarrow> 'a"
    and total :: "'a \<Rightarrow> AgentRiskLevel"
    and part :: "'x \<Rightarrow> AgentRiskLevel"
  assumes never_lowers: "total a \<le> total (add a x)"
    and reaches: "part x \<le> total (add a x)"
    and no_higher: "total (add a x) \<le> max (total a) (part x)"
begin

lemma fold_never_lowers: "total a \<le> total (foldl add a xs)"
proof (induction xs arbitrary: a)
  case (Cons x xs)
  from order_trans [OF never_lowers Cons.IH] show ?case by simp
qed simp

lemma fold_reaches: "x \<in> set xs \<Longrightarrow> part x \<le> total (foldl add a xs)"
proof (induction xs arbitrary: a)
  case (Cons y xs)
  then show ?case using order_trans [OF reaches fold_never_lowers] by auto
qed simp

lemma fold_no_higher: "\<forall>x \<in> set xs. part x \<le> r \<Longrightarrow> total a \<le> r \<Longrightarrow> total (foldl add a xs) \<le> r"
proof (induction xs arbitrary: a)
  case (Cons x xs)
  then have "total (add a x) \<le> r" using no_higher [of a x] by (auto intro: order_trans)
  with Cons show ?case by simp
qed simp

end

end
