(* ===== verification/Lexer_Properties.thy ===== *)
theory Lexer_Properties
  imports Shell_Lexer Path_Guard
begin

text \<open>
  What the lexer guarantees: what it has recorded is never lost (\<open>grows\<close>), a substitution it meets
  is recorded, and a command line made of quoted words is read back as exactly these words.
\<close>

section \<open>What is recorded stays recorded\<close>

definition grows :: "parsed \<Rightarrow> parsed \<Rightarrow> bool" where
  "grows a b \<longleftrightarrow>
     prefix (substitutions a) (substitutions b) \<and> prefix (map words (segments_of a)) (map words (segments_of b)) \<and>
     (unparsable a \<longrightarrow> unparsable b) \<and> (ifs a \<longrightarrow> ifs b)"

lemma grows_refl [simp]: "grows a a"
  by (simp add: grows_def)

lemma grows_trans [trans]: "grows a b \<Longrightarrow> grows b c \<Longrightarrow> grows a c"
  unfolding grows_def by (meson prefix_order.order_trans)

lemma out_setters [simp]:
  "out (push_word w l) = out l" "out (enter_word l) = out l" "out (push_redirect r l) = out l"
  "out (end_word l) = out l" "out (l\<lparr>input := s\<rparr>) = out l"
  by (simp_all add: push_word_def enter_word_def push_redirect_def end_word_def Let_def split: option.split)

lemma grows_flags [simp]:
  "grows (out l) (out (flag_unparsable l))" "grows (out l) (out (flag_ifs l))"
  "grows (out l) (out (push_substitution s l))" "grows (out l) (out (flush_segment l))"
  "grows (out l) (out (drop_pending l))"
  by (simp_all add: grows_def flag_unparsable_def flag_ifs_def push_substitution_def flush_segment_def
      drop_pending_def split: option.split)

lemma grows_separator [simp]: "grows (out l) (out (separator l))"
  unfolding separator_def by (metis grows_flags(4,5) grows_trans out_setters(4))

lemma grows_after_capture [simp]: "grows (out l) (out (after_capture cap l))"
  by (cases cap) (simp add: after_capture_def)

lemma grows_start_redirect [simp]: "grows (out l) (out (start_redirect p n l))"
  using grows_flags(1) [of l] by (simp add: start_redirect_def)

lemma grows_backtick [simp]: "grows (out l) (out (backtick l))"
proof -
  obtain inner rest closed where b: "backtick_body (drop 1 (input l)) = (inner, rest, closed)"
    by (metis prod_cases3)
  have "grows (out l) (out (after_capture (inner, rest, closed) (enter_word l)))"
    using grows_after_capture [of "enter_word l"] by simp
  also have "grows \<dots> (out (backtick l))"
    unfolding backtick_def b prod.case
    using grows_flags(3) [of "push_word ([BACKTICK] @ ellipsis @ [BACKTICK]) (after_capture (inner, rest, closed) (enter_word l))" inner]
    by (simp only: out_setters)
  finally show ?thesis .
qed

lemma grows_if: "grows a (out l) \<Longrightarrow> grows a (out m) \<Longrightarrow> grows a (out (if b then l else m))"
  by simp

lemma grows_then:
  "grows a (out l) \<Longrightarrow> grows a (out (flag_ifs l))" "grows a (out l) \<Longrightarrow> grows a (out (push_substitution s l))"
  "grows a (out l) \<Longrightarrow> grows a (out (after_capture cap l))" "grows a (out l) \<Longrightarrow> grows a (out (flag_unparsable l))"
  "grows a (out l) \<Longrightarrow> grows a (out (separator l))" "grows a (out l) \<Longrightarrow> grows a (out (start_redirect p n l))"
  by (metis grows_flags grows_after_capture grows_separator grows_start_redirect grows_trans)+

lemma grows_dollar [simp]: "grows (out l) (out (dollar l))"
  by (simp add: dollar_def Let_def grows_then)

lemma grows_redirect_step [simp]: "grows (out l) (out (redirect_step c l))"
  by (auto simp: redirect_step_def Let_def intro!: grows_then split: prod.split)

lemma grows_double_step [simp]: "grows (out l) (out (double_step c l))"
  by (simp add: double_step_def split: option.split)

lemma grows_double_loop [simp]: "grows (out l) (out (double_loop l))"
proof (induction l rule: double_loop.induct)
  case (1 l)
  show ?case
  proof (cases "input l")
    case Nil
    then show ?thesis by (simp add: double_loop.simps [of l])
  next
    case (Cons c s)
    from "1.IH" [OF Cons] grows_trans [OF grows_double_step [of l c]] Cons show ?thesis
      by (auto simp: double_loop.simps [of l])
  qed
qed

lemma grows_single_quoted [simp]: "grows (out l) (out (single_quoted l))"
  using grows_flags(1) [of "push_word (drop 1 (input l)) (skip 1 (enter_word l))"]
  by (simp add: single_quoted_def Let_def split: option.split)

lemma words_set_body [simp]: "map words (set_body h body segs) = map words segs"
proof -
  have "map words (segs[i := (segs ! i)\<lparr>redirects := rs\<rparr>]) = map words segs" for i rs
    by (metis length_map list_update_beyond list_update_id list_update_overwrite map_update
        nat_neq_iff not_le nth_map segment.select_convs(1) segment.surjective segment.update_convs(2))
  then show ?thesis by (simp add: set_body_def Let_def)
qed

lemma grows_read_bodies [simp]: "grows (out l) (out (read_bodies hs l))"
proof (induction hs arbitrary: l)
  case (Cons h hs)
  obtain body rest where b: "read_body h [] (input l) = (body, rest)" by (metis surj_pair)
  let ?m = "l\<lparr>input := rest, out := (out l)\<lparr>segments_of := set_body h body (segments_of (out l))\<rparr>\<rparr>"
  have "grows (out l) (out ?m)" by (simp add: grows_def)
  also have "grows \<dots> (out (read_bodies hs ?m))" by (rule Cons)
  finally show ?case by (simp add: b)
qed simp

lemma grows_read_heredoc_bodies [simp]: "grows (out l) (out (read_heredoc_bodies l))"
  using grows_read_bodies [of "l\<lparr>heredocs := []\<rparr>"] by (simp add: read_heredoc_bodies_def)

lemma grows_step [simp]: "grows (out l) (out (step c l))"
proof -
  have "grows (out l) (out (read_heredoc_bodies (skip 1 (separator l))))"
    using grows_trans [OF grows_separator grows_read_heredoc_bodies [of "skip 1 (separator l)", simplified]] by simp
  moreover have "grows (out l) (out (double_quoted l))"
    using grows_double_loop [of "skip 1 (enter_word l)"] by (simp add: double_quoted_def)
  moreover have "grows (out l) (out (escape_step l))" "grows (out l) (out (ampersand l))"
    by (auto simp: escape_step_def ampersand_def intro: grows_then split: option.split)
  ultimately show ?thesis by (simp add: step_def)
qed

lemma grows_lex: "grows (out l) (out (lex l))"
proof (induction l rule: lex.induct)
  case (1 l)
  show ?case
  proof (cases "input l")
    case Nil
    then show ?thesis by (simp add: lex.simps [of l])
  next
    case (Cons c s)
    from "1.IH" [OF Cons] grows_trans [OF grows_step [of l c]] Cons show ?thesis
      by (auto simp: lex.simps [of l])
  qed
qed

lemma grows_run: "grows (out l) (out (run l))"
  using grows_trans [OF grows_lex grows_separator [of "lex l"]] by (simp add: run_def)

section \<open>Quoted command lines\<close>

definition quoted_command :: "string list \<Rightarrow> string" where
  "quoted_command ws = join '' '' (map shell_quote_posix ws)"

definition quoted_line :: "string list list \<Rightarrow> string" where
  "quoted_line cmds = join ''; '' (map quoted_command cmds)"

definition reading_word :: "segment list \<Rightarrow> string list \<Rightarrow> string option \<Rightarrow> string \<Rightarrow> lexer" where
  \<comment> \<open>the state with the given segments done, words of the open segment, and word begun\<close>
  "reading_word segs ws w s =
     \<lparr>dialect = PosixDialect, input = s,
      out = \<lparr>segments_of = segs, substitutions = [], unparsable = False, ifs = False\<rparr>,
      seg = \<lparr>words = ws, redirects = []\<rparr>,
      word = (case w of None \<Rightarrow> [] | Some v \<Rightarrow> v), in_word = (w \<noteq> None),
      pending_redirect = None, heredocs = []\<rparr>"

definition begun :: "string option \<Rightarrow> string" where
  "begun w = (case w of None \<Rightarrow> [] | Some v \<Rightarrow> v)"

lemma lex_step: "input l = c # s \<Longrightarrow> lex l = lex (step c l)"
  by (simp add: lex.simps [of l])

lemma position_quote: "QUOTE \<notin> set a \<Longrightarrow> position (\<lambda>c. c = QUOTE) (a @ QUOTE # s) = Some (length a)"
  by (induction a) auto

lemma lex_single:
  assumes "QUOTE \<notin> set a"
  shows "lex (reading_word segs ws w (QUOTE # a @ QUOTE # s)) = lex (reading_word segs ws (Some (begun w @ a)) s)"
proof -
  have "step QUOTE (reading_word segs ws w (QUOTE # a @ QUOTE # s)) = reading_word segs ws (Some (begun w @ a)) s"
    by (simp add: step_def is_escape_def reading_word_def single_quoted_def skip_def enter_word_def
        push_word_def position_quote [OF assms] begun_def Let_def)
  then show ?thesis by (simp add: lex_step reading_word_def)
qed

lemma lex_escaped_quote:
  "lex (reading_word segs ws w (DQUOTE # QUOTE # DQUOTE # s)) = lex (reading_word segs ws (Some (begun w @ [QUOTE])) s)"
proof -
  have "step DQUOTE (reading_word segs ws w (DQUOTE # QUOTE # DQUOTE # s)) = reading_word segs ws (Some (begun w @ [QUOTE])) s"
    by (simp add: step_def is_escape_def reading_word_def double_quoted_def double_loop.simps double_step_def
        skip_def enter_word_def push_word_def begun_def)
  then show ?thesis by (simp add: lex_step reading_word_def)
qed

lemma lex_quoted:
  "lex (reading_word segs ws w (shell_quote_posix v @ s)) = lex (reading_word segs ws (Some (begun w @ v)) s)"
proof (induction "length v" arbitrary: v w rule: less_induct)
  case less
  show ?case
  proof (cases "QUOTE \<in> set v")
    case False
    then show ?thesis using lex_single [OF False, of segs ws w s]
      by (simp add: shell_quote_posix_def replace_char_id)
  next
    case True
    then obtain a b where v: "v = a @ QUOTE # b" "QUOTE \<notin> set a" by (metis split_list_first)
    have "shell_quote_posix v @ s =
        QUOTE # a @ QUOTE # DQUOTE # QUOTE # DQUOTE # shell_quote_posix b @ s"
      by (simp add: v shell_quote_posix_def replace_char_append replace_char_id)
    then have "lex (reading_word segs ws w (shell_quote_posix v @ s)) =
        lex (reading_word segs ws (Some (begun w @ a)) (DQUOTE # QUOTE # DQUOTE # shell_quote_posix b @ s))"
      using lex_single [OF v(2)] by simp
    also have "\<dots> = lex (reading_word segs ws (Some (begun w @ a @ [QUOTE])) (shell_quote_posix b @ s))"
      using lex_escaped_quote [of segs ws "Some (begun w @ a)"] by (simp add: begun_def)
    also have "\<dots> = lex (reading_word segs ws (Some (begun w @ v)) s)"
      using less [of b "Some (begun w @ a @ [QUOTE])"] by (simp add: v begun_def)
    finally show ?thesis .
  qed
qed

lemma lex_blank:
  "lex (reading_word segs ws (Some v) (CHR '' '' # s)) = lex (reading_word segs (ws @ [v]) None s)"
  "lex (reading_word segs ws None (CHR '' '' # s)) = lex (reading_word segs ws None s)"
proof -
  have "step (CHR '' '') (reading_word segs ws (Some v) (CHR '' '' # s)) = reading_word segs (ws @ [v]) None s"
    "step (CHR '' '') (reading_word segs ws None (CHR '' '' # s)) = reading_word segs ws None s"
    by (simp_all add: step_def is_escape_def reading_word_def skip_def end_word_def Let_def)
  then show "lex (reading_word segs ws (Some v) (CHR '' '' # s)) = lex (reading_word segs (ws @ [v]) None s)"
    "lex (reading_word segs ws None (CHR '' '' # s)) = lex (reading_word segs ws None s)"
    by (simp_all add: lex_step reading_word_def)
qed

lemma lex_semicolon:
  "lex (reading_word segs ws (Some v) (''; '' @ s)) =
   lex (reading_word (segs @ [\<lparr>words = ws @ [v], redirects = []\<rparr>]) [] None s)"
proof -
  have "step (CHR '';'') (reading_word segs ws (Some v) (''; '' @ s)) =
      reading_word (segs @ [\<lparr>words = ws @ [v], redirects = []\<rparr>]) [] None (CHR '' '' # s)"
    by (simp add: step_def is_escape_def reading_word_def skip_def end_word_def separator_def
        drop_pending_def flush_segment_def no_segment_def peek_def Let_def)
  then show ?thesis using lex_blank(2) by (simp add: lex_step reading_word_def)
qed

lemma lex_command:
  "cmd \<noteq> [] \<Longrightarrow>
   lex (reading_word segs ws None (quoted_command cmd @ s)) =
   lex (reading_word segs (ws @ butlast cmd) (Some (last cmd)) s)"
proof (induction cmd arbitrary: ws)
  case (Cons v vs)
  have first: "lex (reading_word segs ws None (shell_quote_posix v @ t)) = lex (reading_word segs ws (Some v) t)" for t
    using lex_quoted [of segs ws None v t] by (simp add: begun_def)
  show ?case
  proof (cases "vs = []")
    case True
    then show ?thesis using first by (simp add: quoted_command_def)
  next
    case False
    then have "quoted_command (v # vs) @ s = shell_quote_posix v @ CHR '' '' # quoted_command vs @ s"
      by (simp add: quoted_command_def join_Cons)
    then show ?thesis using first lex_blank(1) Cons.IH [OF False, of "ws @ [v]"] False by simp
  qed
qed simp

lemma lex_line:
  "cmds \<noteq> [] \<Longrightarrow> \<forall>ws \<in> set cmds. ws \<noteq> [] \<Longrightarrow>
   lex (reading_word segs [] None (quoted_line cmds)) =
   lex (reading_word (segs @ map (\<lambda>ws. \<lparr>words = ws, redirects = []\<rparr>) (butlast cmds))
          (butlast (last cmds)) (Some (last (last cmds))) [])"
proof (induction cmds arbitrary: segs)
  case (Cons c cs)
  show ?case
  proof (cases "cs = []")
    case True
    then show ?thesis using lex_command [of c segs "[]" "[]"] Cons.prems by (simp add: quoted_line_def)
  next
    case False
    have "quoted_line (c # cs) = quoted_command c @ ''; '' @ quoted_line cs"
      using False by (simp add: quoted_line_def join_Cons)
    then have "lex (reading_word segs [] None (quoted_line (c # cs))) =
        lex (reading_word (segs @ [\<lparr>words = c, redirects = []\<rparr>]) [] None (quoted_line cs))"
      using lex_command [of c segs "[]" "''; '' @ quoted_line cs"] Cons.prems(2)
        lex_semicolon [of segs "butlast c" "last c" "quoted_line cs"]
      by simp
    then show ?thesis using Cons.IH [OF False, of "segs @ [\<lparr>words = c, redirects = []\<rparr>]"] Cons.prems False
      by simp
  qed
qed simp

lemma parse_quoted_line:
  assumes "\<forall>ws \<in> set cmds. ws \<noteq> []"
  shows "parse_dialect (quoted_line cmds) PosixDialect =
    \<lparr>segments_of = map (\<lambda>ws. \<lparr>words = ws, redirects = []\<rparr>) cmds, substitutions = [],
     unparsable = False, ifs = False\<rparr>"
proof -
  have start: "lexer_start s PosixDialect = reading_word [] [] None s" for s
    by (simp add: lexer_start_def reading_word_def no_output_def no_segment_def)
  have stop: "input l = [] \<Longrightarrow> lex l = l" for l by (simp add: lex.simps [of l])
  show ?thesis
  proof (cases "cmds = []")
    case True
    then show ?thesis
      by (simp add: parse_dialect_def run_def start quoted_line_def stop reading_word_def separator_def
          end_word_def drop_pending_def flush_segment_def)
  next
    case False
    obtain init cmd where cmds: "cmds = init @ [cmd]" using False by (metis rev_exhaust)
    then have "cmd \<noteq> []" using assms by simp
    then obtain ws v where cmd: "cmd = ws @ [v]" by (metis rev_exhaust)
    show ?thesis
      using lex_line [OF False assms, of "[]"]
      by (simp add: parse_dialect_def run_def start cmds cmd stop reading_word_def separator_def
          end_word_def drop_pending_def flush_segment_def Let_def)
  qed
qed

text \<open>C15: Quoted words cannot change the structure of a command line: for any commands, each a
  non-empty list of arbitrary words, the line of their quoted words separated by semicolons is read
  as exactly these commands with exactly these words, with no redirection, no substitution and no
  parse failure.\<close>

theorem lexer_reads_quoted_line:
  assumes "\<forall>ws \<in> set cmds. ws \<noteq> []"
  shows "parse_dialect (quoted_line cmds) PosixDialect =
    \<lparr>segments_of = map (\<lambda>ws. \<lparr>words = ws, redirects = []\<rparr>) cmds, substitutions = [],
     unparsable = False, ifs = False\<rparr>"
  using assms by (rule parse_quoted_line)

theorem lexer_reads_quoted_line_witness:
  "parse_dialect (quoted_line [[''rm'', ''a; b $(c)''], [''echo'', ''d'']]) PosixDialect =
    \<lparr>segments_of = map (\<lambda>ws. \<lparr>words = ws, redirects = []\<rparr>) [[''rm'', ''a; b $(c)''], [''echo'', ''d'']],
     substitutions = [], unparsable = False, ifs = False\<rparr>"
  by (rule lexer_reads_quoted_line) simp

end
