(* ===== verification/Policy_Properties.thy ===== *)
theory Policy_Properties
  imports Command_Assess Risk_Fold Lexer_Properties
begin

text \<open>
  What the command policy guarantees: a command is at least as risky as every part of it, a reference
  to a sensitive path is always denied, quoting hides nothing, root raises the risk, unknown programs
  are never read-only, and the guard passes exactly what the assessment allows. The last section holds
  the commands whose assessment misses what they run.
\<close>

section \<open>Merging and raising\<close>

lemma risk_merge [simp]: "risk (merge a b) = max (risk a) (risk b)"
  by (auto simp: merge_def Let_def max_def)

lemma risk_raise [simp]: "risk (raise a r why p) = max (risk a) r"
  by (auto simp: raise_def max_def)

lemma sudo_merge [simp]: "uses_sudo (merge a b) \<longleftrightarrow> uses_sudo a \<or> uses_sudo b"
  by (simp add: merge_def Let_def)

lemma sensitive_merge [simp]:
  "sensitive_path (merge a b) = (if sensitive_path a = None then sensitive_path b else sensitive_path a)"
  by (simp add: merge_def Let_def)

lemma note_sensitive_simps [simp]:
  "risk (note_sensitive r s) = risk r" "uses_sudo (note_sensitive r s) = uses_sudo r"
  "sensitive_path (note_sensitive r s) =
     (if sensitive_path r = None then sensitive_in_segment s else sensitive_path r)"
  by (simp_all add: note_sensitive_def split: option.split)

interpretation redirect_fold: risk_fold
  "\<lambda>r rd. raise r (redirect_risk rd) (''writes to `'' @ target rd @ ''`'') None" risk redirect_risk
  by unfold_locales simp_all

interpretation merge_fold: risk_fold "\<lambda>r x. merge r (f x)" risk "\<lambda>x. risk (f x)"
  for f :: "string \<Rightarrow> CommandAssessment"
  by unfold_locales simp_all

interpretation segment_fold: risk_fold "\<lambda>r s. merge (note_sensitive r s) (f s)" risk "\<lambda>s. risk (f s)"
  for f :: "segment \<Rightarrow> CommandAssessment"
  by unfold_locales simp_all

lemma risk_forbid: "risk r \<le> risk (forbid_sensitive r)"
  by (simp add: forbid_sensitive_def split: option.split)

lemma forbid_simps [simp]:
  "sensitive_path (forbid_sensitive r) = sensitive_path r" "uses_sudo (forbid_sensitive r) = uses_sudo r"
  "sensitive_path r \<noteq> None \<Longrightarrow> risk (forbid_sensitive r) = L4"
  by (auto simp: forbid_sensitive_def split: option.split)

section \<open>The whole and its parts\<close>

definition denylisted :: "string \<Rightarrow> bool" where
  "denylisted command \<longleftrightarrow> is_forbidden_command (normalize_command command)"

definition collected :: "string \<Rightarrow> ShellDialect \<Rightarrow> nat \<Rightarrow> CommandAssessment" where
  "collected command d depth =
     foldl (\<lambda>r s. merge (note_sensitive r s) (assess_segment s depth))
       (foldl (\<lambda>r sub. merge r (assess sub d (depth + 1))) (parse_flags (parse_dialect command d))
          (substitutions (parse_dialect command d)))
       (segments_of (parse_dialect command d))"

lemma assess_cases:
  "assess command d depth =
     (if denylisted command then
        read_only_assessment\<lparr>risk := L4, reason := ''blocked by the command denylist''\<rparr>
      else if MAX_DEPTH < depth then
        read_only_assessment\<lparr>risk := L1, reason := ''nested too deeply to analyse''\<rparr>
      else forbid_sensitive (collected command d depth))"
  by (simp add: assess.simps [of command d depth] denylisted_def collected_def Let_def)

lemma collected_parts:
  shows "sub \<in> set (substitutions (parse_dialect command d)) \<Longrightarrow>
      risk (assess sub d (depth + 1)) \<le> risk (collected command d depth)"
    and "s \<in> set (segments_of (parse_dialect command d)) \<Longrightarrow>
      risk (assess_segment s depth) \<le> risk (collected command d depth)"
    and "risk (parse_flags (parse_dialect command d)) \<le> risk (collected command d depth)"
proof -
  let ?r1 = "foldl (\<lambda>r sub. merge r (assess sub d (depth + 1))) (parse_flags (parse_dialect command d))
          (substitutions (parse_dialect command d))"
  have keep: "risk ?r1 \<le> risk (collected command d depth)"
    unfolding collected_def by (rule segment_fold.fold_never_lowers)
  show "sub \<in> set (substitutions (parse_dialect command d)) \<Longrightarrow>
      risk (assess sub d (depth + 1)) \<le> risk (collected command d depth)"
    using merge_fold.fold_reaches [where f = "\<lambda>sub. assess sub d (depth + 1)"] keep order_trans by blast
  show "s \<in> set (segments_of (parse_dialect command d)) \<Longrightarrow>
      risk (assess_segment s depth) \<le> risk (collected command d depth)"
    unfolding collected_def by (rule segment_fold.fold_reaches)
  show "risk (parse_flags (parse_dialect command d)) \<le> risk (collected command d depth)"
    using merge_fold.fold_never_lowers [where f = "\<lambda>sub. assess sub d (depth + 1)"] keep order_trans by blast
qed

lemma collected_le_assess: "depth \<le> MAX_DEPTH \<Longrightarrow> risk (collected command d depth) \<le> risk (assess command d depth)"
  by (simp add: assess_cases risk_forbid)

lemma segment_parts:
  shows "rd \<in> set (redirects s) \<Longrightarrow> redirect_risk rd \<le> risk (assess_segment s depth)"
    and "strip_assignments (words s) = w # as \<Longrightarrow> risk (classify_words w as depth) \<le> risk (assess_segment s depth)"
proof -
  have base: "risk (redirect_assessment (redirects s)) \<le> risk (assess_segment s depth)"
    by (simp add: assess_segment.simps [of s depth] Let_def split: list.split)
  show "rd \<in> set (redirects s) \<Longrightarrow> redirect_risk rd \<le> risk (assess_segment s depth)"
    using redirect_fold.fold_reaches [of rd "redirects s" read_only_assessment] base
    by (auto simp: redirect_assessment_def intro: order_trans)
  show "strip_assignments (words s) = w # as \<Longrightarrow> risk (classify_words w as depth) \<le> risk (assess_segment s depth)"
    by (simp add: assess_segment.simps [of s depth] Let_def)
qed

section \<open>Sensitive paths\<close>

definition collect_sensitive :: "CommandAssessment \<Rightarrow> bool" where
  "collect_sensitive r \<longleftrightarrow> sensitive_path r \<noteq> None"

lemma collect_sensitive_merge [simp]:
  "collect_sensitive (merge (note_sensitive r s) a) \<longleftrightarrow>
     collect_sensitive r \<or> sensitive_in_segment s \<noteq> None \<or> collect_sensitive a"
  by (auto simp: collect_sensitive_def)

lemma fold_keeps_sensitive:
  "collect_sensitive r \<Longrightarrow> collect_sensitive (foldl (\<lambda>r s. merge (note_sensitive r s) (f s)) r ss)"
  by (induction ss arbitrary: r) simp_all

lemma fold_finds_sensitive:
  "s \<in> set ss \<Longrightarrow> sensitive_in_segment s \<noteq> None \<Longrightarrow>
   collect_sensitive (foldl (\<lambda>r s. merge (note_sensitive r s) (f s)) r ss)"
proof (induction ss arbitrary: r)
  case (Cons t ss)
  show ?case
  proof (cases "s = t")
    case True
    then have "collect_sensitive (merge (note_sensitive r t) (f t))"
      using Cons.prems(2) by simp
    then show ?thesis using fold_keeps_sensitive by simp
  next
    case False
    with Cons show ?thesis by simp
  qed
qed simp

lemma sensitive_segment_forbidden:
  assumes "depth \<le> MAX_DEPTH" and "s \<in> set (segments_of (parse_dialect command d))"
    and "sensitive_in_segment s \<noteq> None"
  shows "risk (assess command d depth) = L4"
proof (cases "denylisted command")
  case False
  have "sensitive_path (collected command d depth) \<noteq> None"
    using fold_finds_sensitive [OF assms(2,3)] by (simp add: collected_def collect_sensitive_def)
  then show ?thesis using False assms(1) by (simp add: assess_cases)
qed (simp add: assess_cases)

lemma sensitive_assessment_forbidden:
  "sensitive_path (assess command d depth) \<noteq> None \<Longrightarrow> risk (assess command d depth) = L4"
  by (auto simp: assess_cases read_only_assessment_def split: if_splits)

lemma sensitive_command_forbidden:
  "sensitive_path (assess_command command d) \<noteq> None \<Longrightarrow> risk (assess_command command d) = L4"
  using sensitive_assessment_forbidden [of command d 0]
  by (auto simp: assess_command_def Let_def split: if_splits list.splits)

lemma assess_le_command: "risk (assess command d 0) \<le> risk (assess_command command d)"
  by (simp add: assess_command_def Let_def split: list.split)

lemma guard_passes:
  "enforce_command command approved = Inr () \<longleftrightarrow>
     risk (assess_command command PosixDialect) \<noteq> L4 \<and>
     (approved \<or> risk (assess_command command PosixDialect) = L0)"
  using sensitive_command_forbidden [of command PosixDialect]
  by (auto simp: enforce_command_def decide_command_def Let_def split: option.split)

lemma forbidden_denied: "risk (assess_command command PosixDialect) = L4 \<Longrightarrow>
   \<exists>tool why. enforce_command command approved = Inl (Denied tool why)"
  by (auto simp: enforce_command_def decide_command_def Let_def split: option.split)

lemma find_not_None: "x \<in> set xs \<Longrightarrow> P x \<Longrightarrow> List.find P xs \<noteq> None"
  by (induction xs) auto

lemma sensitive_word_found:
  assumes "t \<in> set (segment_tokens s)" and "trim_candidate t \<noteq> []" and "is_sensitive_path (trim_candidate t)"
  shows "sensitive_in_segment s \<noteq> None"
proof -
  have "t \<in> set (token_candidates t)" unfolding token_candidates_def set_append by (rule UnI1) simp
  with assms(1) have "t \<in> set (concat (map token_candidates (segment_tokens s)))"
    unfolding set_concat set_map by blast
  then have "trim_candidate t \<in> set (map trim_candidate (concat (map token_candidates (segment_tokens s))))"
    by simp
  from find_not_None [OF this, of "\<lambda>c. c \<noteq> [] \<and> is_sensitive_path c"] assms(2,3)
  show ?thesis by (simp add: sensitive_in_segment_def)
qed

section \<open>Properties of the command guard\<close>

text \<open>C2: A command is at least as risky as everything it runs: up to the depth the code analyses, the
  risk of a command is at least the risk of each of its command substitutions, of each of its
  segments, of each redirection of a segment, and of the program call of a segment.\<close>

theorem command_dominates_its_parts:
  assumes "depth \<le> MAX_DEPTH"
  shows "(\<forall>sub \<in> set (substitutions (parse_dialect command d)).
      risk (assess sub d (depth + 1)) \<le> risk (assess command d depth)) \<and>
    (\<forall>s \<in> set (segments_of (parse_dialect command d)).
      risk (assess_segment s depth) \<le> risk (assess command d depth) \<and>
      (\<forall>rd \<in> set (redirects s). redirect_risk rd \<le> risk (assess command d depth)) \<and>
      (\<forall>w as. strip_assignments (words s) = w # as \<longrightarrow>
        risk (classify_words w as depth) \<le> risk (assess command d depth)))"
  using collected_parts(1,2) [where command = command and d = d and depth = depth] collected_le_assess [OF assms, of command d]
    segment_parts(1) [where depth = depth] segment_parts(2) [where depth = depth]
  by (meson order_trans)

lemma parsed_sample:
  "parse_dialect ''echo $(reboot); rm x > f'' PosixDialect =
     \<lparr>segments_of = [\<lparr>words = [''echo'', ''$('' @ [CHR 0xE2, CHR 0x80, CHR 0xA6] @ '')''], redirects = []\<rparr>,
        \<lparr>words = [''rm'', ''x''], redirects = [\<lparr>op = ''>'', target = ''f'', fd_dup = False\<rparr>]\<rparr>],
      substitutions = [''reboot''], unparsable = False, ifs = False\<rparr>"
  by code_simp

theorem command_dominates_its_parts_witness:
  "risk (assess ''reboot'' PosixDialect 1) \<le> risk (assess ''echo $(reboot); rm x > f'' PosixDialect 0) \<and>
   redirect_risk \<lparr>op = ''>'', target = ''f'', fd_dup = False\<rparr>
     \<le> risk (assess ''echo $(reboot); rm x > f'' PosixDialect 0) \<and>
   risk (classify_words ''rm'' [''x''] 0) \<le> risk (assess ''echo $(reboot); rm x > f'' PosixDialect 0)"
  using command_dominates_its_parts [of 0 "''echo $(reboot); rm x > f''" PosixDialect]
  by (simp add: parsed_sample MAX_DEPTH_def strip_assignments_def looks_like_assignment_def)

text \<open>C3: The command guard passes a command exactly when its risk is not forbidden and it is approved
  or read-only; a command that references a sensitive path counts as forbidden.\<close>

theorem command_guard_passes:
  "(enforce_command command approved = Inr () \<longleftrightarrow>
     classify_command command \<noteq> L4 \<and> (approved \<or> classify_command command = L0)) \<and>
   (sensitive_path (assess_command command PosixDialect) = None \<or> classify_command command = L4)"
  using sensitive_command_forbidden [of command PosixDialect]
  by (cases "sensitive_path (assess_command command PosixDialect)") (simp_all add: guard_passes classify_command_def)


lemma sensitive_sample: "trim_candidate ''/a/.ssh/b'' = ''/a/.ssh/b'' \<and> is_sensitive_path ''/a/.ssh/b''"
  by code_simp


text \<open>C26: A redirection into a system directory needs approval: a command with an output redirection to
  a file under a system path is never below the service-impacting level, so the guard refuses it
  without approval.\<close>

theorem system_writes_need_approval:
  assumes "s \<in> set (segments_of (parse_dialect command PosixDialect))" and "rd \<in> set (redirects s)"
    and "is_output rd" and "\<not> fd_dup rd" and "is_system_path (target rd)" and "\<not> is_harmless_sink (target rd)"
  shows "L2 \<le> classify_command command \<and> enforce_command command False \<noteq> Inr ()"
proof -
  have "redirect_risk rd = L2" using assms(3-6) by (simp add: redirect_risk_def write_risk_def)
  then have "L2 \<le> risk (assess_segment s 0)" using segment_parts(1) [OF assms(2), of 0] by simp
  also have "\<dots> \<le> risk (collected command PosixDialect 0)" using assms(1) by (rule collected_parts)
  also have "\<dots> \<le> risk (assess command PosixDialect 0)" by (rule collected_le_assess) simp
  also have "\<dots> \<le> risk (assess_command command PosixDialect)" by (rule assess_le_command)
  finally have "L2 \<le> risk (assess_command command PosixDialect)" .
  then show ?thesis by (auto simp: guard_passes classify_command_def risk_order)
qed

text \<open>What the witnesses and the examples below evaluate, in one evaluation.\<close>

lemma policy_runs:
  "segments_of (parse_dialect ''ls >/etc/x'' PosixDialect) =
     [\<lparr>words = [''ls''], redirects = [\<lparr>op = ''>'', target = ''/etc/x'', fd_dup = False\<rparr>]\<rparr>] \<and>
   is_system_path ''/etc/x'' \<and>
   \<not> is_harmless_sink ''/etc/x'' \<and>
   program_name ''sudo'' = Some ''sudo'' \<and>
   program_name ''doas'' = Some ''doas'' \<and>
   program_name ''frob'' = Some ''frob'' \<and>
   unwrap ''frob'' [''x''] = NoWrapper \<and>
   risk (classify_words ''then'' [''reboot''] 0) = L1 \<and>
   risk (classify_words ''reboot'' [] 0) = L3 \<and>
   risk (classify_words ''nice'' [''-n'', ''10'', ''reboot''] 0) = L1 \<and>
   risk (classify_words ''foreach-object'' [''{'', ''Remove-Item'', ''x'', ''}''] 0) = L0 \<and>
   risk (classify_words ''Remove-Item'' [''x''] 0) = L2"
  by code_simp

lemma system_write_sample:
  "segments_of (parse_dialect ''ls >/etc/x'' PosixDialect) =
     [\<lparr>words = [''ls''], redirects = [\<lparr>op = ''>'', target = ''/etc/x'', fd_dup = False\<rparr>]\<rparr>]"
  "is_system_path ''/etc/x''"
  "\<not> is_harmless_sink ''/etc/x''"
  using policy_runs by blast+

lemma sudo_name:
  "program_name ''sudo'' = Some ''sudo''"
  "program_name ''doas'' = Some ''doas''"
  using policy_runs by blast+

lemma unknown_sample:
  "program_name ''frob'' = Some ''frob''"
  "unwrap ''frob'' [''x''] = NoWrapper"
  using policy_runs by blast+

theorem system_writes_need_approval_witness:
  "L2 \<le> classify_command ''ls >/etc/x'' \<and> enforce_command ''ls >/etc/x'' False \<noteq> Inr ()"
  by (rule system_writes_need_approval
       [of "\<lparr>words = [''ls''], redirects = [\<lparr>op = ''>'', target = ''/etc/x'', fd_dup = False\<rparr>]\<rparr>"
          _ "\<lparr>op = ''>'', target = ''/etc/x'', fd_dup = False\<rparr>"])
     (simp_all add: system_write_sample is_output_def)

lemma unwrap_root:
  assumes "prog = ''sudo'' \<or> prog = ''doas''" and "\<not> is_option w"
  shows "unwrap prog (w # as) = RunAsRoot w as"
  using assms by (auto simp: unwrap_def unwrap_sudo_def first_operand_def)

lemma as_root_simps:
  "risk (as_root a) = next_level (risk a)" "uses_sudo (as_root a)"
  by (cases "risk a"; simp add: as_root_def risk_order)+

lemma next_level_mono: "r \<le> next_level r"
  by (cases r) (simp_all add: risk_order)

text \<open>Running a command as root raises its risk: behind sudo or doas, a low mutation counts as
  service-impacting and a service-impacting command as dangerous, no risk is lowered, and the
  assessment says that root is used.\<close>

theorem root_raises_risk:
  assumes "prog = ''sudo'' \<or> prog = ''doas''" and "\<not> is_option w"
  shows "risk (classify_words prog (w # as) depth) = next_level (risk (classify_words w as depth)) \<and>
    risk (classify_words w as depth) \<le> risk (classify_words prog (w # as) depth) \<and>
    uses_sudo (classify_words prog (w # as) depth)"
proof -
  have "program_name prog = Some prog" using assms(1) sudo_name by auto
  then have "classify_words prog (w # as) depth = as_root (classify_words w as depth)"
    using unwrap_root [OF assms, of as] by (simp add: classify_words.simps [of prog])
  then show ?thesis using as_root_simps next_level_mono by simp
qed

theorem root_raises_risk_witness:
  "risk (classify_words ''sudo'' [''touch'', ''x''] 0) = next_level (risk (classify_words ''touch'' [''x''] 0)) \<and>
    risk (classify_words ''touch'' [''x''] 0) \<le> risk (classify_words ''sudo'' [''touch'', ''x''] 0) \<and>
    uses_sudo (classify_words ''sudo'' [''touch'', ''x''] 0)"
  by (rule root_raises_risk) (simp_all add: is_option_def)

section \<open>Unknown programs\<close>

definition SERVICE_PROGRAMS :: "string list" where
  "SERVICE_PROGRAMS =
     [''systemctl'', ''service'', ''journalctl'', ''docker'', ''podman'', ''nerdctl'', ''kubectl'', ''oc'', ''helm'', ''git'']"

definition TOOL_PROGRAMS :: "string list" where
  "TOOL_PROGRAMS =
     [''ip'', ''sed'', ''awk'', ''gawk'', ''mawk'', ''nawk'', ''find'', ''rg'', ''curl'', ''wget'', ''tee'', ''top'', ''sort'',
      ''hostname'', ''date'', ''hostnamectl'', ''timedatectl'', ''localectl'', ''loginctl'', ''resolvectl'', ''networkctl'']"

definition SYSTEM_PROGRAMS :: "string list" where
  "SYSTEM_PROGRAMS =
     [''rpm'', ''dmesg'', ''mount'', ''umount'', ''sysctl'', ''crontab'', ''nginx'', ''apachectl'', ''apache2ctl'', ''httpd'',
      ''sshd'', ''haproxy'', ''apt'', ''apt-get'', ''yum'', ''dnf'', ''zypper'', ''apk'', ''pacman'', ''brew'', ''snap'', ''flatpak'',
      ''dpkg'', ''pip'', ''pip3'', ''npm'', ''pnpm'', ''yarn'', ''gem'', ''cargo'', ''choco'', ''winget'', ''scoop'']"

definition FILE_PROGRAMS :: "string list" where
  \<comment> \<open>those that can be read-only: the archivers\<close>
  "FILE_PROGRAMS = [''tar'', ''unzip'']"

definition WINDOWS_PROGRAMS :: "string list" where
  "WINDOWS_PROGRAMS =
     [''invoke-webrequest'', ''iwr'', ''invoke-restmethod'', ''irm'', ''wget.exe'', ''sc'', ''net'', ''reg'', ''netsh'']"

definition INSPECTING_PROGRAMS :: "string list" where
  \<comment> \<open>the programs a call of which can be rated read-only\<close>
  "INSPECTING_PROGRAMS =
     SERVICE_PROGRAMS @ TOOL_PROGRAMS @ SYSTEM_PROGRAMS @ FILE_PROGRAMS @ WINDOWS_PROGRAMS @ READ_ONLY_PROGRAMS"

lemma risk_kinds [simp]:
  "risk (plainly r why ctx) = r" "risk (with_sub r why ctx) = r" "risk (verdict r why p) = r"
  by (simp_all add: plainly_def with_sub_def verdict_def)

lemma not_services: "program ctx \<notin> set SERVICE_PROGRAMS \<Longrightarrow> classify_services ctx = None"
  by (simp add: SERVICE_PROGRAMS_def classify_services_def Let_def)

lemma not_tools: "program ctx \<notin> set TOOL_PROGRAMS \<Longrightarrow> classify_tools ctx = None"
  by (simp add: TOOL_PROGRAMS_def classify_tools_def CTL_TOOLS_def Let_def)

lemma not_system: "program ctx \<notin> set SYSTEM_PROGRAMS \<Longrightarrow> classify_system ctx = None"
  by (simp add: SYSTEM_PROGRAMS_def classify_system_def Let_def)

lemma max_L1: "L1 \<le> foldl (\<lambda>rk path. max rk (write_risk path)) L1 ps"
proof -
  have "r \<le> foldl (\<lambda>rk path. max rk (write_risk path)) r ps" for r
    by (induction ps arbitrary: r) (auto intro: order_trans [OF max.cobounded1])
  then show ?thesis .
qed

lemma L1_simps: "L1 \<le> L1" "L1 \<le> L2" "L1 \<le> L3"
  by (simp_all add: risk_order)

lemma files_mutate:
  assumes "program ctx \<notin> set FILE_PROGRAMS" and "classify_files ctx = Some a"
  shows "L1 \<le> risk a"
  using assms max_L1 [of "positional ctx"] L1_simps
  by (auto simp: classify_files_def FILE_PROGRAMS_def Let_def max.coboundedI2 split: if_split_asm)

lemma windows_mutate:
  assumes "program ctx \<notin> set WINDOWS_PROGRAMS" and "classify_windows ctx = Some a"
  shows "L1 \<le> risk a"
  using assms L1_simps
  by (simp add: classify_windows_def WINDOWS_PROGRAMS_def Let_def split: if_split_asm) auto

lemma rest_mutates:
  "program ctx \<notin> set READ_ONLY_PROGRAMS \<Longrightarrow> \<not> starts_with (program ctx) ''get-'' \<Longrightarrow> L1 \<le> risk (classify_rest ctx)"
  unfolding classify_rest_def Let_def using L1_simps by (simp del: prefix_code)

lemma program_mutates:
  assumes "program ctx \<notin> set INSPECTING_PROGRAMS" and "\<not> starts_with (program ctx) ''get-''"
    and "\<not> (length (args ctx) = 1 \<and> args ctx ! 0 \<in> set [''--version'', ''-V'', ''--help''])"
  shows "L1 \<le> risk (classify_program ctx)"
proof -
  have out: "program ctx \<notin> set SERVICE_PROGRAMS" "program ctx \<notin> set TOOL_PROGRAMS" "program ctx \<notin> set SYSTEM_PROGRAMS"
    "program ctx \<notin> set FILE_PROGRAMS" "program ctx \<notin> set WINDOWS_PROGRAMS" "program ctx \<notin> set READ_ONLY_PROGRAMS"
    using assms(1) unfolding INSPECTING_PROGRAMS_def set_append by blast+
  have "classify_program ctx =
      (case or_else (classify_files ctx) (classify_windows ctx) of Some a \<Rightarrow> a | None \<Rightarrow> classify_rest ctx)"
    unfolding classify_program_def if_not_P [OF assms(3)] not_services [OF out(1)] not_tools [OF out(2)]
      not_system [OF out(3)] by (simp add: or_else_def)
  then show ?thesis
    using files_mutate [OF out(4)] windows_mutate [OF out(5)] rest_mutates [OF out(6) assms(2)]
    by (cases "classify_files ctx"; cases "classify_windows ctx") (simp_all add: or_else_def)
qed

text \<open>C27: Unknown programs are never read-only: a call is at least a low mutation, and so needs approval in
  the cautious modes, when the program is given by a path, or when it is neither a wrapper nor one of
  the listed inspecting programs nor a \<^verbatim>\<open>get-\<close> cmdlet, unless it only asks for the version or help.\<close>

theorem unknown_programs_fail_closed:
  assumes "program_name w = None \<or>
    (\<exists>p. program_name w = Some p \<and> unwrap p as = NoWrapper \<and> p \<notin> set INSPECTING_PROGRAMS \<and> \<not> starts_with p ''get-'' \<and>
      \<not> (length as = 1 \<and> as ! 0 \<in> set [''--version'', ''-V'', ''--help'']))"
  shows "L1 \<le> risk (classify_words w as depth)"
  using assms
proof
  assume "program_name w = None"
  then show ?thesis by (simp add: classify_words.simps [of w])
next
  assume "\<exists>p. program_name w = Some p \<and> unwrap p as = NoWrapper \<and> p \<notin> set INSPECTING_PROGRAMS \<and> \<not> starts_with p ''get-'' \<and>
      \<not> (length as = 1 \<and> as ! 0 \<in> set [''--version'', ''-V'', ''--help''])"
  then obtain p where p: "program_name w = Some p" "unwrap p as = NoWrapper" "p \<notin> set INSPECTING_PROGRAMS"
    "\<not> starts_with p ''get-''" "\<not> (length as = 1 \<and> as ! 0 \<in> set [''--version'', ''-V'', ''--help''])"
    by blast
  then have "classify_words w as depth = classify_program \<lparr>program = p, args = as\<rparr>"
    by (simp add: classify_words.simps [of w])
  moreover have "L1 \<le> risk (classify_program \<lparr>program = p, args = as\<rparr>)"
    by (rule program_mutates) (use p in simp_all)
  ultimately show ?thesis by simp
qed

lemma unlisted_sample: "''frob'' \<notin> set INSPECTING_PROGRAMS"
  by code_simp

theorem unknown_programs_fail_closed_witness: "L1 \<le> risk (classify_words ''frob'' [''x''] 0)"
  by (rule unknown_programs_fail_closed) (simp add: unknown_sample unlisted_sample)

section \<open>Commands whose assessment misses what they run\<close>

text \<open>A command substitution inside an arithmetic expansion is executed by the shell, but the lexer
  drops the inside of the expansion: nothing of it is recorded, and the command counts as read-only.\<close>

lemma arithmetic_hides_substitution:
  "parse_dialect ''echo $(( $(reboot) ))'' PosixDialect =
     \<lparr>segments_of = [\<lparr>words = [''echo'', ''$(('' @ ellipsis @ ''))''], redirects = []\<rparr>],
      substitutions = [], unparsable = False, ifs = False\<rparr>"
  by code_simp

text \<open>The body of a here-document with an unquoted delimiter is expanded by the shell, but the lexer
  records no substitution of it.\<close>

lemma heredoc_hides_substitution:
  "substitutions (parse_dialect (''cat <<E'' @ [NL] @ ''$(reboot)'' @ [NL] @ ''E'') PosixDialect) = []"
  by code_simp

text \<open>The keywords of the shell are taken for programs: a dangerous command behind \<^verbatim>\<open>then\<close> (or
  \<^verbatim>\<open>do\<close>, \<^verbatim>\<open>else\<close>, an opening brace, an exclamation mark) is rated as a low mutation, which the standard
  mode runs without asking.\<close>

lemma keyword_hides_command:
  "risk (classify_words ''then'' [''reboot''] 0) = L1"
  "risk (classify_words ''reboot'' [] 0) = L3"
  using policy_runs by blast+

text \<open>The value of an option of a wrapper is taken for the command it runs.\<close>

lemma wrapper_option_hides_command: "risk (classify_words ''nice'' [''-n'', ''10'', ''reboot''] 0) = L1"
  using policy_runs by blast

text \<open>The script block of a PowerShell pipeline cmdlet is taken for its arguments.\<close>

lemma script_block_is_read_only:
  "risk (classify_words ''foreach-object'' [''{'', ''Remove-Item'', ''x'', ''}''] 0) = L0"
  "risk (classify_words ''Remove-Item'' [''x''] 0) = L2"
  using policy_runs by blast+

end
