(* ===== verification/Floats.thy ===== *)
theory Floats
  imports Prelude "HOL-Library.Word"
begin

text \<open>
  What the settings use of IEEE 754 numbers. A 32-bit or 64-bit number is its bits. A finite number is
  an integer multiple of the smallest positive number of its format, and \<open>scaled\<close> is that integer, so
  comparisons and the test of a difference against \<^verbatim>\<open>f32::EPSILON\<close> are exact.
\<close>

type_synonym f32 = "32 word"
type_synonym f64 = "64 word"

definition float_exponent :: "nat \<Rightarrow> nat \<Rightarrow> int \<Rightarrow> int" where
  "float_exponent m e bits = bits div 2 ^ m mod 2 ^ e"

definition scaled :: "nat \<Rightarrow> nat \<Rightarrow> int \<Rightarrow> int" where
  \<comment> \<open>from the width of the mantissa, the width of the exponent and the bits\<close>
  "scaled m e bits =
     (let mantissa = bits mod 2 ^ m; exponent = float_exponent m e bits;
          magnitude = (if exponent = 0 then mantissa else (2 ^ m + mantissa) * 2 ^ nat (exponent - 1))
      in if bits div 2 ^ (m + e) mod 2 = 1 then - magnitude else magnitude)"

definition exponent_full :: "nat \<Rightarrow> nat \<Rightarrow> int \<Rightarrow> bool" where
  \<comment> \<open>an infinity or not a number\<close>
  "exponent_full m e bits \<longleftrightarrow> float_exponent m e bits = 2 ^ e - 1"

definition f64_is_finite :: "f64 \<Rightarrow> bool" where "f64_is_finite x \<longleftrightarrow> \<not> exponent_full 52 11 (uint x)"
definition f64_scaled :: "f64 \<Rightarrow> int" where "f64_scaled x = scaled 52 11 (uint x)"

definition f32_is_finite :: "f32 \<Rightarrow> bool" where "f32_is_finite x \<longleftrightarrow> \<not> exponent_full 23 8 (uint x)"
definition f32_scaled :: "f32 \<Rightarrow> int" where "f32_scaled x = scaled 23 8 (uint x)"

definition f32_is_nan :: "f32 \<Rightarrow> bool" where
  "f32_is_nan x \<longleftrightarrow> exponent_full 23 8 (uint x) \<and> uint x mod 2 ^ 23 \<noteq> 0"

definition f32_less :: "f32 \<Rightarrow> f32 \<Rightarrow> bool" where
  \<comment> \<open>an infinity scales like the number after the largest one\<close>
  "f32_less x y \<longleftrightarrow> \<not> f32_is_nan x \<and> \<not> f32_is_nan y \<and> f32_scaled x < f32_scaled y"

definition f32_clamp :: "f32 \<Rightarrow> f32 \<Rightarrow> f32 \<Rightarrow> f32" where
  "f32_clamp x lo hi =
     (let x = (if f32_less x lo then lo else x) in if f32_less hi x then hi else x)"

definition f32_differs :: "f32 \<Rightarrow> f32 \<Rightarrow> bool" where
  \<comment> \<open>\<^verbatim>\<open>(x - y).abs() > f32::EPSILON\<close>. The difference is rounded to the nearest number, and a tie next
    to the even mantissa of \<open>2 powr -23\<close> goes to it, so the test is whether the exact difference exceeds
    \<open>2 powr -23 + 2 powr -47\<close>.\<close>
  "f32_differs x y \<longleftrightarrow>
     (if f32_is_nan x \<or> f32_is_nan y then False
      else if f32_is_finite x \<and> f32_is_finite y
        then 2 ^ 126 + 2 ^ 102 < \<bar>f32_scaled x - f32_scaled y\<bar>
      else x \<noteq> y)"

lemma clamp_idem:
  assumes "\<not> f32_less hi lo" "\<not> f32_is_nan lo" "\<not> f32_is_nan hi"
  shows "f32_clamp (f32_clamp x lo hi) lo hi = f32_clamp x lo hi"
  using assms by (auto simp: f32_clamp_def f32_less_def Let_def)

lemma f32_differs_refl [simp]: "\<not> f32_differs x x"
  by (simp add: f32_differs_def)

end
