(* ===== verification/Bridge_Security.thy ===== *)
theory Bridge_Security
  imports Prelude "HOL-Library.Word"
begin

text \<open>
  The security policy of the SSH bridge, \<^verbatim>\<open>crates/miaominal-core/src/ssh_bridge_security.rs\<close>: the levels,
  the identity of the process behind a connection, and which program of its process chain is shown
  to the user.
\<close>

section \<open>Policy\<close>

definition DEFAULT_BRIDGE_APPROVAL_TIMEOUT_SECS :: "32 word" where "DEFAULT_BRIDGE_APPROVAL_TIMEOUT_SECS = 30"
definition MIN_BRIDGE_APPROVAL_TIMEOUT_SECS :: "32 word" where "MIN_BRIDGE_APPROVAL_TIMEOUT_SECS = 5"
definition MAX_BRIDGE_APPROVAL_TIMEOUT_SECS :: "32 word" where "MAX_BRIDGE_APPROVAL_TIMEOUT_SECS = 120"

datatype BridgeSecurityLevel = StandardLevel | RequireApproval "32 word" | RequireSystemAuth

definition default_level :: BridgeSecurityLevel where
  "default_level = RequireApproval DEFAULT_BRIDGE_APPROVAL_TIMEOUT_SECS"

fun validate_level :: "BridgeSecurityLevel \<Rightarrow> string + BridgeSecurityLevel" where
  "validate_level (RequireApproval timeout) =
     (if \<not> (MIN_BRIDGE_APPROVAL_TIMEOUT_SECS \<le> timeout \<and> timeout \<le> MAX_BRIDGE_APPROVAL_TIMEOUT_SECS)
      then Inl ''SSH Bridge approval timeout must be between 5 and 120 seconds''
      else Inr (RequireApproval timeout))"
| "validate_level level = Inr level"

fun approval_timeout_secs :: "BridgeSecurityLevel \<Rightarrow> 32 word option" where
  "approval_timeout_secs (RequireApproval timeout) = Some timeout"
| "approval_timeout_secs _ = None"

record BridgeSecurityPolicy =
  bridge_level :: BridgeSecurityLevel
  updated_at :: int
  policy_generation :: "64 word"

definition default_policy :: BridgeSecurityPolicy where
  "default_policy = \<lparr>bridge_level = default_level, updated_at = 0, policy_generation = 0\<rparr>"

definition valid_level :: "BridgeSecurityLevel \<Rightarrow> bool" where
  "valid_level level \<longleftrightarrow> validate_level level = Inr level"

lemma validate_level_Inr [simp]: "validate_level level = Inr l \<longleftrightarrow> l = level \<and> valid_level level"
  by (cases level) (auto simp: valid_level_def)

lemma validate_level_Inl: "validate_level level = Inl m \<Longrightarrow> \<not> valid_level level"
  by (simp add: valid_level_def)

lemma default_level_valid [simp]: "valid_level default_level"
  by (simp add: valid_level_def default_level_def DEFAULT_BRIDGE_APPROVAL_TIMEOUT_SECS_def
      MIN_BRIDGE_APPROVAL_TIMEOUT_SECS_def MAX_BRIDGE_APPROVAL_TIMEOUT_SECS_def)

section \<open>The process behind a connection\<close>

datatype BridgeProcessCaptureStatus = Captured | Exited | AccessDenied | CaptureUnsupported | CaptureFailed

record BridgeProcessIdentity =
  pid :: "32 word"
  parent_pid :: "32 word option"
  started_at :: "64 word option"
  executable_path :: "string option"
  process_status :: BridgeProcessCaptureStatus

record BridgePeerIdentity =
  peer_pid :: "32 word option"
  peer_uid :: "32 word option"
  peer_gid :: "32 word option"
  user_sid :: "string option"
  process_chain :: "BridgeProcessIdentity list"
  peer_status :: "BridgeProcessCaptureStatus option"

definition source_path :: "BridgePeerIdentity \<Rightarrow> string option" where
  "source_path peer =
     (case find (\<lambda>p. executable_path p \<noteq> None) (rev (process_chain peer)) of
        None \<Rightarrow> None | Some p \<Rightarrow> executable_path p)"

definition executable_name :: "string \<Rightarrow> string" where
  "executable_name path = rev (takeWhile (\<lambda>c. c \<noteq> CHR ''/'' \<and> c \<noteq> BACKSLASH) (rev path))"

definition is_bridge_helper_process :: "string \<Rightarrow> bool" where
  "is_bridge_helper_process path \<longleftrightarrow> to_ascii_lowercase (executable_name path) \<in>
     {''miaominal'', ''miaominal.exe'', ''miaominal-ssh-bridge-helper''}"

definition is_ssh_transport :: "string \<Rightarrow> bool" where
  "is_ssh_transport n \<longleftrightarrow> to_ascii_lowercase n \<in>
     {''ssh'', ''ssh.exe'', ''plink'', ''plink.exe'', ''dbclient'', ''dbclient.exe''}"

definition is_command_shell :: "string \<Rightarrow> bool" where
  "is_command_shell n \<longleftrightarrow> to_ascii_lowercase n \<in>
     {''bash'', ''cmd'', ''cmd.exe'', ''fish'', ''nu'', ''nushell'', ''powershell'', ''powershell.exe'',
      ''pwsh'', ''pwsh.exe'', ''sh'', ''wsl'', ''wsl.exe'', ''zsh''}"

definition is_desktop_launcher :: "string \<Rightarrow> bool" where
  "is_desktop_launcher n \<longleftrightarrow> to_ascii_lowercase n \<in>
     {''explorer'', ''explorer.exe'', ''init'', ''launchd'', ''systemd'', ''userinit.exe''}"

fun choose_source :: "string option \<Rightarrow> string option \<Rightarrow> string list \<Rightarrow> string option + string option \<times> string option" where
  \<comment> \<open>the loop: a program to return, or the fallbacks at the end\<close>
  "choose_source shell_fallback transport_fallback [] = Inr (shell_fallback, transport_fallback)"
| "choose_source shell_fallback transport_fallback (path # paths) =
     (let n = executable_name path in
      if is_desktop_launcher n then choose_source shell_fallback transport_fallback paths
      else if is_ssh_transport n then
        choose_source shell_fallback (if transport_fallback = None then Some path else transport_fallback) paths
      else if is_command_shell n then
        choose_source (if shell_fallback = None then Some path else shell_fallback) transport_fallback paths
      else Inl (Some path))"

definition or_else :: "'a option \<Rightarrow> 'a option \<Rightarrow> 'a option" where
  "or_else a b = (if a = None then b else a)"

definition application_source_path :: "BridgePeerIdentity \<Rightarrow> string option" where
  "application_source_path peer =
     (case List.map_filter executable_path (process_chain peer) of
        [] \<Rightarrow> None
      | first # rest \<Rightarrow>
          (case choose_source None None ((if is_bridge_helper_process first then [] else [first]) @ rest) of
             Inl path \<Rightarrow> path
           | Inr (shell_fallback, transport_fallback) \<Rightarrow>
               or_else shell_fallback (or_else transport_fallback (source_path peer))))"

text \<open>The specification: the first program that is no launcher, transport or shell; else the first shell;
  else the first transport; else the last program of the chain.\<close>

definition candidates :: "string list \<Rightarrow> string list" where
  "candidates paths =
     (case paths of [] \<Rightarrow> [] | first # rest \<Rightarrow> if is_bridge_helper_process first then rest else first # rest)"

definition plain_program :: "string \<Rightarrow> bool" where
  "plain_program n \<longleftrightarrow> \<not> is_desktop_launcher n \<and> \<not> is_ssh_transport n \<and> \<not> is_command_shell n"

definition application_spec :: "string list \<Rightarrow> string option" where
  "application_spec paths =
     (if paths = [] then None
      else or_else (find (plain_program \<circ> executable_name) (candidates paths))
        (or_else (find (is_command_shell \<circ> executable_name) (candidates paths))
        (or_else (find (is_ssh_transport \<circ> executable_name) (candidates paths))
           (Some (last paths)))))"

lemma roles_are_disjoint:
  "is_desktop_launcher n \<Longrightarrow> \<not> is_ssh_transport n \<and> \<not> is_command_shell n"
  "is_ssh_transport n \<Longrightarrow> \<not> is_command_shell n"
  by (auto simp: is_desktop_launcher_def is_ssh_transport_def is_command_shell_def)

lemma choose_source_spec:
  "choose_source s t paths =
     (case find (plain_program \<circ> executable_name) paths of
        Some p \<Rightarrow> Inl (Some p)
      | None \<Rightarrow> Inr (or_else s (find (is_command_shell \<circ> executable_name) paths),
                    or_else t (find (is_ssh_transport \<circ> executable_name) paths)))"
proof (induction paths arbitrary: s t)
  case (Cons path paths)
  let ?n = "executable_name path"
  consider "is_desktop_launcher ?n" | "is_ssh_transport ?n" | "is_command_shell ?n" | "plain_program ?n"
    by (auto simp: plain_program_def)
  then show ?case
  proof cases
    case 1
    with roles_are_disjoint(1) [OF 1] show ?thesis
      by (auto simp: Cons.IH plain_program_def comp_def Let_def split: option.split)
  next
    case 2
    with roles_are_disjoint [of ?n] show ?thesis
      by (auto simp: Cons.IH plain_program_def comp_def or_else_def Let_def split: option.split)
  next
    case 3
    with roles_are_disjoint [of ?n] show ?thesis
      by (auto simp: Cons.IH plain_program_def comp_def or_else_def Let_def split: option.split)
  next
    case 4
    then show ?thesis by (simp add: plain_program_def Let_def)
  qed
qed (simp add: or_else_def)

lemma source_path_last:
  "source_path peer = (let paths = List.map_filter executable_path (process_chain peer) in
     if paths = [] then None else Some (last paths))"
proof -
  have "(case find (\<lambda>p. executable_path p \<noteq> None) (rev ps) of None \<Rightarrow> None | Some p \<Rightarrow> executable_path p) =
      (let paths = List.map_filter executable_path ps in if paths = [] then None else Some (last paths))" for ps
    by (induction ps rule: rev_induct) (auto simp: map_filter_def)
  then show ?thesis by (simp add: source_path_def)
qed

text \<open>The program shown for a connection is the one of the specification.\<close>

theorem application_source_meets_spec:
  "application_source_path peer = application_spec (List.map_filter executable_path (process_chain peer))"
  by (cases "List.map_filter executable_path (process_chain peer)")
     (auto simp: application_source_path_def application_spec_def candidates_def choose_source_spec
        source_path_last or_else_def split: option.split)

section \<open>Authorisations\<close>

datatype BridgeAuthorizationDecision =
  ApproveDecision | RejectDecision | SystemAuthVerified | SystemAuthCancelled | SystemAuthUnavailable | SystemAuthFailed

datatype BridgeAuthorizationOutcome =
  AuthNotRequired | AuthPending | AuthApproved | AuthRejected | AuthTimedOut | AuthUnsupported | AuthFailed | AuthCancelled

datatype BridgeConnectionOutcome =
  ConnectionPending | ConnectionRejected | UpstreamFailed | ConnectionActive | Disconnected | Interrupted

datatype BridgeDecisionSource = AppSource | SystemAuthSource

datatype BridgePendingPhase = AwaitingApproval | AwaitingSystemAuth | AwaitingVaultUnlock

end
