(* ===== verification/Settings.thy ===== *)
theory Settings
  imports Floats Bridge_Security "HOL-Library.List_Lexorder" "HOL-Library.Char_ord"
begin

text \<open>
  The settings of the application, \<^verbatim>\<open>crates/miaominal-settings/src/data.rs\<close> and \<^verbatim>\<open>rdp.rs\<close>: the data,
  its cleaning (\<^verbatim>\<open>sanitize\<close>), and the part of it that is synchronised between devices.

  The record \<open>platform\<close> holds what the code takes from outside: the default fonts, the system
  language, the parser of seed colours (a colour library), and the identifiers that \<^verbatim>\<open>uuid\<close> will
  generate. An operation that may draw identifiers takes the number of the next one and returns it;
  it is \<^term>\<open>None\<close> when it draws for ever.
\<close>

section \<open>Providers\<close>

datatype AiProviderKind =
  Anthropic | ChatGpt | Cohere | Copilot | DeepSeek | Gemini | HuggingFace | Mistral | OpenAi | OpenRouter
  | Together | Xai | CustomProvider

fun default_model :: "AiProviderKind \<Rightarrow> string" where
  "default_model Anthropic = ''claude-3-5-sonnet-latest''"
| "default_model ChatGpt = ''gpt-4o''"
| "default_model Cohere = ''command-r-plus''"
| "default_model Copilot = ''gpt-4o''"
| "default_model DeepSeek = ''deepseek-v4-pro''"
| "default_model Gemini = ''gemini-1.5-pro''"
| "default_model HuggingFace = ''meta-llama/Meta-Llama-3.1-8B-Instruct''"
| "default_model Mistral = ''mistral-large-latest''"
| "default_model OpenAi = ''gpt-4o''"
| "default_model OpenRouter = ''openai/gpt-4o''"
| "default_model Together = ''meta-llama/Meta-Llama-3.1-70B-Instruct-Turbo''"
| "default_model Xai = ''grok-2-latest''"
| "default_model CustomProvider = []"

definition provider_requires_api_key :: "AiProviderKind \<Rightarrow> bool" where
  "provider_requires_api_key k \<longleftrightarrow> k \<noteq> CustomProvider"

fun ai_provider_kind_label :: "AiProviderKind \<Rightarrow> string" where
  "ai_provider_kind_label Anthropic = ''Anthropic''"
| "ai_provider_kind_label ChatGpt = ''ChatGPT''"
| "ai_provider_kind_label Cohere = ''Cohere''"
| "ai_provider_kind_label Copilot = ''Copilot''"
| "ai_provider_kind_label DeepSeek = ''DeepSeek''"
| "ai_provider_kind_label Gemini = ''Gemini''"
| "ai_provider_kind_label HuggingFace = ''Hugging Face''"
| "ai_provider_kind_label Mistral = ''Mistral''"
| "ai_provider_kind_label OpenAi = ''OpenAI''"
| "ai_provider_kind_label OpenRouter = ''OpenRouter''"
| "ai_provider_kind_label Together = ''Together AI''"
| "ai_provider_kind_label Xai = ''xAI''"
| "ai_provider_kind_label CustomProvider = ''Custom''"

datatype AiReasoningEffort = DefaultEffort | LowEffort | MediumEffort | HighEffort

fun api_value :: "AiReasoningEffort \<Rightarrow> string option" where
  "api_value DefaultEffort = None"
| "api_value LowEffort = Some ''low''"
| "api_value MediumEffort = Some ''medium''"
| "api_value HighEffort = Some ''high''"

definition AI_PROVIDER_TEMPERATURE_MIN :: f64 where "AI_PROVIDER_TEMPERATURE_MIN = 0"
definition AI_PROVIDER_TEMPERATURE_MAX :: f64 where "AI_PROVIDER_TEMPERATURE_MAX = 0x4000000000000000" \<comment> \<open>2.0\<close>
definition AI_PROVIDER_POSITIVE_INTEGER_MIN :: "64 word" where "AI_PROVIDER_POSITIVE_INTEGER_MIN = 1"

record AiProviderConfig =
  provider_id :: string
  provider_name :: string
  provider_kind :: AiProviderKind
  model :: string
  base_url :: string
  api_key_env :: string
  has_api_key :: bool
  provider_enabled :: bool
  context_window :: "64 word option"
  temperature :: "f64 option"
  max_tokens :: "64 word option"
  reasoning_effort :: AiReasoningEffort

type_synonym uuid_source = "nat \<Rightarrow> string"

definition valid_temperature :: "f64 \<Rightarrow> bool" where
  "valid_temperature t \<longleftrightarrow> f64_is_finite t \<and>
     f64_scaled AI_PROVIDER_TEMPERATURE_MIN \<le> f64_scaled t \<and> f64_scaled t \<le> f64_scaled AI_PROVIDER_TEMPERATURE_MAX"

definition keep_if :: "('a \<Rightarrow> bool) \<Rightarrow> 'a option \<Rightarrow> 'a option" where
  "keep_if P v = (case v of Some x \<Rightarrow> if P x then Some x else None | None \<Rightarrow> None)"

definition trim_url :: "string \<Rightarrow> string" where
  "trim_url u = trim_end_matches (\<lambda>c. c = CHR ''/'') (trim u)"

definition sanitize_provider :: "uuid_source \<Rightarrow> AiProviderConfig \<Rightarrow> nat \<Rightarrow> AiProviderConfig \<times> nat" where
  "sanitize_provider ids p k =
     (let (i, k) = (if trim (provider_id p) = [] then (ids k, k + 1) else (trim (provider_id p), k));
          n = trim (provider_name p); m = trim (model p)
      in (p\<lparr>provider_id := i,
            provider_name := (if n = [] then ai_provider_kind_label (provider_kind p) else n),
            model := (if m = [] then default_model (provider_kind p) else m),
            base_url := trim_url (base_url p),
            api_key_env := trim (api_key_env p),
            temperature := keep_if valid_temperature (temperature p),
            context_window := keep_if (\<lambda>c. AI_PROVIDER_POSITIVE_INTEGER_MIN \<le> c) (context_window p),
            max_tokens := keep_if (\<lambda>c. AI_PROVIDER_POSITIVE_INTEGER_MIN \<le> c) (max_tokens p)\<rparr>, k))"

definition new_provider :: "uuid_source \<Rightarrow> AiProviderKind \<Rightarrow> nat \<Rightarrow> AiProviderConfig \<times> nat" where
  "new_provider ids kind k =
     sanitize_provider ids \<lparr>provider_id = ids k, provider_name = ai_provider_kind_label kind, provider_kind = kind,
       model = default_model kind, base_url = [], api_key_env = [], has_api_key = False, provider_enabled = True,
       context_window = None, temperature = None, max_tokens = None, reasoning_effort = DefaultEffort\<rparr> (k + 1)"

fun sanitize_each :: "uuid_source \<Rightarrow> AiProviderConfig list \<Rightarrow> nat \<Rightarrow> AiProviderConfig list \<times> nat" where
  "sanitize_each ids [] k = ([], k)"
| "sanitize_each ids (p # ps) k =
     (let (p, k) = sanitize_provider ids p k; (ps, k) = sanitize_each ids ps k in (p # ps, k))"

partial_function (option) unseen_id :: "uuid_source \<Rightarrow> string list \<Rightarrow> string \<Rightarrow> nat \<Rightarrow> (string \<times> nat) option" where
  \<comment> \<open>\<^verbatim>\<open>while !seen.insert(id) { id = new }\<close>\<close>
  "unseen_id ids seen i k = (if i \<in> set seen then unseen_id ids seen (ids k) (k + 1) else Some (i, k))"

declare unseen_id.simps [code]

fun distinct_ids :: "uuid_source \<Rightarrow> string list \<Rightarrow> AiProviderConfig list \<Rightarrow> nat \<Rightarrow> (AiProviderConfig list \<times> nat) option" where
  "distinct_ids ids seen [] k = Some ([], k)"
| "distinct_ids ids seen (p # ps) k =
     (case unseen_id ids seen (provider_id p) k of
        None \<Rightarrow> None
      | Some (i, k) \<Rightarrow>
          (case distinct_ids ids (i # seen) ps k of
             None \<Rightarrow> None
           | Some (ps, k) \<Rightarrow> Some (p\<lparr>provider_id := i\<rparr> # ps, k)))"

definition sanitize_ai_providers :: "uuid_source \<Rightarrow> AiProviderConfig list \<Rightarrow> nat \<Rightarrow> (AiProviderConfig list \<times> nat) option" where
  "sanitize_ai_providers ids ps k =
     (let (ps, k) = sanitize_each ids ps k;
          ps = filter (\<lambda>p. trim (provider_id p) \<noteq> []) ps;
          ps = sort_key (\<lambda>p. to_ascii_lowercase (provider_name p)) ps
      in distinct_ids ids [] ps k)"

section \<open>Web search\<close>

datatype WebSearchProviderKind = Tavily | Exa | Bocha | Zhipu | SearXng

definition search_requires_api_key :: "WebSearchProviderKind \<Rightarrow> bool" where
  "search_requires_api_key k \<longleftrightarrow> k \<noteq> SearXng"

fun search_label :: "WebSearchProviderKind \<Rightarrow> string" where
  "search_label Tavily = ''Tavily''"
| "search_label Exa = ''Exa''"
| "search_label Bocha = ''Bocha''"
| "search_label Zhipu = ''Zhipu''"
| "search_label SearXng = ''SearXNG''"

definition WEB_SEARCH_MAX_RESULTS_MIN :: "32 word" where "WEB_SEARCH_MAX_RESULTS_MIN = 1"
definition WEB_SEARCH_MAX_RESULTS_MAX :: "32 word" where "WEB_SEARCH_MAX_RESULTS_MAX = 50"
definition DEFAULT_WEB_SEARCH_MAX_RESULTS :: "32 word" where "DEFAULT_WEB_SEARCH_MAX_RESULTS = 10"

record WebSearchConfig =
  search_enabled :: bool
  search_kind :: WebSearchProviderKind
  search_key_env :: string
  search_has_api_key :: bool
  endpoint :: string
  max_results :: "32 word"

definition default_web_search :: WebSearchConfig where
  "default_web_search =
     \<lparr>search_enabled = False, search_kind = Tavily, search_key_env = [], search_has_api_key = False,
      endpoint = [], max_results = DEFAULT_WEB_SEARCH_MAX_RESULTS\<rparr>"

definition clamp :: "'a :: linorder \<Rightarrow> 'a \<Rightarrow> 'a \<Rightarrow> 'a" where
  "clamp x lo hi = (if x < lo then lo else if hi < x then hi else x)"

definition sanitize_web_search :: "WebSearchConfig \<Rightarrow> WebSearchConfig" where
  "sanitize_web_search w =
     (let w = w\<lparr>search_key_env := trim (search_key_env w), endpoint := trim_url (endpoint w),
                max_results := clamp (max_results w) WEB_SEARCH_MAX_RESULTS_MIN WEB_SEARCH_MAX_RESULTS_MAX\<rparr>
      in if \<not> search_requires_api_key (search_kind w) \<and> search_key_env w = []
         then w\<lparr>search_has_api_key := False\<rparr> else w)"

section \<open>Terminal and window\<close>

record KeyBinding =
  ctrl :: bool
  shift :: bool
  alt :: bool
  binding_key :: string

definition display_binding :: "KeyBinding \<Rightarrow> string" where
  "display_binding b =
     (if ctrl b then ''Ctrl+'' else []) @ (if shift b then ''Shift+'' else []) @ (if alt b then ''Alt+'' else [])
       @ to_uppercase (binding_key b)"

definition new_binding :: "bool \<Rightarrow> bool \<Rightarrow> bool \<Rightarrow> string \<Rightarrow> KeyBinding" where
  "new_binding c s a key = \<lparr>ctrl = c, shift = s, alt = a, binding_key = key\<rparr>"

record TerminalKeyBindings =
  copy :: KeyBinding
  paste :: KeyBinding
  search :: KeyBinding
  split_right :: KeyBinding
  split_down :: KeyBinding
  close_pane :: KeyBinding
  next_tab :: KeyBinding
  close_tab :: KeyBinding
  reopen_tab :: KeyBinding
  open_settings :: KeyBinding

definition default_key_bindings :: TerminalKeyBindings where
  "default_key_bindings =
     \<lparr>copy = new_binding True True False ''c'', paste = new_binding True True False ''v'',
      search = new_binding True True False ''f'', split_right = new_binding True True False [BACKSLASH],
      split_down = new_binding True True False ''-'', close_pane = new_binding True True False ''w'',
      next_tab = new_binding True False False ''tab'', close_tab = new_binding True False False ''w'',
      reopen_tab = new_binding True True False ''t'', open_settings = new_binding True False False '',''\<rparr>"

datatype TerminalRightClickBehavior = ContextMenu | CopySelectionOrPaste
datatype LastTabCloseBehavior = ExitOnLastTab | OpenNewHomeTab
datatype WindowCloseBehavior = ExitOnClose | MinimizeToTray
datatype MonitorHistoryDuration = OneMinuteHistory | FiveMinutesHistory | TenMinutesHistory | ThirtyMinutesHistory
datatype LocalVaultAutoLockDuration = AutoLockOff | LockFiveMinutes | LockFifteenMinutes | LockOneHour | LockOneDay

fun history_limit :: "MonitorHistoryDuration \<Rightarrow> nat" where
  "history_limit OneMinuteHistory = 30"
| "history_limit FiveMinutesHistory = 150"
| "history_limit TenMinutesHistory = 300"
| "history_limit ThirtyMinutesHistory = 900"

fun lock_seconds :: "LocalVaultAutoLockDuration \<Rightarrow> nat option" where
  "lock_seconds AutoLockOff = None"
| "lock_seconds LockFiveMinutes = Some (5 * 60)"
| "lock_seconds LockFifteenMinutes = Some (15 * 60)"
| "lock_seconds LockOneHour = Some (60 * 60)"
| "lock_seconds LockOneDay = Some (24 * 60 * 60)"

datatype AppLanguage = English | SimplifiedChinese

definition from_locale_code :: "string \<Rightarrow> AppLanguage" where
  "from_locale_code code =
     (if starts_with (to_ascii_lowercase (replace_char (CHR ''_'') ''-'' (trim code))) ''zh''
      then SimplifiedChinese else English)"

definition CURRENT_ONBOARDING_VERSION :: "32 word" where "CURRENT_ONBOARDING_VERSION = 1"
definition FONT_SIZE_MIN :: f32 where "FONT_SIZE_MIN = 0x41000000" \<comment> \<open>8.0\<close>
definition FONT_SIZE_MAX :: f32 where "FONT_SIZE_MAX = 0x42000000" \<comment> \<open>32.0\<close>
definition LINE_HEIGHT_MIN :: f32 where "LINE_HEIGHT_MIN = 0x41400000" \<comment> \<open>12.0\<close>
definition LINE_HEIGHT_MAX :: f32 where "LINE_HEIGHT_MAX = 0x42200000" \<comment> \<open>40.0\<close>
definition DEFAULT_FONT_SIZE :: f32 where "DEFAULT_FONT_SIZE = 0x41600000" \<comment> \<open>14.0\<close>
definition DEFAULT_LINE_HEIGHT :: f32 where "DEFAULT_LINE_HEIGHT = 0x41900000" \<comment> \<open>18.0\<close>
definition RECENT_CONNECTIONS_COUNT_MIN :: "8 word" where "RECENT_CONNECTIONS_COUNT_MIN = 0"
definition RECENT_CONNECTIONS_COUNT_MAX :: "8 word" where "RECENT_CONNECTIONS_COUNT_MAX = 20"
definition DEFAULT_RECENT_CONNECTIONS_COUNT :: "8 word" where "DEFAULT_RECENT_CONNECTIONS_COUNT = 5"
definition SFTP_BROWSER_COLUMN_COUNT :: nat where "SFTP_BROWSER_COLUMN_COUNT = 6"
definition DEFAULT_SEED_COLOR :: string where "DEFAULT_SEED_COLOR = ''#2f6fed''"

definition default_sftp_browser_hidden_columns :: "nat list" where
  "default_sftp_browser_hidden_columns = [4, 5]"

definition sanitize_sftp_browser_hidden_columns :: "nat list \<Rightarrow> nat list" where
  "sanitize_sftp_browser_hidden_columns columns =
     (let columns = remdups_adj (sort (filter (\<lambda>c. c < SFTP_BROWSER_COLUMN_COUNT) columns))
      in if SFTP_BROWSER_COLUMN_COUNT \<le> length columns then default_sftp_browser_hidden_columns else columns)"

section \<open>Bridge and clients\<close>

datatype ThemeId = LightTheme | DarkTheme
datatype OpenSshIntegrationMode = DisabledIntegration | DirectIntegration | BridgeIntegration
datatype AiAgentMode = AskMode | ExecuteMode | NonBlockingMode | FullAutoMode

record SshBridgeConfig =
  max_connections :: "16 word"
  max_channels_per_connection :: "16 word"
  security_policy :: BridgeSecurityPolicy

definition default_ssh_bridge :: SshBridgeConfig where
  "default_ssh_bridge =
     \<lparr>max_connections = 16, max_channels_per_connection = 64, security_policy = default_policy\<rparr>"

definition sanitize_bridge :: "SshBridgeConfig \<Rightarrow> SshBridgeConfig" where
  "sanitize_bridge b =
     b\<lparr>max_connections := clamp (max_connections b) 1 128,
       max_channels_per_connection := clamp (max_channels_per_connection b) 1 256\<rparr>"

definition validate_bridge :: "SshBridgeConfig \<Rightarrow> string + unit" where
  "validate_bridge b = map_sum id (\<lambda>_. ()) (validate_level (bridge_level (security_policy b)))"

datatype RdpClientKind = AutoClient | Mstsc | WindowsApp | Remmina | SdlFreeRdp
datatype StoredRdpClientKind = StoredClient RdpClientKind | UnknownClient

record RdpClientSettings =
  client_kind :: RdpClientKind
  client_path :: string

definition new_rdp_client :: "RdpClientKind \<Rightarrow> string \<Rightarrow> RdpClientSettings" where
  "new_rdp_client k path = \<lparr>client_kind = k, client_path = trim path\<rparr>"

fun rdp_client_from_stored :: "StoredRdpClientKind \<Rightarrow> string \<Rightarrow> RdpClientSettings" where
  "rdp_client_from_stored (StoredClient k) path = new_rdp_client k path"
| "rdp_client_from_stored UnknownClient path = \<lparr>client_kind = AutoClient, client_path = []\<rparr>"

section \<open>The settings\<close>

record AppSettings =
  rdp_client :: RdpClientSettings
  app_language :: AppLanguage
  font_family :: string
  terminal_font_family :: string
  font_fallbacks :: "string list"
  interface_font_size :: f32
  terminal_font_size :: f32
  line_height :: f32
  theme_id :: ThemeId
  seed_color :: string
  recent_connections_count :: "8 word"
  key_bindings :: TerminalKeyBindings
  terminal_right_click_behavior :: TerminalRightClickBehavior
  terminal_shift_right_click_context_menu :: bool
  terminal_free_type_mode :: bool
  auto_collect_session_monitoring :: bool
  last_tab_close_behavior :: LastTabCloseBehavior
  window_close_behavior :: WindowCloseBehavior
  monitor_history_duration :: MonitorHistoryDuration
  local_sftp_hidden_columns :: "nat list"
  remote_sftp_hidden_columns :: "nat list"
  completed_onboarding_version :: "32 word"
  local_vault_enabled :: bool
  local_vault_auto_lock_duration :: LocalVaultAutoLockDuration
  ai_providers :: "AiProviderConfig list"
  selected_ai_provider_id :: "string option"
  agent_mode :: AiAgentMode
  agent_auto_approve_dangerous :: bool
  web_search :: WebSearchConfig
  open_ssh_integration_mode :: OpenSshIntegrationMode
  ssh_bridge :: SshBridgeConfig
  managed_open_ssh_integration_enabled :: bool

record SyncedSettings =
  synced_recent_connections_count :: "8 word"
  synced_key_bindings :: TerminalKeyBindings
  synced_right_click_behavior :: TerminalRightClickBehavior
  synced_shift_right_click_context_menu :: bool
  synced_free_type_mode :: bool
  synced_session_monitoring :: bool
  synced_last_tab_close_behavior :: LastTabCloseBehavior
  synced_history_duration :: MonitorHistoryDuration
  synced_local_hidden_columns :: "nat list"
  synced_remote_hidden_columns :: "nat list"
  synced_onboarding_version :: "32 word"
  synced_auto_lock_duration :: LocalVaultAutoLockDuration
  synced_ai_providers :: "AiProviderConfig list"
  synced_web_search :: WebSearchConfig

record platform =
  platform_font :: string \<comment> \<open>\<^verbatim>\<open>PLATFORM_DEFAULT_FONT\<close>\<close>
  default_font :: string \<comment> \<open>\<^verbatim>\<open>default_font_family\<close>, on Linux from the font library\<close>
  fallback_fonts :: "string list"
  system_language :: AppLanguage
  seed_hex :: "string \<Rightarrow> string option" \<comment> \<open>the opaque colour that a trimmed text names, in hexadecimal\<close>
  uuids :: uuid_source
  is_uuid :: "string \<Rightarrow> bool" \<comment> \<open>what \<^verbatim>\<open>Uuid::parse_str\<close> accepts\<close>

definition default_settings :: "platform \<Rightarrow> AppSettings" where
  "default_settings pl =
     \<lparr>rdp_client = \<lparr>client_kind = AutoClient, client_path = []\<rparr>, app_language = English, font_family = default_font pl,
      terminal_font_family = default_font pl, font_fallbacks = fallback_fonts pl,
      interface_font_size = DEFAULT_FONT_SIZE, terminal_font_size = DEFAULT_FONT_SIZE,
      line_height = DEFAULT_LINE_HEIGHT, theme_id = LightTheme, seed_color = DEFAULT_SEED_COLOR,
      recent_connections_count = DEFAULT_RECENT_CONNECTIONS_COUNT, key_bindings = default_key_bindings,
      terminal_right_click_behavior = ContextMenu, terminal_shift_right_click_context_menu = True,
      terminal_free_type_mode = False, auto_collect_session_monitoring = False,
      last_tab_close_behavior = ExitOnLastTab, window_close_behavior = ExitOnClose,
      monitor_history_duration = FiveMinutesHistory,
      local_sftp_hidden_columns = default_sftp_browser_hidden_columns,
      remote_sftp_hidden_columns = default_sftp_browser_hidden_columns, completed_onboarding_version = 0,
      local_vault_enabled = False, local_vault_auto_lock_duration = AutoLockOff, ai_providers = [],
      selected_ai_provider_id = None, agent_mode = ExecuteMode, agent_auto_approve_dangerous = False,
      web_search = default_web_search, open_ssh_integration_mode = DisabledIntegration,
      ssh_bridge = default_ssh_bridge, managed_open_ssh_integration_enabled = False\<rparr>"

definition default_for_system :: "platform \<Rightarrow> AppSettings" where
  "default_for_system pl = (default_settings pl)\<lparr>app_language := system_language pl\<rparr>"

definition should_reset_legacy_platform_font :: "string \<Rightarrow> bool" where
  "should_reset_legacy_platform_font f \<longleftrightarrow> trim f = ''.ZedMono'' \<or> eq_ignore_ascii_case (trim f) ''monospace''"

definition sanitize_font :: "platform \<Rightarrow> string \<Rightarrow> string" where
  "sanitize_font pl f = (if trim f = [] \<or> should_reset_legacy_platform_font f then default_font pl else f)"

definition sanitize_settings :: "platform \<Rightarrow> AppSettings \<Rightarrow> nat \<Rightarrow> (AppSettings \<times> nat) option" where
  "sanitize_settings pl s k =
     (case sanitize_ai_providers (uuids pl) (ai_providers s) k of
        None \<Rightarrow> None
      | Some (providers, k) \<Rightarrow>
          Some (s\<lparr>font_family := sanitize_font pl (font_family s),
                  terminal_font_family := sanitize_font pl (terminal_font_family s),
                  interface_font_size := f32_clamp (interface_font_size s) FONT_SIZE_MIN FONT_SIZE_MAX,
                  terminal_font_size := f32_clamp (terminal_font_size s) FONT_SIZE_MIN FONT_SIZE_MAX,
                  line_height := f32_clamp (line_height s) LINE_HEIGHT_MIN LINE_HEIGHT_MAX,
                  seed_color := (case seed_hex pl (trim (seed_color s)) of Some c \<Rightarrow> c | None \<Rightarrow> DEFAULT_SEED_COLOR),
                  recent_connections_count :=
                    clamp (recent_connections_count s) RECENT_CONNECTIONS_COUNT_MIN RECENT_CONNECTIONS_COUNT_MAX,
                  local_sftp_hidden_columns := sanitize_sftp_browser_hidden_columns (local_sftp_hidden_columns s),
                  remote_sftp_hidden_columns := sanitize_sftp_browser_hidden_columns (remote_sftp_hidden_columns s),
                  ai_providers := providers,
                  web_search := sanitize_web_search (web_search s),
                  ssh_bridge := sanitize_bridge (ssh_bridge s),
                  managed_open_ssh_integration_enabled := False\<rparr>, k))"

definition effective_font :: "platform \<Rightarrow> string \<Rightarrow> string" where
  "effective_font pl f = (if trim f = [] then platform_font pl else f)"

definition should_show_onboarding :: "AppSettings \<Rightarrow> bool" where
  "should_show_onboarding s \<longleftrightarrow> completed_onboarding_version s < CURRENT_ONBOARDING_VERSION"

definition mark_current_onboarding_completed :: "AppSettings \<Rightarrow> AppSettings" where
  "mark_current_onboarding_completed s = s\<lparr>completed_onboarding_version := CURRENT_ONBOARDING_VERSION\<rparr>"

definition synced_settings :: "AppSettings \<Rightarrow> SyncedSettings" where
  "synced_settings s =
     \<lparr>synced_recent_connections_count = recent_connections_count s, synced_key_bindings = key_bindings s,
      synced_right_click_behavior = terminal_right_click_behavior s,
      synced_shift_right_click_context_menu = terminal_shift_right_click_context_menu s,
      synced_free_type_mode = terminal_free_type_mode s,
      synced_session_monitoring = auto_collect_session_monitoring s,
      synced_last_tab_close_behavior = last_tab_close_behavior s,
      synced_history_duration = monitor_history_duration s,
      synced_local_hidden_columns = local_sftp_hidden_columns s,
      synced_remote_hidden_columns = remote_sftp_hidden_columns s,
      synced_onboarding_version = completed_onboarding_version s,
      synced_auto_lock_duration = local_vault_auto_lock_duration s,
      synced_ai_providers = ai_providers s, synced_web_search = web_search s\<rparr>"

definition apply_synced_settings :: "platform \<Rightarrow> AppSettings \<Rightarrow> SyncedSettings \<Rightarrow> nat \<Rightarrow> (AppSettings \<times> nat) option" where
  "apply_synced_settings pl s y k =
     (case sanitize_ai_providers (uuids pl) (synced_ai_providers y) k of
        None \<Rightarrow> None
      | Some (providers, k) \<Rightarrow>
          Some (s\<lparr>recent_connections_count := synced_recent_connections_count y,
                  key_bindings := synced_key_bindings y,
                  terminal_right_click_behavior := synced_right_click_behavior y,
                  terminal_shift_right_click_context_menu := synced_shift_right_click_context_menu y,
                  terminal_free_type_mode := synced_free_type_mode y,
                  auto_collect_session_monitoring := synced_session_monitoring y,
                  last_tab_close_behavior := synced_last_tab_close_behavior y,
                  monitor_history_duration := synced_history_duration y,
                  local_sftp_hidden_columns := synced_local_hidden_columns y,
                  remote_sftp_hidden_columns := synced_remote_hidden_columns y,
                  completed_onboarding_version := synced_onboarding_version y,
                  local_vault_auto_lock_duration := synced_auto_lock_duration y,
                  ai_providers := providers,
                  web_search := sanitize_web_search (synced_web_search y)\<rparr>, k))"

definition normalize_synced :: "platform \<Rightarrow> SyncedSettings \<Rightarrow> nat \<Rightarrow> (SyncedSettings \<times> nat) option" where
  "normalize_synced pl y k =
     (case sanitize_ai_providers (uuids pl) (synced_ai_providers y) k of
        None \<Rightarrow> None
      | Some (providers, k) \<Rightarrow>
          Some (y\<lparr>synced_ai_providers := providers, synced_web_search := sanitize_web_search (synced_web_search y)\<rparr>, k))"

definition settings_changed :: "AppSettings \<Rightarrow> AppSettings \<Rightarrow> bool" where
  "settings_changed a b \<longleftrightarrow>
     rdp_client a \<noteq> rdp_client b \<or> app_language a \<noteq> app_language b \<or> font_family a \<noteq> font_family b
     \<or> terminal_font_family a \<noteq> terminal_font_family b \<or> font_fallbacks a \<noteq> font_fallbacks b
     \<or> f32_differs (interface_font_size a) (interface_font_size b)
     \<or> f32_differs (terminal_font_size a) (terminal_font_size b) \<or> f32_differs (line_height a) (line_height b)
     \<or> theme_id a \<noteq> theme_id b \<or> seed_color a \<noteq> seed_color b
     \<or> recent_connections_count a \<noteq> recent_connections_count b \<or> key_bindings a \<noteq> key_bindings b
     \<or> terminal_right_click_behavior a \<noteq> terminal_right_click_behavior b
     \<or> terminal_shift_right_click_context_menu a \<noteq> terminal_shift_right_click_context_menu b
     \<or> terminal_free_type_mode a \<noteq> terminal_free_type_mode b
     \<or> auto_collect_session_monitoring a \<noteq> auto_collect_session_monitoring b
     \<or> last_tab_close_behavior a \<noteq> last_tab_close_behavior b \<or> window_close_behavior a \<noteq> window_close_behavior b
     \<or> monitor_history_duration a \<noteq> monitor_history_duration b
     \<or> local_sftp_hidden_columns a \<noteq> local_sftp_hidden_columns b
     \<or> remote_sftp_hidden_columns a \<noteq> remote_sftp_hidden_columns b
     \<or> completed_onboarding_version a \<noteq> completed_onboarding_version b
     \<or> local_vault_enabled a \<noteq> local_vault_enabled b
     \<or> local_vault_auto_lock_duration a \<noteq> local_vault_auto_lock_duration b
     \<or> ai_providers a \<noteq> ai_providers b \<or> selected_ai_provider_id a \<noteq> selected_ai_provider_id b
     \<or> agent_mode a \<noteq> agent_mode b \<or> agent_auto_approve_dangerous a \<noteq> agent_auto_approve_dangerous b
     \<or> web_search a \<noteq> web_search b \<or> open_ssh_integration_mode a \<noteq> open_ssh_integration_mode b
     \<or> ssh_bridge a \<noteq> ssh_bridge b"

end
