(* ===== verification/Approval.thy ===== *)
theory Approval
  imports Policy_Paths Settings
begin

text \<open>
  The approval matrix and the session grants of \<^verbatim>\<open>crates/miaominal-agent/src/policy/approval.rs\<close>.
  The set of grants is a HOL set of pairs of target and normalised prefix.
\<close>

section \<open>Modes and the matrix\<close>

datatype ApprovalMode = ReadOnly | Cautious | Standard | FullAuto

record ApprovalSettings =
  mode :: ApprovalMode
  auto_approve_dangerous :: bool

fun approval_mode_of :: "AiAgentMode \<Rightarrow> ApprovalMode" where
  "approval_mode_of AskMode = ReadOnly"
| "approval_mode_of ExecuteMode = Standard"
| "approval_mode_of NonBlockingMode = Cautious"
| "approval_mode_of FullAutoMode = FullAuto"

fun agent_mode_of :: "ApprovalMode \<Rightarrow> AiAgentMode" where
  "agent_mode_of ReadOnly = AskMode"
| "agent_mode_of Standard = ExecuteMode"
| "agent_mode_of Cautious = NonBlockingMode"
| "agent_mode_of FullAuto = FullAutoMode"

definition from_settings :: "AppSettings \<Rightarrow> ApprovalSettings" where
  "from_settings s =
     \<lparr>mode = approval_mode_of (agent_mode s), auto_approve_dangerous = agent_auto_approve_dangerous s\<rparr>"

datatype Verdict = VerdictAllow | VerdictAsk string | VerdictDeny string

fun matrix :: "AgentRiskLevel \<Rightarrow> ApprovalMode \<Rightarrow> bool \<Rightarrow> string \<Rightarrow> Verdict" where
  "matrix L4Forbidden m auto why = VerdictDeny (''forbidden: '' @ why)"
| "matrix L0ReadOnly m auto why = VerdictAllow"
| "matrix r ReadOnly auto why =
     VerdictDeny (''read-only mode does not allow changes ('' @ why @ ''); describe the change to the user instead'')"
| "matrix r Cautious auto why = VerdictAsk why"
| "matrix L1LowMutation m auto why = VerdictAllow"
| "matrix L2ServiceImpacting Standard auto why = VerdictAsk why"
| "matrix L2ServiceImpacting FullAuto auto why = VerdictAllow"
| "matrix L3Dangerous m auto why = (if m = FullAuto \<and> auto then VerdictAllow else VerdictAsk why)"

definition approval_verdict :: "ApprovalSettings \<Rightarrow> AgentRiskLevel \<Rightarrow> string \<Rightarrow> Verdict" where
  "approval_verdict s r why = matrix r (mode s) (auto_approve_dangerous s) why"

section \<open>Session grants\<close>

record SessionGrants =
  grants :: "(string \<times> string) set"

definition no_grants :: SessionGrants where
  "no_grants = \<lparr>grants = {}\<rparr>"

definition normalize_prefix :: "string \<Rightarrow> string" where
  "normalize_prefix p = to_lowercase (join '' '' (split_whitespace p))"

definition grant :: "string \<Rightarrow> string \<Rightarrow> SessionGrants \<Rightarrow> SessionGrants" where
  "grant tgt p g = g\<lparr>grants := insert (tgt, normalize_prefix p) (grants g)\<rparr>"

definition is_granted :: "SessionGrants \<Rightarrow> string \<Rightarrow> string option \<Rightarrow> bool" where
  "is_granted g tgt p =
     (case p of None \<Rightarrow> False | Some p \<Rightarrow> (tgt, normalize_prefix p) \<in> grants g)"

definition clear :: "SessionGrants \<Rightarrow> SessionGrants" where
  "clear g = g\<lparr>grants := {}\<rparr>"

definition grants_len :: "SessionGrants \<Rightarrow> nat" where
  "grants_len g = card (grants g)"

definition grants_is_empty :: "SessionGrants \<Rightarrow> bool" where
  "grants_is_empty g \<longleftrightarrow> grants g = {}"

section \<open>What the matrix decides\<close>

fun auto_limit :: "ApprovalSettings \<Rightarrow> AgentRiskLevel" where
  \<comment> \<open>the highest risk that runs without asking\<close>
  "auto_limit s =
     (case mode s of
        ReadOnly \<Rightarrow> L0ReadOnly
      | Cautious \<Rightarrow> L0ReadOnly
      | Standard \<Rightarrow> L1LowMutation
      | FullAuto \<Rightarrow> if auto_approve_dangerous s then L3Dangerous else L2ServiceImpacting)"

fun ask_limit :: "ApprovalSettings \<Rightarrow> AgentRiskLevel" where
  \<comment> \<open>the highest risk that is not denied\<close>
  "ask_limit s = (if mode s = ReadOnly then L0ReadOnly else L3Dangerous)"

fun permission :: "Verdict \<Rightarrow> nat" where
  "permission VerdictAllow = 2"
| "permission (VerdictAsk _) = 1"
| "permission (VerdictDeny _) = 0"

definition mode_rank :: "ApprovalMode \<Rightarrow> nat" where
  "mode_rank m = (case m of ReadOnly \<Rightarrow> 0 | Cautious \<Rightarrow> 1 | Standard \<Rightarrow> 2 | FullAuto \<Rightarrow> 3)"

lemma verdict_permission:
  "permission (approval_verdict s r why) = (if r \<le> auto_limit s then 2 else if r \<le> ask_limit s then 1 else 0)"
  by (cases r; cases "mode s"; simp add: approval_verdict_def risk_order)

text \<open>The approval matrix is two thresholds: a risk up to the mode's automatic limit runs, above it
  and up to the mode's asking limit it is asked for, and above that it is denied. Forbidden risk is
  above every limit, read-only risk below every one.\<close>

theorem approval_thresholds:
  "(approval_verdict s r why = VerdictAllow \<longleftrightarrow> r \<le> auto_limit s) \<and>
   ((\<exists>q. approval_verdict s r why = VerdictAsk q) \<longleftrightarrow> auto_limit s < r \<and> r \<le> ask_limit s) \<and>
   ((\<exists>q. approval_verdict s r why = VerdictDeny q) \<longleftrightarrow> ask_limit s < r) \<and>
   L0ReadOnly \<le> auto_limit s \<and> ask_limit s < L4Forbidden"
  by (cases r; cases "mode s"; simp add: approval_verdict_def risk_order)

text \<open>The matrix is monotone: a lower risk, a more permissive mode, or the switch for dangerous
  actions never turns a more permissive verdict into a stricter one.\<close>

theorem approval_monotone:
  assumes "r \<le> r'" and "mode_rank (mode s') \<le> mode_rank (mode s)"
    and "auto_approve_dangerous s' \<longrightarrow> auto_approve_dangerous s"
  shows "permission (approval_verdict s' r' why') \<le> permission (approval_verdict s r why)"
proof -
  have "auto_limit s' \<le> auto_limit s" "ask_limit s' \<le> ask_limit s"
    using assms(2,3) by (cases "mode s"; cases "mode s'"; auto simp: mode_rank_def risk_order)+
  then show ?thesis
    unfolding verdict_permission using assms(1) by (auto simp del: auto_limit.simps ask_limit.simps)
qed

theorem approval_monotone_witness:
  "permission (approval_verdict \<lparr>mode = Cautious, auto_approve_dangerous = False\<rparr> L2ServiceImpacting ''a'')
   \<le> permission (approval_verdict \<lparr>mode = FullAuto, auto_approve_dangerous = False\<rparr> L1LowMutation ''b'')"
  by (rule approval_monotone) (simp_all add: mode_rank_def risk_order)

text \<open>The migration between the stored agent modes and the approval modes is a bijection: either
  way and back is the identity, so saving and loading a mode never changes it.\<close>

theorem mode_roundtrip: "agent_mode_of (approval_mode_of m) = m \<and> approval_mode_of (agent_mode_of a) = a"
  by (cases m; cases a; simp)

declare auto_limit.simps [simp del] ask_limit.simps [simp del]

section \<open>What the grants remember\<close>

datatype grant_op = Grant string string | Clear

fun grant_step :: "grant_op \<Rightarrow> SessionGrants \<Rightarrow> SessionGrants" where
  "grant_step (Grant tgt p) g = grant tgt p g"
| "grant_step Clear g = clear g"

definition grants_after :: "grant_op list \<Rightarrow> SessionGrants" where
  "grants_after ops = fold grant_step ops no_grants"

lemma grants_after_snoc: "grants_after (ops @ [x]) = grant_step x (grants_after ops)"
  by (simp add: grants_after_def)

lemma grants_remembered:
  "(tgt, q) \<in> grants (grants_after ops) \<longleftrightarrow>
     (\<exists>a p b. ops = a @ Grant tgt p # b \<and> Clear \<notin> set b \<and> normalize_prefix p = q)"
proof (induction ops rule: rev_induct)
  case Nil
  show ?case by (simp add: grants_after_def no_grants_def)
next
  case (snoc x ops)
  have split: "(\<exists>a p b. ops @ [x] = a @ Grant tgt p # b \<and> Clear \<notin> set b \<and> normalize_prefix p = q) \<longleftrightarrow>
      (\<exists>p. x = Grant tgt p \<and> normalize_prefix p = q) \<or>
      x \<noteq> Clear \<and> (\<exists>a p b. ops = a @ Grant tgt p # b \<and> Clear \<notin> set b \<and> normalize_prefix p = q)"
    (is "?all \<longleftrightarrow> ?new \<or> ?old")
  proof
    assume ?all
    then obtain a p b where all: "ops @ [x] = a @ Grant tgt p # b" "Clear \<notin> set b" "normalize_prefix p = q"
      by blast
    show "?new \<or> ?old"
    proof (cases b rule: rev_cases)
      case Nil
      with all show ?thesis by simp
    next
      case (snoc b' y)
      with all have "ops = a @ Grant tgt p # b'" "x = y" by simp_all
      with all snoc show ?thesis by auto
    qed
  next
    assume "?new \<or> ?old"
    then show ?all
    proof
      assume ?new
      then show ?all by (intro exI [of _ ops]) (auto intro!: exI [of _ "[]"])
    next
      assume ?old
      then obtain a p b where "x \<noteq> Clear" "ops = a @ Grant tgt p # b" "Clear \<notin> set b" "normalize_prefix p = q"
        by blast
      then show ?all by (intro exI [of _ a] exI [of _ p] exI [of _ "b @ [x]"]) auto
    qed
  qed
  show ?case
    unfolding split grants_after_snoc
    using snoc by (cases x) (auto simp: grant_def clear_def)
qed

text \<open>Session grants are exact: after any sequence of grants and clears, a command prefix is granted
  on a target exactly when it was granted on that target, up to spacing and case, and not cleared
  since. A grant never leaks to another target, and a command without prefix is never granted.\<close>

theorem grants_are_exact:
  "(is_granted (grants_after ops) tgt (Some p) \<longleftrightarrow>
     (\<exists>a q b. ops = a @ Grant tgt q # b \<and> Clear \<notin> set b \<and> normalize_prefix q = normalize_prefix p)) \<and>
   \<not> is_granted (grants_after ops) tgt None"
  by (simp add: is_granted_def grants_remembered)

end
