(* ===== verification/Io.thy ===== *)
theory Io
  imports Prelude
begin

text \<open>
  Operations on state that can fail: a function from the state to an error or a value, and the next
  state. The state is kept when an operation fails, as in the code, where a \<^verbatim>\<open>?\<close> returns early and
  what was done before stays done. \<^verbatim>\<open>triple P m Q E\<close> says that \<open>m\<close>, run where \<open>P\<close> holds, ends in \<open>Q\<close>
  when it returns a value and in \<open>E\<close> when it fails; the rules of the collection \<open>triples\<close> compute
  with it.
\<close>

type_synonym ('s, 'e, 'a) io = "'s \<Rightarrow> ('e + 'a) \<times> 's"

definition ok :: "'a \<Rightarrow> ('s, 'e, 'a) io" where
  "ok a s = (Inr a, s)"

definition fail :: "'e \<Rightarrow> ('s, 'e, 'a) io" where
  "fail e s = (Inl e, s)"

definition attempt :: "('s, 'e, 'a) io \<Rightarrow> ('a \<Rightarrow> ('s, 'e, 'b) io) \<Rightarrow> ('s, 'e, 'b) io" where
  \<comment> \<open>\<^verbatim>\<open>let x = m?; f(x)\<close>\<close>
  "attempt m f s = (case m s of (Inl e, s') \<Rightarrow> (Inl e, s') | (Inr a, s') \<Rightarrow> f a s')"

definition map_err :: "('e \<Rightarrow> 'f) \<Rightarrow> ('s, 'e, 'a) io \<Rightarrow> ('s, 'f, 'a) io" where
  "map_err g m s = (case m s of (Inl e, s') \<Rightarrow> (Inl (g e), s') | (Inr a, s') \<Rightarrow> (Inr a, s'))"

definition get_io :: "('s \<Rightarrow> 'a) \<Rightarrow> ('s, 'e, 'a) io" where
  "get_io f s = (Inr (f s), s)"

definition lift_sum :: "'e + 'a \<Rightarrow> ('s, 'e, 'a) io" where
  "lift_sum r s = (r, s)"

fun each :: "('a \<Rightarrow> ('s, 'e, unit) io) \<Rightarrow> 'a list \<Rightarrow> ('s, 'e, unit) io" where
  \<comment> \<open>\<^verbatim>\<open>for x in xs { f(x)?; }\<close>\<close>
  "each f [] = ok ()"
| "each f (x # xs) = attempt (f x) (\<lambda>_. each f xs)"

fun collect :: "('a \<Rightarrow> ('s, 'e, 'b) io) \<Rightarrow> 'a list \<Rightarrow> ('s, 'e, 'b list) io" where
  \<comment> \<open>\<^verbatim>\<open>xs.iter().map(f).collect::<Result<Vec<_>>>()\<close>\<close>
  "collect f [] = ok []"
| "collect f (x # xs) = attempt (f x) (\<lambda>y. attempt (collect f xs) (\<lambda>ys. ok (y # ys)))"

definition and_then :: "'e + 'a \<Rightarrow> ('a \<Rightarrow> 'e + 'b) \<Rightarrow> 'e + 'b" where
  \<comment> \<open>\<^verbatim>\<open>?\<close> without state\<close>
  "and_then r f = (case r of Inl e \<Rightarrow> Inl e | Inr a \<Rightarrow> f a)"

definition ok_or :: "'e \<Rightarrow> 'a option \<Rightarrow> 'e + 'a" where
  "ok_or e v = (case v of None \<Rightarrow> Inl e | Some a \<Rightarrow> Inr a)"

lemma and_then_Inr [simp]: "and_then r f = Inr b \<longleftrightarrow> (\<exists>a. r = Inr a \<and> f a = Inr b)"
  by (cases r) (simp_all add: and_then_def)

lemma and_then_simps [simp]: "and_then (Inr a) f = f a" "and_then (Inl e) f = Inl e"
  by (simp_all add: and_then_def)

lemma ok_or_Inr [simp]: "ok_or e v = Inr a \<longleftrightarrow> v = Some a"
  by (cases v) (simp_all add: ok_or_def)

lemma ok_or_simps [simp]: "ok_or e (Some a) = Inr a" "ok_or e None = Inl e"
  by (simp_all add: ok_or_def)

abbreviation unless_fails :: "bool \<Rightarrow> 'e \<Rightarrow> ('s, 'e, 'a) io \<Rightarrow> ('s, 'e, 'a) io" where
  "unless_fails b e m \<equiv> (if b then fail e else m)"

lemma io_simps [simp]:
  "ok a s = (Inr a, s)" "fail e s = (Inl e, s)" "get_io f s = (Inr (f s), s)" "lift_sum r s = (r, s)"
  by (simp_all add: ok_def fail_def get_io_def lift_sum_def)

lemma attempt_Inr: "m s = (Inr a, s') \<Longrightarrow> attempt m f s = f a s'"
  by (simp add: attempt_def)

lemma attempt_Inl: "m s = (Inl e, s') \<Longrightarrow> attempt m f s = (Inl e, s')"
  by (simp add: attempt_def)

lemma attempt_eq_Inr:
  "attempt m f s = (Inr b, t) \<longleftrightarrow> (\<exists>a s'. m s = (Inr a, s') \<and> f a s' = (Inr b, t))"
  by (auto simp: attempt_def split: prod.splits sum.splits)

lemma attempt_eq_Inl:
  "attempt m f s = (Inl e, t) \<longleftrightarrow>
     m s = (Inl e, t) \<or> (\<exists>a s'. m s = (Inr a, s') \<and> f a s' = (Inl e, t))"
  by (auto simp: attempt_def split: prod.splits sum.splits)

lemma attempt_cases:
  assumes "attempt m f s = (r, t)"
  obtains e where "m s = (Inl e, t)" "r = Inl e" | a s' where "m s = (Inr a, s')" "f a s' = (r, t)"
  using assms by (auto simp: attempt_def split: prod.splits sum.splits)

lemma map_err_eq_Inr [simp]: "map_err g m s = (Inr a, t) \<longleftrightarrow> m s = (Inr a, t)"
  by (auto simp: map_err_def split: prod.splits sum.splits)

lemma map_err_eq_Inl [simp]: "map_err g m s = (Inl e, t) \<longleftrightarrow> (\<exists>e'. m s = (Inl e', t) \<and> e = g e')"
  by (auto simp: map_err_def split: prod.splits sum.splits)

section \<open>Triples\<close>

named_theorems triples \<open>rules for triples\<close>

definition triple ::
  "('s \<Rightarrow> bool) \<Rightarrow> ('s, 'e, 'a) io \<Rightarrow> ('a \<Rightarrow> 's \<Rightarrow> bool) \<Rightarrow> ('e \<Rightarrow> 's \<Rightarrow> bool) \<Rightarrow> bool" where
  "triple P m Q E \<longleftrightarrow>
     (\<forall>s. P s \<longrightarrow> (case m s of (Inl e, t) \<Rightarrow> E e t | (Inr a, t) \<Rightarrow> Q a t))"

lemma tripleI:
  "(\<And>s a t. P s \<Longrightarrow> m s = (Inr a, t) \<Longrightarrow> Q a t) \<Longrightarrow> (\<And>s e t. P s \<Longrightarrow> m s = (Inl e, t) \<Longrightarrow> E e t) \<Longrightarrow>
   triple P m Q E"
  by (auto simp: triple_def split: prod.splits sum.splits)

lemma triple_ok: "triple P m Q E \<Longrightarrow> P s \<Longrightarrow> m s = (Inr a, t) \<Longrightarrow> Q a t"
  by (auto simp: triple_def dest: spec [of _ s])

lemma triple_err: "triple P m Q E \<Longrightarrow> P s \<Longrightarrow> m s = (Inl e, t) \<Longrightarrow> E e t"
  by (auto simp: triple_def dest: spec [of _ s])

lemma triple_weaken:
  "triple P' m Q' E' \<Longrightarrow> (\<And>s. P s \<Longrightarrow> P' s) \<Longrightarrow> (\<And>a s. Q' a s \<Longrightarrow> Q a s) \<Longrightarrow>
   (\<And>e s. E' e s \<Longrightarrow> E e s) \<Longrightarrow> triple P m Q E"
  by (fastforce simp: triple_def split: prod.splits sum.splits)

lemma triple_basic [triples]:
  "triple (Q a) (ok a) Q E" "triple (E e) (fail e) Q E" "triple (\<lambda>s. Q (f s) s) (get_io f) Q E"
  by (simp_all add: triple_def)

lemma triple_attempt:
  "triple P m R E \<Longrightarrow> (\<And>a. triple (R a) (f a) Q E) \<Longrightarrow> triple P (attempt m f) Q E"
  by (fastforce simp: triple_def attempt_def split: prod.splits sum.splits)

lemma triple_map_err: "triple P m Q (\<lambda>e. E (g e)) \<Longrightarrow> triple P (map_err g m) Q E"
  by (fastforce simp: triple_def map_err_def split: prod.splits sum.splits)

lemma triple_each:
  assumes "\<And>x. x \<in> set xs \<Longrightarrow> triple I (f x) (\<lambda>_. I) (\<lambda>_. I)"
  shows "triple I (each f xs) (\<lambda>_. I) (\<lambda>_. I)"
  using assms by (induction xs) (auto intro: triple_attempt triple_basic)

lemma triple_collect:
  assumes "\<And>x. x \<in> set xs \<Longrightarrow> triple I (f x) (\<lambda>_. I) (\<lambda>_. I)"
  shows "triple I (collect f xs) (\<lambda>_. I) (\<lambda>_. I)"
  using assms
proof (induction xs)
  case (Cons x xs)
  then have "triple I (f x) (\<lambda>_. I) (\<lambda>_. I)" "triple I (collect f xs) (\<lambda>_. I) (\<lambda>_. I)" by simp_all
  then show ?case by (auto intro!: triple_attempt [of I _ "\<lambda>_. I"] triple_basic)
qed (auto intro: triple_basic)

end
