(* ===== verification/Secret_Store.thy ===== *)
theory Secret_Store
  imports Utf8 Io
begin

text \<open>
  The secret store, \<^verbatim>\<open>crates/miaominal-secrets/src/secret_store.rs\<close>: secrets of profiles, keys,
  providers and proxies as entries of a credential store. A private key that is too long for one
  entry is split into chunks; the entry of the key then holds a manifest, and the chunks lie in
  entries named after the generation of the manifest.

  The credential store (the keyring of the system or the vault file) is the map \<open>entries\<close>. Any
  operation on it can fail: the list \<open>faults\<close> says, operation by operation, with which message, and
  a failing operation changes no entry. The generation of a new manifest comes from \<^verbatim>\<open>uuid\<close>, which
  is not part of the program: the generated text is the argument \<open>gen\<close>, the parser the argument
  \<open>is_uuid\<close>.
\<close>

section \<open>Credentials and errors\<close>

datatype secret_root = LocalVaultLockedError | Message string

record any_error = \<comment> \<open>\<^verbatim>\<open>anyhow::Error\<close>: the contexts, the last one first, and the cause\<close>
  contexts :: "string list"
  root :: secret_root

record credentials =
  entries :: "string \<rightharpoonup> string"
  faults :: "string option list"

type_synonym 'a secret_io = "(credentials, any_error, 'a) io"

definition anyhow :: "string \<Rightarrow> any_error" where
  "anyhow m = \<lparr>contexts = [], root = Message m\<rparr>"

definition with_context :: "string \<Rightarrow> any_error \<Rightarrow> any_error" where
  "with_context m e = e\<lparr>contexts := m # contexts e\<rparr>"

definition backend :: "(credentials \<Rightarrow> 'a \<times> (string \<rightharpoonup> string)) \<Rightarrow> 'a secret_io" where
  \<comment> \<open>one operation of the credential backend\<close>
  "backend f c =
     (case faults c of
        Some m # fs \<Rightarrow> (Inl (anyhow m), c\<lparr>faults := fs\<rparr>)
      | fs \<Rightarrow> (case f c of (a, es) \<Rightarrow> (Inr a, c\<lparr>entries := es, faults := tl fs\<rparr>)))"

definition cred_get :: "string \<Rightarrow> string option secret_io" where
  "cred_get account = backend (\<lambda>c. (entries c account, entries c))"

definition cred_get_many :: "string list \<Rightarrow> string option list secret_io" where
  "cred_get_many accounts = collect cred_get accounts"

definition cred_set :: "string \<Rightarrow> string \<Rightarrow> unit secret_io" where
  "cred_set account value = backend (\<lambda>c. ((), (entries c)(account \<mapsto> value)))"

definition cred_delete :: "string \<Rightarrow> unit secret_io" where
  "cred_delete account = backend (\<lambda>c. ((), (entries c)(account := None)))"

definition LOCKED_VAULT_MESSAGE :: string where "LOCKED_VAULT_MESSAGE = ''local vault is locked''"
definition REVOKED_VAULT_MESSAGE :: string where
  "REVOKED_VAULT_MESSAGE = ''local vault session has been revoked''"

fun root_text :: "secret_root \<Rightarrow> string" where
  "root_text LocalVaultLockedError = ''local vault is locked''"
| "root_text (Message m) = m"

definition error_chain :: "any_error \<Rightarrow> string list" where
  "error_chain e = contexts e @ [root_text (root e)]"

definition mentions_lock :: "any_error \<Rightarrow> bool" where
  "mentions_lock e \<longleftrightarrow>
     (\<exists>m \<in> set (error_chain e). contains m LOCKED_VAULT_MESSAGE \<or> contains m REVOKED_VAULT_MESSAGE)"

definition is_locked_error :: "any_error \<Rightarrow> bool" where
  "is_locked_error e \<longleftrightarrow> root e = LocalVaultLockedError \<or> mentions_lock e"

definition is_structured_locked_error :: "any_error \<Rightarrow> bool" where
  "is_structured_locked_error e \<longleftrightarrow> root e = LocalVaultLockedError"

definition normalize_read_error :: "any_error \<Rightarrow> any_error" where
  "normalize_read_error e =
     (if mentions_lock e then \<lparr>contexts = [], root = LocalVaultLockedError\<rparr> else e)"

section \<open>Accounts, manifests and chunks\<close>

datatype SecretKind =
  Password | Passphrase | ManagedPrivateKey | AiProviderApiKey | WebSearchApiKey | ProxyPassword

fun kind_suffix :: "SecretKind \<Rightarrow> string" where
  "kind_suffix Password = ''password''"
| "kind_suffix Passphrase = ''passphrase''"
| "kind_suffix ManagedPrivateKey = ''managed-private-key''"
| "kind_suffix AiProviderApiKey = ''ai-provider-api-key''"
| "kind_suffix WebSearchApiKey = ''web-search-api-key''"
| "kind_suffix ProxyPassword = ''proxy-password''"

definition account :: "string \<Rightarrow> SecretKind \<Rightarrow> string" where
  "account profile_id kind = profile_id @ '':'' @ kind_suffix kind"

definition MANAGED_KEY_CHUNK_UTF16_UNITS :: nat where "MANAGED_KEY_CHUNK_UTF16_UNITS = 1024"
definition MANAGED_KEY_CHUNK_MAX_COUNT :: nat where "MANAGED_KEY_CHUNK_MAX_COUNT = 64"
definition MANAGED_KEY_CHUNK_MANIFEST_PREFIX :: string where
  "MANAGED_KEY_CHUNK_MANIFEST_PREFIX = CHR 0x1F # ''miaominal.managed-key-chunks.v1:''"

record manifest =
  generation :: string
  count :: nat

definition manifest_parse :: "(string \<Rightarrow> bool) \<Rightarrow> string \<Rightarrow> manifest option" where
  "manifest_parse is_uuid value =
     (case strip_prefix MANAGED_KEY_CHUNK_MANIFEST_PREFIX value of
        None \<Rightarrow> None
      | Some payload \<Rightarrow>
          (case rsplit_once (CHR '':'') payload of
             None \<Rightarrow> None
           | Some (g, n) \<Rightarrow>
               if \<not> is_uuid g then None
               else (case parse_usize n of
                       None \<Rightarrow> None
                     | Some k \<Rightarrow>
                         if 1 \<le> k \<and> k \<le> MANAGED_KEY_CHUNK_MAX_COUNT
                         then Some \<lparr>generation = g, count = k\<rparr> else None)))"

definition manifest_encode :: "manifest \<Rightarrow> string" where
  "manifest_encode m =
     MANAGED_KEY_CHUNK_MANIFEST_PREFIX @ generation m @ '':'' @ show_nat (count m)"

definition chunk_account :: "manifest \<Rightarrow> string \<Rightarrow> nat \<Rightarrow> string" where
  "chunk_account m acct index = acct @ '':chunk:'' @ generation m @ '':'' @ show_nat index"

text \<open>The characters of a text, each as its UTF-8 bytes, and the UTF-16 units they take.\<close>

function str_chars :: "string \<Rightarrow> string list" where
  "str_chars [] = []"
| "str_chars (c # cs) =
     (let n = lead_len c - 1 in (c # take n cs) # str_chars (drop n cs))"
  by pat_completeness auto
termination by (relation "measure length") auto

definition len_utf16 :: "string \<Rightarrow> nat" where
  "len_utf16 character = (if length character = 4 then 2 else 1)"

definition utf16_units :: "string \<Rightarrow> nat" where
  "utf16_units s = sum_list (map len_utf16 (str_chars s))"

definition managed_key_fits_single_credential :: "string \<Rightarrow> bool" where
  "managed_key_fits_single_credential value \<longleftrightarrow> utf16_units value \<le> MANAGED_KEY_CHUNK_UTF16_UNITS"

fun split_loop :: "string list \<Rightarrow> string list \<Rightarrow> string \<Rightarrow> nat \<Rightarrow> string list" where
  "split_loop [] chunks chunk units = (if chunk \<noteq> [] then chunks @ [chunk] else chunks)"
| "split_loop (character # rest) chunks chunk units =
     (if MANAGED_KEY_CHUNK_UTF16_UNITS < units + len_utf16 character \<and> chunk \<noteq> []
      then split_loop rest (chunks @ [chunk]) character (len_utf16 character)
      else split_loop rest chunks (chunk @ character) (units + len_utf16 character))"

definition split_managed_key_chunks :: "string \<Rightarrow> string list" where
  "split_managed_key_chunks value = split_loop (str_chars value) [] [] 0"

section \<open>Operations\<close>

definition secret_context :: "string \<Rightarrow> string \<Rightarrow> SecretKind \<Rightarrow> any_error \<Rightarrow> any_error" where
  "secret_context what profile_id kind =
     with_context (what @ '' '' @ profile_id @ '':'' @ kind_suffix kind)"

fun join_chunks :: "nat \<Rightarrow> manifest \<Rightarrow> string option list \<Rightarrow> any_error + string" where
  "join_chunks index m [] = Inr []"
| "join_chunks index m (None # rest) =
     Inl (anyhow (''managed private key chunk '' @ show_nat index @ '' of '' @ show_nat (count m) @ '' is missing''))"
| "join_chunks index m (Some chunk # rest) =
     (case join_chunks (index + 1) m rest of Inl e \<Rightarrow> Inl e | Inr value \<Rightarrow> Inr (chunk @ value))"

definition read_managed_key_chunks :: "string \<Rightarrow> manifest \<Rightarrow> string secret_io" where
  "read_managed_key_chunks acct m =
     attempt (map_err normalize_read_error (cred_get_many (map (chunk_account m acct) [0..<count m])))
       (\<lambda>chunks. lift_sum (join_chunks 0 m chunks))"

definition delete_managed_key_chunks :: "string \<Rightarrow> manifest \<Rightarrow> unit secret_io" where
  "delete_managed_key_chunks acct m = each (\<lambda>index. cred_delete (chunk_account m acct index)) [0..<count m]"

definition cleanup_managed_key_chunks :: "string \<Rightarrow> manifest \<Rightarrow> unit secret_io" where
  \<comment> \<open>the error is only logged\<close>
  "cleanup_managed_key_chunks acct m c = (Inr (), snd (delete_managed_key_chunks acct m c))"

definition secret_get :: "(string \<Rightarrow> bool) \<Rightarrow> string \<Rightarrow> SecretKind \<Rightarrow> string option secret_io" where
  "secret_get is_uuid profile_id kind =
     (let acct = account profile_id kind;
          in_context = secret_context ''failed to read secret for'' profile_id kind
      in attempt (map_err (in_context \<circ> normalize_read_error) (cred_get acct))
        (\<lambda>value.
           if kind \<noteq> ManagedPrivateKey then ok value
           else (case value of
                   None \<Rightarrow> ok None
                 | Some v \<Rightarrow>
                     (case manifest_parse is_uuid v of
                        None \<Rightarrow> ok (Some v)
                      | Some m \<Rightarrow> map_err in_context
                          (attempt (read_managed_key_chunks acct m) (\<lambda>v. ok (Some v)))))))"

record StoredProfileSecrets =
  stored_password :: "string option"
  stored_passphrase :: "string option"

definition get_profile_secrets :: "string \<Rightarrow> StoredProfileSecrets secret_io" where
  "get_profile_secrets profile_id =
     attempt (map_err (with_context (''failed to read saved secrets for '' @ profile_id) \<circ> normalize_read_error)
         (cred_get_many [account profile_id Password, account profile_id Passphrase]))
       (\<lambda>values. ok \<lparr>stored_password = (case values of v # _ \<Rightarrow> v | [] \<Rightarrow> None),
                       stored_passphrase = (case values of _ # v # _ \<Rightarrow> v | _ \<Rightarrow> None)\<rparr>)"

fun write_chunks :: "string \<Rightarrow> string \<Rightarrow> SecretKind \<Rightarrow> manifest \<Rightarrow> nat \<Rightarrow> string list \<Rightarrow> unit secret_io" where
  \<comment> \<open>the loop over the chunks: a failure removes the chunks written so far\<close>
  "write_chunks profile_id acct kind m index [] c = (Inr (), c)"
| "write_chunks profile_id acct kind m index (chunk # rest) c =
     (case cred_set (chunk_account m acct index) chunk c of
        (Inl e, c') \<Rightarrow>
          (Inl (secret_context (''failed to store secret chunk '' @ show_nat index @ '' for'') profile_id kind e),
           snd (cleanup_managed_key_chunks acct (m\<lparr>count := index\<rparr>) c'))
      | (Inr _, c') \<Rightarrow> write_chunks profile_id acct kind m (index + 1) rest c')"

definition previous_manifest :: "(string \<Rightarrow> bool) \<Rightarrow> string \<Rightarrow> SecretKind \<Rightarrow> manifest option secret_io" where
  "previous_manifest is_uuid profile_id kind =
     attempt (map_err (secret_context ''failed to inspect secret for'' profile_id kind)
         (cred_get (account profile_id kind)))
       (\<lambda>value. ok (Option.bind value (manifest_parse is_uuid)))"

definition cleanup_previous :: "string \<Rightarrow> manifest option \<Rightarrow> unit secret_io" where
  "cleanup_previous acct previous =
     (case previous of None \<Rightarrow> ok () | Some m \<Rightarrow> cleanup_managed_key_chunks acct m)"

definition set_manifest :: "string \<Rightarrow> SecretKind \<Rightarrow> manifest \<Rightarrow> unit secret_io" where
  "set_manifest profile_id kind m c =
     (let acct = account profile_id kind in
      case cred_set acct (manifest_encode m) c of
        (Inl e, c') \<Rightarrow>
          (Inl (secret_context ''failed to store secret for'' profile_id kind e),
           snd (cleanup_managed_key_chunks acct m c'))
      | (Inr u, c') \<Rightarrow> (Inr u, c'))"

definition set_single :: "string \<Rightarrow> string \<Rightarrow> manifest option \<Rightarrow> unit secret_io" where
  \<comment> \<open>a key that fits into one credential\<close>
  "set_single profile_id secret previous =
     (let acct = account profile_id ManagedPrivateKey in
      attempt (map_err (secret_context ''failed to store secret for'' profile_id ManagedPrivateKey)
          (cred_set acct secret))
        (\<lambda>_. cleanup_previous acct previous))"

definition set_chunked :: "string \<Rightarrow> string \<Rightarrow> string \<Rightarrow> manifest option \<Rightarrow> unit secret_io" where
  \<comment> \<open>a longer key: its chunks, then its manifest, then the chunks of the previous one\<close>
  "set_chunked gen profile_id secret previous =
     (let acct = account profile_id ManagedPrivateKey;
          chunks = split_managed_key_chunks secret
      in if MANAGED_KEY_CHUNK_MAX_COUNT < length chunks then
           fail (secret_context ''failed to store secret for'' profile_id ManagedPrivateKey
             (anyhow (''managed private key requires '' @ show_nat (length chunks)
                @ '' credential chunks, exceeding the limit of '' @ show_nat MANAGED_KEY_CHUNK_MAX_COUNT)))
         else
           let m = \<lparr>generation = gen, count = length chunks\<rparr> in
           attempt (write_chunks profile_id acct ManagedPrivateKey m 0 chunks) (\<lambda>_.
             attempt (set_manifest profile_id ManagedPrivateKey m) (\<lambda>_. cleanup_previous acct previous)))"

definition secret_set ::
  "(string \<Rightarrow> bool) \<Rightarrow> string \<Rightarrow> string \<Rightarrow> SecretKind \<Rightarrow> string \<Rightarrow> unit secret_io" where
  "secret_set is_uuid gen profile_id kind secret =
     (if kind \<noteq> ManagedPrivateKey then
        map_err (secret_context ''failed to store secret for'' profile_id kind)
          (cred_set (account profile_id kind) secret)
      else attempt (previous_manifest is_uuid profile_id kind) (\<lambda>previous.
        if managed_key_fits_single_credential secret then set_single profile_id secret previous
        else set_chunked gen profile_id secret previous))"

definition secret_delete :: "(string \<Rightarrow> bool) \<Rightarrow> string \<Rightarrow> SecretKind \<Rightarrow> unit secret_io" where
  "secret_delete is_uuid profile_id kind =
     (let acct = account profile_id kind;
          in_context = secret_context ''failed to delete secret for'' profile_id kind
      in attempt (if kind = ManagedPrivateKey then previous_manifest is_uuid profile_id kind else ok None)
        (\<lambda>m. attempt (map_err in_context (cred_delete acct)) (\<lambda>_.
           case m of None \<Rightarrow> ok () | Some m \<Rightarrow> map_err in_context (delete_managed_key_chunks acct m))))"

definition delete_logged :: "(string \<Rightarrow> bool) \<Rightarrow> string \<Rightarrow> SecretKind \<Rightarrow> credentials \<Rightarrow> credentials" where
  \<comment> \<open>\<^verbatim>\<open>delete_managed_key\<close>, \<^verbatim>\<open>delete_ai_provider_api_key\<close>, \<^verbatim>\<open>delete_web_search_api_key\<close>,
    \<^verbatim>\<open>delete_proxy_password\<close>: an error is only logged\<close>
  "delete_logged is_uuid profile_id kind c = snd (secret_delete is_uuid profile_id kind c)"

definition delete_all :: "(string \<Rightarrow> bool) \<Rightarrow> string \<Rightarrow> credentials \<Rightarrow> credentials" where
  "delete_all is_uuid profile_id c =
     delete_logged is_uuid profile_id Passphrase (delete_logged is_uuid profile_id Password c)"

section \<open>Evaluation\<close>

text \<open>An operation is only unfolded on a state, so that evaluation does not enter continuations.\<close>

lemmas secret_store_on_states [code] =
  cred_get_def [THEN fun_cong] cred_get_many_def [THEN fun_cong] cred_set_def [THEN fun_cong]
  cred_delete_def [THEN fun_cong] read_managed_key_chunks_def [THEN fun_cong]
  delete_managed_key_chunks_def [THEN fun_cong] secret_get_def [THEN fun_cong]
  get_profile_secrets_def [THEN fun_cong] previous_manifest_def [THEN fun_cong] cleanup_previous_def
  [THEN fun_cong] set_single_def [THEN fun_cong] set_chunked_def [THEN fun_cong] secret_set_def
  [THEN fun_cong] secret_delete_def [THEN fun_cong]

end
