(* ===== verification/Secret_Properties.thy ===== *)
theory Secret_Properties
  imports Secret_Store
begin

text \<open>
  What the secret store guarantees when the credential store fails at any operation. The secrets are
  what \<^term>\<open>secret_get\<close> reads when no operation fails, \<^verbatim>\<open>observe\<close>. Setting a secret is atomic: it
  takes effect or leaves every secret as it was. A chunk lies in an account of its own, which no
  other secret reads.
\<close>

definition observe :: "(string \<Rightarrow> bool) \<Rightarrow> (string \<rightharpoonup> string) \<Rightarrow> string \<Rightarrow> SecretKind \<Rightarrow> any_error + string option" where
  "observe is_uuid es profile_id kind =
     fst (secret_get is_uuid profile_id kind \<lparr>entries = es, faults = []\<rparr>)"

definition chunk_accounts :: "manifest \<Rightarrow> string \<Rightarrow> string set" where
  "chunk_accounts m acct = range (chunk_account m acct)"

section \<open>Splitting\<close>

lemma concat_str_chars [simp]: "concat (str_chars s) = s"
  by (induction s rule: str_chars.induct) (auto simp: Let_def)

lemma str_chars_nonempty: "ch \<in> set (str_chars s) \<Longrightarrow> ch \<noteq> []"
  by (induction s rule: str_chars.induct) (auto simp: Let_def)

lemma len_utf16_bounds: "1 \<le> len_utf16 ch" "len_utf16 ch \<le> 2"
  by (simp_all add: len_utf16_def)

lemma split_loop_parts:
  assumes "\<forall>ch \<in> set chs. ch \<noteq> []" "\<forall>ch \<in> set part. ch \<noteq> []"
    and "sum_list (map len_utf16 part) = units" "units \<le> 1024"
  shows "\<exists>parts. part @ chs = concat parts \<and> split_loop chs chunks (concat part) units = chunks @ map concat parts \<and>
    (\<forall>p \<in> set parts. p \<noteq> [] \<and> sum_list (map len_utf16 p) \<le> 1024)"
  using assms
proof (induction chs arbitrary: part chunks units)
  case Nil
  then show ?case by (intro exI [of _ "if part = [] then [] else [part]"]) (auto simp: concat_eq_Nil_conv)
next
  case (Cons ch chs)
  have ch: "ch \<noteq> []" "len_utf16 ch \<le> 1024" using Cons.prems(1) by (auto simp: len_utf16_def)
  show ?case
  proof (cases "1024 < units + len_utf16 ch \<and> concat part \<noteq> []")
    case True
    from Cons.IH [of "[ch]" "len_utf16 ch" "chunks @ [concat part]"] Cons.prems ch
    obtain parts where "[ch] @ chs = concat parts"
      "split_loop chs (chunks @ [concat part]) ch (len_utf16 ch) = chunks @ [concat part] @ map concat parts"
      "\<forall>p \<in> set parts. p \<noteq> [] \<and> sum_list (map len_utf16 p) \<le> 1024" by auto
    moreover from this(1) have "part @ ch # chs = concat (part # parts)" by simp
    moreover have "split_loop (ch # chs) chunks (concat part) units = split_loop chs (chunks @ [concat part]) ch (len_utf16 ch)"
      using True by (simp add: MANAGED_KEY_CHUNK_UTF16_UNITS_def)
    moreover have "part \<noteq> []" using True by auto
    ultimately show ?thesis
      using Cons.prems(3,4) by (intro exI [of _ "part # parts"] conjI) simp_all
  next
    case False
    then have "units + len_utf16 ch \<le> 1024" using Cons.prems ch by (cases part) auto
    with Cons.IH [of "part @ [ch]" "units + len_utf16 ch" chunks] Cons.prems ch False show ?thesis
      by (auto simp: MANAGED_KEY_CHUNK_UTF16_UNITS_def)
  qed
qed

lemma split_parts:
  "\<exists>parts. str_chars value = concat parts \<and> split_managed_key_chunks value = map concat parts \<and>
    (\<forall>p \<in> set parts. p \<noteq> [] \<and> sum_list (map len_utf16 p) \<le> 1024)"
  using split_loop_parts [of "str_chars value" "[]" 0 "[]"] str_chars_nonempty [of _ "value"]
  by (auto simp: split_managed_key_chunks_def)

lemma concat_split [simp]: "concat (split_managed_key_chunks value) = value"
proof -
  obtain parts where parts: "str_chars value = concat parts" "split_managed_key_chunks value = map concat parts"
    using split_parts by blast
  have "concat (map concat parts) = concat (concat parts)" by (induction parts) auto
  then show ?thesis using parts concat_str_chars [of "value"] by simp
qed

section \<open>Accounts\<close>

lemma suffix_no_colon: "CHR '':'' \<notin> set (kind_suffix kind)"
  by (cases kind) simp_all

lemma suffix_inject [simp]: "kind_suffix a = kind_suffix b \<longleftrightarrow> a = b"
  by (cases a; cases b) simp_all

lemma last_field_inject:
  assumes "CHR '':'' \<notin> set b" "CHR '':'' \<notin> set b'"
  shows "a @ '':'' @ b = a' @ '':'' @ b' \<longleftrightarrow> a = a' \<and> b = b'"
proof
  assume "a @ '':'' @ b = a' @ '':'' @ b'"
  then have "rsplit_once (CHR '':'') (a @ '':'' @ b) = Some (a', b')"
    using assms by (simp add: rsplit_once_Some)
  moreover have "rsplit_once (CHR '':'') (a @ '':'' @ b) = Some (a, b)"
    using assms by (simp add: rsplit_once_Some)
  ultimately show "a = a' \<and> b = b'" by simp
qed simp

lemma account_inject [simp]: "account i k = account i' k' \<longleftrightarrow> i = i' \<and> k = k'"
  using last_field_inject [OF suffix_no_colon suffix_no_colon, of i k i' k'] by (simp add: account_def)

lemma show_nat_no_colon: "CHR '':'' \<notin> set (show_nat n)"
  using show_nat_digits [of n] by (auto simp: is_ascii_digit_def byte_val_def)

lemma suffix_not_number: "kind_suffix k \<noteq> show_nat n"
proof
  assume "kind_suffix k = show_nat n"
  then have "is_ascii_digit (hd (kind_suffix k))" using show_nat_digits [of n] by (cases "show_nat n") auto
  then show False by (cases k) (simp_all add: is_ascii_digit_def byte_val_def)
qed

lemma account_not_chunk [simp]: "account i k \<noteq> chunk_account m acct index"
proof
  assume "account i k = chunk_account m acct index"
  then have "i @ '':'' @ kind_suffix k = (acct @ '':chunk:'' @ generation m) @ '':'' @ show_nat index"
    by (simp add: account_def chunk_account_def)
  then have "kind_suffix k = show_nat index"
    by (simp only: last_field_inject [OF suffix_no_colon show_nat_no_colon])
  then show False by (simp add: suffix_not_number)
qed

lemma chunk_not_account [simp]: "chunk_account m acct index \<noteq> account i k"
  using account_not_chunk by metis

lemma account_not_in_chunks [simp]: "account i k \<notin> chunk_accounts m acct"
  by (auto simp: chunk_accounts_def)

lemma chunk_account_inject:
  assumes "CHR '':'' \<notin> set (generation m)" "CHR '':'' \<notin> set (generation m')"
    and "chunk_account m a i = chunk_account m' a' i'"
  shows "a = a' \<and> generation m = generation m' \<and> i = i'"
proof -
  have "(a @ '':chunk:'' @ generation m) @ '':'' @ show_nat i = (a' @ '':chunk:'' @ generation m') @ '':'' @ show_nat i'"
    using assms(3) by (simp add: chunk_account_def)
  then have *: "a @ '':chunk:'' @ generation m = a' @ '':chunk:'' @ generation m' \<and> show_nat i = show_nat i'"
    by (simp only: last_field_inject [OF show_nat_no_colon show_nat_no_colon])
  then have "(a @ '':chunk'') @ '':'' @ generation m = (a' @ '':chunk'') @ '':'' @ generation m'" by simp
  then have "a @ '':chunk'' = a' @ '':chunk'' \<and> generation m = generation m'"
    by (simp only: last_field_inject [OF assms(1,2)])
  with * show ?thesis by simp
qed

lemma chunks_disjoint:
  assumes "CHR '':'' \<notin> set (generation m)" "CHR '':'' \<notin> set (generation m')"
    and "a \<noteq> a' \<or> generation m \<noteq> generation m'"
  shows "chunk_account m a i \<notin> chunk_accounts m' a'"
  using chunk_account_inject [OF assms(1,2)] assms(3) by (auto simp: chunk_accounts_def)

section \<open>What is read\<close>

lemma backend_ok: "faults c = [] \<Longrightarrow> backend f c = (Inr (fst (f c)), c\<lparr>entries := snd (f c), faults := []\<rparr>)"
  by (simp add: backend_def split: prod.split)

lemma cred_get_ok [simp]: "cred_get a \<lparr>entries = es, faults = []\<rparr> = (Inr (es a), \<lparr>entries = es, faults = []\<rparr>)"
  by (simp add: cred_get_def backend_ok)

lemma cred_get_many_ok [simp]:
  "cred_get_many as \<lparr>entries = es, faults = []\<rparr> = (Inr (map es as), \<lparr>entries = es, faults = []\<rparr>)"
  by (induction as) (simp_all add: cred_get_many_def attempt_Inr)

lemma observe_eq:
  "observe is_uuid es i k =
     (let acct = account i k in
      case es acct of None \<Rightarrow> Inr None
      | Some v \<Rightarrow>
          (case if k = ManagedPrivateKey then manifest_parse is_uuid v else None of
             None \<Rightarrow> Inr (Some v)
           | Some m \<Rightarrow>
               (case join_chunks 0 m (map (\<lambda>n. es (chunk_account m acct n)) [0..<count m]) of
                  Inl e \<Rightarrow> Inl (secret_context ''failed to read secret for'' i k e)
                | Inr v \<Rightarrow> Inr (Some v))))"
  by (auto simp: observe_def secret_get_def read_managed_key_chunks_def attempt_def map_err_def comp_def Let_def
      split: option.split sum.split)

lemma observe_cong:
  assumes "es' (account i k) = es (account i k)"
    and "\<And>v m n. k = ManagedPrivateKey \<Longrightarrow> es (account i k) = Some v \<Longrightarrow> manifest_parse is_uuid v = Some m \<Longrightarrow>
      es' (chunk_account m (account i k) n) = es (chunk_account m (account i k) n)"
  shows "observe is_uuid es' i k = observe is_uuid es i k"
  using assms by (cases "es (account i k)"; cases "k = ManagedPrivateKey")
    (auto simp: observe_eq Let_def split: option.split)

lemma join_chunks_Some: "join_chunks n m (map Some vs) = Inr (concat vs)"
  by (induction vs arbitrary: n) simp_all

lemma manifest_parse_encode:
  assumes "is_uuid (generation m)" "1 \<le> count m" "count m \<le> MANAGED_KEY_CHUNK_MAX_COUNT"
  shows "manifest_parse is_uuid (manifest_encode m) = Some m"
proof -
  have "rsplit_once (CHR '':'') (generation m @ '':'' @ show_nat (count m)) = Some (generation m, show_nat (count m))"
    using show_nat_no_colon by (simp add: rsplit_once_Some)
  moreover have "parse_usize (show_nat (count m)) = Some (count m)"
    using assms(3) by (intro parse_usize_show) (simp add: MANAGED_KEY_CHUNK_MAX_COUNT_def usize_max_def)
  ultimately show ?thesis using assms by (simp add: manifest_parse_def manifest_encode_def)
qed

section \<open>What changes\<close>

definition only_in :: "string set \<Rightarrow> (string \<rightharpoonup> string) \<Rightarrow> credentials \<Rightarrow> bool" where
  "only_in A es c \<longleftrightarrow> (\<forall>a. a \<notin> A \<longrightarrow> entries c a = es a)"

lemma cred_get_triple: "triple (\<lambda>c. entries c = es) (cred_get a) (\<lambda>v c. entries c = es \<and> v = es a) (\<lambda>_ c. entries c = es)"
  by (rule tripleI) (auto simp: cred_get_def backend_def split: list.splits option.splits)

lemma cred_set_triple:
  "triple (\<lambda>c. entries c = es) (cred_set a v) (\<lambda>_ c. entries c = es(a \<mapsto> v)) (\<lambda>_ c. entries c = es)"
  by (rule tripleI) (auto simp: cred_set_def backend_def split: list.splits option.splits)

lemma cred_delete_triple:
  "triple (\<lambda>c. entries c = es) (cred_delete a) (\<lambda>_ c. entries c = es(a := None)) (\<lambda>_ c. entries c = es)"
  by (rule tripleI) (auto simp: cred_delete_def backend_def split: list.splits option.splits)

lemma only_in_delete: "a \<in> A \<Longrightarrow> triple (only_in A es) (cred_delete a) (\<lambda>_. only_in A es) (\<lambda>_. only_in A es)"
  by (rule tripleI) (auto simp: only_in_def cred_delete_def backend_def split: list.splits option.splits)

lemma delete_chunks_only:
  "triple (only_in (chunk_accounts m acct) es) (delete_managed_key_chunks acct m)
     (\<lambda>_. only_in (chunk_accounts m acct) es) (\<lambda>_. only_in (chunk_accounts m acct) es)"
  unfolding delete_managed_key_chunks_def
  by (intro triple_each only_in_delete) (simp add: chunk_accounts_def)

lemma cleanup_only:
  assumes "only_in (chunk_accounts m acct) es c"
  shows "only_in (chunk_accounts m acct) es (snd (cleanup_managed_key_chunks acct m c))"
proof -
  obtain r c' where run: "delete_managed_key_chunks acct m c = (r, c')" by fastforce
  then have "only_in (chunk_accounts m acct) es c'"
    using triple_ok [OF delete_chunks_only assms, of _ c'] triple_err [OF delete_chunks_only assms, of _ c']
    by (cases r) auto
  with run show ?thesis by (simp add: cleanup_managed_key_chunks_def)
qed

lemma chunk_accounts_count [simp]: "chunk_accounts (m\<lparr>count := n\<rparr>) acct = chunk_accounts m acct"
  by (simp add: chunk_accounts_def chunk_account_def)

lemma write_chunks_effect:
  assumes "only_in (chunk_accounts m acct) es c" and "write_chunks i acct kind m index chunks c = (r, c')"
  shows "only_in (chunk_accounts m acct) es c'"
  using assms
proof (induction chunks arbitrary: index c)
  case (Cons chunk rest)
  obtain r1 c1 where set: "cred_set (chunk_account m acct index) chunk c = (r1, c1)" by fastforce
  have "entries c1 = (entries c)(chunk_account m acct index \<mapsto> chunk) \<or> entries c1 = entries c"
    using triple_ok [OF cred_set_triple refl] triple_err [OF cred_set_triple refl] set by (cases r1) blast+
  then have c1: "only_in (chunk_accounts m acct) es c1"
    using Cons.prems(1) by (auto simp: only_in_def chunk_accounts_def)
  show ?case
  proof (cases r1)
    case (Inl e)
    then show ?thesis using Cons.prems(2) set cleanup_only [of "m\<lparr>count := index\<rparr>" acct es c1] c1 by simp
  next
    case (Inr u)
    then show ?thesis using Cons.prems(2) set Cons.IH [OF c1] by simp
  qed
qed simp

lemma write_chunks_values:
  assumes "write_chunks i acct kind m index chunks c = (Inr (), c')" and "CHR '':'' \<notin> set (generation m)"
  shows "(\<forall>n < length chunks. entries c' (chunk_account m acct (index + n)) = Some (chunks ! n)) \<and>
    (\<forall>n < index. entries c' (chunk_account m acct n) = entries c (chunk_account m acct n))"
  using assms(1)
proof (induction chunks arbitrary: index c)
  case (Cons chunk rest)
  obtain c1 where set: "cred_set (chunk_account m acct index) chunk c = (Inr (), c1)"
    and rest: "write_chunks i acct kind m (index + 1) rest c1 = (Inr (), c')"
    using Cons.prems by (auto split: prod.splits sum.splits)
  have c1: "entries c1 = (entries c)(chunk_account m acct index \<mapsto> chunk)"
    using triple_ok [OF cred_set_triple refl set] .
  have differ: "chunk_account m acct n \<noteq> chunk_account m acct index" if "n \<noteq> index" for n
    using chunk_account_inject [OF assms(2,2)] that by blast
  from Cons.IH [OF rest] have later: "\<forall>n < length rest. entries c' (chunk_account m acct (Suc index + n)) = Some (rest ! n)"
    and below: "\<forall>n < Suc index. entries c' (chunk_account m acct n) = entries c1 (chunk_account m acct n)" by simp_all
  show ?case
  proof (intro conjI allI impI)
    fix n assume "n < length (chunk # rest)"
    then show "entries c' (chunk_account m acct (index + n)) = Some ((chunk # rest) ! n)"
      using later below c1 by (cases n) auto
  next
    fix n assume "n < index"
    then show "entries c' (chunk_account m acct n) = entries c (chunk_account m acct n)"
      using below c1 differ by simp
  qed
qed simp

definition generations_plain :: "(string \<Rightarrow> bool) \<Rightarrow> (string \<rightharpoonup> string) \<Rightarrow> bool" where
  \<comment> \<open>the manifests in use have generations as \<^verbatim>\<open>Uuid\<close> prints them, without a colon\<close>
  "generations_plain is_uuid es \<longleftrightarrow>
     (\<forall>i v m. es (account i ManagedPrivateKey) = Some v \<and> manifest_parse is_uuid v = Some m \<longrightarrow>
       CHR '':'' \<notin> set (generation m))"

definition fresh_generation :: "(string \<Rightarrow> bool) \<Rightarrow> (string \<rightharpoonup> string) \<Rightarrow> string \<Rightarrow> bool" where
  "fresh_generation is_uuid es gen \<longleftrightarrow> is_uuid gen \<and> CHR '':'' \<notin> set gen \<and>
     (\<forall>i v m. es (account i ManagedPrivateKey) = Some v \<and> manifest_parse is_uuid v = Some m \<longrightarrow> generation m \<noteq> gen)"

text \<open>Changes in the chunks of a manifest are seen only through the account that holds it.\<close>

lemma observe_only_in:
  assumes "\<And>a. a \<notin> chunk_accounts m (account i ManagedPrivateKey) \<Longrightarrow> es' a = es a"
    and plain: "generations_plain is_uuid es" "CHR '':'' \<notin> set (generation m)"
    and unused: "\<And>v m'. es (account i ManagedPrivateKey) = Some v \<Longrightarrow> manifest_parse is_uuid v = Some m' \<Longrightarrow>
      generation m' \<noteq> generation m"
  shows "observe is_uuid es' i' k' = observe is_uuid es i' k'"
proof (rule observe_cong)
  show "es' (account i' k') = es (account i' k')" using assms(1) by simp
  fix v m' n
  assume k: "k' = ManagedPrivateKey" and v: "es (account i' k') = Some v" "manifest_parse is_uuid v = Some m'"
  then have "CHR '':'' \<notin> set (generation m')" using plain(1) by (auto simp: generations_plain_def)
  then have "chunk_account m' (account i' k') n \<notin> chunk_accounts m (account i ManagedPrivateKey)"
    using k v unused by (intro chunks_disjoint plain(2)) auto
  then show "es' (chunk_account m' (account i' k') n) = es (chunk_account m' (account i' k') n)" using assms(1) by simp
qed

lemma observe_other:
  assumes "\<And>a. a \<notin> chunk_accounts m (account i k) \<Longrightarrow> a \<noteq> account i k \<Longrightarrow> es' a = es a"
    and plain: "k = ManagedPrivateKey \<Longrightarrow> generations_plain is_uuid es" "CHR '':'' \<notin> set (generation m)"
    and other: "(i', k') \<noteq> (i, k)" and k: "k \<noteq> ManagedPrivateKey \<Longrightarrow> \<forall>a. a \<noteq> account i k \<longrightarrow> es' a = es a"
  shows "observe is_uuid es' i' k' = observe is_uuid es i' k'"
proof (rule observe_cong)
  show "es' (account i' k') = es (account i' k')" using assms(1) [of "account i' k'"] other by auto
  fix v m' n
  assume k': "k' = ManagedPrivateKey" and v: "es (account i' k') = Some v" "manifest_parse is_uuid v = Some m'"
  show "es' (chunk_account m' (account i' k') n) = es (chunk_account m' (account i' k') n)"
  proof (cases "k = ManagedPrivateKey")
    case True
    then have "CHR '':'' \<notin> set (generation m')" using plain(1) k' v by (auto simp: generations_plain_def)
    then have "chunk_account m' (account i' k') n \<notin> chunk_accounts m (account i k)"
      using other True k' by (intro chunks_disjoint plain(2)) auto
    then show ?thesis using assms(1) account_not_chunk by metis
  next
    case False
    then show ?thesis using k account_not_chunk by metis
  qed
qed

section \<open>Setting and deleting\<close>

lemma previous_manifest_triple:
  "triple (\<lambda>c. entries c = es) (previous_manifest is_uuid i k)
     (\<lambda>p c. entries c = es \<and> p = Option.bind (es (account i k)) (manifest_parse is_uuid)) (\<lambda>_ c. entries c = es)"
  unfolding previous_manifest_def
  by (rule triple_attempt, rule triple_map_err, rule cred_get_triple) (rule triple_weaken, rule triple_basic, auto)

lemma cleanup_previous_effect:
  assumes "cleanup_previous acct prev c = (r, c')"
  shows "r = Inr () \<and> (\<forall>a. a \<notin> (case prev of None \<Rightarrow> {} | Some m \<Rightarrow> chunk_accounts m acct) \<longrightarrow> entries c' a = entries c a)"
proof (cases prev)
  case None
  then show ?thesis using assms by (simp add: cleanup_previous_def)
next
  case (Some m)
  have "only_in (chunk_accounts m acct) (entries c) (snd (cleanup_managed_key_chunks acct m c))"
    by (rule cleanup_only) (simp add: only_in_def)
  then show ?thesis using assms Some
    by (auto simp: cleanup_previous_def cleanup_managed_key_chunks_def only_in_def)
qed

lemma set_manifest_effect:
  assumes "set_manifest i k m c = (r, c')"
  shows "(r = Inr () \<and> entries c' = (entries c)(account i k \<mapsto> manifest_encode m)) \<or>
    ((\<exists>e. r = Inl e) \<and> only_in (chunk_accounts m (account i k)) (entries c) c')"
proof -
  obtain r1 c1 where set: "cred_set (account i k) (manifest_encode m) c = (r1, c1)" by fastforce
  show ?thesis
  proof (cases r1)
    case (Inl e)
    then have "entries c1 = entries c" using triple_err [OF cred_set_triple refl] set by blast
    then have "only_in (chunk_accounts m (account i k)) (entries c) (snd (cleanup_managed_key_chunks (account i k) m c1))"
      by (intro cleanup_only) (simp add: only_in_def)
    then show ?thesis using assms set Inl by (auto simp: set_manifest_def Let_def)
  next
    case (Inr u)
    then have "entries c1 = (entries c)(account i k \<mapsto> manifest_encode m)"
      using triple_ok [OF cred_set_triple refl] set by blast
    then show ?thesis using assms set Inr by (auto simp: set_manifest_def Let_def)
  qed
qed

definition takes_effect ::
  "(string \<Rightarrow> bool) \<Rightarrow> (string \<rightharpoonup> string) \<Rightarrow> (string \<rightharpoonup> string) \<Rightarrow> string \<Rightarrow> SecretKind \<Rightarrow> string option \<Rightarrow> bool" where
  "takes_effect is_uuid es es' i k v \<longleftrightarrow>
     observe is_uuid es' i k = Inr v \<and>
     (\<forall>i' k'. (i', k') \<noteq> (i, k) \<longrightarrow> observe is_uuid es' i' k' = observe is_uuid es i' k')"

definition changes_nothing :: "(string \<Rightarrow> bool) \<Rightarrow> (string \<rightharpoonup> string) \<Rightarrow> (string \<rightharpoonup> string) \<Rightarrow> bool" where
  "changes_nothing is_uuid es es' \<longleftrightarrow> (\<forall>i k. observe is_uuid es' i k = observe is_uuid es i k)"

lemma plain_previous:
  assumes "generations_plain is_uuid es" "Option.bind (es (account i ManagedPrivateKey)) (manifest_parse is_uuid) = Some m"
  shows "CHR '':'' \<notin> set (generation m)"
  using assms by (auto simp: generations_plain_def bind_eq_Some_conv)

text \<open>The entry of a key is replaced; the chunks of its previous manifest may be removed or not.\<close>

lemma other_secrets:
  assumes "generations_plain is_uuid es"
    and "\<And>a. a \<noteq> account i ManagedPrivateKey \<Longrightarrow>
      a \<notin> (case Option.bind (es (account i ManagedPrivateKey)) (manifest_parse is_uuid) of
          None \<Rightarrow> {} | Some m \<Rightarrow> chunk_accounts m (account i ManagedPrivateKey)) \<Longrightarrow> es' a = es a"
    and "(i', k') \<noteq> (i, ManagedPrivateKey)"
  shows "observe is_uuid es' i' k' = observe is_uuid es i' k'"
proof (cases "Option.bind (es (account i ManagedPrivateKey)) (manifest_parse is_uuid)")
  case None
  with assms show ?thesis
    by (intro observe_other [where m = "\<lparr>generation = [], count = 0\<rparr>"]) auto
next
  case (Some m)
  with assms plain_previous [OF assms(1) Some] show ?thesis by (intro observe_other [where m = m]) auto
qed

lemma put_takes_effect:
  assumes "k \<noteq> ManagedPrivateKey"
  shows "takes_effect is_uuid es (es(account i k := v)) i k v"
  unfolding takes_effect_def
proof (intro conjI allI impI)
  show "observe is_uuid (es(account i k := v)) i k = Inr v"
    using assms by (cases v) (simp_all add: observe_eq Let_def)
  fix i' k' assume "(i', k') \<noteq> (i, k)"
  then show "observe is_uuid (es(account i k := v)) i' k' = observe is_uuid es i' k'"
    by (intro observe_cong) auto
qed

lemma replace_takes_effect:
  assumes "generations_plain is_uuid es" and "es' (account i ManagedPrivateKey) = v"
    and "\<And>a. a \<noteq> account i ManagedPrivateKey \<Longrightarrow>
      a \<notin> (case Option.bind (es (account i ManagedPrivateKey)) (manifest_parse is_uuid) of
          None \<Rightarrow> {} | Some m \<Rightarrow> chunk_accounts m (account i ManagedPrivateKey)) \<Longrightarrow> es' a = es a"
    and "\<And>w. v = Some w \<Longrightarrow> manifest_parse is_uuid w = None"
  shows "takes_effect is_uuid es es' i ManagedPrivateKey v"
  unfolding takes_effect_def
  using other_secrets [OF assms(1,3)] assms(2,4)
  by (auto simp: observe_eq Let_def split: option.splits)

lemma set_big_key:
  assumes plain: "generations_plain is_uuid (entries c)" and fresh: "fresh_generation is_uuid (entries c) gen"
    and chunks: "chunks = split_managed_key_chunks v" "chunks \<noteq> []" "length chunks \<le> MANAGED_KEY_CHUNK_MAX_COUNT"
    and m: "m = \<lparr>generation = gen, count = length chunks\<rparr>"
    and written: "write_chunks i (account i ManagedPrivateKey) ManagedPrivateKey m 0 chunks c = (Inr (), c1)"
    and manifest: "entries c2 = (entries c1)(account i ManagedPrivateKey \<mapsto> manifest_encode m)"
    and cleanup: "cleanup_previous (account i ManagedPrivateKey)
      (Option.bind (entries c (account i ManagedPrivateKey)) (manifest_parse is_uuid)) c2 = (r, c')"
  shows "takes_effect is_uuid (entries c) (entries c') i ManagedPrivateKey (Some v)"
proof -
  let ?acct = "account i ManagedPrivateKey"
  let ?prev = "Option.bind (entries c ?acct) (manifest_parse is_uuid)"
  have gen: "CHR '':'' \<notin> set (generation m)" "is_uuid gen" using fresh m by (auto simp: fresh_generation_def)
  have old: "generation m' \<noteq> generation m" if "entries c (account j ManagedPrivateKey) = Some w" "manifest_parse is_uuid w = Some m'" for j w m'
    using fresh m that by (fastforce simp: fresh_generation_def)
  have c1: "only_in (chunk_accounts m ?acct) (entries c) c1"
    by (rule write_chunks_effect [OF _ written]) (simp add: only_in_def)
  have vals: "entries c1 (chunk_account m ?acct n) = Some (chunks ! n)" if "n < length chunks" for n
    using write_chunks_values [OF written gen(1)] that by simp
  have after: "entries c' a = entries c2 a" if "a \<notin> (case ?prev of None \<Rightarrow> {} | Some p \<Rightarrow> chunk_accounts p ?acct)" for a
    using cleanup_previous_effect [OF cleanup] that by blast
  have kept: "chunk_account m ?acct n \<notin> (case ?prev of None \<Rightarrow> {} | Some p \<Rightarrow> chunk_accounts p ?acct)" for n
    using chunks_disjoint [OF gen(1) plain_previous [OF plain]] old
    by (auto split: option.split simp: bind_eq_Some_conv) (metis old)
  have same: "entries c1 (account j k) = entries c (account j k)" for j k
    using c1 by (simp add: only_in_def)
  have own: "observe is_uuid (entries c') i ManagedPrivateKey = Inr (Some v)"
  proof -
    have "entries c' ?acct = Some (manifest_encode m)"
      using after [of ?acct] manifest by (auto split: option.split)
    moreover have "manifest_parse is_uuid (manifest_encode m) = Some m"
      using m gen chunks(2,3) by (intro manifest_parse_encode) (auto simp: Suc_le_eq)
    moreover have "map (\<lambda>n. entries c' (chunk_account m ?acct n)) [0..<length chunks] = map Some chunks"
      using after [OF kept] manifest vals by (intro nth_equalityI) simp_all
    ultimately show ?thesis using m chunks(1) by (simp add: observe_eq Let_def join_chunks_Some)
  qed
  have others: "observe is_uuid (entries c') i' k' = observe is_uuid (entries c) i' k'" if "(i', k') \<noteq> (i, ManagedPrivateKey)" for i' k'
  proof -
    have "observe is_uuid (entries c') i' k' = observe is_uuid (entries c1) i' k'"
      using plain after manifest same that
      by (intro other_secrets [of is_uuid "entries c1" i]) (simp_all add: generations_plain_def)
    also have "\<dots> = observe is_uuid (entries c) i' k'"
      using c1 plain gen old by (intro observe_only_in [of m i]) (auto simp: only_in_def)
    finally show ?thesis .
  qed
  show ?thesis using own others by (simp add: takes_effect_def)
qed

lemma plain_after:
  assumes "generations_plain is_uuid es"
    and "\<And>j. es' (account j ManagedPrivateKey) = es (account j ManagedPrivateKey) \<or>
      (\<exists>w. es' (account j ManagedPrivateKey) = Some w \<and> (\<forall>m. manifest_parse is_uuid w = Some m \<longrightarrow> CHR '':'' \<notin> set (generation m)))"
  shows "generations_plain is_uuid es'"
  using assms unfolding generations_plain_def by (metis option.inject)

lemma outside_chunks [simp]: "account i k \<notin> (case prev of None \<Rightarrow> {} | Some p \<Rightarrow> chunk_accounts p acct)"
  by (cases prev) simp_all

lemma chunks_change_nothing:
  assumes "generations_plain is_uuid es" "fresh_generation is_uuid es (generation m)"
    and "only_in (chunk_accounts m (account i ManagedPrivateKey)) es c"
  shows "changes_nothing is_uuid es (entries c) \<and> generations_plain is_uuid (entries c)"
proof
  show "changes_nothing is_uuid es (entries c)"
    unfolding changes_nothing_def using assms
    by (intro allI observe_only_in [of m i]) (auto simp: only_in_def fresh_generation_def)
  show "generations_plain is_uuid (entries c)"
    using assms(3) by (intro plain_after [OF assms(1)]) (simp add: only_in_def)
qed

lemma changes_nothing_same [simp]: "changes_nothing is_uuid es es"
  by (simp add: changes_nothing_def)

lemma encode_prefixed:
  "manifest_parse is_uuid (manifest_encode m) = Some m' \<Longrightarrow> CHR '':'' \<notin> set (generation m) \<Longrightarrow> CHR '':'' \<notin> set (generation m')"
proof -
  assume parse: "manifest_parse is_uuid (manifest_encode m) = Some m'" and plain: "CHR '':'' \<notin> set (generation m)"
  have "rsplit_once (CHR '':'') (generation m @ '':'' @ show_nat (count m)) = Some (generation m, show_nat (count m))"
    using show_nat_no_colon by (simp add: rsplit_once_Some)
  with parse plain show ?thesis
    by (auto simp: manifest_parse_def manifest_encode_def split: if_splits option.splits)
qed

definition atomic_set ::
  "(string \<Rightarrow> bool) \<Rightarrow> (string \<rightharpoonup> string) \<Rightarrow> string \<Rightarrow> SecretKind \<Rightarrow> string \<Rightarrow> any_error + unit \<Rightarrow> credentials \<Rightarrow> bool" where
  "atomic_set is_uuid es i k v r c \<longleftrightarrow>
     (if r = Inr () then takes_effect is_uuid es (entries c) i k (Some v) else changes_nothing is_uuid es (entries c)) \<and>
     generations_plain is_uuid (entries c)"

lemma atomic_unchanged:
  "generations_plain is_uuid es \<Longrightarrow> entries c = es \<Longrightarrow> atomic_set is_uuid es i k v (Inl e) c"
  by (simp add: atomic_set_def)

lemma atomic_plain_kind:
  assumes "generations_plain is_uuid es" "k \<noteq> ManagedPrivateKey"
  shows "triple (\<lambda>c. entries c = es) (map_err f (cred_set (account i k) v))
    (\<lambda>u. atomic_set is_uuid es i k v (Inr u)) (\<lambda>e. atomic_set is_uuid es i k v (Inl e))"
proof (rule triple_map_err, rule triple_weaken [OF cred_set_triple])
  fix u and c :: credentials assume "entries c = es(account i k \<mapsto> v)"
  with put_takes_effect [OF assms(2), of is_uuid es i "Some v"] assms(2) show "atomic_set is_uuid es i k v (Inr u) c"
    by (auto simp: atomic_set_def intro!: plain_after [OF assms(1)])
qed (use assms(1) in \<open>auto intro: atomic_unchanged\<close>)

lemma atomic_single:
  assumes plain: "generations_plain is_uuid es" and no_manifest: "manifest_parse is_uuid v = None"
    and prev: "prev = Option.bind (es (account i ManagedPrivateKey)) (manifest_parse is_uuid)"
  shows "triple (\<lambda>c. entries c = es) (set_single i v prev)
    (\<lambda>u. atomic_set is_uuid es i ManagedPrivateKey v (Inr u)) (\<lambda>e. atomic_set is_uuid es i ManagedPrivateKey v (Inl e))"
  unfolding set_single_def Let_def
proof (rule triple_attempt)
  show "triple (\<lambda>c. entries c = es) (map_err f (cred_set (account i ManagedPrivateKey) v))
    (\<lambda>_ c. entries c = es(account i ManagedPrivateKey \<mapsto> v)) (\<lambda>e. atomic_set is_uuid es i ManagedPrivateKey v (Inl e))" for f
    using plain by (intro triple_map_err triple_weaken [OF cred_set_triple]) (auto intro: atomic_unchanged)
  show "triple (\<lambda>c. entries c = es(account i ManagedPrivateKey \<mapsto> v)) (cleanup_previous (account i ManagedPrivateKey) prev)
    (\<lambda>u. atomic_set is_uuid es i ManagedPrivateKey v (Inr u)) (\<lambda>e. atomic_set is_uuid es i ManagedPrivateKey v (Inl e))" for u :: unit
  proof (rule tripleI)
    fix c u' c' assume c: "entries c = es(account i ManagedPrivateKey \<mapsto> v)"
      and "cleanup_previous (account i ManagedPrivateKey) prev c = (Inr u', c')"
    note effect = cleanup_previous_effect [OF this(2)]
    have "takes_effect is_uuid es (entries c') i ManagedPrivateKey (Some v)"
      using effect c no_manifest prev by (intro replace_takes_effect plain) auto
    then show "atomic_set is_uuid es i ManagedPrivateKey v (Inr u') c'"
      using effect c no_manifest by (auto simp: atomic_set_def intro!: plain_after [OF plain])
  qed (use cleanup_previous_effect in blast)
qed

lemma chunks_nonempty:
  assumes "\<not> managed_key_fits_single_credential v"
  shows "split_managed_key_chunks v \<noteq> []"
proof
  assume "split_managed_key_chunks v = []"
  then have "v = []" using concat_split [of v] by simp
  with assms show False by (simp add: managed_key_fits_single_credential_def utf16_units_def)
qed

lemma atomic_chunked:
  assumes plain: "generations_plain is_uuid (entries c)" and fresh: "fresh_generation is_uuid (entries c) gen"
    and big: "\<not> managed_key_fits_single_credential v"
    and run: "set_chunked gen i v (Option.bind (entries c (account i ManagedPrivateKey)) (manifest_parse is_uuid)) c = (r, c')"
  shows "atomic_set is_uuid (entries c) i ManagedPrivateKey v r c'"
proof (cases "MANAGED_KEY_CHUNK_MAX_COUNT < length (split_managed_key_chunks v)")
  case True
  then show ?thesis using run plain by (auto simp: set_chunked_def Let_def intro!: atomic_unchanged)
next
  case False
  let ?chunks = "split_managed_key_chunks v" and ?acct = "account i ManagedPrivateKey"
  let ?m = "\<lparr>generation = gen, count = length ?chunks\<rparr>"
  have m: "CHR '':'' \<notin> set (generation ?m)" "fresh_generation is_uuid (entries c) (generation ?m)"
    using fresh by (auto simp: fresh_generation_def)
  have partial: "atomic_set is_uuid (entries c) i ManagedPrivateKey v (Inl e) d" if "only_in (chunk_accounts ?m ?acct) (entries c) d" for e d
    using chunks_change_nothing [OF plain m(2) that] by (simp add: atomic_set_def)
  obtain r1 c1 where written: "write_chunks i ?acct ManagedPrivateKey ?m 0 ?chunks c = (r1, c1)" by fastforce
  have c1: "only_in (chunk_accounts ?m ?acct) (entries c) c1"
    by (rule write_chunks_effect [OF _ written]) (simp add: only_in_def)
  obtain r2 c2 where manifest: "set_manifest i ManagedPrivateKey ?m c1 = (r2, c2)" by fastforce
  consider e where "r1 = Inl e" | e where "r1 = Inr ()" "r2 = Inl e" | "r1 = Inr ()" "r2 = Inr ()" by (cases r1; cases r2) auto
  then show ?thesis
  proof cases
    case 1
    then show ?thesis using run written False partial [OF c1] by (auto simp: set_chunked_def Let_def attempt_def)
  next
    case 2
    then have "only_in (chunk_accounts ?m ?acct) (entries c) c2"
      using set_manifest_effect [OF manifest] c1 by (auto simp: only_in_def)
    from partial [OF this] 2 show ?thesis using run written manifest False by (auto simp: set_chunked_def Let_def attempt_def)
  next
    case 3
    then have c2: "entries c2 = (entries c1)(?acct \<mapsto> manifest_encode ?m)" using set_manifest_effect [OF manifest] by auto
    have clean: "cleanup_previous ?acct (Option.bind (entries c ?acct) (manifest_parse is_uuid)) c2 = (r, c')"
      using run written manifest False 3 by (auto simp: set_chunked_def Let_def attempt_def)
    note effect = cleanup_previous_effect [OF clean]
    have "takes_effect is_uuid (entries c) (entries c') i ManagedPrivateKey (Some v)"
      using set_big_key [OF plain fresh refl chunks_nonempty [OF big] _ refl _ c2 clean] written False 3 by simp
    moreover have "generations_plain is_uuid (entries c')"
      using effect c1 c2 encode_prefixed [OF _ m(1)] by (intro plain_after [OF plain]) (auto simp: only_in_def)
    ultimately show ?thesis using effect by (simp add: atomic_set_def)
  qed
qed

lemma secret_set_atomic:
  assumes plain: "generations_plain is_uuid (entries c)" and fresh: "fresh_generation is_uuid (entries c) gen"
    and no_manifest: "manifest_parse is_uuid v = None"
    and run: "secret_set is_uuid gen i k v c = (r, c')"
  shows "atomic_set is_uuid (entries c) i k v r c'"
proof (cases "k = ManagedPrivateKey")
  case False
  then show ?thesis
    using run triple_ok [OF atomic_plain_kind [OF plain False] refl] triple_err [OF atomic_plain_kind [OF plain False] refl]
    by (cases r) (auto simp: secret_set_def)
next
  case True
  obtain rp cp where prev: "previous_manifest is_uuid i k c = (rp, cp)" by fastforce
  show ?thesis
  proof (cases rp)
    case (Inl e)
    then have "entries cp = entries c" using triple_err [OF previous_manifest_triple refl] prev by blast
    then show ?thesis using run prev Inl True by (auto simp: secret_set_def attempt_def intro!: atomic_unchanged plain)
  next
    case (Inr p)
    then have cp: "entries cp = entries c" "p = Option.bind (entries c (account i k)) (manifest_parse is_uuid)"
      using triple_ok [OF previous_manifest_triple refl] prev by blast+
    show ?thesis
    proof (cases "managed_key_fits_single_credential v")
      case fits: True
      note single = atomic_single [OF plain no_manifest, of _ i, OF cp(2) [unfolded True]]
      from run prev Inr True fits have "set_single i v p cp = (r, c')" by (simp add: secret_set_def attempt_def)
      then show ?thesis using triple_ok [OF single cp(1)] triple_err [OF single cp(1)] True by (cases r) auto
    next
      case big: False
      from run prev Inr True big have "set_chunked gen i v p cp = (r, c')" by (simp add: secret_set_def attempt_def)
      with atomic_chunked [of is_uuid cp gen v i r c'] plain fresh big cp True show ?thesis by simp
    qed
  qed
qed

lemma clear_other:
  assumes "generations_plain is_uuid es"
    and "\<And>a. a \<noteq> account i ManagedPrivateKey \<Longrightarrow>
      a \<notin> (case Option.bind (es (account i ManagedPrivateKey)) (manifest_parse is_uuid) of
          None \<Rightarrow> {} | Some m \<Rightarrow> chunk_accounts m (account i ManagedPrivateKey)) \<Longrightarrow> entries c a = es a"
    and "entries c (account i ManagedPrivateKey) = None"
  shows "takes_effect is_uuid es (entries c) i ManagedPrivateKey None \<and> generations_plain is_uuid (entries c)"
proof
  show "takes_effect is_uuid es (entries c) i ManagedPrivateKey None"
    using assms by (intro replace_takes_effect) auto
  show "generations_plain is_uuid (entries c)"
    unfolding generations_plain_def
  proof (intro allI impI, elim conjE)
    fix j v m assume v: "entries c (account j ManagedPrivateKey) = Some v" "manifest_parse is_uuid v = Some m"
    then have "j \<noteq> i" using assms(3) by auto
    then have "es (account j ManagedPrivateKey) = Some v"
      using assms(2) [of "account j ManagedPrivateKey"] v(1) by simp
    then show "CHR '':'' \<notin> set (generation m)" using assms(1) v(2) by (auto simp: generations_plain_def)
  qed
qed

lemma delete_rest_effect:
  assumes plain: "generations_plain is_uuid (entries c)" and c1: "entries c1 = (entries c)(account i k := None)"
    and p: "p = (if k = ManagedPrivateKey then Option.bind (entries c (account i k)) (manifest_parse is_uuid) else None)"
    and rest: "(case p of None \<Rightarrow> ok () | Some m \<Rightarrow> map_err f (delete_managed_key_chunks (account i k) m)) c1 = (r, c')"
  shows "takes_effect is_uuid (entries c) (entries c') i k None \<and> generations_plain is_uuid (entries c')"
proof (cases p)
  case None
  then have c': "entries c' = (entries c)(account i k := None)" using rest c1 by auto
  show ?thesis
  proof (cases "k = ManagedPrivateKey")
    case True
    then show ?thesis using clear_other [OF plain, of i c'] c' by auto
  next
    case False
    then show ?thesis using put_takes_effect [OF False, of is_uuid "entries c" i None] c'
      by (auto intro!: plain_after [OF plain])
  qed
next
  case (Some m)
  then have k: "k = ManagedPrivateKey" using p by (auto split: if_splits)
  obtain r2 where "delete_managed_key_chunks (account i k) m c1 = (r2, c')"
    using rest Some by (auto simp: map_err_def split: prod.splits sum.splits)
  then have only: "only_in (chunk_accounts m (account i k)) (entries c1) c'"
    using triple_ok [OF delete_chunks_only, of m "account i k" "entries c1" c1 _ c']
      triple_err [OF delete_chunks_only, of m "account i k" "entries c1" c1 _ c'] by (cases r2) (auto simp: only_in_def)
  have "Option.bind (entries c (account i ManagedPrivateKey)) (manifest_parse is_uuid) = Some m" using p k Some by simp
  then show ?thesis using only c1 unfolding k by (intro clear_other [OF plain]) (auto simp: only_in_def)
qed

lemma inspect_triple:
  "triple (\<lambda>c. entries c = es) (if k = ManagedPrivateKey then previous_manifest is_uuid i k else ok None)
     (\<lambda>p c. entries c = es \<and>
        p = (if k = ManagedPrivateKey then Option.bind (es (account i k)) (manifest_parse is_uuid) else None))
     (\<lambda>_ c. entries c = es)"
  using previous_manifest_triple [of es is_uuid i k] by (auto simp: triple_def)

lemma secret_delete_effect:
  assumes plain: "generations_plain is_uuid (entries c)" and run: "secret_delete is_uuid i k c = (r, c')"
  shows "(takes_effect is_uuid (entries c) (entries c') i k None \<or>
      (\<exists>e. r = Inl e) \<and> entries c' = entries c) \<and> generations_plain is_uuid (entries c')"
  using run unfolding secret_delete_def Let_def
proof (rule attempt_cases)
  fix e assume "(if k = ManagedPrivateKey then previous_manifest is_uuid i k else ok None) c = (Inl e, c')" "r = Inl e"
  with triple_err [OF inspect_triple refl] plain show ?thesis by metis
next
  fix p cp assume "(if k = ManagedPrivateKey then previous_manifest is_uuid i k else ok None) c = (Inr p, cp)"
  note cp = triple_ok [OF inspect_triple refl this]
  assume "attempt (map_err (secret_context ''failed to delete secret for'' i k) (cred_delete (account i k)))
      (\<lambda>_. case p of None \<Rightarrow> ok () | Some m \<Rightarrow> map_err (secret_context ''failed to delete secret for'' i k)
         (delete_managed_key_chunks (account i k) m)) cp = (r, c')"
  then show ?thesis
  proof (rule attempt_cases)
    fix e assume "map_err (secret_context ''failed to delete secret for'' i k) (cred_delete (account i k)) cp = (Inl e, c')" "r = Inl e"
    then show ?thesis using triple_err [OF cred_delete_triple refl, of "account i k" cp _ c'] cp plain by auto
  next
    fix u c1 assume "map_err (secret_context ''failed to delete secret for'' i k) (cred_delete (account i k)) cp = (Inr u, c1)"
    then have "entries c1 = (entries c)(account i k := None)"
      using triple_ok [OF cred_delete_triple refl, of "account i k" cp u c1] cp by simp
    moreover assume "(case p of None \<Rightarrow> ok () | Some m \<Rightarrow> map_err (secret_context ''failed to delete secret for'' i k)
       (delete_managed_key_chunks (account i k) m)) c1 = (r, c')"
    ultimately show ?thesis using delete_rest_effect [OF plain] cp by blast
  qed
qed

section \<open>Without failures\<close>

definition healthy :: "credentials \<Rightarrow> bool" where
  "healthy c \<longleftrightarrow> faults c = []"

lemma healthy_result:
  assumes "triple healthy m (\<lambda>_. healthy) (\<lambda>_ _. False)" "healthy c"
  obtains a c' where "m c = (Inr a, c')" "healthy c'"
  using triple_ok [OF assms] triple_err [OF assms] by (cases "m c"; cases "fst (m c)") auto

lemma healthy_attempt:
  "triple healthy m (\<lambda>_. healthy) (\<lambda>_ _. False) \<Longrightarrow> (\<And>a. triple healthy (f a) (\<lambda>_. healthy) (\<lambda>_ _. False)) \<Longrightarrow>
   triple healthy (attempt m f) (\<lambda>_. healthy) (\<lambda>_ _. False)"
  by (rule triple_attempt)

lemma healthy_map_err:
  "triple healthy m (\<lambda>_. healthy) (\<lambda>_ _. False) \<Longrightarrow> triple healthy (map_err g m) (\<lambda>_. healthy) (\<lambda>_ _. False)"
  by (rule triple_map_err)

lemma healthy_backend: "triple healthy (backend f) (\<lambda>_. healthy) (\<lambda>_ _. False)"
  by (rule tripleI) (auto simp: healthy_def backend_def split: prod.splits)

lemma healthy_ops:
  "triple healthy (cred_get a) (\<lambda>_. healthy) (\<lambda>_ _. False)"
  "triple healthy (cred_set a v) (\<lambda>_. healthy) (\<lambda>_ _. False)"
  "triple healthy (cred_delete a) (\<lambda>_. healthy) (\<lambda>_ _. False)"
  by (simp_all add: cred_get_def cred_set_def cred_delete_def healthy_backend)

lemma healthy_each:
  "(\<And>x. triple healthy (f x) (\<lambda>_. healthy) (\<lambda>_ _. False)) \<Longrightarrow> triple healthy (each f xs) (\<lambda>_. healthy) (\<lambda>_ _. False)"
  by (induction xs) (auto intro: triple_attempt triple_basic)

lemma healthy_cleanup: "triple healthy (cleanup_previous acct prev) (\<lambda>_. healthy) (\<lambda>_ _. False)"
proof (cases prev)
  case (Some m)
  have del: "triple healthy (delete_managed_key_chunks acct m) (\<lambda>_. healthy) (\<lambda>_ _. False)"
    unfolding delete_managed_key_chunks_def by (intro healthy_each healthy_ops)
  have "healthy (snd (delete_managed_key_chunks acct m c))" if "healthy c" for c
    using healthy_result [OF del that] by (metis snd_conv)
  then show ?thesis using Some
    by (auto simp: cleanup_previous_def cleanup_managed_key_chunks_def triple_def)
qed (simp add: cleanup_previous_def triple_def)

lemma healthy_write_chunks: "triple healthy (write_chunks i acct k m n chunks) (\<lambda>_. healthy) (\<lambda>_ _. False)"
proof (induction chunks arbitrary: n)
  case (Cons chunk rest)
  show ?case
    unfolding triple_def
  proof (intro allI impI)
    fix c assume "healthy c"
    with healthy_ops(2) obtain u c1 where "cred_set (chunk_account m acct n) chunk c = (Inr u, c1)" "healthy c1"
      by (rule healthy_result)
    with Cons.IH [of "n + 1"] show "case write_chunks i acct k m n (chunk # rest) c of (Inl e, t) \<Rightarrow> False | (Inr a, t) \<Rightarrow> healthy t"
      by (auto simp: triple_def)
  qed
qed (simp add: triple_def)

lemma healthy_set_manifest: "triple healthy (set_manifest i k m) (\<lambda>_. healthy) (\<lambda>_ _. False)"
  using healthy_ops(2) [of "account i k" "manifest_encode m"]
  by (auto simp: triple_def set_manifest_def Let_def split: prod.splits sum.splits)

lemma healthy_secret_set:
  assumes "k = ManagedPrivateKey \<Longrightarrow> length (split_managed_key_chunks v) \<le> MANAGED_KEY_CHUNK_MAX_COUNT"
  shows "triple healthy (secret_set is_uuid gen i k v) (\<lambda>_. healthy) (\<lambda>_ _. False)"
proof (cases "k = ManagedPrivateKey")
  case False
  then show ?thesis by (simp add: secret_set_def healthy_map_err healthy_ops)
next
  case True
  have "triple healthy (set_single i v p) (\<lambda>_. healthy) (\<lambda>_ _. False)" for p
    unfolding set_single_def Let_def by (intro healthy_attempt healthy_map_err healthy_ops healthy_cleanup)
  moreover have "triple healthy (set_chunked gen i v p) (\<lambda>_. healthy) (\<lambda>_ _. False)" for p
    using assms [OF True] unfolding set_chunked_def Let_def
    by (auto intro!: healthy_attempt healthy_write_chunks healthy_set_manifest healthy_cleanup)
  moreover have "triple healthy (previous_manifest is_uuid i k) (\<lambda>_. healthy) (\<lambda>_ _. False)"
    unfolding previous_manifest_def by (intro healthy_attempt healthy_map_err healthy_ops triple_basic)
  ultimately show ?thesis using True by (auto simp: secret_set_def intro!: healthy_attempt)
qed

section \<open>Properties\<close>

text \<open>C29: Setting a secret is atomic whichever operation of the credential store fails: it returns
  success and the secret reads as the new value, or an error and every secret reads as before; no other
  secret changes in either case, also when a long private key is spread over chunks.\<close>

theorem secret_set_is_atomic:
  assumes "generations_plain is_uuid (entries c)" and "fresh_generation is_uuid (entries c) gen"
    and "manifest_parse is_uuid v = None" and "secret_set is_uuid gen i k v c = (r, c')"
  shows "observe is_uuid (entries c') i k = (if r = Inr () then Inr (Some v) else observe is_uuid (entries c) i k) \<and>
    (\<forall>i' k'. (i', k') \<noteq> (i, k) \<longrightarrow> observe is_uuid (entries c') i' k' = observe is_uuid (entries c) i' k') \<and>
    generations_plain is_uuid (entries c')"
  using secret_set_atomic [OF assms]
  by (auto simp: atomic_set_def takes_effect_def changes_nothing_def split: if_splits)

abbreviation (input) sample_uuid :: "string \<Rightarrow> bool" where
  "sample_uuid g \<equiv> length g = 2"

definition sample_manifest :: manifest where
  "sample_manifest = \<lparr>generation = ''g0'', count = 1\<rparr>"

definition sample_credentials :: "string option list \<Rightarrow> credentials" where
  \<comment> \<open>a key whose text lies in one chunk\<close>
  "sample_credentials fs =
     \<lparr>entries = [account ''k'' ManagedPrivateKey \<mapsto> manifest_encode sample_manifest,
        chunk_account sample_manifest (account ''k'' ManagedPrivateKey) 0 \<mapsto> ''old''],
      faults = fs\<rparr>"

lemma sample_entry:
  "entries (sample_credentials fs) (account i ManagedPrivateKey) = Some w \<Longrightarrow>
   manifest_parse sample_uuid w = Some m \<Longrightarrow> m = sample_manifest"
proof -
  have "manifest_parse sample_uuid (manifest_encode sample_manifest) = Some sample_manifest"
    by (rule manifest_parse_encode) (simp_all add: sample_manifest_def MANAGED_KEY_CHUNK_MAX_COUNT_def)
  moreover assume "entries (sample_credentials fs) (account i ManagedPrivateKey) = Some w"
    "manifest_parse sample_uuid w = Some m"
  ultimately show "m = sample_manifest" by (auto simp: sample_credentials_def split: if_splits)
qed

lemma sample_ok:
  "generations_plain sample_uuid (entries (sample_credentials fs))"
  "fresh_generation sample_uuid (entries (sample_credentials fs)) ''g1''"
  by (auto simp: generations_plain_def fresh_generation_def sample_manifest_def dest!: sample_entry)

lemma sample_parse: "manifest_parse sample_uuid (manifest_encode sample_manifest) = Some sample_manifest"
  by (rule manifest_parse_encode) (simp_all add: sample_manifest_def MANAGED_KEY_CHUNK_MAX_COUNT_def)

lemma sample_set:
  "\<exists>c'. secret_set sample_uuid ''g1'' ''k'' ManagedPrivateKey ''new'' (sample_credentials [None, None, Some ''x'']) = (Inr (), c')"
proof -
  have "managed_key_fits_single_credential ''new''" by code_simp
  then show ?thesis
    by (simp add: secret_set_def set_single_def previous_manifest_def attempt_def map_err_def cred_get_def cred_set_def
        backend_def sample_credentials_def sample_parse cleanup_previous_def cleanup_managed_key_chunks_def Let_def)
qed

theorem secret_set_is_atomic_witness:
  "\<exists>c'. secret_set sample_uuid ''g1'' ''k'' ManagedPrivateKey ''new'' (sample_credentials [None, None, Some ''x'']) = (Inr (), c') \<and>
     observe sample_uuid (entries c') ''k'' ManagedPrivateKey = Inr (Some ''new'')"
proof -
  obtain c' where run: "secret_set sample_uuid ''g1'' ''k'' ManagedPrivateKey ''new'' (sample_credentials [None, None, Some ''x'']) = (Inr (), c')"
    using sample_set by blast
  have "manifest_parse sample_uuid ''new'' = None" by code_simp
  from secret_set_is_atomic [OF sample_ok this run] run show ?thesis by simp
qed

text \<open>What a successful deletion removes from the credential store, entry by entry.\<close>

definition deleted_accounts :: "(string \<Rightarrow> bool) \<Rightarrow> (string \<rightharpoonup> string) \<Rightarrow> string \<Rightarrow> SecretKind \<Rightarrow> string set" where
  \<comment> \<open>the account of a secret, and those of its chunks when it is a private key behind a manifest\<close>
  "deleted_accounts is_uuid es i k =
     insert (account i k)
       (case (if k = ManagedPrivateKey then Option.bind (es (account i k)) (manifest_parse is_uuid) else None) of
          None \<Rightarrow> {}
        | Some m \<Rightarrow> chunk_account m (account i k) ` {..<count m})"

lemma each_delete_removes:
  "each (\<lambda>j. cred_delete (f j)) js c = (Inr u, c') \<Longrightarrow> entries c' = entries c |` (- f ` set js)"
proof (induction js arbitrary: c)
  case (Cons j js)
  then obtain v c1 where "cred_delete (f j) c = (Inr v, c1)" "each (\<lambda>j. cred_delete (f j)) js c1 = (Inr u, c')"
    by (auto simp: attempt_eq_Inr)
  moreover from this have "entries c1 = (entries c)(f j := None)"
    using triple_ok [OF cred_delete_triple refl] by simp
  ultimately show ?case using Cons.IH by (auto simp: restrict_map_def fun_eq_iff)
qed (simp add: restrict_map_def)

lemma secret_delete_exact:
  assumes "secret_delete is_uuid i k c = (Inr u, c')"
  shows "entries c' = entries c |` (- deleted_accounts is_uuid (entries c) i k)"
proof -
  obtain p cp c1 v where p: "(if k = ManagedPrivateKey then previous_manifest is_uuid i k else ok None) c = (Inr p, cp)"
    and d: "cred_delete (account i k) cp = (Inr v, c1)"
    and rest: "(case p of None \<Rightarrow> ok () | Some m \<Rightarrow> map_err (secret_context ''failed to delete secret for'' i k)
         (delete_managed_key_chunks (account i k) m)) c1 = (Inr u, c')"
    using assms by (auto simp: secret_delete_def Let_def attempt_eq_Inr)
  note inspected = triple_ok [OF inspect_triple refl p]
  have one: "entries c1 = (entries c)(account i k := None)"
    using triple_ok [OF cred_delete_triple refl d] inspected by simp
  have pv: "p = (if k = ManagedPrivateKey then Option.bind (entries c (account i k)) (manifest_parse is_uuid) else None)"
    using inspected by simp
  have accounts: "deleted_accounts is_uuid (entries c) i k =
      insert (account i k) (case p of None \<Rightarrow> {} | Some m \<Rightarrow> chunk_account m (account i k) ` {..<count m})"
    by (simp only: deleted_accounts_def pv)
  show ?thesis
  proof (cases p)
    case None
    then show ?thesis using one rest accounts by (simp add: restrict_map_def fun_eq_iff)
  next
    case (Some m)
    then have "entries c' = entries c1 |` (- chunk_account m (account i k) ` set [0..<count m])"
      using rest by (intro each_delete_removes [of _ _ _ u]) (simp add: delete_managed_key_chunks_def)
    then show ?thesis using one accounts Some by (auto simp: restrict_map_def fun_eq_iff atLeast0LessThan)
  qed
qed

text \<open>C36: Deleting a secret removes it or changes nothing: after an error the secret is gone or no entry
  has changed, and no other secret is touched. A deletion that succeeds takes exactly the entry of the
  secret and, when it is a private key behind a manifest, the entry of each of its chunks out of the
  credential store. (After an error chunks may be left: \<^verbatim>\<open>failed_delete_keeps_key_text\<close>.)\<close>

theorem secret_delete_removes:
  assumes "generations_plain is_uuid (entries c)" and "secret_delete is_uuid i k c = (r, c')"
  shows "(r = Inr () \<longrightarrow> observe is_uuid (entries c') i k = Inr None \<and>
      entries c' = entries c |` (- deleted_accounts is_uuid (entries c) i k)) \<and>
    (observe is_uuid (entries c') i k = Inr None \<or> entries c' = entries c) \<and>
    (\<forall>i' k'. (i', k') \<noteq> (i, k) \<longrightarrow> observe is_uuid (entries c') i' k' = observe is_uuid (entries c) i' k') \<and>
    generations_plain is_uuid (entries c')"
  using secret_delete_effect [OF assms] secret_delete_exact [of is_uuid i k c "()" c'] assms(2)
  by (auto simp: takes_effect_def)

lemma sample_delete:
  "secret_delete sample_uuid ''k'' ManagedPrivateKey (sample_credentials [None, None, Some ''x'']) =
     (Inl \<lparr>contexts = [''failed to delete secret for k:managed-private-key''], root = Message ''x''\<rparr>,
      \<lparr>entries = [chunk_account sample_manifest (account ''k'' ManagedPrivateKey) 0 \<mapsto> ''old''], faults = []\<rparr>)"
  by (simp add: secret_delete_def previous_manifest_def attempt_def map_err_def cred_get_def cred_delete_def
      backend_def sample_credentials_def sample_parse delete_managed_key_chunks_def Let_def anyhow_def
      secret_context_def with_context_def fun_upd_twist upt_rec [of 0]) (simp add: sample_manifest_def anyhow_def fun_upd_twist)

lemma sample_delete_all:
  "secret_delete sample_uuid ''k'' ManagedPrivateKey (sample_credentials []) = (Inr (), \<lparr>entries = Map.empty, faults = []\<rparr>)"
  by (simp add: secret_delete_def previous_manifest_def attempt_def map_err_def cred_get_def cred_delete_def
      backend_def sample_credentials_def sample_parse delete_managed_key_chunks_def Let_def anyhow_def
      secret_context_def with_context_def fun_upd_twist upt_rec [of 0]) (simp add: sample_manifest_def fun_upd_twist)

theorem secret_delete_removes_witness:
  "entries (sample_credentials []) (account ''k'' ManagedPrivateKey) \<noteq> None \<and>
   entries (sample_credentials []) |` (- deleted_accounts sample_uuid (entries (sample_credentials [])) ''k'' ManagedPrivateKey)
     = Map.empty"
  using secret_delete_removes [OF sample_ok(1) sample_delete_all] by (simp add: sample_credentials_def)

text \<open>What a failing deletion leaves behind: the manifest goes first, so the chunks of a key whose deletion
  fails afterwards stay in the credential store, and a second deletion finds nothing to remove.\<close>

lemma failed_delete_keeps_key_text:
  "\<exists>e c c'. secret_delete sample_uuid ''k'' ManagedPrivateKey (sample_credentials [None, None, Some ''x'']) = (Inl e, c) \<and>
     secret_delete sample_uuid ''k'' ManagedPrivateKey c = (Inr (), c') \<and>
     entries c' (chunk_account sample_manifest (account ''k'' ManagedPrivateKey) 0) = Some ''old''"
  unfolding sample_delete
  by (simp add: secret_delete_def previous_manifest_def attempt_def map_err_def cred_get_def cred_delete_def backend_def Let_def)

text \<open>C35: A secret that was set is read back: when the credential store works, setting a secret succeeds
  unless it is a private key of more than 64 chunks, and reading returns the very text, however many
  chunks it took.\<close>

theorem secret_roundtrip:
  assumes "generations_plain is_uuid (entries c)" and "fresh_generation is_uuid (entries c) gen"
    and "manifest_parse is_uuid v = None" and "faults c = []"
    and "k = ManagedPrivateKey \<Longrightarrow> length (split_managed_key_chunks v) \<le> MANAGED_KEY_CHUNK_MAX_COUNT"
  shows "\<exists>c'. secret_set is_uuid gen i k v c = (Inr (), c') \<and> fst (secret_get is_uuid i k c') = Inr (Some v)"
proof -
  obtain u c' where run: "secret_set is_uuid gen i k v c = (Inr u, c')" and ok: "healthy c'"
    by (rule healthy_result [OF healthy_secret_set [OF assms(5)], where c = c]) (simp_all add: healthy_def assms(4))
  have "c' = \<lparr>entries = entries c', faults = []\<rparr>" using ok by (cases c') (simp add: healthy_def)
  then have "fst (secret_get is_uuid i k c') = observe is_uuid (entries c') i k"
    unfolding observe_def by metis
  then show ?thesis
    using secret_set_atomic [OF assms(1-3) run] run by (auto simp: atomic_set_def takes_effect_def)
qed

theorem secret_roundtrip_witness:
  "\<exists>c'. secret_set sample_uuid ''g1'' ''k'' ManagedPrivateKey ''new'' (sample_credentials []) = (Inr (), c') \<and>
     fst (secret_get sample_uuid ''k'' ManagedPrivateKey c') = Inr (Some ''new'')"
proof (rule secret_roundtrip)
  show "manifest_parse sample_uuid ''new'' = None" by code_simp
  have "length (split_managed_key_chunks ''new'') = 1" by code_simp
  then show "length (split_managed_key_chunks ''new'') \<le> MANAGED_KEY_CHUNK_MAX_COUNT"
    by (simp add: MANAGED_KEY_CHUNK_MAX_COUNT_def)
qed (rule sample_ok, rule sample_ok, simp add: sample_credentials_def)

text \<open>The chunks of a private key are its text cut between characters: joined they are the text, and each
  chunk is a non-empty run of whole characters of at most 1024 UTF-16 units.\<close>

theorem key_chunks_are_bounded:
  "concat (split_managed_key_chunks v) = v \<and>
   (\<exists>runs. str_chars v = concat runs \<and> split_managed_key_chunks v = map concat runs \<and>
      list_all (\<lambda>chars. chars \<noteq> [] \<and> sum_list (map len_utf16 chars) \<le> 1024) runs)"
  using split_parts [of v] by (auto simp: list_all_iff)

end
