(* ===== verification/Sync_Config.thy ===== *)
theory Sync_Config
  imports Secret_Store "HOL-Library.Word"
begin

text \<open>
  The configuration of the synchronisation, \<^verbatim>\<open>crates/miaominal-sync/src/model.rs\<close> (\<^verbatim>\<open>SyncConfig\<close>) and
  \<^verbatim>\<open>sync/store.rs\<close> (\<^verbatim>\<open>SyncConfigStore\<close>). Several stores of a process, and the process after a restart,
  share one file; every store remembers the configuration it has loaded and the one its callers
  have edited since. An update reads the file, merges the edits into it, applies a closure and writes
  the result under the next revision; a conditional update does so only when the file still has the
  expected revision.

  The file holds a parsed configuration (TOML is a library; what it prints it parses back), is empty,
  missing, or cannot be read. \<open>file_faults\<close> says, write by write, whether it fails; a failing write
  leaves the file as it is, as \<^verbatim>\<open>atomic_write\<close> does. The write lock of the process makes an update one
  step. Revisions are 64-bit words that saturate.
\<close>

section \<open>The configuration\<close>

datatype SyncProvider = NoProvider | GithubGist | WebDav

record SyncConfig =
  config_revision :: "64 word"
  provider :: SyncProvider
  gist_enabled :: bool
  webdav_enabled :: bool
  gist_id :: "string option"
  webdav_url :: string
  webdav_username :: string
  has_github_token :: bool
  has_webdav_password :: bool
  has_passphrase :: bool
  last_sync_at :: nat
  device_id :: string
  auto_sync_enabled :: bool
  legacy_auto_sync_compat :: bool
  capability_probe_migrated :: bool
  webdav_unsafe_write_consent :: bool
  remote_etag :: "string option"
  remote_payload_id :: "string option"
  last_synced_local_revision :: "string option"
  gist_api_base :: "string option"

definition default_config :: SyncConfig where
  "default_config =
     \<lparr>config_revision = 0, provider = NoProvider, gist_enabled = True, webdav_enabled = True,
      gist_id = None, webdav_url = [], webdav_username = [], has_github_token = False,
      has_webdav_password = False, has_passphrase = False, last_sync_at = 0, device_id = [],
      auto_sync_enabled = False, legacy_auto_sync_compat = False, capability_probe_migrated = False,
      webdav_unsafe_write_consent = False, remote_etag = None, remote_payload_id = None,
      last_synced_local_revision = None, gist_api_base = None\<rparr>"

definition normalize_legacy_provider_flags :: "SyncConfig \<Rightarrow> SyncConfig" where
  "normalize_legacy_provider_flags c = c\<lparr>gist_enabled := True, webdav_enabled := True\<rparr>"

definition allows_unpreconditioned_webdav_write :: "SyncConfig \<Rightarrow> bool" where
  "allows_unpreconditioned_webdav_write c \<longleftrightarrow>
     webdav_unsafe_write_consent c \<and> auto_sync_enabled c \<and> provider c = WebDav"

definition migrate_legacy_auto_sync :: "SyncConfig \<Rightarrow> SyncConfig" where
  "migrate_legacy_auto_sync c =
     (if capability_probe_migrated c then c
      else c\<lparr>capability_probe_migrated := True,
             legacy_auto_sync_compat := auto_sync_enabled c \<and> provider c = WebDav\<rparr>)"

definition merge_field :: "('a \<Rightarrow> 'b) \<Rightarrow> ('b \<Rightarrow> 'a \<Rightarrow> 'a) \<Rightarrow> 'a \<Rightarrow> 'a \<Rightarrow> 'a \<Rightarrow> 'a" where
  \<comment> \<open>the macro \<^verbatim>\<open>merge_field!\<close>\<close>
  "merge_field get put loaded current target =
     (if get current \<noteq> get loaded then put (get current) target else target)"

definition merge_fields :: "SyncConfig \<Rightarrow> SyncConfig \<Rightarrow> SyncConfig \<Rightarrow> SyncConfig" where
  "merge_fields loaded current target =
    (let t = target;
      t = merge_field provider (\<lambda>v t. t\<lparr>provider := v\<rparr>) loaded current t;
      t = merge_field gist_enabled (\<lambda>v t. t\<lparr>gist_enabled := v\<rparr>) loaded current t;
      t = merge_field webdav_enabled (\<lambda>v t. t\<lparr>webdav_enabled := v\<rparr>) loaded current t;
      t = merge_field gist_id (\<lambda>v t. t\<lparr>gist_id := v\<rparr>) loaded current t;
      t = merge_field webdav_url (\<lambda>v t. t\<lparr>webdav_url := v\<rparr>) loaded current t;
      t = merge_field webdav_username (\<lambda>v t. t\<lparr>webdav_username := v\<rparr>) loaded current t;
      t = merge_field has_github_token (\<lambda>v t. t\<lparr>has_github_token := v\<rparr>) loaded current t;
      t = merge_field has_webdav_password (\<lambda>v t. t\<lparr>has_webdav_password := v\<rparr>) loaded current t;
      t = merge_field has_passphrase (\<lambda>v t. t\<lparr>has_passphrase := v\<rparr>) loaded current t;
      t = merge_field last_sync_at (\<lambda>v t. t\<lparr>last_sync_at := v\<rparr>) loaded current t;
      t = merge_field device_id (\<lambda>v t. t\<lparr>device_id := v\<rparr>) loaded current t;
      t = merge_field auto_sync_enabled (\<lambda>v t. t\<lparr>auto_sync_enabled := v\<rparr>) loaded current t;
      t = merge_field legacy_auto_sync_compat (\<lambda>v t. t\<lparr>legacy_auto_sync_compat := v\<rparr>) loaded current t;
      t = merge_field capability_probe_migrated (\<lambda>v t. t\<lparr>capability_probe_migrated := v\<rparr>) loaded current t;
      t = merge_field webdav_unsafe_write_consent (\<lambda>v t. t\<lparr>webdav_unsafe_write_consent := v\<rparr>) loaded current t;
      t = merge_field remote_etag (\<lambda>v t. t\<lparr>remote_etag := v\<rparr>) loaded current t;
      t = merge_field remote_payload_id (\<lambda>v t. t\<lparr>remote_payload_id := v\<rparr>) loaded current t;
      t = merge_field last_synced_local_revision (\<lambda>v t. t\<lparr>last_synced_local_revision := v\<rparr>) loaded current t;
      t = merge_field gist_api_base (\<lambda>v t. t\<lparr>gist_api_base := v\<rparr>) loaded current t
     in t)"

definition merge_external_config_changes :: "SyncConfig \<Rightarrow> SyncConfig \<Rightarrow> SyncConfig \<Rightarrow> SyncConfig" where
  "merge_external_config_changes target loaded current =
     (if config_revision loaded < config_revision current then
        (if config_revision target \<le> config_revision current then current else target)
      else merge_fields loaded current target)"

section \<open>The store\<close>

datatype config_file = NoFile | EmptyFile | Stored SyncConfig | Unreadable

record SyncConfigStore =
  config :: SyncConfig
  loaded_config :: SyncConfig

record config_disk =
  disk_file :: config_file
  file_faults :: "bool list"

datatype config_error = ReadFailed | WriteFailed

fun read_config :: "config_file \<Rightarrow> config_error + SyncConfig option" where
  "read_config NoFile = Inr None"
| "read_config EmptyFile = Inr (Some default_config)"
| "read_config (Stored c) = Inr (Some c)"
| "read_config Unreadable = Inl ReadFailed"

definition persist_config :: "SyncConfig \<Rightarrow> config_disk \<Rightarrow> (config_error + unit) \<times> config_disk" where
  "persist_config c d =
     (case file_faults d of
        True # fs \<Rightarrow> (Inl WriteFailed, d\<lparr>file_faults := fs\<rparr>)
      | fs \<Rightarrow> (Inr (), d\<lparr>disk_file := Stored c, file_faults := tl fs\<rparr>))"

definition saturating_succ :: "64 word \<Rightarrow> 64 word" where
  "saturating_succ r = (if r = - 1 then r else r + 1)"

definition holding :: "SyncConfig \<Rightarrow> SyncConfigStore" where
  "holding c = \<lparr>config = c, loaded_config = c\<rparr>"

definition update_inner ::
  "64 word option \<Rightarrow> (SyncConfig \<Rightarrow> SyncConfig) \<Rightarrow> SyncConfigStore \<Rightarrow> config_disk \<Rightarrow>
   (config_error + bool) \<times> SyncConfigStore \<times> config_disk" where
  "update_inner expected f st d =
     (case read_config (disk_file d) of
        Inl e \<Rightarrow> (Inl e, st, d)
      | Inr persisted_config \<Rightarrow>
          let persisted = (case persisted_config of Some c \<Rightarrow> c | None \<Rightarrow> config st) in
          if (case expected of None \<Rightarrow> False | Some r \<Rightarrow> config_revision persisted \<noteq> r)
          then (Inr False, holding persisted, d)
          else
            let merged = merge_external_config_changes persisted (loaded_config st) (config st);
                persisted_revision = config_revision persisted;
                updated = normalize_legacy_provider_flags (f merged)
            in if persisted_config \<noteq> None \<and> updated = persisted then (Inr True, holding updated, d)
               else
                 let written = updated\<lparr>config_revision :=
                       saturating_succ (max persisted_revision (config_revision (config st)))\<rparr>
                 in (case persist_config written d of
                       (Inl e, d') \<Rightarrow> (Inl e, st, d')
                     | (Inr _, d') \<Rightarrow> (Inr True, holding written, d')))"

definition update :: "(SyncConfig \<Rightarrow> SyncConfig) \<Rightarrow> SyncConfigStore \<Rightarrow> config_disk \<Rightarrow>
   (config_error + bool) \<times> SyncConfigStore \<times> config_disk" where
  "update f = update_inner None f"

definition update_if_revision :: "64 word \<Rightarrow> (SyncConfig \<Rightarrow> SyncConfig) \<Rightarrow> SyncConfigStore \<Rightarrow> config_disk \<Rightarrow>
   (config_error + bool) \<times> SyncConfigStore \<times> config_disk" where
  "update_if_revision expected f = update_inner (Some expected) f"

definition sync_from_disk :: "SyncConfigStore \<Rightarrow> config_disk \<Rightarrow> SyncConfigStore" where
  "sync_from_disk st d =
     (case read_config (disk_file d) of Inr (Some persisted) \<Rightarrow> holding persisted | _ \<Rightarrow> st)"

definition load_from :: "string \<Rightarrow> config_disk \<Rightarrow> (config_error + SyncConfigStore) \<times> config_disk" where
  \<comment> \<open>the argument is the new device id, from \<^verbatim>\<open>uuid\<close>\<close>
  "load_from new_id d =
     (case read_config (disk_file d) of
        Inl e \<Rightarrow> (Inl e, d)
      | Inr persisted \<Rightarrow>
          let loaded = (case persisted of Some c \<Rightarrow> c | None \<Rightarrow> default_config);
              c = (if device_id loaded = [] then loaded\<lparr>device_id := new_id\<rparr> else loaded);
              st = \<lparr>config = normalize_legacy_provider_flags c, loaded_config = loaded\<rparr>
          in (case update migrate_legacy_auto_sync st d of
                (Inl e, _, d') \<Rightarrow> (Inl e, d')
              | (Inr _, st', d') \<Rightarrow> (Inr st', d')))"

end
