(* ===== verification/Sync_Config_Properties.thy ===== *)
theory Sync_Config_Properties
  imports Sync_Config
begin

text \<open>
  Optimistic concurrency of the configuration stores: any number of stores edit, reload and update the
  shared file in any order. \<^verbatim>\<open>config_step\<close> is one such step. A revision below the largest word
  identifies the configuration of the file, so a conditional update that succeeds has computed its
  result from the very configuration its caller has observed.
\<close>

section \<open>One update\<close>

lemma merge_field_same [simp]: "merge_field g p c c t = t"
  by (simp add: merge_field_def)

lemma merge_fields_same [simp]: "merge_fields c c t = t"
  by (simp add: merge_fields_def Let_def)

lemma merge_field_revision:
  "(\<And>v t. config_revision (p v t) = config_revision t) \<Longrightarrow> config_revision (merge_field g p l c t) = config_revision t"
  by (simp add: merge_field_def)

lemma merge_field_other: "(\<And>v t. h (p v t) = h t) \<Longrightarrow> h (merge_field g p l c t) = h t"
  by (simp add: merge_field_def)

lemma merge_field_unedited: "g c = g l \<Longrightarrow> merge_field g p l c t = t"
  by (simp add: merge_field_def)

lemma merge_fields_revision [simp]: "config_revision (merge_fields l c t) = config_revision t"
  by (simp add: merge_fields_def Let_def merge_field_revision)

lemma merge_same [simp]: "merge_external_config_changes t c c = t"
  by (simp add: merge_external_config_changes_def)

lemma normalize_revision [simp]: "config_revision (normalize_legacy_provider_flags c) = config_revision c"
  by (simp add: normalize_legacy_provider_flags_def)

lemma less_saturating_succ:
  assumes "(a :: 64 word) \<le> b"
  shows "a < saturating_succ b \<or> a = - 1 \<and> saturating_succ b = - 1"
proof (cases "b = - 1")
  case True
  then show ?thesis by (auto simp: saturating_succ_def word_order.not_eq_extremum)
next
  case False
  then have "b + 1 \<noteq> 0" by (simp add: eq_neg_iff_add_eq_0)
  then have "b < b + 1" using unatSuc [of b] by (simp add: word_less_nat_alt add.commute)
  then show ?thesis using assms False by (auto simp: saturating_succ_def)
qed

definition newer :: "SyncConfig \<Rightarrow> SyncConfig \<Rightarrow> bool" where
  "newer c c' \<longleftrightarrow> c' = c \<or> config_revision c < config_revision c' \<or>
     config_revision c = - 1 \<and> config_revision c' = - 1"

lemma newer_refl [simp]: "newer c c"
  by (simp add: newer_def)

lemma newer_trans: "newer a b \<Longrightarrow> newer b c \<Longrightarrow> newer a c"
  by (auto simp: newer_def word_order.not_eq_extremum)

definition content :: "config_disk \<Rightarrow> SyncConfig option" where
  "content d = (case read_config (disk_file d) of Inr c \<Rightarrow> c | Inl _ \<Rightarrow> None)"

lemma update_inner_newer:
  assumes run: "update_inner expected f st d = (r, st', d')" and c: "content d = Some c"
  shows "\<exists>c'. content d' = Some c' \<and> newer c c'"
proof -
  from c have read: "read_config (disk_file d) = Inr (Some c)"
    by (cases "disk_file d") (simp_all add: content_def)
  have "config_revision c \<le> max (config_revision c) (config_revision (config st))"
    by simp
  from less_saturating_succ [OF this] have newer: "newer c (g\<lparr>config_revision :=
      saturating_succ (max (config_revision c) (config_revision (config st)))\<rparr>)" for g :: SyncConfig
    by (auto simp: newer_def)
  have written: "\<exists>c'. content d' = Some c' \<and> newer c c'" if "persist_config (g\<lparr>config_revision :=
      saturating_succ (max (config_revision c) (config_revision (config st)))\<rparr>) d = (r', d')" for g :: SyncConfig and r'
    using that c newer [of g] by (auto simp: persist_config_def content_def split: list.splits bool.splits)
  show ?thesis
    using run read c written
    by (auto simp: update_inner_def Let_def split: if_splits option.splits prod.splits sum.splits)
qed

lemma update_failure_keeps_file:
  "update_inner expected f st d = (Inl e, st', d') \<Longrightarrow> st' = st \<and> disk_file d' = disk_file d"
  by (auto simp: update_inner_def Let_def persist_config_def split: if_splits sum.splits option.splits prod.splits list.splits bool.splits)

lemma conditional_update_result:
  assumes "update_if_revision (config_revision c) f st d = (Inr ack, st', d')" "content d = Some now"
  shows "if ack then config_revision now = config_revision c else st' = holding now \<and> d' = d"
  using assms
  by (cases "disk_file d")
     (auto simp: update_if_revision_def update_inner_def Let_def content_def split: if_splits prod.splits sum.splits)

section \<open>Many stores\<close>

record config_world =
  disk :: config_disk
  stores :: "nat \<Rightarrow> SyncConfigStore"

inductive config_step :: "config_world \<Rightarrow> config_world \<Rightarrow> bool" where
  edit: "config_step w (w\<lparr>stores := (stores w)(i := (stores w i)\<lparr>config := g (config (stores w i))\<rparr>)\<rparr>)"
| reload: "config_step w (w\<lparr>stores := (stores w)(i := sync_from_disk (stores w i) (disk w))\<rparr>)"
| update: "update_inner expected f (stores w i) (disk w) = (r, st, d) \<Longrightarrow>
    config_step w (w\<lparr>disk := d, stores := (stores w)(i := st)\<rparr>)"
| load: "load_from new_id (disk w) = (Inr st, d) \<Longrightarrow>
    config_step w (w\<lparr>disk := d, stores := (stores w)(i := st)\<rparr>)"
| load_failed: "load_from new_id (disk w) = (Inl e, d) \<Longrightarrow> config_step w (w\<lparr>disk := d\<rparr>)"
| weather: "config_step w (w\<lparr>disk := (disk w)\<lparr>file_faults := fs\<rparr>\<rparr>)"

abbreviation config_run :: "config_world \<Rightarrow> config_world \<Rightarrow> bool" where
  "config_run \<equiv> rtranclp config_step"

lemma load_newer:
  assumes "load_from new_id d = (r, d')" "content d = Some c"
  shows "\<exists>c'. content d' = Some c' \<and> newer c c'"
proof -
  from assms(2) have read: "read_config (disk_file d) = Inr (Some c)"
    by (cases "disk_file d") (simp_all add: content_def)
  then obtain st r' st' where "update_inner None migrate_legacy_auto_sync st d = (r', st', d')"
    using assms(1) by (auto simp: load_from_def update_def Let_def split: prod.splits sum.splits)
  then show ?thesis using update_inner_newer assms(2) by blast
qed

lemma config_step_newer:
  assumes "config_step w w'" "content (disk w) = Some c"
  shows "\<exists>c'. content (disk w') = Some c' \<and> newer c c'"
  using assms
proof cases
  case (weather fs)
  then show ?thesis using assms(2) by (simp add: content_def)
qed (use assms(2) update_inner_newer load_newer in auto)

lemma config_run_newer:
  "config_run w w' \<Longrightarrow> content (disk w) = Some c \<Longrightarrow> \<exists>c'. content (disk w') = Some c' \<and> newer c c'"
proof (induction rule: rtranclp_induct)
  case (step v u)
  then obtain c' where "content (disk v) = Some c'" "newer c c'" by blast
  with config_step_newer [OF step.hyps(2)] show ?case by (blast intro: newer_trans)
qed simp

section \<open>Properties\<close>

text \<open>C30: A revision identifies the configuration: however many stores edit, reload and update the file in
  whatever order, its revision never decreases, and as long as it has not reached the largest word the
  same revision means the same configuration.\<close>

theorem revision_identifies_configuration:
  assumes "config_run w w'" and "content (disk w) = Some c" and "content (disk w') = Some c'"
  shows "config_revision c \<le> config_revision c' \<and>
    (config_revision c' = config_revision c \<and> config_revision c \<noteq> - 1 \<longrightarrow> c' = c)"
  using config_run_newer [OF assms(1,2)] assms(3) by (auto simp: newer_def)

definition sample_world :: config_world where
  "sample_world = \<lparr>disk = \<lparr>disk_file = Stored default_config, file_faults = []\<rparr>, stores = (\<lambda>_. holding default_config)\<rparr>"

definition bound_config :: SyncConfig where
  "bound_config = default_config\<lparr>gist_id := Some ''g'', config_revision := 1\<rparr>"

lemma sample_update:
  "update_if_revision 0 (\<lambda>c. c\<lparr>gist_id := Some ''g''\<rparr>) (holding default_config) (disk sample_world) =
     (Inr True, holding bound_config, \<lparr>disk_file = Stored bound_config, file_faults = []\<rparr>)"
  by (simp add: update_if_revision_def update_inner_def sample_world_def holding_def default_config_def
      normalize_legacy_provider_flags_def persist_config_def saturating_succ_def bound_config_def Let_def)

lemma sample_run:
  "config_run sample_world (sample_world\<lparr>disk := \<lparr>disk_file = Stored bound_config, file_faults = []\<rparr>,
     stores := (stores sample_world)(0 := holding bound_config)\<rparr>)"
  using config_step.update [of "Some 0" _ sample_world 0] sample_update
  by (intro r_into_rtranclp) (simp add: update_if_revision_def, simp add: sample_world_def)

theorem revision_identifies_configuration_witness:
  "config_revision default_config \<le> config_revision bound_config"
  using revision_identifies_configuration [OF sample_run, of default_config bound_config]
  by (simp add: sample_world_def content_def)

text \<open>C31: An acknowledged conditional update loses nothing: if a configuration was observed and, after any
  interleaving of other stores, an update conditional on its revision succeeds, the file still held the
  observed configuration, and it now holds the update applied to it under a newer revision.\<close>

theorem acknowledged_update_loses_nothing:
  assumes "config_run w w'" and "content (disk w) = Some c" and "config_revision c \<noteq> - 1"
    and "update_if_revision (config_revision c) f st (disk w') = (Inr True, st', d)"
    and "config st = loaded_config st"
  shows "content (disk w') = Some c \<and>
    (\<exists>c'. content d = Some c' \<and> st' = holding c' \<and> newer c c' \<and>
       c' = (normalize_legacy_provider_flags (f c))\<lparr>config_revision := config_revision c'\<rparr>)"
proof -
  obtain now where now: "content (disk w') = Some now" and newer: "newer c now"
    using config_run_newer [OF assms(1,2)] by blast
  then have same: "now = c"
    using conditional_update_result [OF assms(4) now] assms(3) by (auto simp: newer_def)
  then have read: "read_config (disk_file (disk w')) = Inr (Some c)"
    using now by (cases "disk_file (disk w')") (simp_all add: content_def)
  have "\<exists>c'. content d = Some c' \<and> newer c c'"
    using update_inner_newer assms(4) now same by (auto simp: update_if_revision_def)
  moreover have "\<exists>c'. content d = Some c' \<and> st' = holding c' \<and>
      c' = (normalize_legacy_provider_flags (f c))\<lparr>config_revision := config_revision c'\<rparr>"
    using assms(4,5) read
    by (auto simp: update_if_revision_def update_inner_def Let_def content_def persist_config_def
        split: if_splits prod.splits sum.splits list.splits bool.splits)
  ultimately show ?thesis using now same by auto
qed

theorem acknowledged_update_loses_nothing_witness:
  "content \<lparr>disk_file = Stored bound_config, file_faults = []\<rparr> = Some bound_config \<and> newer default_config bound_config"
  using acknowledged_update_loses_nothing [of sample_world sample_world default_config "\<lambda>c. c\<lparr>gist_id := Some ''g''\<rparr>"
      "holding default_config", OF rtranclp.rtrancl_refl] sample_update
  by (simp add: sample_world_def content_def default_config_def holding_def)

text \<open>An update that fails, or is refused because another store was faster, leaves the file as it is;
  after a refusal the store holds the configuration of the file, the edits of its caller are gone.\<close>

theorem refused_update_changes_nothing:
  assumes "update_if_revision r f st d = (result, st', d')" and "result \<noteq> Inr True" and "content d = Some now"
  shows "disk_file d' = disk_file d \<and>
    (if result = Inr False then config_revision now \<noteq> r \<and> st' = holding now else st' = st)"
  using assms
  by (cases "disk_file d")
     (auto simp: update_if_revision_def update_inner_def Let_def content_def persist_config_def
        split: if_splits prod.splits sum.splits list.splits bool.splits)

theorem refused_update_changes_nothing_witness:
  "disk_file (snd (snd (update_if_revision 5 id (holding bound_config) (disk sample_world)))) = Stored default_config"
  using refused_update_changes_nothing [of 5 id "holding bound_config" "disk sample_world" "Inr False"
      "holding default_config" "disk sample_world" default_config]
  by (simp add: update_if_revision_def update_inner_def sample_world_def content_def default_config_def holding_def Let_def)

lemma update_result:
  assumes "update f st d = (Inr b, st', d')" "read_config (disk_file d) = Inr (Some c)"
  shows "\<exists>r. config st' = (normalize_legacy_provider_flags
    (f (merge_external_config_changes c (loaded_config st) (config st))))\<lparr>config_revision := r\<rparr>"
proof -
  have same: "x = y \<Longrightarrow> \<exists>r. x = y\<lparr>config_revision := r\<rparr>" for x y :: SyncConfig
    by (metis SyncConfig.surjective SyncConfig.update_convs(1))
  show ?thesis
    using assms by (auto simp: update_def update_inner_def Let_def holding_def persist_config_def same
        split: if_splits prod.splits sum.splits list.splits bool.splits)
qed

lemma exemption_is_granted_once:
  assumes "load_from new_id d = (Inr st, d')" "content d = Some c"
  shows "capability_probe_migrated (config st) \<and>
    legacy_auto_sync_compat (config st) =
      (if capability_probe_migrated c then legacy_auto_sync_compat c else auto_sync_enabled c \<and> provider c = WebDav)"
proof -
  let ?n = "normalize_legacy_provider_flags (if device_id c = [] then c\<lparr>device_id := new_id\<rparr> else c)"
  have read: "read_config (disk_file d) = Inr (Some c)"
    using assms(2) by (cases "disk_file d") (simp_all add: content_def)
  then obtain b where "update migrate_legacy_auto_sync \<lparr>config = ?n, loaded_config = c\<rparr> d = (Inr b, st, d')"
    using assms(1) by (auto simp: load_from_def Let_def split: prod.splits sum.splits)
  from update_result [OF this read] obtain r where
    r: "config st = (normalize_legacy_provider_flags
        (migrate_legacy_auto_sync (merge_external_config_changes c c ?n)))\<lparr>config_revision := r\<rparr>" by auto
  let ?m = "merge_external_config_changes c c ?n"
  have "capability_probe_migrated ?m = capability_probe_migrated c" "legacy_auto_sync_compat ?m = legacy_auto_sync_compat c"
    "auto_sync_enabled ?m = auto_sync_enabled c" "provider ?m = provider c"
    by (cases "device_id c = []"; simp add: merge_external_config_changes_def merge_fields_def Let_def
        normalize_legacy_provider_flags_def merge_field_unedited merge_field_other)+
  then show ?thesis using r by (simp add: normalize_legacy_provider_flags_def migrate_legacy_auto_sync_def)
qed

end
