(* ===== verification/Sync_Secrets.thy ===== *)
theory Sync_Secrets
  imports Sync_Config
begin

text \<open>
  The secrets of the synchronisation, the accessors of \<^verbatim>\<open>SyncConfigStore\<close> in
  \<^verbatim>\<open>crates/miaominal-sync/src/sync/store.rs\<close>: a token, a password and a passphrase in the credential
  store. The WebDAV password has a generation per configuration file, which a capability check
  compares before and after; it changes before the password does, so a check that saw the new
  password never carries the old generation.
\<close>

definition ACCOUNT_GITHUB_TOKEN :: string where "ACCOUNT_GITHUB_TOKEN = ''sync:github-token''"
definition ACCOUNT_WEBDAV_PASSWORD :: string where "ACCOUNT_WEBDAV_PASSWORD = ''sync:webdav-password''"
definition ACCOUNT_PASSPHRASE :: string where "ACCOUNT_PASSPHRASE = ''sync:encryption-passphrase''"

record SyncSecrets =
  github_token :: "string option"
  webdav_password :: "string option"
  passphrase :: "string option"

record sync_accounts =
  credential_store :: credentials
  generations :: "string \<rightharpoonup> 64 word" \<comment> \<open>of the process, by configuration file\<close>

type_synonym 'a accounts_io = "(sync_accounts, any_error, 'a) io"

definition on_credentials :: "'a secret_io \<Rightarrow> 'a accounts_io" where
  "on_credentials m s = (case m (credential_store s) of (r, c) \<Rightarrow> (r, s\<lparr>credential_store := c\<rparr>))"

definition get_secret :: "string \<Rightarrow> string option accounts_io" where
  "get_secret acct = map_err (with_context (''failed to read secret for '' @ acct)) (on_credentials (cred_get acct))"

definition get_secrets :: "SyncSecrets accounts_io" where
  "get_secrets =
     attempt (map_err (with_context ''failed to read sync secrets'')
         (on_credentials (cred_get_many [ACCOUNT_GITHUB_TOKEN, ACCOUNT_WEBDAV_PASSWORD, ACCOUNT_PASSPHRASE])))
       (\<lambda>vs. ok \<lparr>github_token = (case vs of v # _ \<Rightarrow> v | _ \<Rightarrow> None),
                   webdav_password = (case vs of _ # v # _ \<Rightarrow> v | _ \<Rightarrow> None),
                   passphrase = (case vs of _ # _ # v # _ \<Rightarrow> v | _ \<Rightarrow> None)\<rparr>)"

definition set_secret :: "string \<Rightarrow> string \<Rightarrow> unit accounts_io" where
  "set_secret acct v =
     map_err (with_context (''failed to store secret for '' @ acct)) (on_credentials (cred_set acct v))"

definition delete_secret :: "string \<Rightarrow> unit accounts_io" where
  "delete_secret acct =
     map_err (with_context (''failed to delete secret for '' @ acct)) (on_credentials (cred_delete acct))"

definition get_github_token :: "string option accounts_io" where
  "get_github_token = get_secret ACCOUNT_GITHUB_TOKEN"

definition set_github_token :: "string \<Rightarrow> unit accounts_io" where
  "set_github_token token = set_secret ACCOUNT_GITHUB_TOKEN token"

definition delete_github_token :: "unit accounts_io" where
  "delete_github_token = delete_secret ACCOUNT_GITHUB_TOKEN"

definition get_webdav_password :: "string option accounts_io" where
  "get_webdav_password = get_secret ACCOUNT_WEBDAV_PASSWORD"

definition webdav_credential_generation :: "string \<Rightarrow> sync_accounts \<Rightarrow> 64 word" where
  "webdav_credential_generation config_file s = (case generations s config_file of Some g \<Rightarrow> g | None \<Rightarrow> 0)"

definition invalidate_webdav_credentials :: "string \<Rightarrow> unit accounts_io" where
  "invalidate_webdav_credentials config_file s =
     (Inr (), s\<lparr>generations := (generations s)(config_file \<mapsto> webdav_credential_generation config_file s + 1)\<rparr>)"

definition set_webdav_password :: "string \<Rightarrow> string \<Rightarrow> unit accounts_io" where
  "set_webdav_password config_file password =
     attempt (invalidate_webdav_credentials config_file) (\<lambda>_. set_secret ACCOUNT_WEBDAV_PASSWORD password)"

definition delete_webdav_password :: "string \<Rightarrow> unit accounts_io" where
  "delete_webdav_password config_file =
     attempt (invalidate_webdav_credentials config_file) (\<lambda>_. delete_secret ACCOUNT_WEBDAV_PASSWORD)"

definition get_passphrase :: "string option accounts_io" where
  "get_passphrase = get_secret ACCOUNT_PASSPHRASE"

definition set_passphrase :: "string \<Rightarrow> unit accounts_io" where
  "set_passphrase p = set_secret ACCOUNT_PASSPHRASE p"

definition delete_passphrase :: "unit accounts_io" where
  "delete_passphrase = delete_secret ACCOUNT_PASSPHRASE"

section \<open>Generations\<close>

lemma on_credentials_generations [simp]: "generations (snd (on_credentials m s)) = generations s"
  by (simp add: on_credentials_def split: prod.split)

lemma map_err_state [simp]: "snd (map_err g m s) = snd (m s)"
  by (simp add: map_err_def split: prod.split sum.split)

datatype password_change = SetTo string | Removed

fun change_password :: "string \<Rightarrow> password_change \<Rightarrow> sync_accounts \<Rightarrow> sync_accounts" where
  "change_password config_file (SetTo p) s = snd (set_webdav_password config_file p s)"
| "change_password config_file Removed s = snd (delete_webdav_password config_file s)"

lemma change_password_generation:
  "webdav_credential_generation f (change_password f c s) = webdav_credential_generation f s + 1"
  by (cases c)
     (simp_all add: set_webdav_password_def delete_webdav_password_def attempt_def set_secret_def delete_secret_def
        invalidate_webdav_credentials_def webdav_credential_generation_def)

text \<open>The generation counts the changes, also those whose write fails: two readings agree only if the
  number of changes between them is a multiple of \<open>2 ^ 64\<close>.\<close>

lemma generation_counts_changes:
  "webdav_credential_generation f (fold (change_password f) cs s) = webdav_credential_generation f s + word_of_nat (length cs)"
  by (induction cs arbitrary: s) (simp_all add: change_password_generation)

lemma same_generation_same_password:
  assumes "length cs < 2 ^ 64" "webdav_credential_generation f (fold (change_password f) cs s) = webdav_credential_generation f s"
  shows "cs = []"
proof -
  have "word_of_nat (length cs) = (0 :: 64 word)" using assms(2) by (simp add: generation_counts_changes)
  then have "2 ^ 64 dvd length cs" by (simp add: word_of_nat_eq_0_iff)
  then show ?thesis using assms(1) dvd_imp_le [of "2 ^ 64" "length cs"] by (cases cs) auto
qed

section \<open>Evaluation\<close>

text \<open>An operation is only unfolded on a state, so that evaluation does not enter continuations.\<close>

lemmas accounts_on_states [code] =
  get_secret_def [THEN fun_cong] get_secrets_def [THEN fun_cong] set_secret_def [THEN fun_cong]
  delete_secret_def [THEN fun_cong] get_github_token_def [THEN fun_cong] set_github_token_def [THEN
  fun_cong] delete_github_token_def [THEN fun_cong] get_webdav_password_def [THEN fun_cong]
  set_webdav_password_def [THEN fun_cong] delete_webdav_password_def [THEN fun_cong]
  get_passphrase_def [THEN fun_cong] set_passphrase_def [THEN fun_cong] delete_passphrase_def [THEN
  fun_cong]

end
