(* ===== verification/Capability.thy ===== *)
theory Capability
  imports Utf8
begin

text \<open>
  The capability check of a WebDAV server, \<^verbatim>\<open>crates/miaominal-sync/src/sync/capability.rs\<close>: the
  classification of entity tags, the reports, the probe that a server honours conditional requests,
  and its cleanup.

  The server and the HTTP client are not part of the program. A server is a function \<open>http\<close> from its
  state, the path of a resource and a request to a response (\<^term>\<open>None\<close> when the transport fails)
  and its next state; every definition takes it as an argument. Another client may write between
  two requests: such a server changes its state by itself, which the function may do at the next
  request. What the program does is explicit state passing over \<^verbatim>\<open>probe_env\<close>: the state of the
  server, the cancellation flags that the checkpoints will read, and how many requests the deadline
  still allows. When it elapses, the request in flight is lost; \<open>in_flight\<close> says whether the server
  still carries it out.
\<close>

section \<open>Entity tags\<close>

datatype EtagKind = MissingTag | WeakTag | StrongTag | InvalidTag

definition etag_byte :: "char \<Rightarrow> bool" where
  "etag_byte b \<longleftrightarrow> byte_val b = 33 \<or> (35 \<le> byte_val b \<and> byte_val b \<le> 126) \<or> 128 \<le> byte_val b"

definition opaque_tag :: "string \<Rightarrow> bool" where
  \<comment> \<open>a quoted opaque tag: the test on \<^verbatim>\<open>bytes\<close>\<close>
  "opaque_tag tag \<longleftrightarrow> 2 \<le> length tag \<and> hd tag = DQUOTE \<and> last tag = DQUOTE \<and>
     (\<forall>b \<in> set (butlast (tl tag)). etag_byte b)"

definition classify_etag :: "string option \<Rightarrow> EtagKind" where
  "classify_etag value =
     (case value of
        None \<Rightarrow> MissingTag
      | Some v \<Rightarrow>
          (let (weak, tag) = (case strip_prefix ''W/'' v of Some tag \<Rightarrow> (True, tag) | None \<Rightarrow> (False, v))
           in if \<not> opaque_tag tag then InvalidTag else if weak then WeakTag else StrongTag))"

section \<open>Reports\<close>

datatype CapabilityState = Unchecked | Checking | Supported | Unsupported | Incomplete

datatype CapabilityReason =
  VersionUnavailable | ConditionalRead | ConditionalWrite | Network | Authentication | Permission
  | Redirect | Http | ProbeCancelled | Cleanup | Configuration

record CapabilityReport =
  cap_state :: CapabilityState
  cap_reason :: "CapabilityReason option"
  cap_step :: string
  http_status :: "nat option"
  etag_kind :: EtagKind
  checked_at :: nat
  cleanup_file :: "string option"

fun is_write_precondition_only :: "CapabilityReason \<Rightarrow> bool" where
  "is_write_precondition_only VersionUnavailable = True"
| "is_write_precondition_only ConditionalRead = True"
| "is_write_precondition_only ConditionalWrite = True"
| "is_write_precondition_only _ = False"

definition issue :: "nat \<Rightarrow> CapabilityReason \<Rightarrow> string \<Rightarrow> nat option \<Rightarrow> EtagKind \<Rightarrow> CapabilityReport" where
  \<comment> \<open>the first argument is the reading of the system clock\<close>
  "issue now why step code kind =
     \<lparr>cap_state = (case why of
          VersionUnavailable \<Rightarrow> Unsupported | ConditionalRead \<Rightarrow> Unsupported
        | ConditionalWrite \<Rightarrow> Unsupported | _ \<Rightarrow> Incomplete),
      cap_reason = Some why, cap_step = step, http_status = code, etag_kind = kind,
      checked_at = now, cleanup_file = None\<rparr>"

definition supported :: "nat \<Rightarrow> CapabilityReport" where
  "supported now =
     \<lparr>cap_state = Supported, cap_reason = None, cap_step = ''complete'', http_status = None,
      etag_kind = StrongTag, checked_at = now, cleanup_file = None\<rparr>"

definition permits_unpreconditioned_write :: "CapabilityReport \<Rightarrow> bool \<Rightarrow> bool" where
  "permits_unpreconditioned_write r consent =
     (if cap_state r = Supported then True
      else if \<not> consent \<or> cap_reason r = Some ProbeCancelled then False
      else (case cap_reason r of None \<Rightarrow> False | Some why \<Rightarrow> is_write_precondition_only why))"

definition failure_reason :: "nat \<Rightarrow> CapabilityReason" where
  "failure_reason code =
     (if code = 401 then Authentication else if code = 403 then Permission
      else if code = 304 then ConditionalRead
      else if 300 \<le> code \<and> code \<le> 399 then Redirect else Http)"

definition failure :: "nat \<Rightarrow> string \<Rightarrow> nat \<Rightarrow> CapabilityReport" where
  "failure now step code = issue now (failure_reason code) step (Some code) MissingTag"

definition condition_failure :: "nat \<Rightarrow> string \<Rightarrow> nat \<Rightarrow> bool \<Rightarrow> CapabilityReport" where
  "condition_failure now step code read =
     (if code = 401 \<or> code = 403 \<or> (300 \<le> code \<and> code < 400 \<and> code \<noteq> 304) \<or> 500 \<le> code
      then failure now step code
      else issue now (if read then ConditionalRead else ConditionalWrite) step (Some code) StrongTag)"

section \<open>Requests\<close>

datatype http_method = GET | PUT | DELETE

datatype resource = SyncFile | ProbeFile \<comment> \<open>the two paths the program uses on the server\<close>

datatype precondition = NoCondition | IfMatch string | IfNoneMatch string

record http_request =
  rq_method :: http_method
  rq_condition :: precondition
  rq_body :: "string option"

record http_response =
  rs_status :: nat
  rs_etag :: "string option"
  rs_chunks :: "string option list" \<comment> \<open>the chunks of the body; \<^term>\<open>None\<close> is a failing read\<close>
  rs_text :: "string option" \<comment> \<open>what \<^verbatim>\<open>Response::text\<close> of the HTTP client decodes\<close>

type_synonym 'srv http = "'srv \<Rightarrow> resource \<Rightarrow> http_request \<Rightarrow> http_response option \<times> 'srv"

definition is_success :: "nat \<Rightarrow> bool" where
  "is_success code \<longleftrightarrow> 200 \<le> code \<and> code < 300"

definition header_text :: "string \<Rightarrow> bool" where
  \<comment> \<open>\<^verbatim>\<open>HeaderValue::to_str\<close>\<close>
  "header_text v \<longleftrightarrow> (\<forall>b \<in> set v. (32 \<le> byte_val b \<and> byte_val b < 127) \<or> b = TAB)"

definition response_tag :: "http_response \<Rightarrow> string option" where
  "response_tag r = map_option (\<lambda>v. if header_text v then v else ''invalid'') (rs_etag r)"

end
