(* ===== verification/Capability_Probe.thy ===== *)
theory Capability_Probe
  imports Capability Io
begin

text \<open>
  The probe of the capability check, \<^verbatim>\<open>PendingProbe\<close> and \<^verbatim>\<open>check_webdav\<close> of
  \<^verbatim>\<open>crates/miaominal-sync/src/sync/capability.rs\<close>. The probe creates a file of its own next to the sync
  file, checks that conditional reads and writes of it behave, and removes it.

  \<open>cancel_in\<close> counts the readings of the cancellation flag until it is set; it stays set. The system
  clock is read once per check (\<open>now\<close>). Credentials and the HTTP client only reach the server function.
\<close>

section \<open>Requests under a deadline\<close>

record 'srv probe_env =
  server :: 'srv
  cancel_in :: "nat option"
  budget :: nat
  in_flight :: bool

datatype stop = Elapsed | Failed CapabilityReport

type_synonym ('srv, 'a) probe = "('srv probe_env, stop, 'a) io"

definition send :: "'srv http \<Rightarrow> resource \<Rightarrow> http_request \<Rightarrow> ('srv, http_response option) probe" where
  "send http path rq e =
     (case http (server e) path rq of (response, s) \<Rightarrow>
        if budget e = 0 then (Inl Elapsed, if in_flight e then e\<lparr>server := s\<rparr> else e)
        else (Inr response, e\<lparr>server := s, budget := budget e - 1\<rparr>))"

definition is_cancelled :: "('srv, bool) probe" where
  "is_cancelled e =
     (case cancel_in e of
        None \<Rightarrow> (Inr False, e)
      | Some 0 \<Rightarrow> (Inr True, e)
      | Some (Suc n) \<Rightarrow> (Inr False, e\<lparr>cancel_in := Some n\<rparr>))"

definition checkpoint :: "nat \<Rightarrow> ('srv, unit) probe" where
  "checkpoint now =
     attempt is_cancelled (\<lambda>c. if c then fail (Failed (issue now ProbeCancelled ''cancel'' None MissingTag)) else ok ())"

definition request ::
  "'srv http \<Rightarrow> nat \<Rightarrow> resource \<Rightarrow> http_method \<Rightarrow> precondition \<Rightarrow> string option \<Rightarrow> string \<Rightarrow> ('srv, http_response) probe" where
  "request http now path m condition body step =
     attempt (send http path \<lparr>rq_method = m, rq_condition = condition, rq_body = body\<rparr>)
       (\<lambda>response. case response of
          None \<Rightarrow> fail (Failed (issue now Network step None MissingTag))
        | Some r \<Rightarrow> ok r)"

fun body_loop :: "nat \<Rightarrow> string \<Rightarrow> nat \<Rightarrow> string \<Rightarrow> string option list \<Rightarrow> CapabilityReport + string" where
  "body_loop now step code bytes [] = (if valid_utf8 bytes then Inr bytes else Inl (failure now step 200))"
| "body_loop now step code bytes (None # _) = Inl (issue now Network step None MissingTag)"
| "body_loop now step code bytes (Some chunk # rest) =
     (if 8192 < length bytes + length chunk then Inl (failure now step code)
      else body_loop now step code (bytes @ chunk) rest)"

definition small_body :: "nat \<Rightarrow> http_response \<Rightarrow> string \<Rightarrow> CapabilityReport + string" where
  "small_body now r step = body_loop now step (rs_status r) [] (rs_chunks r)"

definition reported :: "CapabilityReport + 'a \<Rightarrow> ('srv, 'a) probe" where
  "reported r = lift_sum (map_sum Failed id r)"

definition stop_with :: "CapabilityReport \<Rightarrow> ('srv, 'a) probe" where
  "stop_with r = fail (Failed r)"

section \<open>The probe\<close>

record PendingProbe =
  bodies :: "string list" \<comment> \<open>three of them\<close>
  filename :: string

definition probe_read :: "'srv http \<Rightarrow> nat \<Rightarrow> string \<Rightarrow> ('srv, string \<times> string) probe" where
  "probe_read http now step =
     attempt (request http now ProbeFile GET NoCondition None step) (\<lambda>r.
       if rs_status r \<noteq> 200 then stop_with (failure now step (rs_status r))
       else
         let tag = response_tag r; kind = classify_etag tag in
         attempt (reported (small_body now r step)) (\<lambda>body.
           if kind \<noteq> StrongTag then stop_with (issue now VersionUnavailable step (Some 200) kind)
           else ok (body, the tag)))"

definition conditional_read ::
  "'srv http \<Rightarrow> nat \<Rightarrow> string \<Rightarrow> nat \<Rightarrow> string option \<Rightarrow> string \<Rightarrow> ('srv, unit) probe" where
  "conditional_read http now tag expected body step =
     attempt (request http now ProbeFile GET (IfNoneMatch tag) None step) (\<lambda>r.
       let code = rs_status r; returned = response_tag r in
       if code \<noteq> expected then stop_with (condition_failure now step code True)
       else if expected = 200 \<and> classify_etag returned \<noteq> StrongTag then
         stop_with (issue now VersionUnavailable step (Some code) (classify_etag returned))
       else if (expected = 200 \<and> returned = Some tag) \<or> (expected = 304 \<and> returned \<noteq> None \<and> returned \<noteq> Some tag)
       then stop_with (condition_failure now step code True)
       else (case body of
               None \<Rightarrow> ok ()
             | Some b \<Rightarrow> attempt (reported (small_body now r step)) (\<lambda>got.
                 if got \<noteq> b then stop_with (condition_failure now step code True) else ok ())))"

definition write_expecting ::
  "'srv http \<Rightarrow> nat \<Rightarrow> precondition \<Rightarrow> string \<Rightarrow> (nat \<Rightarrow> bool) \<Rightarrow> string \<Rightarrow> ('srv, unit) probe" where
  \<comment> \<open>a conditional \<^verbatim>\<open>PUT\<close> whose status must be as expected\<close>
  "write_expecting http now condition body expected step =
     attempt (request http now ProbeFile PUT condition (Some body) step) (\<lambda>r.
       if expected (rs_status r) then ok () else stop_with (condition_failure now step (rs_status r) False))"

definition verify_create :: "'srv http \<Rightarrow> nat \<Rightarrow> string \<Rightarrow> string \<Rightarrow> ('srv, string) probe" where
  \<comment> \<open>\<^verbatim>\<open>verify\<close> up to \<^verbatim>\<open>verify-create-rejected\<close>; the tag of the created file\<close>
  "verify_create http now body other =
     attempt (checkpoint now) (\<lambda>_.
     attempt (write_expecting http now (IfNoneMatch ''*'') body is_success ''create'') (\<lambda>_.
     attempt (checkpoint now) (\<lambda>_.
     attempt (probe_read http now ''read-created'') (\<lambda>(got, tag).
       if got \<noteq> body then stop_with (issue now ConditionalWrite ''read-created'' (Some 200) StrongTag) else
     attempt (write_expecting http now (IfNoneMatch ''*'') other (\<lambda>code. code = 412) ''create-existing'') (\<lambda>_.
     attempt (probe_read http now ''verify-create-rejected'') (\<lambda>(got, _).
       if got \<noteq> body then stop_with (condition_failure now ''verify-create-rejected'' 200 False) else ok tag))))))"

definition verify_update :: "'srv http \<Rightarrow> nat \<Rightarrow> string \<Rightarrow> string \<Rightarrow> string \<Rightarrow> ('srv, string) probe" where
  \<comment> \<open>\<^verbatim>\<open>verify\<close> from \<^verbatim>\<open>update-current\<close> to \<^verbatim>\<open>verify-stale-rejected\<close>; the tag of the updated file\<close>
  "verify_update http now tag body other =
     attempt (write_expecting http now (IfMatch tag) body is_success ''update-current'') (\<lambda>_.
     attempt (probe_read http now ''read-updated'') (\<lambda>(got, next_tag).
       if got \<noteq> body \<or> tag = next_tag then stop_with (condition_failure now ''read-updated'' 200 False) else
     attempt (checkpoint now) (\<lambda>_.
     attempt (write_expecting http now (IfMatch tag) other (\<lambda>code. code = 412) ''update-stale'') (\<lambda>_.
     attempt (probe_read http now ''verify-stale-rejected'') (\<lambda>(got, _).
       if got \<noteq> body then stop_with (condition_failure now ''verify-stale-rejected'' 200 False) else ok next_tag)))))"

definition verify :: "'srv http \<Rightarrow> nat \<Rightarrow> PendingProbe \<Rightarrow> ('srv, unit) probe" where
  "verify http now p =
     attempt (verify_create http now (bodies p ! 0) (bodies p ! 2)) (\<lambda>tag.
     attempt (checkpoint now) (\<lambda>_.
     attempt (conditional_read http now tag 304 None ''read-current'') (\<lambda>_.
     attempt (checkpoint now) (\<lambda>_.
     attempt (verify_update http now tag (bodies p ! 1) (bodies p ! 2)) (\<lambda>next_tag.
     attempt (checkpoint now) (\<lambda>_.
     attempt (conditional_read http now tag 200 (Some (bodies p ! 1)) ''read-stale'') (\<lambda>_.
     attempt (conditional_read http now next_tag 304 None ''read-latest'') (\<lambda>_.
       checkpoint now))))))))"

definition cleanup_run :: "'srv http \<Rightarrow> nat \<Rightarrow> PendingProbe \<Rightarrow> ('srv, unit) probe" where
  \<comment> \<open>the block under the deadline of \<^verbatim>\<open>cleanup\<close>\<close>
  "cleanup_run http now p =
     attempt (request http now ProbeFile GET NoCondition None ''cleanup-read'') (\<lambda>r.
       if rs_status r = 404 then ok ()
       else if rs_status r \<noteq> 200 then stop_with (failure now ''cleanup-read'' (rs_status r))
       else
         let tag = response_tag r in
         attempt (reported (small_body now r ''cleanup-read'')) (\<lambda>body.
           if body \<notin> set (bodies p) then stop_with (failure now ''cleanup-ownership'' 200)
           else
             let condition = (case tag of
                   Some t \<Rightarrow> if classify_etag (Some t) = StrongTag then IfMatch t else NoCondition
                 | None \<Rightarrow> NoCondition) in
             attempt (request http now ProbeFile DELETE condition None ''cleanup-delete'') (\<lambda>r.
               if \<not> is_success (rs_status r) \<and> rs_status r \<noteq> 404
               then stop_with (failure now ''cleanup-delete'' (rs_status r))
               else
                 attempt (request http now ProbeFile GET NoCondition None ''cleanup-verify'') (\<lambda>r.
                   if rs_status r \<noteq> 404 then stop_with (failure now ''cleanup-verify'' (rs_status r)) else ok ()))))"

definition cleanup :: "'srv http \<Rightarrow> nat \<Rightarrow> nat \<Rightarrow> PendingProbe \<Rightarrow> 'srv probe_env \<Rightarrow>
   (CapabilityReport + unit) \<times> 'srv probe_env" where
  \<comment> \<open>the second number is how many requests the deadline of the cleanup allows\<close>
  "cleanup http now deadline p e =
     (case cleanup_run http now p (e\<lparr>budget := deadline\<rparr>) of
        (Inr u, e') \<Rightarrow> (Inr u, e')
      | (Inl stopped, e') \<Rightarrow>
          let report = (case stopped of Failed r \<Rightarrow> r | Elapsed \<Rightarrow> failure now ''cleanup-timeout'' 0)
          in (Inl (report\<lparr>cap_state := Incomplete, cap_reason := Some Cleanup, cleanup_file := Some (filename p)\<rparr>), e'))"

section \<open>The check\<close>

record url = \<comment> \<open>what \<^verbatim>\<open>Url::parse\<close> of the URL library reads from a text\<close>
  url_scheme :: string
  url_host :: "string option"
  url_path :: string
  url_query :: "string option"
  url_fragment :: "string option"

definition probe_url_ok :: "url \<Rightarrow> bool" where
  "probe_url_ok u \<longleftrightarrow>
     (url_scheme u = ''https'' \<or>
      (url_scheme u = ''http'' \<and> url_host u \<in> {Some ''localhost'', Some ''127.0.0.1'', Some ''[::1]''})) \<and>
     \<not> ends_with (url_path u) ''/'' \<and> url_query u = None \<and> url_fragment u = None"

definition new_probe :: "string \<Rightarrow> string list \<Rightarrow> PendingProbe" where
  \<comment> \<open>from the identifiers that \<^verbatim>\<open>uuid\<close> generates\<close>
  "new_probe name_id body_ids =
     \<lparr>bodies = map (\<lambda>u. ''{'' @ [DQUOTE] @ ''probe'' @ [DQUOTE] @ '':'' @ [DQUOTE] @ u @ [DQUOTE] @ ''}'') body_ids, filename = ''miaominal-sync-probe-'' @ name_id @ ''.json''\<rparr>"

record probe_setup = \<comment> \<open>the results of library calls\<close>
  parsed_url :: "url option"
  client_built :: bool
  url_joined :: bool
  new_id :: string
  body_ids :: "string list"

definition start_probe :: "'srv http \<Rightarrow> nat \<Rightarrow> probe_setup \<Rightarrow> ('srv, PendingProbe) probe" where
  \<comment> \<open>up to the point where the probe is recorded as pending\<close>
  "start_probe http now setup =
     (case parsed_url setup of
        None \<Rightarrow> stop_with (issue now Configuration ''configuration'' None MissingTag)
      | Some u \<Rightarrow>
          if \<not> probe_url_ok u then stop_with (issue now Configuration ''configuration'' None MissingTag)
          else if \<not> client_built setup then stop_with (failure now ''client'' 0)
          else
            attempt (checkpoint now) (\<lambda>_.
            attempt (request http now SyncFile GET NoCondition None ''read-resource'') (\<lambda>r.
              let kind = classify_etag (response_tag r) in
              if rs_status r = 200 \<and> kind \<noteq> StrongTag
              then stop_with (issue now VersionUnavailable ''read-resource'' (Some (rs_status r)) kind)
              else if rs_status r \<noteq> 200 \<and> rs_status r \<noteq> 404
              then stop_with (failure now ''read-resource'' (rs_status r))
              else if \<not> url_joined setup then stop_with (failure now ''configuration'' 0)
              else
                attempt (request http now ProbeFile GET NoCondition None ''check-path'') (\<lambda>r.
                  if rs_status r \<noteq> 404 then stop_with (failure now ''check-path'' (rs_status r))
                  else ok (new_probe (new_id setup) (body_ids setup))))))"

definition stop_report :: "nat \<Rightarrow> stop \<Rightarrow> CapabilityReport" where
  "stop_report now stopped =
     (case stopped of Failed r \<Rightarrow> r | Elapsed \<Rightarrow> issue now Network ''check-timeout'' None MissingTag)"

definition check_webdav ::
  "'srv http \<Rightarrow> nat \<Rightarrow> nat \<Rightarrow> nat \<Rightarrow> probe_setup \<Rightarrow> 'srv probe_env \<Rightarrow>
   (CapabilityReport \<times> PendingProbe option) \<times> 'srv probe_env" where
  \<comment> \<open>the numbers: the clock, and how many requests the deadlines of the check and of its cleanup allow\<close>
  "check_webdav http now deadline cleanup_deadline setup e =
     (let (report, pending, e) =
            (case start_probe http now setup (e\<lparr>budget := deadline\<rparr>) of
               (Inl stopped, e) \<Rightarrow> (stop_report now stopped, None, e)
             | (Inr probe, e) \<Rightarrow>
                 (case verify http now probe e of
                    (Inl stopped, e) \<Rightarrow> (stop_report now stopped, Some probe, e)
                  | (Inr _, e) \<Rightarrow> (supported now, Some probe, e)));
          (report, pending, e) =
            (case pending of
               None \<Rightarrow> (report, None, e)
             | Some probe \<Rightarrow>
                 (case cleanup http now cleanup_deadline probe e of
                    (Inr _, e) \<Rightarrow> (report, None, e)
                  | (Inl cleanup_report, e) \<Rightarrow> (cleanup_report, Some probe, e)));
          (cancelled, e) = (case (is_cancelled :: ('srv, bool) probe) e of (Inr c, e) \<Rightarrow> (c, e) | (Inl _, e) \<Rightarrow> (False, e))
      in (if cancelled \<and> pending = None
          then (issue now ProbeCancelled ''cancel'' None MissingTag, None)
          else (report, pending), e))"

end
