(* ===== verification/Capability_Properties.thy ===== *)
theory Capability_Properties
  imports Capability_Probe
begin

text \<open>
  What a report is worth. \<^verbatim>\<open>reads_honestly\<close> says that a server answers an unconditional \<^verbatim>\<open>GET\<close> of
  the probe file with its content and leaves it as it is; nothing is assumed about conditional
  requests, which are what the probe examines. A report \<^verbatim>\<open>Supported\<close> then proves that the server has
  refused a stale write. \<^verbatim>\<open>ref_http\<close> is a server that follows the rules for conditional requests
  (RFC 9110); the probe supports it and leaves nothing behind.
\<close>

section \<open>What a step has seen\<close>

definition reads_honestly :: "'srv http \<Rightarrow> ('srv \<Rightarrow> (string \<times> string) option) \<Rightarrow> bool" where
  "reads_honestly http content \<longleftrightarrow>
     (\<forall>s response s'. http s ProbeFile \<lparr>rq_method = GET, rq_condition = NoCondition, rq_body = None\<rparr> = (response, s') \<longrightarrow>
        content s' = content s \<and>
        (\<forall>r. response = Some r \<longrightarrow>
          (rs_status r = 404 \<longrightarrow> content s = None) \<and>
          (rs_status r = 200 \<longrightarrow>
            (\<exists>chunks tag. content s = Some (concat chunks, tag) \<and> rs_chunks r = map Some chunks \<and> rs_etag r = Some tag))))"

lemma body_loop_Inr: "body_loop now step code acc (map Some cs) = Inr b \<Longrightarrow> b = acc @ concat cs"
  by (induction cs arbitrary: acc) (fastforce split: if_splits)+

lemma reported_Inr [simp]: "reported r e = (Inr a, e') \<longleftrightarrow> r = Inr a \<and> e' = e"
  by (cases r) (auto simp: reported_def)

lemma small_body_Inr: "small_body now r step = Inr b \<Longrightarrow> rs_chunks r = map Some cs \<Longrightarrow> b = concat cs"
  using body_loop_Inr [of now step "rs_status r" "[]" cs b] by (simp add: small_body_def)

lemma strong_tag_text: "classify_etag (response_tag r) = StrongTag \<Longrightarrow> rs_etag r = Some t \<Longrightarrow> response_tag r = Some t"
  by (auto simp: response_tag_def classify_etag_def opaque_tag_def strip_prefix_def split: if_splits)

lemma request_Inr:
  assumes "request http now path m c b step e = (Inr r, e')"
  shows "http (server e) path \<lparr>rq_method = m, rq_condition = c, rq_body = b\<rparr> = (Some r, server e')"
  using assms by (auto simp: request_def attempt_eq_Inr send_def split: prod.splits if_splits option.splits)

lemma checkpoint_Inr: "checkpoint now e = (Inr u, e') \<Longrightarrow> server e' = server e"
  by (auto simp: checkpoint_def attempt_eq_Inr is_cancelled_def split: option.splits nat.splits)

lemma probe_read_Inr:
  assumes honest: "reads_honestly http content" and run: "probe_read http now step e = (Inr (got, tag), e')"
  shows "content (server e) = Some (got, tag) \<and> content (server e') = content (server e)"
proof -
  obtain r e1 where r: "request http now ProbeFile GET NoCondition None step e = (Inr r, e1)"
    and body: "rs_status r = 200" "small_body now r step = Inr got" "classify_etag (response_tag r) = StrongTag"
      "tag = the (response_tag r)" "e' = e1"
    using run by (auto simp: probe_read_def attempt_eq_Inr Let_def stop_with_def split: if_splits)
  from request_Inr [OF r] honest body(1)
  obtain chunks t where "content (server e1) = content (server e)" "content (server e) = Some (concat chunks, t)"
    "rs_chunks r = map Some chunks" "rs_etag r = Some t"
    unfolding reads_honestly_def by blast
  with small_body_Inr [OF body(2)] strong_tag_text [OF body(3)] body(4,5) show ?thesis by simp
qed

lemma write_expecting_Inr:
  assumes "write_expecting http now c body expected step e = (Inr u, e')"
  shows "\<exists>r. http (server e) ProbeFile \<lparr>rq_method = PUT, rq_condition = c, rq_body = Some body\<rparr> = (Some r, server e') \<and>
    expected (rs_status r)"
  using assms by (auto simp: write_expecting_def attempt_eq_Inr stop_with_def split: if_splits dest!: request_Inr)

definition refuses :: "'srv http \<Rightarrow> ('srv \<Rightarrow> (string \<times> string) option) \<Rightarrow> 'srv \<Rightarrow> precondition \<Rightarrow> string \<Rightarrow> string \<Rightarrow> bool" where
  \<comment> \<open>in this state, whose file holds \<open>kept\<close>, the server refuses to write \<open>body\<close> and the file is kept\<close>
  "refuses http content s c kept body \<longleftrightarrow>
     (\<exists>r s'. http s ProbeFile \<lparr>rq_method = PUT, rq_condition = c, rq_body = Some body\<rparr> = (Some r, s') \<and>
        rs_status r = 412 \<and> (\<exists>tag. content s' = Some (kept, tag)))"

lemma verify_create_Inr:
  assumes "reads_honestly http content" "verify_create http now body other e = (Inr tag, e')"
  shows "\<exists>s. content s = Some (body, tag) \<and> refuses http content s (IfNoneMatch ''*'') body other"
  using assms(2) unfolding verify_create_def refuses_def
  by (auto simp: attempt_eq_Inr stop_with_def split: if_splits prod.splits
      dest!: write_expecting_Inr probe_read_Inr [OF assms(1)] checkpoint_Inr)

lemma verify_update_Inr:
  assumes "reads_honestly http content" "verify_update http now tag body other e = (Inr next_tag, e')"
  shows "\<exists>s. content s = Some (body, next_tag) \<and> next_tag \<noteq> tag \<and> refuses http content s (IfMatch tag) body other"
  using assms(2) unfolding verify_update_def refuses_def
  by (auto simp: attempt_eq_Inr stop_with_def split: if_splits prod.splits
      dest!: write_expecting_Inr probe_read_Inr [OF assms(1)] checkpoint_Inr)

section \<open>A check that stops is not a success\<close>

definition trouble_report :: "CapabilityReport \<Rightarrow> bool" where
  "trouble_report r \<longleftrightarrow> cap_state r \<noteq> Supported \<and> cleanup_file r = None"

lemma issue_unsupported [simp]: "cap_state (issue now why step code kind) \<noteq> Supported"
  by (simp add: issue_def split: CapabilityReason.split)

lemma issue_trouble [simp]: "trouble_report (issue now why step code kind)"
  by (simp add: trouble_report_def) (simp add: issue_def)

lemma failures_trouble [simp]:
  "trouble_report (failure now step n)" "trouble_report (condition_failure now step n read)"
  by (simp_all add: failure_def condition_failure_def)

definition reports_trouble :: "('srv, 'a) probe \<Rightarrow> bool" where
  "reports_trouble m \<longleftrightarrow> (\<forall>e r e'. m e = (Inl (Failed r), e') \<longrightarrow> trouble_report r)"

lemma trouble_attempt: "reports_trouble m \<Longrightarrow> (\<And>a. reports_trouble (f a)) \<Longrightarrow> reports_trouble (attempt m f)"
  unfolding reports_trouble_def attempt_eq_Inl by blast

lemma trouble_basic [simp]:
  "reports_trouble (ok a)" "trouble_report r \<Longrightarrow> reports_trouble (stop_with r)"
  by (auto simp: reports_trouble_def stop_with_def)

lemma body_loop_Inl: "body_loop now step n acc cs = Inl r \<Longrightarrow> trouble_report r"
proof (induction cs arbitrary: acc)
  case (Cons c cs)
  then show ?case by (cases c) (auto split: if_splits)
qed (auto split: if_splits)

lemma trouble_body [simp]: "reports_trouble (reported (small_body now r step))"
  by (cases "small_body now r step") (auto simp: reports_trouble_def reported_def small_body_def dest: body_loop_Inl)

lemma trouble_request [simp]: "reports_trouble (request http now path m c b step)"
  unfolding request_def
  by (rule trouble_attempt) (auto simp: reports_trouble_def send_def split: prod.splits if_splits option.splits)

lemma trouble_checkpoint [simp]: "reports_trouble (checkpoint now)"
  unfolding checkpoint_def
  by (rule trouble_attempt) (auto simp: reports_trouble_def is_cancelled_def split: option.splits nat.splits)

lemma trouble_steps [simp]:
  "reports_trouble (probe_read http now step)"
  "reports_trouble (write_expecting http now c body expected step)"
  "reports_trouble (conditional_read http now tag n text step)"
  unfolding probe_read_def write_expecting_def conditional_read_def Let_def
  by (auto intro!: trouble_attempt split: option.split)

lemma trouble_verify: "reports_trouble (verify http now p)"
  unfolding verify_def verify_create_def verify_update_def
  by (auto intro!: trouble_attempt)

lemma trouble_start: "reports_trouble (start_probe http now setup)"
  unfolding start_probe_def Let_def
  by (auto intro!: trouble_attempt split: option.split)

lemma stop_report_trouble:
  "reports_trouble m \<Longrightarrow> m e = (Inl s, e') \<Longrightarrow> trouble_report (stop_report now s)"
  by (cases s) (auto simp: stop_report_def reports_trouble_def)

lemma cleanup_trouble: "cleanup http now n p e = (Inl r, e') \<Longrightarrow> cap_state r = Incomplete"
  by (auto simp: cleanup_def Let_def split: prod.splits sum.splits)

lemma supported_run:
  assumes "check_webdav http now deadline cleanup_deadline setup e = ((report, pending), e')"
    and "cap_state report = Supported"
  shows "pending = None \<and> (\<exists>p e1 e2. start_probe http now setup (e\<lparr>budget := deadline\<rparr>) = (Inr p, e1) \<and>
    verify http now p e1 = (Inr (), e2))"
proof -
  let ?start = "start_probe http now setup (e\<lparr>budget := deadline\<rparr>)"
  show ?thesis
  proof (cases "fst ?start")
    case (Inl s)
    then have "cap_state (stop_report now s) \<noteq> Supported"
      using stop_report_trouble [OF trouble_start] unfolding trouble_report_def by (metis prod.collapse)
    then show ?thesis using assms Inl
      by (auto simp: check_webdav_def Let_def split: prod.splits sum.splits if_splits)
  next
    case (Inr p)
    then obtain e1 where start: "?start = (Inr p, e1)" by (metis prod.collapse)
    show ?thesis
    proof (cases "fst (verify http now p e1)")
      case (Inl s)
      then have "cap_state (stop_report now s) \<noteq> Supported"
        using stop_report_trouble [OF trouble_verify] unfolding trouble_report_def by (metis prod.collapse)
      then show ?thesis using assms start Inl cleanup_trouble
        by (fastforce simp: check_webdav_def Let_def split: prod.splits sum.splits if_splits)
    next
      case verified: (Inr u)
      then show ?thesis using assms start cleanup_trouble
        by (fastforce simp: check_webdav_def Let_def split: prod.splits sum.splits if_splits)
    qed
  qed
qed

lemma cleanup_report:
  "cleanup http now n p e = (Inl r, e') \<Longrightarrow> cap_reason r = Some Cleanup \<and> cap_state r = Incomplete"
  by (auto simp: cleanup_def Let_def split: prod.splits sum.splits)

lemma check_leftovers:
  assumes "check_webdav http now deadline cleanup_deadline setup e = ((r, pending), e')" and "cleanup_file r \<noteq> None"
  shows "cap_reason r = Some Cleanup \<and> cap_state r = Incomplete"
proof -
  have started: "start_probe http now setup env = (Inl s, env') \<Longrightarrow> cleanup_file (stop_report now s) = None" for env s env'
    using stop_report_trouble [OF trouble_start] unfolding trouble_report_def by blast
  have verified: "verify http now p env = (Inl s, env') \<Longrightarrow> cleanup_file (stop_report now s) = None" for p env s env'
    using stop_report_trouble [OF trouble_verify] unfolding trouble_report_def by blast
  show ?thesis
    using assms started verified cleanup_report
    by (fastforce simp: check_webdav_def Let_def supported_def issue_def split: prod.splits sum.splits if_splits)
qed

section \<open>What the probe touches\<close>

definition keeps :: "('srv \<Rightarrow> 'b) \<Rightarrow> ('srv, 'a) probe \<Rightarrow> bool" where
  "keeps view m \<longleftrightarrow> (\<forall>e. view (server (snd (m e))) = view (server e))"

lemma keeps_run: "keeps view m \<Longrightarrow> m e = (r, e') \<Longrightarrow> view (server e') = view (server e)"
  unfolding keeps_def by (metis snd_conv)

lemma keeps_attempt: "keeps view m \<Longrightarrow> (\<And>a. keeps view (f a)) \<Longrightarrow> keeps view (attempt m f)"
  by (auto simp: keeps_def attempt_def split: prod.splits sum.splits) (metis snd_conv)+

lemma keeps_basic [simp]:
  "keeps view (ok a)" "keeps view (stop_with r)" "keeps view (reported x)" "keeps view (checkpoint now)"
  by (auto simp: keeps_def stop_with_def reported_def checkpoint_def attempt_def is_cancelled_def
      split: option.split nat.split)

lemma keeps_request:
  assumes "\<And>s. view (snd (http s path \<lparr>rq_method = m, rq_condition = c, rq_body = b\<rparr>)) = view s"
  shows "keeps view (request http now path m c b step)"
  unfolding keeps_def
proof
  fix e
  have "view (server (snd (send http path \<lparr>rq_method = m, rq_condition = c, rq_body = b\<rparr> e))) = view (server e)"
    using assms [of "server e"] by (auto simp: send_def split: prod.splits)
  then show "view (server (snd (request http now path m c b step e))) = view (server e)"
    by (auto simp: request_def attempt_def split: prod.splits sum.splits option.splits)
qed

lemma check_keeps:
  assumes probe: "\<And>s rq. view (snd (http s ProbeFile rq)) = view s"
    and read: "\<And>s. view (snd (http s SyncFile \<lparr>rq_method = GET, rq_condition = NoCondition, rq_body = None\<rparr>)) = view s"
    and run: "check_webdav http now deadline cleanup_deadline setup e = (result, e')"
  shows "view (server e') = view (server e)"
proof -
  have [simp]: "keeps view (request http now ProbeFile m c b step)" for m c b step
    by (rule keeps_request) (simp add: probe)
  have [simp]: "keeps view (request http now SyncFile GET NoCondition None step)" for step
    by (rule keeps_request) (simp add: read)
  have steps [simp]: "keeps view (probe_read http now step)" "keeps view (write_expecting http now c body expected step)"
    "keeps view (conditional_read http now tag n wanted step)" for step c body expected tag n wanted
    unfolding probe_read_def write_expecting_def conditional_read_def Let_def
    by (auto intro!: keeps_attempt split: option.split)
  have verify: "keeps view (verify http now p)" for p
    unfolding verify_def verify_create_def verify_update_def by (auto intro!: keeps_attempt)
  have start: "keeps view (start_probe http now setup)"
    unfolding start_probe_def Let_def by (auto intro!: keeps_attempt split: option.split)
  have "keeps view (cleanup_run http now p)" for p
    unfolding cleanup_run_def Let_def by (auto intro!: keeps_attempt)
  then have cleanup: "cleanup http now n p d = (r, d') \<Longrightarrow> view (server d') = view (server d)" for n p d r d'
    using keeps_run by (fastforce simp: cleanup_def Let_def split: prod.splits sum.splits)
  have cancelled: "is_cancelled d = (r, d') \<Longrightarrow> server d' = server d" for d d' :: "'a probe_env" and r
    by (auto simp: is_cancelled_def split: option.splits nat.splits)
  show ?thesis
    using run keeps_run [OF start] keeps_run [OF verify] cleanup cancelled
    by (auto simp: check_webdav_def Let_def split: prod.splits sum.splits if_splits)
qed

section \<open>A server that follows the rules\<close>

record ref_server =
  probe_file :: "(string \<times> nat) option"
  sync_file :: "(string \<times> nat) option"
  versions :: nat

definition tag_text :: "nat \<Rightarrow> string" where
  "tag_text n = DQUOTE # show_nat n @ [DQUOTE]"

definition answer :: "nat \<Rightarrow> string option \<Rightarrow> string \<Rightarrow> http_response option" where
  "answer code tag body = Some \<lparr>rs_status = code, rs_etag = tag, rs_chunks = [Some body], rs_text = Some body\<rparr>"

definition met :: "precondition \<Rightarrow> (string \<times> nat) option \<Rightarrow> bool" where
  "met c f = (case c of
     NoCondition \<Rightarrow> True
   | IfMatch t \<Rightarrow> (case f of None \<Rightarrow> False | Some (_, n) \<Rightarrow> t = tag_text n)
   | IfNoneMatch t \<Rightarrow> (case f of None \<Rightarrow> True | Some (_, n) \<Rightarrow> t \<noteq> ''*'' \<and> t \<noteq> tag_text n))"

definition ref_file :: "(string \<times> nat) option \<Rightarrow> nat \<Rightarrow> http_request \<Rightarrow> http_response option \<times> (string \<times> nat) option \<times> nat" where
  "ref_file f n rq =
     (case rq_method rq of
        GET \<Rightarrow> (case f of
            None \<Rightarrow> (answer 404 None [], f, n)
          | Some (body, v) \<Rightarrow>
              if met (rq_condition rq) f then (answer 200 (Some (tag_text v)) body, f, n)
              else (answer 304 (Some (tag_text v)) [], f, n))
      | PUT \<Rightarrow>
          if met (rq_condition rq) f
          then (answer 201 None [], Some (case rq_body rq of Some b \<Rightarrow> b | None \<Rightarrow> [], n), n + 1)
          else (answer 412 None [], f, n)
      | DELETE \<Rightarrow>
          if f = None then (answer 404 None [], f, n)
          else if met (rq_condition rq) f then (answer 204 None [], None, n)
          else (answer 412 None [], f, n))"

definition ref_http :: "ref_server http" where
  "ref_http s path rq =
     (case path of
        ProbeFile \<Rightarrow> (case ref_file (probe_file s) (versions s) rq of
            (r, f, n) \<Rightarrow> (r, s\<lparr>probe_file := f, versions := n\<rparr>))
      | SyncFile \<Rightarrow> (case ref_file (sync_file s) (versions s) rq of
            (r, f, n) \<Rightarrow> (r, s\<lparr>sync_file := f, versions := n\<rparr>)))"

definition ref_content :: "ref_server \<Rightarrow> (string \<times> string) option" where
  "ref_content s = map_option (\<lambda>(b, n). (b, tag_text n)) (probe_file s)"

lemma ref_reads_honestly: "reads_honestly ref_http ref_content"
  by (auto simp: reads_honestly_def ref_http_def ref_file_def ref_content_def answer_def met_def
      split: option.splits prod.splits intro!: exI [of _ "[_]"])

lemma tag_inject [simp]: "tag_text a = tag_text b \<longleftrightarrow> a = b"
proof
  assume "tag_text a = tag_text b"
  then have "show_nat a = show_nat b" by (simp add: tag_text_def)
  then show "a = b" by (metis digits_value_show option.inject)
qed simp

lemma tag_not_star [simp]: "tag_text n \<noteq> ''*''" "''*'' \<noteq> tag_text n"
  by (simp_all add: tag_text_def)

lemma digit_etag_byte: "is_ascii_digit c \<Longrightarrow> etag_byte c \<and> 32 \<le> byte_val c \<and> byte_val c < 127"
  by (auto simp: is_ascii_digit_def etag_byte_def)

lemma tag_strong [simp]: "classify_etag (Some (tag_text n)) = StrongTag"
proof -
  have "strip_prefix ''W/'' (tag_text n) = None" by (simp add: strip_prefix_def tag_text_def)
  moreover have "opaque_tag (tag_text n)"
    using show_nat_digits [of n] digit_etag_byte by (auto simp: opaque_tag_def tag_text_def butlast_append Suc_le_eq)
  ultimately show ?thesis by (simp add: classify_etag_def)
qed

lemma tag_header [simp]: "header_text (tag_text n)"
proof -
  have "byte_val DQUOTE = 34" by (simp add: byte_val_def)
  then show ?thesis using show_nat_digits [of n] digit_etag_byte by (auto simp: header_text_def tag_text_def)
qed

lemma ref_get [simp]:
  "ref_http s ProbeFile \<lparr>rq_method = GET, rq_condition = c, rq_body = b\<rparr> =
     (case probe_file s of None \<Rightarrow> answer 404 None []
      | Some (body, v) \<Rightarrow> if met c (probe_file s) then answer 200 (Some (tag_text v)) body else answer 304 (Some (tag_text v)) [], s)"
  by (cases s) (auto simp: ref_http_def ref_file_def split: option.split)

abbreviation (input) calm :: "ref_server \<Rightarrow> nat \<Rightarrow> bool \<Rightarrow> ref_server probe_env" where
  "calm s k fl \<equiv> \<lparr>server = s, cancel_in = None, budget = k, in_flight = fl\<rparr>"

lemma calm_checkpoint [simp]: "attempt (checkpoint now) f (calm s k fl) = f () (calm s k fl)"
  by (simp add: checkpoint_def attempt_def is_cancelled_def)

lemma calm_send:
  "send ref_http path rq (calm s (Suc k) fl) = (case ref_http s path rq of (r, s') \<Rightarrow> (Inr r, calm s' k fl))"
  by (simp add: send_def split: prod.split)

definition small :: "string \<Rightarrow> bool" where
  "small b \<longleftrightarrow> valid_utf8 b \<and> length b \<le> 8192"

lemma calm_read:
  assumes "probe_file s = Some (b, v)" "small b"
  shows "attempt (probe_read ref_http now step) f (calm s (Suc k) fl) = f (b, tag_text v) (calm s k fl)"
  using assms
  by (simp add: probe_read_def request_def attempt_def calm_send met_def answer_def response_tag_def small_body_def
      reported_def small_def Let_def)

lemma calm_conditional_read:
  assumes "probe_file s = Some (b, v)" "small b"
  shows "attempt (conditional_read ref_http now (tag_text v) 304 None step) f (calm s (Suc k) fl) = f () (calm s k fl)"
    and "w \<noteq> v \<Longrightarrow> attempt (conditional_read ref_http now (tag_text w) 200 (Some b) step) f (calm s (Suc k) fl) = f () (calm s k fl)"
  using assms
  by (simp_all add: conditional_read_def request_def attempt_def calm_send met_def answer_def response_tag_def
      small_body_def reported_def small_def Let_def)

lemma calm_write:
  assumes "if met c (probe_file s) then expected 201 else expected 412"
  shows "attempt (write_expecting ref_http now c body expected step) f (calm s (Suc k) fl) =
    f () (calm (if met c (probe_file s) then s\<lparr>probe_file := Some (body, versions s), versions := versions s + 1\<rparr> else s) k fl)"
  using assms
  by (cases s) (auto simp: write_expecting_def request_def attempt_def calm_send ref_http_def ref_file_def answer_def)

lemma calm_verify:
  assumes "probe_file s = None" "small b0" "small b1"
  shows "verify ref_http now \<lparr>bodies = [b0, b1, b2], filename = nm\<rparr> (calm s (11 + k) fl) =
    (Inr (), calm (s\<lparr>probe_file := Some (b1, versions s + 1), versions := versions s + 2\<rparr>) k fl)"
proof -
  have twice: "checkpoint now (calm t n fl) = (Inr (), calm t n fl)" for t n
    by (simp add: checkpoint_def attempt_def is_cancelled_def)
  have assoc: "attempt (attempt m f) g e = attempt m (\<lambda>a. attempt (f a) g) e" for m f g and e :: "ref_server probe_env"
    by (auto simp: attempt_def split: prod.split sum.split)
  have [simp]: "attempt (ok a) f e = f a e" for a f and e :: "ref_server probe_env" by (simp add: attempt_def)
  have budget: "11 + k = Suc (Suc (Suc (Suc (Suc (Suc (Suc (Suc (Suc (Suc (Suc k))))))))))" by simp
  show ?thesis
    unfolding budget using assms
    by (simp add: verify_def verify_create_def verify_update_def assoc calm_write calm_read
        calm_conditional_read met_def is_success_def twice split_def)
qed

lemma calm_request:
  "attempt (request ref_http now path m c b step) f (calm s (Suc k) fl) =
     (case ref_http s path \<lparr>rq_method = m, rq_condition = c, rq_body = b\<rparr> of
        (None, s') \<Rightarrow> (Inl (Failed (issue now Network step None MissingTag)), calm s' k fl)
      | (Some r, s') \<Rightarrow> f r (calm s' k fl))"
  by (simp add: request_def attempt_def calm_send split: prod.split option.split)

lemma calm_start:
  assumes "parsed_url setup = Some u" "probe_url_ok u" "client_built setup" "url_joined setup" "probe_file s = None"
  shows "start_probe ref_http now setup (calm s (Suc (Suc n)) fl) =
    (Inr (new_probe (new_id setup) (body_ids setup)), calm s n fl)"
  using assms
  by (cases s; cases "sync_file s")
     (auto simp: start_probe_def calm_request ref_http_def ref_file_def answer_def met_def response_tag_def Let_def)

lemma calm_cleanup:
  assumes "probe_file s = Some (b, v)" "small b" "b \<in> set (bodies p)"
  shows "cleanup ref_http now (3 + k) p (calm s n fl) = (Inr (), calm (s\<lparr>probe_file := None\<rparr>) k fl)"
proof -
  have budget: "3 + k = Suc (Suc (Suc k))" by simp
  have put: "attempt (reported (Inr x)) f e = f x e" for x and f :: "string \<Rightarrow> (ref_server, unit) probe" and e
    by (simp add: attempt_def reported_def)
  show ?thesis
    unfolding budget using assms
    by (cases s) (simp add: cleanup_def cleanup_run_def calm_request ref_http_def ref_file_def answer_def met_def
        response_tag_def Let_def small_body_def small_def put is_success_def)
qed

definition probe_body :: "string \<Rightarrow> string" where
  "probe_body u = ''{'' @ [DQUOTE] @ ''probe'' @ [DQUOTE] @ '':'' @ [DQUOTE] @ u @ [DQUOTE] @ ''}''"

lemma small_probe_body: "list_all (\<lambda>c. byte_val c < 128) u \<Longrightarrow> length u \<le> 64 \<Longrightarrow> small (probe_body u)"
  unfolding small_def
  by (auto simp: probe_body_def list_all_iff byte_val_def intro!: valid_utf8_ascii)

lemma calm_check:
  assumes "parsed_url setup = Some u" and "probe_url_ok u" and "client_built setup" and "url_joined setup"
    and ids: "body_ids setup = [u0, u1, u2]"
    and small_ids: "list_all (\<lambda>u. list_all (\<lambda>c. byte_val c < 128) u \<and> length u \<le> 64) [u0, u1, u2]"
    and free: "probe_file s = None" and budgets: "13 \<le> deadline" "3 \<le> cleanup_deadline"
  shows "\<exists>s' k. check_webdav ref_http now deadline cleanup_deadline setup (calm s b fl) =
      ((supported now, None), calm s' k fl) \<and> probe_file s' = None \<and> sync_file s' = sync_file s"
proof -
  obtain k1 k2 where k: "deadline = Suc (Suc (11 + k1))" "cleanup_deadline = 3 + k2"
    using budgets le_Suc_ex [of 13 deadline] le_Suc_ex [of 3 cleanup_deadline] by auto
  have small: "small (probe_body u0)" "small (probe_body u1)" using small_ids small_probe_body by simp_all
  let ?s = "s\<lparr>probe_file := Some (probe_body u1, versions s + 1), versions := versions s + 2\<rparr>"
  let ?p = "\<lparr>bodies = [probe_body u0, probe_body u1, probe_body u2], filename = ''miaominal-sync-probe-'' @ new_id setup @ ''.json''\<rparr>"
  have probe: "new_probe (new_id setup) (body_ids setup) = ?p"
    by (simp add: new_probe_def probe_body_def ids)
  have start: "start_probe ref_http now setup (calm s deadline fl) = (Inr ?p, calm s (11 + k1) fl)"
    unfolding k probe [symmetric] by (rule calm_start [OF assms(1-4) free])
  have clean: "cleanup ref_http now cleanup_deadline ?p (calm ?s k1 fl) = (Inr (), calm (?s\<lparr>probe_file := None\<rparr>) k2 fl)"
    unfolding k by (rule calm_cleanup [where b = "probe_body u1"]) (simp_all add: small)
  have "check_webdav ref_http now deadline cleanup_deadline setup (calm s b fl) =
      ((supported now, None), calm (?s\<lparr>probe_file := None\<rparr>) k2 fl)"
    using start calm_verify [OF free small] clean by (simp add: check_webdav_def is_cancelled_def)
  then show ?thesis by auto
qed

section \<open>Cleaning up\<close>

lemma honest_request:
  assumes "reads_honestly http content" and "request http now ProbeFile GET NoCondition None step e = (result, e')"
  shows "content (server e') = content (server e)"
    and "result = Inr r \<Longrightarrow> rs_status r = 404 \<Longrightarrow> content (server e) = None"
    and "result = Inr r \<Longrightarrow> rs_status r = 200 \<Longrightarrow>
      \<exists>cs tag. content (server e) = Some (concat cs, tag) \<and> rs_chunks r = map Some cs"
  using assms
  by (fastforce simp: request_def reads_honestly_def attempt_def send_def
      split: prod.splits sum.splits if_splits option.splits)+

lemma honest_404:
  "reads_honestly http content \<Longrightarrow> request http now ProbeFile GET NoCondition None step e = (Inr r, e') \<Longrightarrow>
   rs_status r = 404 \<Longrightarrow> content (server e') = None"
  using honest_request(1,2) by metis

lemma cleanup_run_Inr:
  assumes "reads_honestly http content" and "cleanup_run http now p e = (Inr u, e')"
  shows "content (server e') = None"
  using assms(2) unfolding cleanup_run_def Let_def
  by (auto simp: attempt_eq_Inr stop_with_def split: if_splits
      dest: honest_404 [OF assms(1)])

lemma cleanup_run_keeps:
  assumes honest: "reads_honestly http content" and foreign: "content (server e) = Some (b, t)" "b \<notin> set (bodies p)"
  shows "content (server (snd (cleanup_run http now p e))) = content (server e)"
proof -
  let ?get = "request http now ProbeFile GET NoCondition None ''cleanup-read''"
  obtain result e1 where get: "?get e = (result, e1)" by (metis prod.collapse)
  note known = honest_request [OF honest get]
  show ?thesis
  proof (cases result)
    case (Inl x)
    then show ?thesis using get known(1) by (simp add: cleanup_run_def attempt_def)
  next
    case (Inr r)
    have "small_body now r ''cleanup-read'' = Inr body \<Longrightarrow> rs_status r = 200 \<Longrightarrow> body = b" for body
      using known(3) [OF Inr] foreign small_body_Inr by fastforce
    then show ?thesis using Inr get known(1) known(2) [OF Inr] foreign
      by (cases "small_body now r ''cleanup-read''")
         (auto simp: cleanup_run_def attempt_def Let_def stop_with_def reported_def)
  qed
qed

definition example_setup :: probe_setup where
  \<comment> \<open>a check of \<^verbatim>\<open>https://h/f\<close>\<close>
  "example_setup = \<lparr>parsed_url = Some \<lparr>url_scheme = ''https'', url_host = Some ''h'', url_path = ''/f'',
     url_query = None, url_fragment = None\<rparr>, client_built = True, url_joined = True, new_id = ''n'', body_ids = [''a'', ''b'', ''c'']\<rparr>"

definition example_server :: ref_server where
  "example_server = \<lparr>probe_file = None, sync_file = Some (''x'', 0), versions = 1\<rparr>"

lemma example_holds:
  "parsed_url example_setup = Some \<lparr>url_scheme = ''https'', url_host = Some ''h'', url_path = ''/f'', url_query = None, url_fragment = None\<rparr>"
  "probe_url_ok \<lparr>url_scheme = ''https'', url_host = Some ''h'', url_path = ''/f'', url_query = None, url_fragment = None\<rparr>"
  "client_built example_setup" "url_joined example_setup" "body_ids example_setup = [''a'', ''b'', ''c'']"
  "list_all (\<lambda>u. list_all (\<lambda>c. byte_val c < 128) u \<and> length u \<le> 64) [''a'', ''b'', ''c'']"
  "probe_file example_server = None" "13 \<le> (13::nat)" "3 \<le> (3::nat)"
  by (simp_all add: example_setup_def example_server_def probe_url_ok_def suffix_def byte_val_def)

section \<open>Properties\<close>

text \<open>C28: A report \<^verbatim>\<open>Supported\<close> is evidence: whatever else the server does, if it reads the probe file out
  honestly and the check reports support, then the server has refused, with status 412 and without
  changing the file, to create it a second time and to overwrite it under a tag that was no longer
  current.\<close>

theorem supported_means_stale_writes_are_refused:
  assumes "reads_honestly http content"
    and "check_webdav http now deadline cleanup_deadline setup e = ((report, pending), e')"
    and "cap_state report = Supported"
  shows "\<exists>b0 b1 b2 s tag s' next_tag. content s = Some (b0, tag) \<and> refuses http content s (IfNoneMatch ''*'') b0 b2 \<and>
    content s' = Some (b1, next_tag) \<and> next_tag \<noteq> tag \<and> refuses http content s' (IfMatch tag) b1 b2"
proof -
  obtain p e1 e2 where "verify http now p e1 = (Inr (), e2)" using supported_run [OF assms(2,3)] by blast
  then obtain tag next_tag d1 d2 d3 d4 where
    "verify_create http now (bodies p ! 0) (bodies p ! 2) d1 = (Inr tag, d2)"
    "verify_update http now tag (bodies p ! 1) (bodies p ! 2) d3 = (Inr next_tag, d4)"
    unfolding verify_def by (auto simp: attempt_eq_Inr)
  from verify_create_Inr [OF assms(1) this(1)] verify_update_Inr [OF assms(1) this(2)] show ?thesis by blast
qed

theorem supported_means_stale_writes_are_refused_witness:
  "\<exists>b0 b1 b2 s tag s' next_tag. ref_content s = Some (b0, tag) \<and> refuses ref_http ref_content s (IfNoneMatch ''*'') b0 b2 \<and>
    ref_content s' = Some (b1, next_tag) \<and> next_tag \<noteq> tag \<and> refuses ref_http ref_content s' (IfMatch tag) b1 b2"
proof -
  obtain s' k where "check_webdav ref_http 0 13 3 example_setup (calm example_server 0 False) =
      ((supported 0, None), calm s' k False)"
    using calm_check [OF example_holds, of 0 0 False] by blast
  from supported_means_stale_writes_are_refused [OF ref_reads_honestly this] show ?thesis
    by (simp add: supported_def)
qed

text \<open>A server that follows the rules passes: on a conforming server whose probe path is free, the check
  reports support after at most sixteen requests, the probe file is gone and the sync file is as before.\<close>

theorem conforming_server_is_supported:
  assumes "parsed_url setup = Some u" and "probe_url_ok u" and "client_built setup" and "url_joined setup"
    and "body_ids setup = [u0, u1, u2]"
    and "list_all (\<lambda>u. list_all (\<lambda>c. byte_val c < 128) u \<and> length u \<le> 64) [u0, u1, u2]"
    and "probe_file s = None" and "13 \<le> deadline" and "3 \<le> cleanup_deadline"
  shows "\<exists>s' k. check_webdav ref_http now deadline cleanup_deadline setup
      \<lparr>server = s, cancel_in = None, budget = b, in_flight = fl\<rparr> =
    ((supported now, None), \<lparr>server = s', cancel_in = None, budget = k, in_flight = fl\<rparr>) \<and>
    probe_file s' = None \<and> sync_file s' = sync_file s"
  by (rule calm_check [OF assms])

theorem conforming_server_is_supported_witness:
  "\<exists>s' k. check_webdav ref_http 0 13 3 example_setup
      \<lparr>server = example_server, cancel_in = None, budget = 0, in_flight = False\<rparr> =
    ((supported 0, None), \<lparr>server = s', cancel_in = None, budget = k, in_flight = False\<rparr>) \<and>
    probe_file s' = None \<and> sync_file s' = Some (''x'', 0)"
  using conforming_server_is_supported [OF example_holds, of 0 0 False]
  by (simp add: example_server_def)

text \<open>C34: The check leaves the sync file alone: it never writes to it, so on any server that does not change
  the sync file on its own the file is as before, whatever the server answers and whenever the check is
  cancelled or its deadline elapses.\<close>

theorem check_leaves_the_sync_file:
  assumes "\<And>s rq. view (snd (http s ProbeFile rq)) = view s"
    and "\<And>s. view (snd (http s SyncFile \<lparr>rq_method = GET, rq_condition = NoCondition, rq_body = None\<rparr>)) = view s"
  shows "view (server (snd (check_webdav http now deadline cleanup_deadline setup e))) = view (server e)"
  using check_keeps [of view http, OF assms] by (metis prod.collapse)

theorem check_leaves_the_sync_file_witness:
  "sync_file (server (snd (check_webdav ref_http 0 5 1 example_setup
      \<lparr>server = example_server, cancel_in = Some 3, budget = 0, in_flight = True\<rparr>))) = Some (''x'', 0)"
proof -
  have probe: "sync_file (snd (ref_http s ProbeFile rq)) = sync_file s" for s rq
    by (simp add: ref_http_def split: prod.split)
  have read: "sync_file (snd (ref_http s SyncFile \<lparr>rq_method = GET, rq_condition = NoCondition, rq_body = None\<rparr>)) = sync_file s" for s
    by (auto simp: ref_http_def ref_file_def split: prod.split option.split)
  show ?thesis
    unfolding check_leaves_the_sync_file [of sync_file ref_http, OF probe read] by (simp add: example_server_def)
qed

text \<open>C33: Cleaning up removes nothing that is not the probe's: a file with other content at the path of the
  probe is kept, and a cleanup that succeeds has seen the path free.\<close>

theorem cleanup_removes_only_the_probe:
  assumes "reads_honestly http content" and "cleanup http now deadline p e = (result, e')"
  shows "(result = Inr () \<longrightarrow> content (server e') = None) \<and>
    (\<forall>b t. content (server e) = Some (b, t) \<and> b \<notin> set (bodies p) \<longrightarrow> content (server e') = content (server e))"
proof -
  let ?run = "cleanup_run http now p (e\<lparr>budget := deadline\<rparr>)"
  have server: "server e' = server (snd ?run)" and same: "result = Inr () \<Longrightarrow> fst ?run = Inr ()"
    using assms(2) by (auto simp: cleanup_def Let_def split: prod.splits sum.splits)
  have "content (server e') = None" if "result = Inr ()"
  proof -
    from same [OF that] obtain d where "?run = (Inr (), d)" by (metis prod.collapse)
    with cleanup_run_Inr [OF assms(1)] server show ?thesis by simp
  qed
  moreover have "content (server e') = content (server e)" if "content (server e) = Some (b, t)" "b \<notin> set (bodies p)" for b t
    using cleanup_run_keeps [OF assms(1), of "e\<lparr>budget := deadline\<rparr>"] that server by simp
  ultimately show ?thesis by blast
qed

theorem cleanup_removes_only_the_probe_witness:
  "ref_content (server (snd (cleanup ref_http 0 2 \<lparr>bodies = [''a''], filename = ''f''\<rparr>
      \<lparr>server = \<lparr>probe_file = Some (''mine'', 0), sync_file = None, versions = 1\<rparr>, cancel_in = None, budget = 0, in_flight = True\<rparr>))) =
    Some (''mine'', tag_text 0)"
  using cleanup_removes_only_the_probe [OF ref_reads_honestly prod.collapse [symmetric],
      of 0 2 "\<lparr>bodies = [''a''], filename = ''f''\<rparr>"
        "\<lparr>server = \<lparr>probe_file = Some (''mine'', 0), sync_file = None, versions = 1\<rparr>, cancel_in = None, budget = 0, in_flight = True\<rparr>"]
  by (simp add: ref_content_def)

end
