(* ===== verification/Records.thy ===== *)
theory Records
  imports Profile
begin

text \<open>
  The smaller records of \<^verbatim>\<open>crates/miaominal-core/src\<close>: proxies (\<^verbatim>\<open>proxy.rs\<close>), snippets (\<^verbatim>\<open>snippet.rs\<close>)
  and managed keys (\<^verbatim>\<open>keychain.rs\<close>), and the identifiers that
  \<^verbatim>\<open>crates/miaominal-storage/src/keychain_store.rs\<close> gives to new keys.
\<close>

section \<open>Proxies\<close>

datatype ProxyProtocol = Socks5 | HttpConnect

datatype ProxyAuthMode = NoProxyAuth | UsernamePassword

definition DEFAULT_SOCKS5_PROXY_PORT :: "16 word" where "DEFAULT_SOCKS5_PROXY_PORT = 1080"
definition DEFAULT_HTTP_CONNECT_PROXY_PORT :: "16 word" where "DEFAULT_HTTP_CONNECT_PROXY_PORT = 8080"

fun default_port :: "ProxyProtocol \<Rightarrow> 16 word" where
  "default_port Socks5 = DEFAULT_SOCKS5_PROXY_PORT"
| "default_port HttpConnect = DEFAULT_HTTP_CONNECT_PROXY_PORT"

record ProxyProfile =
  proxy_id :: string
  proxy_name :: string
  protocol :: ProxyProtocol
  proxy_host :: string
  proxy_port :: "16 word"
  auth_mode :: ProxyAuthMode
  proxy_username :: string
  resolve_dns_through_proxy :: bool
  proxy_has_password :: bool

definition blank_proxy :: "string \<Rightarrow> nat \<Rightarrow> ProxyProfile" where
  "blank_proxy i ordinal =
     \<lparr>proxy_id = i, proxy_name = ''Proxy '' @ show_nat ordinal, protocol = Socks5, proxy_host = [],
      proxy_port = DEFAULT_SOCKS5_PROXY_PORT, auth_mode = NoProxyAuth, proxy_username = [],
      resolve_dns_through_proxy = True, proxy_has_password = False\<rparr>"

definition proxy_label :: "ProxyProfile \<Rightarrow> string" where
  "proxy_label p =
     (if trim (proxy_name p) = [] then proxy_host p @ '':'' @ show_nat (unat (proxy_port p)) else proxy_name p)"

section \<open>Snippets\<close>

record SnippetRecord =
  snippet_id :: string
  description :: string
  package :: string
  language :: string
  script :: string

definition matches_filter :: "SnippetRecord \<Rightarrow> string \<Rightarrow> bool" where
  "matches_filter s filter_text =
     (let f = to_ascii_lowercase (trim filter_text) in
      f = [] \<or> contains (to_ascii_lowercase
        (description s @ '' '' @ package s @ '' '' @ language s @ '' '' @ script s)) f)"

section \<open>Managed keys\<close>

datatype ManagedKeyGenerationAlgorithm = Ed25519 | Rsa4096

datatype ManagedKeySource = GeneratedKey | ImportedKey

record ManagedKeyRecord =
  key_id :: string
  key_name :: string
  algorithm :: string
  public_key :: string
  key_source :: ManagedKeySource

definition key_summary :: "ManagedKeyRecord \<Rightarrow> string" where
  "key_summary k = key_name k @ '' ('' @ algorithm k @ '')''"

partial_function (option) key_id_loop :: "ManagedKeyRecord list \<Rightarrow> nat \<Rightarrow> string option" where
  "key_id_loop keys n =
     (let candidate = ''managed-key-'' @ show_nat n in
      if list_all (\<lambda>key. key_id key \<noteq> candidate) keys then Some candidate else key_id_loop keys (n + 1))"

declare key_id_loop.simps [code]

definition next_key_id :: "ManagedKeyRecord list \<Rightarrow> string option" where
  \<comment> \<open>\<^term>\<open>None\<close> is a loop that does not end\<close>
  "next_key_id keys = key_id_loop keys (length keys + 1)"

lemma key_id_loop_ends:
  assumes "n \<le> m" "list_all (\<lambda>key. key_id key \<noteq> ''managed-key-'' @ show_nat m) keys"
  shows "\<exists>k. n \<le> k \<and> k \<le> m \<and> key_id_loop keys n = Some (''managed-key-'' @ show_nat k) \<and>
    list_all (\<lambda>key. key_id key \<noteq> ''managed-key-'' @ show_nat k) keys"
  using assms
proof (induction "m - n" arbitrary: n)
  case 0
  then show ?case by (subst key_id_loop.simps) (auto simp: Let_def)
next
  case (Suc d)
  show ?case
  proof (cases "list_all (\<lambda>key. key_id key \<noteq> ''managed-key-'' @ show_nat n) keys")
    case True
    then show ?thesis using Suc.prems by (intro exI [of _ n]) (subst key_id_loop.simps, simp add: Let_def)
  next
    case False
    have "d = m - (n + 1)" "n + 1 \<le> m" using Suc.hyps(2) by linarith+
    from Suc.hyps(1) [OF this(1) this(2) Suc.prems(2)] obtain k where
      "n + 1 \<le> k \<and> k \<le> m \<and> key_id_loop keys (n + 1) = Some (''managed-key-'' @ show_nat k) \<and>
        list_all (\<lambda>key. key_id key \<noteq> ''managed-key-'' @ show_nat k) keys" by blast
    with False show ?thesis by (intro exI [of _ k]) (subst key_id_loop.simps, auto simp: Let_def)
  qed
qed

lemma free_key_number:
  obtains m where "length keys + 1 \<le> m" "m \<le> 2 * length keys + 1"
    "list_all (\<lambda>key. key_id key \<noteq> ''managed-key-'' @ show_nat m) keys"
proof -
  let ?names = "(\<lambda>n. ''managed-key-'' @ show_nat n) ` {length keys + 1 .. 2 * length keys + 1}"
  have "card ?names = length keys + 1"
    by (subst card_image) (auto simp: inj_on_def show_nat_inject)
  moreover have "card (key_id ` set keys) \<le> length keys"
    by (metis card_length set_map length_map)
  ultimately have "\<not> ?names \<subseteq> key_id ` set keys"
    using card_mono [of "key_id ` set keys" ?names] by auto
  then show ?thesis using that by (force simp: list_all_iff)
qed

text \<open>A new key always gets an identifier, one that no key has, after at most one round more than there
  are keys.\<close>

theorem next_key_id_is_fresh:
  "\<exists>n \<le> 2 * length keys + 1. next_key_id keys = Some (''managed-key-'' @ show_nat n) \<and>
     ''managed-key-'' @ show_nat n \<notin> set (map key_id keys)"
proof -
  obtain m where "length keys + 1 \<le> m" "m \<le> 2 * length keys + 1"
    "list_all (\<lambda>key. key_id key \<noteq> ''managed-key-'' @ show_nat m) keys" by (rule free_key_number)
  from key_id_loop_ends [OF this(1,3)] obtain k where "k \<le> m"
    "key_id_loop keys (length keys + 1) = Some (''managed-key-'' @ show_nat k)"
    "list_all (\<lambda>key. key_id key \<noteq> ''managed-key-'' @ show_nat k) keys" by blast
  with \<open>m \<le> 2 * length keys + 1\<close> show ?thesis
    by (intro exI [of _ k]) (auto simp: next_key_id_def list_all_iff)
qed

end
