(* ===== verification/Settings_Properties.thy ===== *)
theory Settings_Properties
  imports Settings
begin

text \<open>
  Cleaning the settings is stable: \<^verbatim>\<open>sanitize\<close> and \<^verbatim>\<open>normalize\<close> end, and what they have cleaned they leave
  alone, so the revision of synchronised data does not depend on how often it was cleaned. The
  exception is a URL that ends in slashes and blanks in turn.
\<close>

section \<open>Trimming\<close>

lemma ws_head_take: "ws_head s = 0 \<Longrightarrow> ws_head (take n s) = 0"
proof (cases s)
  case (Cons c cs)
  assume zero: "ws_head s = 0"
  show ?thesis
  proof (cases "n = 0 \<or> byte_val c < 128")
    case True
    then show ?thesis using zero Cons by (cases n) (auto simp: ws_head_def split: if_splits)
  next
    case False
    then obtain m where n: "n = Suc m" by (cases n) auto
    have nonempty: "w \<noteq> []" if "w \<in> set wide_ws" for w using that by (auto simp: wide_ws_def)
    have "c \<notin> set ascii_ws" using zero Cons by (auto simp: ws_head_def)
    have "find (\<lambda>w. prefix w s) wide_ws = None"
    proof (rule ccontr)
      assume "find (\<lambda>w. prefix w s) wide_ws \<noteq> None"
      then obtain w where w: "find (\<lambda>w. prefix w s) wide_ws = Some w" by blast
      then have "w \<in> set wide_ws" by (auto simp: find_Some_iff)
      with nonempty w zero Cons False \<open>c \<notin> set ascii_ws\<close> show False by (simp add: ws_head_def)
    qed
    then have "find (\<lambda>w. prefix w (take n s)) wide_ws = None"
      unfolding find_None_iff using prefix_order.trans take_is_prefix by blast
    then show ?thesis using False Cons n \<open>c \<notin> set ascii_ws\<close> by (simp add: ws_head_def)
  qed
qed simp

lemma ws_head_trim_start [simp]: "ws_head (trim_start s) = 0"
  by (induction s rule: trim_start.induct) (subst trim_start.simps, simp)

lemma ws_tail_trim_end [simp]: "ws_tail (trim_end s) = 0"
  by (induction s rule: trim_end.induct) (subst trim_end.simps, simp)

lemma trim_end_prefix: "\<exists>n. trim_end s = take n s"
proof (induction s rule: trim_end.induct)
  case (1 s)
  then show ?case
    by (subst trim_end.simps) (force simp: take_take min_def intro: exI [of _ "length s"])
qed

lemma trim_start_fixed: "ws_head s = 0 \<Longrightarrow> trim_start s = s"
  by (subst trim_start.simps) simp

lemma trim_end_fixed: "ws_tail s = 0 \<Longrightarrow> trim_end s = s"
  by (subst trim_end.simps) simp

lemma trim_trim [simp]: "trim (trim s) = trim s"
proof -
  obtain n where "trim s = take n (trim_start s)" using trim_end_prefix by (auto simp: trim_def)
  then have "ws_head (trim s) = 0" by (simp add: ws_head_take)
  moreover have "ws_tail (trim s) = 0" by (simp add: trim_def)
  ultimately show ?thesis by (simp add: trim_def trim_start_fixed trim_end_fixed)
qed

lemma trim_Nil [simp]: "trim [] = []"
  by (simp add: trim_def trim_start_fixed trim_end_fixed)

lemma trim_visible: "s = [] \<or> visible (hd s) \<and> visible (last s) \<Longrightarrow> trim s = s"
proof (cases "s = []")
  case False
  assume "s = [] \<or> visible (hd s) \<and> visible (last s)"
  with False show ?thesis
    using trim_start_visible [of "hd s" "tl s"] trim_end_visible [of "last s" "butlast s"] by (simp add: trim_def)
qed simp

lemma trim_label [simp]: "trim (ai_provider_kind_label k) = ai_provider_kind_label k"
  by (rule trim_visible) (cases k; simp add: visible_def byte_val_def ascii_ws_def)

lemma trim_default_model [simp]: "trim (default_model k) = default_model k"
  by (rule trim_visible) (cases k; simp add: visible_def byte_val_def ascii_ws_def)

lemma label_nonempty [simp]: "ai_provider_kind_label k \<noteq> []"
  by (cases k) simp_all

section \<open>Providers\<close>

definition clean_provider :: "AiProviderConfig \<Rightarrow> bool" where
  "clean_provider p \<longleftrightarrow>
     trim (provider_id p) = provider_id p \<and> provider_id p \<noteq> [] \<and>
     trim (provider_name p) = provider_name p \<and> provider_name p \<noteq> [] \<and>
     trim (model p) = model p \<and> (model p \<noteq> [] \<or> default_model (provider_kind p) = []) \<and>
     trim_url (base_url p) = base_url p \<and> trim (api_key_env p) = api_key_env p \<and>
     keep_if valid_temperature (temperature p) = temperature p \<and>
     keep_if (\<lambda>c. AI_PROVIDER_POSITIVE_INTEGER_MIN \<le> c) (context_window p) = context_window p \<and>
     keep_if (\<lambda>c. AI_PROVIDER_POSITIVE_INTEGER_MIN \<le> c) (max_tokens p) = max_tokens p"

definition stable_url :: "string \<Rightarrow> bool" where
  "stable_url u \<longleftrightarrow> trim_url (trim_url u) = trim_url u"

definition good_ids :: "uuid_source \<Rightarrow> bool" where
  \<comment> \<open>identifiers are distinct texts without blanks at their ends\<close>
  "good_ids ids \<longleftrightarrow> inj ids \<and> (\<forall>k. ids k \<noteq> [] \<and> trim (ids k) = ids k)"

lemma keep_if_idem [simp]: "keep_if P (keep_if P v) = keep_if P v"
  by (simp add: keep_if_def split: option.split)

lemma sanitize_clean: "clean_provider p \<Longrightarrow> sanitize_provider ids p k = (p, k)"
  by (cases p) (auto simp: sanitize_provider_def clean_provider_def)

lemma sanitize_cleans:
  assumes "good_ids ids" "stable_url (base_url p)" "sanitize_provider ids p k = (q, k')"
  shows "clean_provider q"
  using assms by (auto simp: sanitize_provider_def clean_provider_def good_ids_def stable_url_def Let_def split: if_splits)

lemma clean_new_id: "clean_provider p \<Longrightarrow> good_ids ids \<Longrightarrow> clean_provider (p\<lparr>provider_id := ids k\<rparr>)"
  by (simp add: clean_provider_def good_ids_def)

lemma sanitize_each_clean:
  "\<forall>p \<in> set ps. clean_provider p \<Longrightarrow> sanitize_each ids ps k = (ps, k)"
  by (induction ps) (simp_all add: sanitize_clean)

lemma sanitize_each_cleans:
  assumes "good_ids ids" "\<forall>p \<in> set ps. stable_url (base_url p)" "sanitize_each ids ps k = (qs, k')"
  shows "\<forall>q \<in> set qs. clean_provider q"
  using assms(2,3)
  by (induction ps arbitrary: qs k k') (auto simp: sanitize_cleans [OF assms(1)] split: prod.splits)

lemma unseen_id_fresh: "i \<notin> set seen \<Longrightarrow> unseen_id ids seen i k = Some (i, k)"
  by (subst unseen_id.simps) simp

lemma unseen_id_ends:
  assumes "inj ids"
  shows "\<exists>j k'. unseen_id ids seen i k = Some (j, k') \<and> j \<notin> set seen \<and> (j = i \<and> k' = k \<or> j \<in> range ids)"
proof -
  have "\<exists>n \<ge> k. ids n \<notin> set seen"
  proof (rule ccontr)
    assume "\<not> ?thesis"
    then have "ids ` {k..} \<subseteq> set seen" by auto
    then have "finite (ids ` {k..})" by (rule finite_subset) simp
    then show False using finite_imageD [of ids "{k..}"] inj_on_subset [OF assms, of "{k..}"] infinite_Ici by blast
  qed
  then obtain n where "k \<le> n" "ids n \<notin> set seen" by blast
  then show ?thesis
  proof (induction "n - k" arbitrary: k i)
    case 0
    then have "n = k" by simp
    with 0 show ?case
      by (cases "i \<in> set seen") (subst unseen_id.simps, auto simp: unseen_id_fresh)
  next
    case (Suc d)
    then have "d = n - (k + 1)" "k + 1 \<le> n" by linarith+
    from Suc.hyps(1) [OF this Suc.prems(2), of "ids k"] show ?case
      by (cases "i \<in> set seen") (subst unseen_id.simps, auto simp: unseen_id_fresh)
  qed
qed

lemma distinct_ids_fixed:
  "distinct (map provider_id ps) \<Longrightarrow> set (map provider_id ps) \<inter> set seen = {} \<Longrightarrow>
   distinct_ids ids seen ps k = Some (ps, k)"
  by (induction ids seen ps k rule: distinct_ids.induct) (auto simp: unseen_id_fresh)

lemma distinct_ids_ends:
  assumes "good_ids ids"
  shows "\<exists>qs k'. distinct_ids ids seen ps k = Some (qs, k') \<and> distinct (map provider_id qs) \<and>
    set (map provider_id qs) \<inter> set seen = {} \<and> map provider_name qs = map provider_name ps \<and>
    ((\<forall>p \<in> set ps. clean_provider p) \<longrightarrow> (\<forall>q \<in> set qs. clean_provider q))"
proof (induction ps arbitrary: seen k)
  case (Cons p ps)
  obtain j k' where j: "unseen_id ids seen (provider_id p) k = Some (j, k')" "j \<notin> set seen"
    "j = provider_id p \<or> j \<in> range ids"
    using unseen_id_ends [of ids seen "provider_id p" k] assms by (auto simp: good_ids_def)
  obtain qs l where rest: "distinct_ids ids (j # seen) ps k' = Some (qs, l)" "distinct (map provider_id qs)"
    "set (map provider_id qs) \<inter> set (j # seen) = {}" "map provider_name qs = map provider_name ps"
    "(\<forall>p \<in> set ps. clean_provider p) \<longrightarrow> (\<forall>q \<in> set qs. clean_provider q)"
    using Cons.IH [of "j # seen" k'] by blast
  have "clean_provider p \<Longrightarrow> clean_provider (p\<lparr>provider_id := j\<rparr>)"
    using j(3) clean_new_id [OF _ assms] by auto
  with j rest show ?case by auto
qed simp

definition stable_providers :: "AiProviderConfig list \<Rightarrow> bool" where
  "stable_providers ps \<longleftrightarrow> (\<forall>p \<in> set ps. clean_provider p) \<and> distinct (map provider_id ps) \<and>
     sorted (map (\<lambda>p. to_ascii_lowercase (provider_name p)) ps)"

lemma sanitize_stable: "stable_providers ps \<Longrightarrow> sanitize_ai_providers ids ps k = Some (ps, k)"
proof -
  assume stable: "stable_providers ps"
  then have "filter (\<lambda>p. trim (provider_id p) \<noteq> []) ps = ps"
    by (auto simp: stable_providers_def clean_provider_def intro!: filter_True)
  then show ?thesis using stable
    by (simp add: stable_providers_def sanitize_ai_providers_def sanitize_each_clean sort_key_id_if_sorted
        distinct_ids_fixed)
qed

lemma sanitize_ends:
  assumes "good_ids ids"
  shows "\<exists>qs k'. sanitize_ai_providers ids ps k = Some (qs, k') \<and>
    ((\<forall>p \<in> set ps. stable_url (base_url p)) \<longrightarrow> stable_providers qs)"
proof -
  obtain es k1 where es: "sanitize_each ids ps k = (es, k1)" by fastforce
  let ?fs = "filter (\<lambda>p. trim (provider_id p) \<noteq> []) es"
  let ?ss = "sort_key (\<lambda>p. to_ascii_lowercase (provider_name p)) ?fs"
  obtain qs k2 where qs: "distinct_ids ids [] ?ss k1 = Some (qs, k2)" "distinct (map provider_id qs)"
    "map provider_name qs = map provider_name ?ss" "(\<forall>p \<in> set ?ss. clean_provider p) \<longrightarrow> (\<forall>q \<in> set qs. clean_provider q)"
    using distinct_ids_ends [OF assms, of "[]" ?ss k1] by blast
  have "map (\<lambda>p. to_ascii_lowercase (provider_name p)) qs = map to_ascii_lowercase (map provider_name qs)" by simp
  also have "\<dots> = map (\<lambda>p. to_ascii_lowercase (provider_name p)) ?ss" unfolding qs(3) by simp
  finally have sorted: "sorted (map (\<lambda>p. to_ascii_lowercase (provider_name p)) qs)"
    using sorted_sort_key [of "\<lambda>p. to_ascii_lowercase (provider_name p)" ?fs] by (simp only:)
  have "stable_providers qs" if "\<forall>p \<in> set ps. stable_url (base_url p)"
  proof -
    have "\<forall>p \<in> set ?ss. clean_provider p" using sanitize_each_cleans [OF assms that es] by simp
    then show ?thesis unfolding stable_providers_def using qs(2,4) sorted by blast
  qed
  moreover have "sanitize_ai_providers ids ps k = Some (qs, k2)"
    using es qs(1) by (simp add: sanitize_ai_providers_def)
  ultimately show ?thesis by blast
qed

section \<open>Settings\<close>

lemma clamp_again [simp]: "lo \<le> hi \<Longrightarrow> clamp (clamp x lo hi) lo hi = clamp x lo hi"
  by (auto simp: clamp_def)

lemma sanitize_web_search_idem:
  assumes "stable_url (endpoint w)"
  shows "sanitize_web_search (sanitize_web_search w) = sanitize_web_search w"
  using assms
  by (cases w) (auto simp: sanitize_web_search_def stable_url_def Let_def WEB_SEARCH_MAX_RESULTS_MIN_def
      WEB_SEARCH_MAX_RESULTS_MAX_def)

lemma sanitize_bridge_idem [simp]: "sanitize_bridge (sanitize_bridge b) = sanitize_bridge b"
  by (simp add: sanitize_bridge_def)

lemma sanitize_bridge_policy [simp]: "security_policy (sanitize_bridge b) = security_policy b"
  by (simp add: sanitize_bridge_def)

lemma sanitize_columns_idem [simp]:
  "sanitize_sftp_browser_hidden_columns (sanitize_sftp_browser_hidden_columns cs) = sanitize_sftp_browser_hidden_columns cs"
proof -
  let ?c = "remdups_adj (sort (filter (\<lambda>c. c < SFTP_BROWSER_COLUMN_COUNT) cs))"
  have "filter (\<lambda>c. c < SFTP_BROWSER_COLUMN_COUNT) ?c = ?c" by (rule filter_True) simp
  then have "remdups_adj (sort (filter (\<lambda>c. c < SFTP_BROWSER_COLUMN_COUNT) ?c)) = ?c"
    by (simp add: sort_key_id_if_sorted flip: distinct_adj_altdef)
  moreover have "remdups_adj (sort (filter (\<lambda>c. c < SFTP_BROWSER_COLUMN_COUNT) [4, 5])) = [4, 5]"
    by (simp add: SFTP_BROWSER_COLUMN_COUNT_def)
  moreover have "length [4 :: nat, 5] < SFTP_BROWSER_COLUMN_COUNT"
    by (simp add: SFTP_BROWSER_COLUMN_COUNT_def)
  ultimately show ?thesis
    unfolding sanitize_sftp_browser_hidden_columns_def default_sftp_browser_hidden_columns_def Let_def by auto
qed

lemma sanitize_font_idem [simp]: "sanitize_font pl (sanitize_font pl f) = sanitize_font pl f"
  by (simp add: sanitize_font_def)

definition stable_settings :: "platform \<Rightarrow> AppSettings \<Rightarrow> bool" where
  \<comment> \<open>settings that \<^verbatim>\<open>sanitize\<close> leaves as they are\<close>
  "stable_settings pl s \<longleftrightarrow>
     sanitize_font pl (font_family s) = font_family s \<and> sanitize_font pl (terminal_font_family s) = terminal_font_family s \<and>
     f32_clamp (interface_font_size s) FONT_SIZE_MIN FONT_SIZE_MAX = interface_font_size s \<and>
     f32_clamp (terminal_font_size s) FONT_SIZE_MIN FONT_SIZE_MAX = terminal_font_size s \<and>
     f32_clamp (line_height s) LINE_HEIGHT_MIN LINE_HEIGHT_MAX = line_height s \<and>
     (case seed_hex pl (trim (seed_color s)) of Some c \<Rightarrow> c | None \<Rightarrow> DEFAULT_SEED_COLOR) = seed_color s \<and>
     clamp (recent_connections_count s) RECENT_CONNECTIONS_COUNT_MIN RECENT_CONNECTIONS_COUNT_MAX = recent_connections_count s \<and>
     sanitize_sftp_browser_hidden_columns (local_sftp_hidden_columns s) = local_sftp_hidden_columns s \<and>
     sanitize_sftp_browser_hidden_columns (remote_sftp_hidden_columns s) = remote_sftp_hidden_columns s \<and>
     stable_providers (ai_providers s) \<and> sanitize_web_search (web_search s) = web_search s \<and>
     sanitize_bridge (ssh_bridge s) = ssh_bridge s \<and> \<not> managed_open_ssh_integration_enabled s"

lemma sanitize_settings_stable: "stable_settings pl s \<Longrightarrow> sanitize_settings pl s k = Some (s, k)"
  by (cases s) (simp add: stable_settings_def sanitize_settings_def sanitize_stable)

definition seed_parser :: "platform \<Rightarrow> bool" where
  \<comment> \<open>the hexadecimal form of a colour is read back, and the default colour is one\<close>
  "seed_parser pl \<longleftrightarrow> (\<forall>s c. seed_hex pl s = Some c \<longrightarrow> seed_hex pl (trim c) = Some c) \<and>
     seed_hex pl (trim DEFAULT_SEED_COLOR) = Some DEFAULT_SEED_COLOR"

definition stable_urls :: "AppSettings \<Rightarrow> bool" where
  "stable_urls s \<longleftrightarrow> (\<forall>p \<in> set (ai_providers s). stable_url (base_url p)) \<and> stable_url (endpoint (web_search s))"

lemma font_limits:
  "\<not> f32_less FONT_SIZE_MAX FONT_SIZE_MIN" "\<not> f32_is_nan FONT_SIZE_MIN" "\<not> f32_is_nan FONT_SIZE_MAX"
  "\<not> f32_less LINE_HEIGHT_MAX LINE_HEIGHT_MIN" "\<not> f32_is_nan LINE_HEIGHT_MIN" "\<not> f32_is_nan LINE_HEIGHT_MAX"
  by (simp_all add: f32_less_def f32_is_nan_def f32_scaled_def scaled_def exponent_full_def float_exponent_def
      FONT_SIZE_MIN_def FONT_SIZE_MAX_def LINE_HEIGHT_MIN_def LINE_HEIGHT_MAX_def Let_def)

lemma sanitize_settings_ends:
  assumes "good_ids (uuids pl)"
  shows "\<exists>s' k'. sanitize_settings pl s k = Some (s', k')"
  using sanitize_ends [OF assms, of "ai_providers s" k] by (auto simp: sanitize_settings_def)

lemma sanitize_settings_makes_stable:
  assumes ids: "good_ids (uuids pl)" and seed: "seed_parser pl" and urls: "stable_urls s"
    and run: "sanitize_settings pl s k = Some (s', k')"
  shows "stable_settings pl s'"
proof -
  obtain ps l where ps: "sanitize_ai_providers (uuids pl) (ai_providers s) k = Some (ps, l)" "stable_providers ps"
    using sanitize_ends [OF ids, of "ai_providers s" k] urls by (auto simp: stable_urls_def)
  have "seed_hex pl (trim (case seed_hex pl (trim (seed_color s)) of Some c \<Rightarrow> c | None \<Rightarrow> DEFAULT_SEED_COLOR)) =
      Some (case seed_hex pl (trim (seed_color s)) of Some c \<Rightarrow> c | None \<Rightarrow> DEFAULT_SEED_COLOR)"
    using seed by (auto simp: seed_parser_def split: option.split)
  then show ?thesis
    using run ps urls
    by (auto simp: sanitize_settings_def stable_settings_def stable_urls_def sanitize_web_search_idem
        clamp_idem font_limits RECENT_CONNECTIONS_COUNT_MIN_def RECENT_CONNECTIONS_COUNT_MAX_def)
qed

section \<open>Properties\<close>

text \<open>C38: Normalising synchronised settings always ends, and is stable: what it returns it returns again
  without drawing identifiers, so a revision computed from normalised settings does not change with
  each round of synchronisation. This needs URLs without slashes and blanks in turn at their end.\<close>

theorem normalize_is_stable:
  assumes "good_ids (uuids pl)"
    and "\<forall>p \<in> set (synced_ai_providers y). stable_url (base_url p)" and "stable_url (endpoint (synced_web_search y))"
  shows "\<exists>y' k'. normalize_synced pl y k = Some (y', k') \<and> normalize_synced pl y' j = Some (y', j)"
proof -
  obtain ps l where ps: "sanitize_ai_providers (uuids pl) (synced_ai_providers y) k = Some (ps, l)" "stable_providers ps"
    using sanitize_ends [OF assms(1), of "synced_ai_providers y" k] assms(2) by auto
  then show ?thesis
    using sanitize_stable [of ps "uuids pl" j] sanitize_web_search_idem [OF assms(3)] by (simp add: normalize_synced_def)
qed

definition sample_platform :: platform where \<comment> \<open>for concrete runs\<close>
  "sample_platform = \<lparr>platform_font = ''Menlo'', default_font = ''Menlo'', fallback_fonts = [], system_language = English,
     seed_hex = (\<lambda>_. None), uuids = (\<lambda>k. replicate (Suc k) CHR ''x''), is_uuid = (\<lambda>_. True)\<rparr>"

lemma sample_ids: "good_ids (uuids sample_platform)"
proof -
  have x: "visible CHR ''x''" by (simp add: visible_def ascii_ws_def byte_val_def)
  have "trim (replicate (Suc k) CHR ''x'') = replicate (Suc k) CHR ''x''" for k
    using trim_start_visible [OF x, of "replicate k CHR ''x''"] trim_end_visible [OF x, of "replicate k CHR ''x''"]
    by (simp add: trim_def replicate_append_same)
  then show ?thesis
    by (auto simp: good_ids_def sample_platform_def inj_def dest: arg_cong [of _ _ length])
qed

definition sample_synced :: SyncedSettings where
  "sample_synced = (let p = (fst (new_provider (uuids sample_platform) CustomProvider 7))\<lparr>base_url := '' http://x/''\<rparr>
     in (synced_settings (default_settings sample_platform))\<lparr>synced_ai_providers := [p, p]\<rparr>)"

lemma sample_stable: "stable_url '' http://x/''" "stable_url []"
  by (simp_all add: stable_url_def trim_url_def trim_end_matches_def trim_def trim_start.simps trim_end.simps
      ws_head_def ws_tail_def ascii_ws_def byte_val_def)

theorem normalize_is_stable_witness:
  "\<exists>y' k'. normalize_synced sample_platform sample_synced 8 = Some (y', k') \<and>
     normalize_synced sample_platform y' 12 = Some (y', 12)"
  by (rule normalize_is_stable [OF sample_ids])
     (simp_all add: sample_synced_def sample_stable Let_def synced_settings_def default_settings_def default_web_search_def)

lemma unstable_url: "\<not> stable_url ''http://x/ /''" "trim_url (trim_url ''http://x/ /'') = ''http://x''"
  by (simp_all add: stable_url_def trim_url_def trim_end_matches_def trim_def trim_start.simps trim_end.simps
      ws_head_def ws_tail_def ascii_ws_def byte_val_def)

end
