(* ===== verification/Local_Stores.thy ===== *)
theory Local_Stores
  imports Records Settings Secret_Store
begin

text \<open>
  The stores of \<^verbatim>\<open>crates/miaominal-storage/src\<close>: sessions and snippets (\<^verbatim>\<open>config_store/store.rs\<close>), keys
  (\<^verbatim>\<open>keychain_store.rs\<close>), proxies (\<^verbatim>\<open>proxy_store.rs\<close>), settings (\<^verbatim>\<open>settings_store.rs\<close>) and the policy of
  the bridge (\<^verbatim>\<open>bridge_security_settings_store.rs\<close>).

  A file holds a parsed document (TOML is a library; what it prints it parses back), is empty,
  missing, or cannot be parsed. Every file operation and every lock may fail: \<open>io_faults\<close> says, one by
  one, whether it does; a failing write leaves the file as it is, as \<^verbatim>\<open>atomic_write\<close> does. Locks make
  an operation one step, but a store that is constructed reads the file before it locks it: that is two steps. \<open>memory_settings\<close> is the copy that a \<^verbatim>\<open>SettingsStore\<close> holds, \<open>installed\<close> the
  one of the process.
\<close>

section \<open>Files\<close>

datatype 'a document = NoDocument | EmptyDocument | BadDocument | Document 'a

record settings_content = \<comment> \<open>the fields of the file that the migrations ask for\<close>
  stored_settings :: AppSettings \<comment> \<open>with the defaults of the missing fields\<close>
  has_onboarding_field :: bool
  has_terminal_font_family :: bool
  has_open_ssh_integration_mode :: bool
  has_interface_font_size :: bool
  has_terminal_font_size :: bool
  legacy_font_size :: "f32 option"

record local_data =
  sessions_doc :: "SessionProfile list document"
  proxies_doc :: "ProxyProfile list document"
  snippets_doc :: "SnippetRecord list document"
  keys_doc :: "ManagedKeyRecord list document"
  settings_doc :: "settings_content document"
  memory_settings :: AppSettings
  installed :: AppSettings
  secrets :: credentials
  io_faults :: "bool list"
  next_uuid :: nat

datatype store_file = SessionsFile | ProxiesFile | SnippetsFile | KeysFile | SettingsFile

datatype store_error =
  ReadError store_file | ParseError store_file | WriteError store_file | LockError | InvalidSettings string
  | GenerationExhausted | SecretError any_error | Endless

type_synonym 'a local_io = "(local_data, store_error, 'a) io"

definition file_step :: "store_error \<Rightarrow> unit local_io" where
  "file_step e d =
     (case io_faults d of
        True # fs \<Rightarrow> (Inl e, d\<lparr>io_faults := fs\<rparr>)
      | fs \<Rightarrow> (Inr (), d\<lparr>io_faults := tl fs\<rparr>))"

definition modify :: "(local_data \<Rightarrow> local_data) \<Rightarrow> unit local_io" where
  "modify f d = (Inr (), f d)"

definition read_document :: "store_file \<Rightarrow> 'a list document \<Rightarrow> 'a list local_io" where
  \<comment> \<open>a missing or blank file is an empty list\<close>
  "read_document f doc =
     (case doc of
        NoDocument \<Rightarrow> ok []
      | EmptyDocument \<Rightarrow> attempt (file_step (ReadError f)) (\<lambda>_. ok [])
      | BadDocument \<Rightarrow> attempt (file_step (ReadError f)) (\<lambda>_. fail (ParseError f))
      | Document xs \<Rightarrow> attempt (file_step (ReadError f)) (\<lambda>_. ok xs))"

section \<open>Sessions, snippets, keys\<close>

definition serialized_session :: "SessionProfile \<Rightarrow> SessionProfile" where
  \<comment> \<open>plain secrets are skipped\<close>
  "serialized_session p = p\<lparr>plain_password := [], plain_passphrase := []\<rparr>"

definition load_sessions :: "SessionProfile list local_io" where
  \<comment> \<open>\<^verbatim>\<open>read_sessions_content\<close> and \<^verbatim>\<open>parse_sessions\<close>\<close>
  "load_sessions = attempt (get_io sessions_doc) (read_document SessionsFile)"

definition save_sessions :: "SessionProfile list \<Rightarrow> unit local_io" where
  "save_sessions sessions =
     attempt (file_step (WriteError SessionsFile)) (\<lambda>_. modify (\<lambda>d. d\<lparr>sessions_doc :=
       Document (map (\<lambda>p. serialized_session (ensure_auth_method p)) sessions)\<rparr>))"

definition load_snippets :: "SnippetRecord list local_io" where
  "load_snippets = attempt (get_io snippets_doc) (read_document SnippetsFile)"

definition save_snippets :: "SnippetRecord list \<Rightarrow> unit local_io" where
  "save_snippets snippets =
     attempt (file_step (WriteError SnippetsFile)) (\<lambda>_. modify (\<lambda>d. d\<lparr>snippets_doc := Document snippets\<rparr>))"

definition load_keys :: "ManagedKeyRecord list local_io" where
  "load_keys = attempt (get_io keys_doc) (read_document KeysFile)"

definition save_keys :: "ManagedKeyRecord list \<Rightarrow> unit local_io" where
  "save_keys keys =
     attempt (file_step (WriteError KeysFile)) (\<lambda>_. modify (\<lambda>d. d\<lparr>keys_doc := Document keys\<rparr>))"

section \<open>Secrets and proxies\<close>

definition on_secrets :: "'a secret_io \<Rightarrow> 'a local_io" where
  "on_secrets m d =
     (case m (secrets d) of
        (Inl e, c) \<Rightarrow> (Inl (SecretError e), d\<lparr>secrets := c\<rparr>)
      | (Inr a, c) \<Rightarrow> (Inr a, d\<lparr>secrets := c\<rparr>))"

definition get_stored :: "platform \<Rightarrow> string \<Rightarrow> SecretKind \<Rightarrow> string option local_io" where
  "get_stored pl i kind = on_secrets (secret_get (is_uuid pl) i kind)"

definition set_stored :: "platform \<Rightarrow> string \<Rightarrow> SecretKind \<Rightarrow> string \<Rightarrow> unit local_io" where
  \<comment> \<open>an identifier is set aside for the manifest of a long key\<close>
  "set_stored pl i kind v d =
     on_secrets (secret_set (is_uuid pl) (uuids pl (next_uuid d)) i kind v) (d\<lparr>next_uuid := next_uuid d + 1\<rparr>)"

definition delete_stored :: "platform \<Rightarrow> string \<Rightarrow> SecretKind \<Rightarrow> unit local_io" where
  "delete_stored pl i kind = on_secrets (secret_delete (is_uuid pl) i kind)"

definition load_proxies_content :: "ProxyProfile list local_io" where
  \<comment> \<open>\<^verbatim>\<open>read_content\<close> and \<^verbatim>\<open>parse\<close>\<close>
  "load_proxies_content = attempt (get_io proxies_doc) (read_document ProxiesFile)"

definition refresh_password :: "platform \<Rightarrow> ProxyProfile \<Rightarrow> ProxyProfile local_io" where
  "refresh_password pl p d =
     (case secret_get (is_uuid pl) (proxy_id p) ProxyPassword (secrets d) of
        (Inr password, c) \<Rightarrow> (Inr (p\<lparr>proxy_has_password := password \<noteq> None\<rparr>), d\<lparr>secrets := c\<rparr>)
      | (Inl e, c) \<Rightarrow> if is_locked_error e then (Inr p, d\<lparr>secrets := c\<rparr>) else (Inl (SecretError e), d\<lparr>secrets := c\<rparr>))"

definition load_proxies :: "platform \<Rightarrow> ProxyProfile list local_io" where
  "load_proxies pl = attempt load_proxies_content (collect (refresh_password pl))"

definition save_proxies :: "ProxyProfile list \<Rightarrow> unit local_io" where
  "save_proxies proxies =
     attempt (file_step (WriteError ProxiesFile)) (\<lambda>_. modify (\<lambda>d. d\<lparr>proxies_doc := Document proxies\<rparr>))"

section \<open>Settings\<close>

definition sanitize_io :: "platform \<Rightarrow> AppSettings \<Rightarrow> AppSettings local_io" where
  "sanitize_io pl s d =
     (case sanitize_settings pl s (next_uuid d) of
        None \<Rightarrow> (Inl Endless, d)
      | Some (s', k) \<Rightarrow> (Inr s', d\<lparr>next_uuid := k\<rparr>))"

definition validate_settings :: "AppSettings \<Rightarrow> store_error + unit" where
  "validate_settings s = map_sum InvalidSettings id (validate_bridge (ssh_bridge s))"

record migrations =
  onboarding_field :: bool
  migrated_font_sizes :: bool
  migrated_terminal_font_family :: bool
  migrated_open_ssh_integration :: bool

definition migrate_settings :: "settings_content \<Rightarrow> AppSettings \<times> migrations" where
  \<comment> \<open>\<^verbatim>\<open>read_settings_file\<close> on a file that parses\<close>
  "migrate_settings c =
     (let s = stored_settings c;
          s = (case legacy_font_size c of
                 None \<Rightarrow> s
               | Some sz \<Rightarrow>
                   (let s = (if has_interface_font_size c then s else s\<lparr>interface_font_size := sz\<rparr>)
                    in if has_terminal_font_size c then s else s\<lparr>terminal_font_size := sz\<rparr>));
          s = (if has_terminal_font_family c then s else s\<lparr>terminal_font_family := font_family s\<rparr>);
          direct = \<not> has_open_ssh_integration_mode c \<and> managed_open_ssh_integration_enabled s;
          s = (if direct then s\<lparr>open_ssh_integration_mode := DirectIntegration\<rparr> else s)
      in (s\<lparr>managed_open_ssh_integration_enabled := False\<rparr>,
          \<lparr>onboarding_field = has_onboarding_field c, migrated_font_sizes = legacy_font_size c \<noteq> None,
           migrated_terminal_font_family = \<not> has_terminal_font_family c, migrated_open_ssh_integration = direct\<rparr>))"

definition no_migrations :: migrations where
  "no_migrations = \<lparr>onboarding_field = False, migrated_font_sizes = False,
     migrated_terminal_font_family = False, migrated_open_ssh_integration = False\<rparr>"

definition read_settings_file :: "platform \<Rightarrow> (AppSettings \<times> migrations) local_io" where
  \<comment> \<open>for a file that exists\<close>
  "read_settings_file pl =
     attempt (file_step (ReadError SettingsFile)) (\<lambda>_. attempt (get_io settings_doc) (\<lambda>doc. case doc of
        Document c \<Rightarrow> ok (migrate_settings c)
      | BadDocument \<Rightarrow> fail (ParseError SettingsFile)
      | _ \<Rightarrow> ok (default_for_system pl, no_migrations)))"

definition load_settings_document_unlocked :: "platform \<Rightarrow> AppSettings local_io" where
  "load_settings_document_unlocked pl =
     attempt (get_io settings_doc) (\<lambda>doc.
     attempt (if doc = NoDocument then ok (default_for_system pl)
              else attempt (read_settings_file pl) (\<lambda>r. ok (fst r))) (\<lambda>s.
     attempt (sanitize_io pl s) (\<lambda>s.
     attempt (lift_sum (validate_settings s)) (\<lambda>_. ok s))))"

definition serialized_settings :: "AppSettings \<Rightarrow> settings_content" where
  "serialized_settings s =
     \<lparr>stored_settings = s\<lparr>managed_open_ssh_integration_enabled := False\<rparr>, has_onboarding_field = True,
      has_terminal_font_family = True, has_open_ssh_integration_mode = True, has_interface_font_size = True,
      has_terminal_font_size = True, legacy_font_size = None\<rparr>"

definition persist_settings_document_unlocked :: "AppSettings \<Rightarrow> unit local_io" where
  "persist_settings_document_unlocked s =
     attempt (lift_sum (validate_settings s)) (\<lambda>_.
     attempt (file_step (WriteError SettingsFile)) (\<lambda>_.
       modify (\<lambda>d. d\<lparr>settings_doc := Document (serialized_settings s)\<rparr>)))"

definition preserve_newer_bridge_policy :: "AppSettings \<Rightarrow> AppSettings \<Rightarrow> AppSettings" where
  "preserve_newer_bridge_policy s latest =
     (let l = security_policy (ssh_bridge latest); r = security_policy (ssh_bridge s) in
      if policy_generation r < policy_generation l \<or> (policy_generation l = policy_generation r \<and> l \<noteq> r)
      then s\<lparr>ssh_bridge := (ssh_bridge s)\<lparr>security_policy := l\<rparr>\<rparr> else s)"

definition read_current :: "platform \<Rightarrow> AppSettings local_io" where
  "read_current pl = attempt (file_step LockError) (\<lambda>_. load_settings_document_unlocked pl)"

definition reload_from_disk :: "platform \<Rightarrow> unit local_io" where
  "reload_from_disk pl = attempt (read_current pl) (\<lambda>s. modify (\<lambda>d. d\<lparr>memory_settings := s\<rparr>))"

definition latest_settings_unlocked :: "platform \<Rightarrow> AppSettings local_io" where
  "latest_settings_unlocked pl =
     attempt (get_io settings_doc) (\<lambda>doc.
       if doc = NoDocument then get_io memory_settings else load_settings_document_unlocked pl)"

definition commit_settings :: "AppSettings \<Rightarrow> AppSettings \<Rightarrow> bool local_io" where
  \<comment> \<open>\<^verbatim>\<open>replace_against_latest_unlocked\<close> once the settings are sanitised\<close>
  "commit_settings latest s =
     attempt (lift_sum (validate_settings s)) (\<lambda>_.
       let s = preserve_newer_bridge_policy s latest; differs = settings_changed latest s in
       attempt (if differs then persist_settings_document_unlocked s else ok ()) (\<lambda>_.
       attempt (modify (\<lambda>d. d\<lparr>memory_settings := s, installed := s\<rparr>)) (\<lambda>_. ok differs)))"

definition replace_against_latest_unlocked :: "platform \<Rightarrow> AppSettings \<Rightarrow> AppSettings \<Rightarrow> bool local_io" where
  "replace_against_latest_unlocked pl s latest = attempt (sanitize_io pl s) (commit_settings latest)"

definition replace_settings :: "platform \<Rightarrow> AppSettings \<Rightarrow> bool local_io" where
  "replace_settings pl s =
     attempt (file_step LockError) (\<lambda>_.
     attempt (latest_settings_unlocked pl) (replace_against_latest_unlocked pl s))"

definition update_settings :: "platform \<Rightarrow> (AppSettings \<Rightarrow> AppSettings) \<Rightarrow> local_data \<Rightarrow> bool \<times> local_data" where
  \<comment> \<open>errors are only logged\<close>
  "update_settings pl f d =
     (case attempt (file_step LockError) (\<lambda>_. attempt (latest_settings_unlocked pl) (\<lambda>latest.
             replace_against_latest_unlocked pl (f latest) latest)) d of
        (Inl _, d') \<Rightarrow> (False, d')
      | (Inr differs, d') \<Rightarrow> (differs, d'))"

definition persist_settings :: "platform \<Rightarrow> AppSettings \<Rightarrow> unit local_io" where
  "persist_settings pl s =
     attempt (lift_sum (validate_settings s)) (\<lambda>_.
     attempt (file_step LockError) (\<lambda>_.
     attempt (get_io settings_doc) (\<lambda>doc.
     attempt (if doc = NoDocument then ok s
              else attempt (load_settings_document_unlocked pl) (\<lambda>latest. ok (preserve_newer_bridge_policy s latest)))
       persist_settings_document_unlocked)))"

definition repair_invalid_bridge_policy :: "AppSettings \<Rightarrow> AppSettings \<times> bool" where
  "repair_invalid_bridge_policy s =
     (case validate_bridge (ssh_bridge s) of
        Inr _ \<Rightarrow> (s, False)
      | Inl _ \<Rightarrow> (s\<lparr>ssh_bridge := (ssh_bridge s)\<lparr>security_policy := default_policy\<rparr>\<rparr>, True))"

definition ignoring_errors :: "'a local_io \<Rightarrow> unit local_io" where
  \<comment> \<open>the error is only logged\<close>
  "ignoring_errors m d = (Inr (), snd (m d))"

record store_load = \<comment> \<open>the settings of a store between the two steps of its construction\<close>
  load_settings :: AppSettings
  load_repaired :: bool \<comment> \<open>the policy of the file was invalid\<close>
  load_migrated :: bool

definition start_settings_load :: "platform \<Rightarrow> bool \<Rightarrow> store_load local_io" where
  \<comment> \<open>\<^verbatim>\<open>load_with_path\<close> up to \<^verbatim>\<open>install\<close>: it reads the file without the lock; the flag says whether the
     directory holds other data of the application\<close>
  "start_settings_load pl existing_app_data =
     attempt (get_io settings_doc) (\<lambda>doc.
     attempt (if doc = NoDocument then ok (default_for_system pl, no_migrations) else read_settings_file pl) (\<lambda>(s, m).
       let onboarding = (if doc = NoDocument then existing_app_data else \<not> onboarding_field m);
           s = (if onboarding then mark_current_onboarding_completed s else s)
       in attempt (sanitize_io pl s) (\<lambda>s.
         let (s, repaired) = repair_invalid_bridge_policy s in
         ok \<lparr>load_settings = s, load_repaired = repaired,
             load_migrated = (onboarding \<or> migrated_font_sizes m \<or> migrated_terminal_font_family m
               \<or> migrated_open_ssh_integration m)\<rparr>)))"

definition finish_settings_load :: "platform \<Rightarrow> store_load \<Rightarrow> unit local_io" where
  \<comment> \<open>the rest of \<^verbatim>\<open>load_with_path\<close>: a repair is written under the lock, but without reading the file again\<close>
  "finish_settings_load pl l =
     attempt (modify (\<lambda>d. d\<lparr>installed := load_settings l, memory_settings := load_settings l\<rparr>)) (\<lambda>_.
       if load_repaired l then
         ignoring_errors (attempt (file_step LockError) (\<lambda>_. persist_settings_document_unlocked (load_settings l)))
       else if load_migrated l then ignoring_errors (persist_settings pl (load_settings l))
       else ok ())"

definition load_settings_store :: "platform \<Rightarrow> bool \<Rightarrow> unit local_io" where
  \<comment> \<open>\<^verbatim>\<open>load_with_path\<close> when nothing comes between its two steps\<close>
  "load_settings_store pl existing_app_data =
     attempt (start_settings_load pl existing_app_data) (finish_settings_load pl)"

section \<open>The policy of the bridge\<close>

definition bridge_policy :: "platform \<Rightarrow> BridgeSecurityPolicy local_io" where
  "bridge_policy pl = attempt (read_current pl) (\<lambda>s. ok (security_policy (ssh_bridge s)))"

definition set_bridge_policy :: "platform \<Rightarrow> BridgeSecurityLevel \<Rightarrow> int \<Rightarrow> BridgeSecurityPolicy local_io" where
  "set_bridge_policy pl level at =
     attempt (lift_sum (map_sum InvalidSettings id (validate_level level))) (\<lambda>level.
     attempt (file_step LockError) (\<lambda>_.
     attempt (load_settings_document_unlocked pl) (\<lambda>s.
       let g = policy_generation (security_policy (ssh_bridge s)) in
       if g = - 1 then fail GenerationExhausted
       else
         let policy = \<lparr>bridge_level = level, updated_at = at, policy_generation = g + 1\<rparr> in
         attempt (persist_settings_document_unlocked (s\<lparr>ssh_bridge := (ssh_bridge s)\<lparr>security_policy := policy\<rparr>\<rparr>))
           (\<lambda>_. ok policy))))"

section \<open>Evaluation\<close>

text \<open>An operation is only unfolded on a state, so that evaluation does not enter continuations.\<close>

lemmas stores_on_states [code] =
  read_document_def [THEN fun_cong] load_sessions_def [THEN fun_cong] save_sessions_def [THEN
  fun_cong] load_snippets_def [THEN fun_cong] save_snippets_def [THEN fun_cong] load_keys_def [THEN
  fun_cong] save_keys_def [THEN fun_cong] get_stored_def [THEN fun_cong] delete_stored_def [THEN
  fun_cong] load_proxies_content_def [THEN fun_cong] load_proxies_def [THEN fun_cong]
  save_proxies_def [THEN fun_cong] read_settings_file_def [THEN fun_cong]
  load_settings_document_unlocked_def [THEN fun_cong] persist_settings_document_unlocked_def [THEN
  fun_cong] read_current_def [THEN fun_cong] reload_from_disk_def [THEN fun_cong]
  latest_settings_unlocked_def [THEN fun_cong] commit_settings_def [THEN fun_cong]
  replace_against_latest_unlocked_def [THEN fun_cong] replace_settings_def [THEN fun_cong]
  persist_settings_def [THEN fun_cong] load_settings_store_def [THEN fun_cong] start_settings_load_def
  [THEN fun_cong] finish_settings_load_def [THEN fun_cong] bridge_policy_def
  [THEN fun_cong] set_bridge_policy_def [THEN fun_cong]

end
