(* ===== verification/Store_Properties.thy ===== *)
theory Store_Properties
  imports Local_Stores Settings_Properties
begin

text \<open>
  The stores under failures and interleaving. The policy of the bridge lies in the settings file, which
  several settings stores rewrite as a whole from their own copies; \<^verbatim>\<open>settings_step\<close> is one step of any
  of them. A policy that was set is not rolled back by a store that has not seen it.
\<close>

section \<open>File steps\<close>

lemma file_step_eq [simp]:
  "file_step e d = (if io_faults d \<noteq> [] \<and> hd (io_faults d) then Inl e else Inr (), d\<lparr>io_faults := tl (io_faults d)\<rparr>)"
  by (cases "io_faults d") (auto simp: file_step_def split: bool.splits)

lemma modify_eq [simp]: "modify f d = (Inr (), f d)"
  by (simp add: modify_def)

lemma triple_file_step [triples]:
  "(\<And>d fs. P d \<Longrightarrow> Q () (d\<lparr>io_faults := fs\<rparr>)) \<Longrightarrow> (\<And>d fs. P d \<Longrightarrow> E e (d\<lparr>io_faults := fs\<rparr>)) \<Longrightarrow> triple P (file_step e) Q E"
  by (auto simp: triple_def)

section \<open>The policy on disk\<close>

definition content_policy :: "settings_content \<Rightarrow> BridgeSecurityPolicy" where
  "content_policy c = security_policy (ssh_bridge (stored_settings c))"

definition policy_on_disk :: "local_data \<Rightarrow> BridgeSecurityPolicy option" where
  "policy_on_disk d = (case settings_doc d of Document c \<Rightarrow> Some (content_policy c) | _ \<Rightarrow> None)"

definition newer_policy :: "BridgeSecurityPolicy \<Rightarrow> BridgeSecurityPolicy \<Rightarrow> bool" where
  "newer_policy p q \<longleftrightarrow> q = p \<or> policy_generation p < policy_generation q"

lemma newer_policy_refl [simp]: "newer_policy p p"
  by (simp add: newer_policy_def)

lemma newer_policy_trans: "newer_policy p q \<Longrightarrow> newer_policy q r \<Longrightarrow> newer_policy p r"
  by (auto simp: newer_policy_def)

definition holds :: "settings_content \<Rightarrow> local_data \<Rightarrow> bool" where
  "holds c d \<longleftrightarrow> settings_doc d = Document c"

definition advanced :: "settings_content \<Rightarrow> local_data \<Rightarrow> bool" where
  "advanced c d \<longleftrightarrow> (\<exists>c'. settings_doc d = Document c' \<and> newer_policy (content_policy c) (content_policy c') \<and>
     valid_level (bridge_level (content_policy c')))"

definition has_policy :: "settings_content \<Rightarrow> AppSettings \<Rightarrow> bool" where
  "has_policy c s \<longleftrightarrow> security_policy (ssh_bridge s) = content_policy c"

lemma sanitize_settings_policy:
  "sanitize_settings pl s k = Some (s', k') \<Longrightarrow> security_policy (ssh_bridge s') = security_policy (ssh_bridge s)"
  by (auto simp: sanitize_settings_def sanitize_bridge_def split: option.splits prod.splits)

lemma migrate_policy: "has_policy c (fst (migrate_settings c))"
  by (simp add: migrate_settings_def has_policy_def content_policy_def Let_def split: option.split)

lemma validate_settings_Inr [simp]:
  "validate_settings s = Inr u \<longleftrightarrow> valid_level (bridge_level (security_policy (ssh_bridge s)))"
  by (cases "bridge_level (security_policy (ssh_bridge s))")
     (auto simp: validate_settings_def validate_bridge_def valid_level_def)

lemma holds_update [simp]:
  "holds c (d\<lparr>io_faults := fs\<rparr>) = holds c d" "holds c (d\<lparr>next_uuid := n\<rparr>) = holds c d"
  "holds c (d\<lparr>memory_settings := s, installed := i\<rparr>) = holds c d" "holds c (d\<lparr>memory_settings := s\<rparr>) = holds c d"
  "holds c (d\<lparr>installed := i\<rparr>) = holds c d"
  by (simp_all add: holds_def)

lemma advanced_update [simp]:
  "advanced c (d\<lparr>io_faults := fs\<rparr>) = advanced c d" "advanced c (d\<lparr>next_uuid := n\<rparr>) = advanced c d"
  "advanced c (d\<lparr>memory_settings := s, installed := i\<rparr>) = advanced c d" "advanced c (d\<lparr>memory_settings := s\<rparr>) = advanced c d"
  by (simp_all add: advanced_def)

lemma holds_advanced: "holds c d \<Longrightarrow> valid_level (bridge_level (content_policy c)) \<Longrightarrow> advanced c d"
  by (auto simp: holds_def advanced_def)

lemma triple_sanitize:
  "triple (holds c) (sanitize_io pl s)
     (\<lambda>s' d. holds c d \<and> security_policy (ssh_bridge s') = security_policy (ssh_bridge s)) (\<lambda>_. holds c)"
  by (auto simp: triple_def sanitize_io_def sanitize_settings_policy split: option.split)

lemma triple_lift [triples]:
  "(\<And>a d. x = Inr a \<Longrightarrow> P d \<Longrightarrow> Q a d) \<Longrightarrow> (\<And>e d. x = Inl e \<Longrightarrow> P d \<Longrightarrow> E e d) \<Longrightarrow> triple P (lift_sum x) Q E"
  by (auto simp: triple_def split: sum.split)

lemma triple_guarded:
  assumes "triple (holds c) m Q E" "\<And>e d. holds c d \<Longrightarrow> E e d"
  shows "triple (holds c) (attempt (file_step e) (\<lambda>_. m)) Q E" "triple (holds c) (attempt (lift_sum x) (\<lambda>_. m)) Q E"
  using assms by (auto simp: triple_def attempt_def split: sum.splits)

lemma triple_read_file:
  "triple (holds c) (read_settings_file pl) (\<lambda>r d. holds c d \<and> has_policy c (fst r)) (\<lambda>_. holds c)"
  by (auto simp: triple_def read_settings_file_def attempt_def holds_def migrate_policy split: prod.split)

lemma triple_load_unlocked:
  "triple (holds c) (load_settings_document_unlocked pl)
     (\<lambda>s d. holds c d \<and> has_policy c s \<and> valid_level (bridge_level (content_policy c))) (\<lambda>_. holds c)"
proof (rule tripleI)
  fix d s d' assume d: "holds c d" and run: "load_settings_document_unlocked pl d = (Inr s, d')"
  obtain r d1 s1 d2 where content: "read_settings_file pl d = (Inr r, d1)" and clean: "sanitize_io pl (fst r) d1 = (Inr s1, d2)"
    and valid: "validate_settings s1 = Inr ()" and "s = s1" "d' = d2"
    using run d by (auto simp: load_settings_document_unlocked_def attempt_eq_Inr holds_def)
  have one: "holds c d1 \<and> has_policy c (fst r)" by (rule triple_ok [OF triple_read_file d content])
  then have "holds c d2 \<and> security_policy (ssh_bridge s1) = security_policy (ssh_bridge (fst r))"
    using triple_ok [OF triple_sanitize _ clean] by blast
  then show "holds c d' \<and> has_policy c s \<and> valid_level (bridge_level (content_policy c))"
    using one valid \<open>s = s1\<close> \<open>d' = d2\<close> by (simp add: has_policy_def)
next
  fix d e d' assume d: "holds c d" and run: "load_settings_document_unlocked pl d = (Inl e, d')"
  from run d consider "read_settings_file pl d = (Inl e, d')"
    | r d1 where "read_settings_file pl d = (Inr r, d1)" "sanitize_io pl (fst r) d1 = (Inl e, d')"
    | r d1 s1 where "read_settings_file pl d = (Inr r, d1)" "sanitize_io pl (fst r) d1 = (Inr s1, d')"
    by (auto simp: load_settings_document_unlocked_def attempt_eq_Inl holds_def attempt_eq_Inr)
  then show "holds c d'"
    by cases (use d triple_ok [OF triple_read_file d] triple_err [OF triple_read_file d] triple_ok [OF triple_sanitize]
        triple_err [OF triple_sanitize] in blast)+
qed

lemma triple_persist:
  assumes "newer_policy (content_policy c) (security_policy (ssh_bridge s))" "valid_level (bridge_level (content_policy c))"
  shows "triple (holds c) (persist_settings_document_unlocked s) (\<lambda>_. advanced c) (\<lambda>_. advanced c)"
  using assms
  by (auto simp: triple_def persist_settings_document_unlocked_def attempt_def holds_def advanced_def
      serialized_settings_def content_policy_def split: prod.split sum.split)

lemma preserve_is_newer:
  "has_policy c latest \<Longrightarrow> newer_policy (content_policy c) (security_policy (ssh_bridge (preserve_newer_bridge_policy s latest)))"
  by (auto simp: has_policy_def newer_policy_def preserve_newer_bridge_policy_def Let_def not_less)

lemma triple_replace:
  assumes "has_policy c latest" "valid_level (bridge_level (content_policy c))"
  shows "triple (holds c) (replace_against_latest_unlocked pl s latest) (\<lambda>_. advanced c) (\<lambda>_. advanced c)"
proof -
  let ?Q = "\<lambda>_ :: bool. advanced c" and ?E = "\<lambda>_ :: store_error. advanced c"
  have store: "triple (holds c) (if b then persist_settings_document_unlocked (preserve_newer_bridge_policy s1 latest) else ok ())
      (\<lambda>_. advanced c) ?E" for b s1
    using triple_persist [OF preserve_is_newer [OF assms(1)] assms(2)] holds_advanced assms(2)
    by (auto simp: triple_def)
  have last: "triple (advanced c) (attempt (modify (\<lambda>d. d\<lparr>memory_settings := x, installed := x\<rparr>)) (\<lambda>_. ok b)) ?Q ?E" for x b
    by (simp add: triple_def attempt_def)
  have rest: "triple (holds c) (attempt (lift_sum (validate_settings s1)) (\<lambda>_.
       let s = preserve_newer_bridge_policy s1 latest; differs = settings_changed latest s in
       attempt (if differs then persist_settings_document_unlocked s else ok ()) (\<lambda>_.
       attempt (modify (\<lambda>d. d\<lparr>memory_settings := s, installed := s\<rparr>)) (\<lambda>_. ok differs)))) ?Q ?E" for s1
  proof (rule triple_attempt [of _ _ "\<lambda>_. holds c"])
    show "triple (holds c) (lift_sum (validate_settings s1)) (\<lambda>_. holds c) ?E"
      by (rule triple_lift) (auto dest: holds_advanced [OF _ assms(2)])
  qed (unfold Let_def, rule triple_attempt [OF store last])
  show ?thesis
    unfolding replace_against_latest_unlocked_def commit_settings_def
    by (rule triple_attempt [of _ _ "\<lambda>_. holds c"])
       (auto intro!: rest triple_weaken [OF triple_sanitize] dest: holds_advanced [OF _ assms(2)])
qed

lemma triple_latest:
  "triple (holds c) (latest_settings_unlocked pl)
     (\<lambda>s d. holds c d \<and> has_policy c s \<and> valid_level (bridge_level (content_policy c))) (\<lambda>_. holds c)"
  using triple_load_unlocked [of c pl]
  by (auto simp: triple_def latest_settings_unlocked_def attempt_def holds_def split: prod.split sum.split)

lemma locked_replace:
  assumes "valid_level (bridge_level (content_policy c))"
  shows "triple (holds c) (attempt (file_step LockError) (\<lambda>_. attempt (latest_settings_unlocked pl) (\<lambda>latest.
    replace_against_latest_unlocked pl (f latest) latest))) (\<lambda>_. advanced c) (\<lambda>_. advanced c)"
proof -
  have "triple (\<lambda>d. holds c d \<and> has_policy c latest \<and> valid_level (bridge_level (content_policy c)))
      (replace_against_latest_unlocked pl (f latest) latest) (\<lambda>_. advanced c) (\<lambda>_. advanced c)" for latest
    using triple_replace [of c latest pl "f latest"] assms by (auto simp: triple_def)
  moreover have "triple (holds c) (latest_settings_unlocked pl)
      (\<lambda>s d. holds c d \<and> has_policy c s \<and> valid_level (bridge_level (content_policy c))) (\<lambda>_. advanced c)"
    by (rule triple_weaken [OF triple_latest]) (auto dest: holds_advanced [OF _ assms])
  ultimately have "triple (holds c) (attempt (latest_settings_unlocked pl) (\<lambda>latest.
      replace_against_latest_unlocked pl (f latest) latest)) (\<lambda>_. advanced c) (\<lambda>_. advanced c)"
    by (rule triple_attempt [rotated])
  then show ?thesis using holds_advanced [OF _ assms] by (rule triple_guarded)
qed

lemma triple_persist_settings:
  assumes "valid_level (bridge_level (content_policy c))"
  shows "triple (holds c) (persist_settings pl s) (\<lambda>_. advanced c) (\<lambda>_. advanced c)"
proof -
  have late: "triple (\<lambda>d. holds c d \<and> has_policy c latest \<and> valid_level (bridge_level (content_policy c)))
      (persist_settings_document_unlocked (preserve_newer_bridge_policy s latest)) (\<lambda>_. advanced c) (\<lambda>_. advanced c)" for latest
    using triple_persist [OF preserve_is_newer assms] by (auto simp: triple_def)
  have "triple (holds c) (load_settings_document_unlocked pl)
      (\<lambda>s d. holds c d \<and> has_policy c s \<and> valid_level (bridge_level (content_policy c))) (\<lambda>_. advanced c)"
    by (rule triple_weaken [OF triple_load_unlocked]) (auto dest: holds_advanced [OF _ assms])
  from triple_attempt [OF this late] have
    "triple (holds c) (attempt (attempt (load_settings_document_unlocked pl) (\<lambda>latest. ok (preserve_newer_bridge_policy s latest)))
      persist_settings_document_unlocked) (\<lambda>_. advanced c) (\<lambda>_. advanced c)"
    by (simp add: triple_def attempt_def split: prod.splits sum.splits)
  then have "triple (holds c) (attempt (get_io settings_doc) (\<lambda>doc.
     attempt (if doc = NoDocument then ok s
              else attempt (load_settings_document_unlocked pl) (\<lambda>latest. ok (preserve_newer_bridge_policy s latest)))
       persist_settings_document_unlocked)) (\<lambda>_. advanced c) (\<lambda>_. advanced c)"
    by (auto simp: triple_def attempt_def holds_def)
  then show ?thesis
    unfolding persist_settings_def using holds_advanced [OF _ assms] by (intro triple_guarded)
qed

lemma set_policy_advances:
  assumes "set_bridge_policy pl level at d = (r, d')" "holds c d" "valid_level (bridge_level (content_policy c))"
  shows "advanced c d' \<and> (\<forall>p. r = Inr p \<longrightarrow> policy_on_disk d' = Some p \<and> policy_generation (content_policy c) < policy_generation p)"
proof -
  have more: "g < g + 1" if "g \<noteq> - 1" for g :: "64 word"
  proof -
    from that have "g + 1 \<noteq> 0" by (simp add: eq_neg_iff_add_eq_0)
    then show ?thesis using unatSuc [of g] by (simp add: word_less_nat_alt add.commute)
  qed
  show ?thesis
  proof (cases "load_settings_document_unlocked pl (d\<lparr>io_faults := tl (io_faults d)\<rparr>)")
    case (Pair s d1)
    let ?d = "d\<lparr>io_faults := tl (io_faults d)\<rparr>"
    have d: "holds c ?d" using assms(2) by simp
    show ?thesis
    proof (cases s)
      case (Inl e)
      have "holds c d1" using triple_err [OF triple_load_unlocked d] Pair Inl by blast
      then show ?thesis
        using assms Pair Inl d
        by (auto simp: set_bridge_policy_def attempt_def dest: holds_advanced split: if_splits sum.splits)
    next
      case (Inr s)
      have s: "holds c d1" "has_policy c s" using triple_ok [OF triple_load_unlocked d] Pair Inr by blast+
      show ?thesis
        using assms Pair Inr d s more [of "policy_generation (content_policy c)"]
        by (auto simp: set_bridge_policy_def attempt_def Let_def has_policy_def persist_settings_document_unlocked_def
            advanced_def holds_def newer_policy_def serialized_settings_def content_policy_def policy_on_disk_def
            split: if_splits sum.splits)
    qed
  qed
qed

lemma triple_ignoring:
  "triple P m (\<lambda>_. A) (\<lambda>_. A) \<Longrightarrow> triple P (ignoring_errors m) (\<lambda>_. A) E"
  by (auto simp: triple_def ignoring_errors_def case_prod_beta split: sum.splits)

lemma triple_doc:
  "triple (holds c) (f (Document c)) Q E \<Longrightarrow> triple (holds c) (attempt (get_io settings_doc) f) Q E"
  by (simp add: triple_def attempt_def holds_def)

lemma triple_pure: "(\<And>s. P s \<Longrightarrow> p) \<Longrightarrow> (p \<Longrightarrow> triple P m Q E) \<Longrightarrow> triple P m Q E"
  by (auto simp: triple_def)

lemma start_load_reads:
  assumes "valid_level (bridge_level (content_policy c))"
  shows "triple (holds c) (start_settings_load pl flag) (\<lambda>l d. holds c d \<and> \<not> load_repaired l) (\<lambda>_. holds c)"
proof -
  have clean: "triple (\<lambda>d. holds c d \<and> has_policy c s) (sanitize_io pl (if b then mark_current_onboarding_completed s else s))
      (\<lambda>s d. holds c d \<and> has_policy c s) (\<lambda>_. holds c)" for s b
    by (rule triple_pure [of _ "has_policy c s"], blast, rule triple_weaken [OF triple_sanitize])
       (auto simp: has_policy_def mark_current_onboarding_completed_def)
  have last: "triple (\<lambda>d. holds c d \<and> has_policy c s) (let (s, repaired) = repair_invalid_bridge_policy s in
      ok \<lparr>load_settings = s, load_repaired = repaired, load_migrated = m\<rparr>) (\<lambda>l d. holds c d \<and> \<not> load_repaired l) (\<lambda>_. holds c)" for s m
  proof (rule triple_pure)
    assume s: "has_policy c s"
    have "validate_settings s = Inr ()" using s assms by (simp add: has_policy_def)
    then have "repair_invalid_bridge_policy s = (s, False)"
      by (auto simp: repair_invalid_bridge_policy_def validate_settings_def split: sum.split)
    then show "triple (\<lambda>d. holds c d \<and> has_policy c s) (let (s, repaired) = repair_invalid_bridge_policy s in
      ok \<lparr>load_settings = s, load_repaired = repaired, load_migrated = m\<rparr>) (\<lambda>l d. holds c d \<and> \<not> load_repaired l) (\<lambda>_. holds c)"
      by (simp add: triple_def)
  qed blast
  show ?thesis
    unfolding start_settings_load_def
    apply (rule triple_doc)
    apply (simp only: document.distinct if_False)
    apply (rule triple_attempt [OF triple_read_file])
    subgoal for r
      by (cases r) (simp only: prod.case fst_conv Let_def, rule triple_attempt [OF clean last [unfolded Let_def]])
    done
qed

lemma finish_load_advances:
  assumes "valid_level (bridge_level (content_policy c))" "\<not> load_repaired l"
  shows "triple (holds c) (finish_settings_load pl l) (\<lambda>_. advanced c) (\<lambda>_. advanced c)"
proof -
  have "triple (holds c) (if load_migrated l then ignoring_errors (persist_settings pl (load_settings l)) else ok ())
      (\<lambda>_. advanced c) (\<lambda>_. advanced c)"
    using triple_ignoring [OF triple_persist_settings [OF assms(1)], where E = "\<lambda>_. advanced c"] holds_advanced [OF _ assms(1)]
    by (auto simp: triple_def)
  moreover have "triple (holds c) (modify (\<lambda>d. d\<lparr>installed := s, memory_settings := s\<rparr>)) (\<lambda>_. holds c) (\<lambda>_. advanced c)" for s
    by (simp add: triple_def)
  ultimately show ?thesis unfolding finish_settings_load_def using assms(2) by (intro triple_attempt) simp_all
qed

section \<open>Runs\<close>

text \<open>The state of a run: the data, and the stores under construction, which have read the file.\<close>

inductive settings_step :: "platform \<Rightarrow> local_data \<times> store_load set \<Rightarrow> local_data \<times> store_load set \<Rightarrow> bool" for pl where
  replaced: "settings_step pl (d, ls) (snd (replace_settings pl s d), ls)"
| updated: "settings_step pl (d, ls) (snd (update_settings pl f d), ls)"
| policy_set: "settings_step pl (d, ls) (snd (set_bridge_policy pl level at d), ls)"
| load_started: "start_settings_load pl flag d = (Inr l, d') \<Longrightarrow> settings_step pl (d, ls) (d', insert l ls)"
| load_failed: "start_settings_load pl flag d = (Inl e, d') \<Longrightarrow> settings_step pl (d, ls) (d', ls)"
| load_finished: "l \<in> ls \<Longrightarrow> settings_step pl (d, ls) (snd (finish_settings_load pl l d), ls)"
  \<comment> \<open>another store may have read the same: it stays\<close>
| reloaded: "settings_step pl (d, ls) (snd (reload_from_disk pl d), ls)"
| other_store: "settings_step pl (d, ls) (d\<lparr>memory_settings := s, installed := i\<rparr>, ls)"
  \<comment> \<open>the turn of another store, which loaded its copy at any time\<close>
| weather: "settings_step pl (d, ls) (d\<lparr>io_faults := fs\<rparr>, ls)"

lemma triple_snd: "triple P m (\<lambda>_. A) (\<lambda>_. A) \<Longrightarrow> P s \<Longrightarrow> A (snd (m s))"
  by (cases "m s"; cases "fst (m s)") (auto simp: triple_def)

lemma reload_advances:
  assumes "valid_level (bridge_level (content_policy c))"
  shows "triple (holds c) (reload_from_disk pl) (\<lambda>_. advanced c) (\<lambda>_. advanced c)"
proof -
  have "triple (holds c) (read_current pl)
      (\<lambda>s d. holds c d \<and> has_policy c s \<and> valid_level (bridge_level (content_policy c))) (\<lambda>_. holds c)"
    unfolding read_current_def by (rule triple_guarded [OF triple_load_unlocked]) simp
  then have "triple (holds c) (read_current pl) (\<lambda>_. advanced c) (\<lambda>_. advanced c)"
    by (rule triple_weaken) (auto dest: holds_advanced [OF _ assms])
  then show ?thesis
    unfolding reload_from_disk_def by (rule triple_attempt) (simp add: triple_def)
qed

lemma update_is_replace:
  "snd (update_settings pl f d) = snd (attempt (file_step LockError) (\<lambda>_. attempt (latest_settings_unlocked pl) (\<lambda>latest.
     replace_against_latest_unlocked pl (f latest) latest)) d)"
  unfolding update_settings_def by (simp only: case_prod_beta split: sum.split) simp

definition careful :: "settings_content \<Rightarrow> local_data \<times> store_load set \<Rightarrow> bool" where
  "careful c = (\<lambda>(d, ls). advanced c d \<and> (\<forall>l \<in> ls. \<not> load_repaired l))"

lemma settings_step_advances:
  assumes "settings_step pl (d, ls) (d', ls')" "holds c d" "valid_level (bridge_level (content_policy c))"
    and "\<forall>l \<in> ls. \<not> load_repaired l"
  shows "careful c (d', ls')"
  using assms(1)
proof (cases rule: settings_step.cases)
  case (replaced s)
  show ?thesis
    unfolding replaced replace_settings_def careful_def
    using triple_snd [OF locked_replace [OF assms(3), of pl "\<lambda>_. s"] assms(2)] assms(4) by simp
next
  case (updated f)
  show ?thesis
    unfolding updated update_is_replace careful_def
    using triple_snd [OF locked_replace [OF assms(3)] assms(2)] assms(4) by simp
next
  case (policy_set level at)
  then have "set_bridge_policy pl level at d = (fst (set_bridge_policy pl level at d), d')" by simp
  from set_policy_advances [OF this assms(2,3)] assms(4) policy_set show ?thesis by (simp add: careful_def)
next
  case (load_started flag l)
  from triple_ok [OF start_load_reads [OF assms(3)] assms(2) load_started(2)] show ?thesis
    using assms(3,4) load_started(1) by (auto simp: careful_def intro: holds_advanced)
next
  case (load_failed flag e)
  from triple_err [OF start_load_reads [OF assms(3)] assms(2) load_failed(2)] show ?thesis
    using assms(3,4) load_failed(1) by (auto simp: careful_def intro: holds_advanced)
next
  case (load_finished l)
  then have "\<not> load_repaired l" using assms(4) by simp
  from triple_snd [OF finish_load_advances [OF assms(3) this] assms(2), of pl] assms(4) load_finished show ?thesis
    by (simp add: careful_def)
next
  case reloaded
  show ?thesis unfolding reloaded careful_def using triple_snd [OF reload_advances [OF assms(3)] assms(2)] assms(4) by simp
qed (use assms(4) in \<open>simp_all add: careful_def holds_advanced [OF assms(2,3)]\<close>)

lemma runs_advance:
  "(settings_step pl)\<^sup>*\<^sup>* x y \<Longrightarrow> holds c (fst x) \<Longrightarrow> valid_level (bridge_level (content_policy c)) \<Longrightarrow>
   \<forall>l \<in> snd x. \<not> load_repaired l \<Longrightarrow> careful c y"
proof (induction rule: rtranclp_induct)
  case base
  then show ?case by (auto simp: careful_def split: prod.split intro: holds_advanced)
next
  case (step y z)
  then obtain c1 where c1: "holds c1 (fst y)" "newer_policy (content_policy c) (content_policy c1)"
    "valid_level (bridge_level (content_policy c1))" "\<forall>l \<in> snd y. \<not> load_repaired l"
    by (auto simp: careful_def advanced_def holds_def split: prod.splits)
  have "careful c1 z"
    using settings_step_advances [of pl "fst y" "snd y" "fst z" "snd z" c1] step.hyps(2) c1 by simp
  then show ?case using newer_policy_trans [OF c1(2)] by (auto simp: careful_def advanced_def split: prod.splits)
qed

text \<open>C37: The policy of the bridge is not rolled back. From a settings file with a valid policy, whatever
  any of the settings stores then does from its own copy, however old (replace or update the settings,
  reload, set a policy, or be constructed, which reads the file and later writes a migration), and whichever
  locks, reads and writes fail on the way, the file holds a policy that is valid, and is the old one or of a
  later generation. The exception, excluded here, is a store under construction that has read an
  earlier file with an invalid policy: see \<open>stale_repair_rolls_back\<close>.\<close>

theorem policy_is_not_rolled_back:
  assumes "policy_on_disk d = Some p" "valid_level (bridge_level p)" "\<forall>l \<in> ls. \<not> load_repaired l"
    and "(settings_step pl)\<^sup>*\<^sup>* (d, ls) (d', ls')"
  shows "\<exists>q. policy_on_disk d' = Some q \<and> newer_policy p q \<and> valid_level (bridge_level q)"
proof -
  obtain c where c: "holds c d" "p = content_policy c"
    using assms(1) by (auto simp: policy_on_disk_def holds_def split: document.splits)
  have "careful c (d', ls')" using runs_advance [OF assms(4), of c] assms(2,3) c by simp
  then show ?thesis using c(2) by (auto simp: careful_def advanced_def policy_on_disk_def)
qed

definition sample_data :: local_data where
  "sample_data = \<lparr>sessions_doc = NoDocument, proxies_doc = NoDocument, snippets_doc = NoDocument, keys_doc = NoDocument,
     settings_doc = Document (serialized_settings (default_settings sample_platform)),
     memory_settings = default_settings sample_platform, installed = default_settings sample_platform,
     secrets = \<lparr>entries = Map.empty, faults = []\<rparr>, io_faults = [False, False, False, True], next_uuid = 0\<rparr>"

lemma sample_policy: "policy_on_disk sample_data = Some default_policy"
  by (simp add: policy_on_disk_def sample_data_def content_policy_def serialized_settings_def default_settings_def
      default_ssh_bridge_def)

theorem policy_is_not_rolled_back_witness:
  "\<exists>q. policy_on_disk (snd (replace_settings sample_platform (default_settings sample_platform)
         (snd (set_bridge_policy sample_platform (RequireApproval 30) 5 sample_data)))) = Some q \<and>
     newer_policy default_policy q \<and> valid_level (bridge_level q)"
proof (rule policy_is_not_rolled_back [OF sample_policy, where ls = "{}"])
  show "valid_level (bridge_level default_policy)" by (simp add: default_policy_def)
  show "(settings_step sample_platform)\<^sup>*\<^sup>* (sample_data, {}) (snd (replace_settings sample_platform
      (default_settings sample_platform) (snd (set_bridge_policy sample_platform (RequireApproval 30) 5 sample_data))), {})"
    by (rule rtranclp.rtrancl_into_rtrancl [OF r_into_rtranclp]) (rule policy_set, rule replaced)
qed simp

section \<open>A repair that comes late\<close>

text \<open>A file with an invalid policy is read by two stores under construction. The first repairs it, and the user
  then sets a policy; the repair of the second writes the default policy over it, for it does not read the file
  again.\<close>

definition broken_data :: local_data where
  "broken_data = sample_data\<lparr>settings_doc := Document (serialized_settings ((default_settings sample_platform)
     \<lparr>ssh_bridge := default_ssh_bridge\<lparr>security_policy := default_policy\<lparr>bridge_level := RequireApproval 0\<rparr>\<rparr>\<rparr>)), io_faults := []\<rparr>"

definition late_repair :: "local_data \<times> local_data" where
  \<comment> \<open>before and after the second repair\<close>
  "late_repair =
     (case start_settings_load sample_platform True broken_data of
        (Inr l, d1) \<Rightarrow>
          let d2 = snd (finish_settings_load sample_platform l d1);
              d3 = snd (set_bridge_policy sample_platform RequireSystemAuth 5 d2)
          in (d3, snd (finish_settings_load sample_platform l d3))
      | (Inl _, d1) \<Rightarrow> (d1, d1))"

lemma stale_repair_rolls_back:
  "policy_on_disk (fst late_repair) = Some \<lparr>bridge_level = RequireSystemAuth, updated_at = 5, policy_generation = 1\<rparr> \<and>
   policy_on_disk (snd late_repair) = Some default_policy"
  by code_simp

end
