(* ===== verification/Sync_Crypto.thy ===== *)
theory Sync_Crypto
  imports Records Settings Secret_Store
begin

text \<open>
  The synchronised payload: its data types (\<^verbatim>\<open>crates/miaominal-sync/src/model.rs\<close>) and how it is
  encrypted and read back (\<^verbatim>\<open>sync/encryption.rs\<close>, and \<^verbatim>\<open>build_payload\<close>, \<^verbatim>\<open>decrypt_payload\<close> and the
  revisions of \<^verbatim>\<open>sync/payload.rs\<close>).

  JSON, base64, Argon2, AES-GCM and SHA-256 are libraries: a record \<open>codec\<close> of functions is the argument
  of the definitions. \<^term>\<open>None\<close> is the error of the library; its text is not modelled. Bytes are
  characters. What is drawn at random for a payload, and the clock, is the record \<open>draws\<close>.
\<close>

section \<open>Payloads\<close>

definition LEGACY_SYNC_PAYLOAD_VERSION :: "32 word" where "LEGACY_SYNC_PAYLOAD_VERSION = 1"
definition PROXYLESS_SYNC_PAYLOAD_VERSION :: "32 word" where "PROXYLESS_SYNC_PAYLOAD_VERSION = 2"
definition PREVIOUS_SYNC_PAYLOAD_VERSION :: "32 word" where "PREVIOUS_SYNC_PAYLOAD_VERSION = 3"
definition SYNC_PAYLOAD_VERSION :: "32 word" where "SYNC_PAYLOAD_VERSION = 4"

record SyncKdf =
  kdf_algorithm :: string
  kdf_version :: "32 word"
  memory_cost :: "32 word"
  time_cost :: "32 word"
  parallelism :: "32 word"
  output_len :: nat
  kdf_salt :: string

definition argon2id_kdf :: "string \<Rightarrow> SyncKdf" where
  "argon2id_kdf salt =
     \<lparr>kdf_algorithm = ''argon2id'', kdf_version = 0x13, memory_cost = 65536, time_cost = 3, parallelism = 4,
      output_len = 32, kdf_salt = salt\<rparr>"

record SyncPayload =
  payload_version :: "32 word"
  payload_device :: string
  synced_at :: nat
  payload_id :: string
  parent_payload_id :: "string option"
  kdf :: SyncKdf
  encrypted_payload :: string

record ProfileSecret =
  profile_secret_id :: string
  secret_password :: "string option"
  secret_passphrase :: "string option"

record KeySecret =
  key_secret_id :: string
  private_key :: string

record AiProviderSecret =
  provider_secret_id :: string
  api_key :: string

record ProxySecret =
  proxy_secret_id :: string
  proxy_password :: string

record PlaintextSecrets =
  profile_secrets :: "ProfileSecret list"
  key_secrets :: "KeySecret list"
  ai_provider_secrets :: "AiProviderSecret list"
  web_search_secret :: "string option" \<comment> \<open>\<^verbatim>\<open>WebSearchSecret\<close> has one field\<close>
  proxy_secrets :: "ProxySecret list"

record SyncPlaintextPayload =
  sessions :: "SessionProfile list"
  proxies :: "ProxyProfile list"
  snippets :: "SnippetRecord list"
  managed_keys :: "ManagedKeyRecord list"
  settings :: SyncedSettings
  payload_secrets :: PlaintextSecrets

record PreviousSyncPlaintextPayload =
  previous_sessions :: "SessionProfile list"
  previous_snippets :: "SnippetRecord list"
  previous_managed_keys :: "ManagedKeyRecord list"
  previous_settings :: SyncedSettings
  previous_secrets :: PlaintextSecrets

record LegacySyncPlaintextPayload =
  legacy_sessions :: "SessionProfile list"
  legacy_snippets :: "SnippetRecord list"
  legacy_managed_keys :: "ManagedKeyRecord list"
  legacy_settings :: AppSettings
  legacy_secrets :: PlaintextSecrets

record SyncPayloadAssociatedData =
  aad_version :: "32 word"
  aad_device :: string
  aad_synced_at :: nat
  aad_payload_id :: string
  aad_parent :: "string option"
  aad_kdf :: SyncKdf

section \<open>The libraries\<close>

record codec =
  base64_encode :: "string \<Rightarrow> string"
  base64_decode :: "string \<Rightarrow> string option"
  argon2_params :: "32 word \<times> 32 word \<times> 32 word \<Rightarrow> bool" \<comment> \<open>whether \<^verbatim>\<open>Params::new\<close> accepts the costs\<close>
  argon2 :: "32 word \<times> 32 word \<times> 32 word \<Rightarrow> string \<Rightarrow> string \<Rightarrow> string option" \<comment> \<open>a key of 32 bytes\<close>
  aes_encrypt :: "string \<Rightarrow> string \<Rightarrow> string \<Rightarrow> string \<Rightarrow> string option" \<comment> \<open>key, nonce, message, associated data\<close>
  aes_decrypt :: "string \<Rightarrow> string \<Rightarrow> string \<Rightarrow> string \<Rightarrow> string option"
  sha256 :: "string \<Rightarrow> string"
  plaintext_json :: "SyncPlaintextPayload \<Rightarrow> string option"
  plaintext_of_json :: "string \<Rightarrow> SyncPlaintextPayload option"
  previous_of_json :: "string \<Rightarrow> PreviousSyncPlaintextPayload option"
  legacy_of_json :: "string \<Rightarrow> LegacySyncPlaintextPayload option"
  aad_json :: "SyncPayloadAssociatedData \<Rightarrow> string option"
  payload_json :: "SyncPayload \<Rightarrow> string option"
  payload_of_json :: "string \<Rightarrow> SyncPayload option"

section \<open>Encryption\<close>

type_synonym 'a anyhow = "any_error + 'a"

definition bail :: "string \<Rightarrow> 'a anyhow" where
  "bail m = Inl (anyhow m)"

definition library :: "string \<Rightarrow> 'a option \<Rightarrow> 'a anyhow" where
  \<comment> \<open>the result of a library call, under the context given\<close>
  "library m v = ok_or (anyhow m) v"

definition derive_key_with_params ::
  "codec \<Rightarrow> string \<Rightarrow> string \<Rightarrow> 32 word \<Rightarrow> 32 word \<Rightarrow> 32 word \<Rightarrow> nat \<Rightarrow> string anyhow" where
  "derive_key_with_params cd passphrase salt memory time lanes len =
     (if len \<noteq> 32 then bail (''unsupported Argon2 output length: '' @ show_nat len)
      else if \<not> argon2_params cd (memory, time, lanes) then bail ''failed to create Argon2 params''
      else library ''Argon2 key derivation failed'' (argon2 cd (memory, time, lanes) passphrase salt))"

definition encrypt_with_aad :: "codec \<Rightarrow> string \<Rightarrow> string \<Rightarrow> string \<Rightarrow> string \<Rightarrow> string anyhow" where
  \<comment> \<open>the second argument is the random nonce of 12 bytes\<close>
  "encrypt_with_aad cd nonce key plaintext aad =
     and_then (library ''AES-GCM encryption failed'' (aes_encrypt cd key nonce plaintext aad))
       (\<lambda>ciphertext. Inr (base64_encode cd (nonce @ ciphertext)))"

definition decrypt_with_aad :: "codec \<Rightarrow> string \<Rightarrow> string \<Rightarrow> string \<Rightarrow> string anyhow" where
  "decrypt_with_aad cd key encoded aad =
     and_then (library ''failed to base64-decode ciphertext'' (base64_decode cd encoded)) (\<lambda>combined.
       if length combined < 12 then bail ''ciphertext too short to contain nonce''
       else library ''AES-GCM decryption failed'' (aes_decrypt cd key (take 12 combined) (drop 12 combined) aad))"

section \<open>Keys\<close>

definition MAX_KDF_MEMORY_COST_KIB :: "32 word" where "MAX_KDF_MEMORY_COST_KIB = 512 * 1024"
definition MAX_KDF_TIME_COST :: "32 word" where "MAX_KDF_TIME_COST = 20"
definition MAX_KDF_PARALLELISM :: "32 word" where "MAX_KDF_PARALLELISM = 16"

definition exceeds :: "string \<Rightarrow> 32 word \<Rightarrow> string \<Rightarrow> 32 word \<Rightarrow> string" where
  "exceeds what v unit_name limit =
     what @ '' '' @ show_nat (unat v) @ unit_name @ '' exceeds limit of '' @ show_nat (unat limit) @ unit_name"

definition derive_key_for_kdf :: "codec \<Rightarrow> string \<Rightarrow> SyncKdf \<Rightarrow> string anyhow" where
  "derive_key_for_kdf cd passphrase k =
     (if kdf_algorithm k \<noteq> ''argon2id'' then bail (''unsupported sync KDF algorithm: '' @ kdf_algorithm k)
      else if kdf_version k \<noteq> 0x13 then bail (''unsupported Argon2 version: '' @ show_nat (unat (kdf_version k)))
      else if MAX_KDF_MEMORY_COST_KIB < memory_cost k then
        bail (exceeds ''sync KDF memory cost'' (memory_cost k) '' KiB'' MAX_KDF_MEMORY_COST_KIB)
      else if MAX_KDF_TIME_COST < time_cost k then
        bail (exceeds ''sync KDF time cost'' (time_cost k) [] MAX_KDF_TIME_COST)
      else if MAX_KDF_PARALLELISM < parallelism k then
        bail (exceeds ''sync KDF parallelism'' (parallelism k) [] MAX_KDF_PARALLELISM)
      else
        and_then (library ''failed to decode sync KDF salt'' (base64_decode cd (kdf_salt k))) (\<lambda>salt.
          if length salt \<noteq> 32 then bail ''sync KDF salt must be 32 bytes''
          else derive_key_with_params cd passphrase salt (memory_cost k) (time_cost k) (parallelism k) (output_len k)))"

definition associated_data :: "codec \<Rightarrow> SyncPayload \<Rightarrow> string anyhow" where
  "associated_data cd p =
     library ''failed to serialize sync associated data'' (aad_json cd
       \<lparr>aad_version = payload_version p, aad_device = payload_device p, aad_synced_at = synced_at p,
        aad_payload_id = payload_id p, aad_parent = parent_payload_id p, aad_kdf = kdf p\<rparr>)"

section \<open>Building and reading payloads\<close>

record draws =
  now_secs :: nat
  salt_bytes :: string \<comment> \<open>32 of them\<close>
  fresh_id :: string
  nonce_bytes :: string \<comment> \<open>12 of them\<close>

definition build_payload ::
  "codec \<Rightarrow> draws \<Rightarrow> string \<Rightarrow> string option \<Rightarrow> SyncPlaintextPayload \<Rightarrow> string \<Rightarrow> SyncPayload anyhow" where
  "build_payload cd dr device parent plaintext passphrase =
     (let p = \<lparr>payload_version = SYNC_PAYLOAD_VERSION, payload_device = device, synced_at = now_secs dr,
               payload_id = fresh_id dr, parent_payload_id = parent,
               kdf = argon2id_kdf (base64_encode cd (salt_bytes dr)), encrypted_payload = []\<rparr>
      in and_then (derive_key_for_kdf cd passphrase (kdf p)) (\<lambda>key.
         and_then (library ''failed to serialize sync plaintext'' (plaintext_json cd plaintext)) (\<lambda>text.
         and_then (associated_data cd p) (\<lambda>aad.
         and_then (encrypt_with_aad cd (nonce_bytes dr) key text aad) (\<lambda>sealed.
           Inr (p\<lparr>encrypted_payload := sealed\<rparr>))))))"

definition deserialize_plaintext_payload :: "codec \<Rightarrow> 32 word \<Rightarrow> string \<Rightarrow> SyncPlaintextPayload anyhow" where
  "deserialize_plaintext_payload cd v text =
     (if v = SYNC_PAYLOAD_VERSION then
        library ''failed to deserialize decrypted sync payload'' (plaintext_of_json cd text)
      else if v = PREVIOUS_SYNC_PAYLOAD_VERSION then
        library ''failed to deserialize v3 decrypted sync payload'' (plaintext_of_json cd text)
      else if v = PROXYLESS_SYNC_PAYLOAD_VERSION then
        and_then (library ''failed to deserialize v2 decrypted sync payload'' (previous_of_json cd text)) (\<lambda>p.
          Inr \<lparr>sessions = previous_sessions p, proxies = [], snippets = previous_snippets p,
               managed_keys = previous_managed_keys p, settings = previous_settings p,
               payload_secrets = previous_secrets p\<rparr>)
      else if v = LEGACY_SYNC_PAYLOAD_VERSION then
        and_then (library ''failed to deserialize legacy decrypted sync payload'' (legacy_of_json cd text)) (\<lambda>p.
          Inr \<lparr>sessions = legacy_sessions p, proxies = [], snippets = legacy_snippets p,
               managed_keys = legacy_managed_keys p, settings = synced_settings (legacy_settings p),
               payload_secrets = legacy_secrets p\<rparr>)
      else bail (''unsupported sync payload version: '' @ show_nat (unat v)))"

definition decrypt_payload :: "codec \<Rightarrow> SyncPayload \<Rightarrow> string \<Rightarrow> SyncPlaintextPayload anyhow" where
  \<comment> \<open>also \<^verbatim>\<open>decrypt_remote_payload\<close>\<close>
  "decrypt_payload cd p passphrase =
     (let v = payload_version p in
      if v \<noteq> SYNC_PAYLOAD_VERSION \<and> v \<noteq> PREVIOUS_SYNC_PAYLOAD_VERSION \<and> v \<noteq> PROXYLESS_SYNC_PAYLOAD_VERSION
         \<and> v \<noteq> LEGACY_SYNC_PAYLOAD_VERSION then
        (if SYNC_PAYLOAD_VERSION < v then
           bail (''sync payload version '' @ show_nat (unat v)
             @ '' requires a newer Miaominal version; upgrade this device before syncing'')
         else bail (''unsupported sync payload version: '' @ show_nat (unat v)))
      else
        and_then (derive_key_for_kdf cd passphrase (kdf p)) (\<lambda>key.
        and_then (associated_data cd p) (\<lambda>aad.
        and_then (decrypt_with_aad cd key (encrypted_payload p) aad) (\<lambda>text.
          deserialize_plaintext_payload cd v text))))"

definition parse_remote_payload :: "codec \<Rightarrow> string \<Rightarrow> SyncPayload anyhow" where
  "parse_remote_payload cd text = library ''failed to parse sync payload'' (payload_of_json cd text)"

section \<open>Revisions\<close>

definition clear_session_local_state :: "SessionProfile list \<Rightarrow> SessionProfile list" where
  "clear_session_local_state =
     map (\<lambda>p. p\<lparr>last_connected_at := None,
       port_forwarding_rules := map (\<lambda>r. r\<lparr>rule_enabled := False\<rparr>) (port_forwarding_rules p)\<rparr>)"

definition hex_digit :: "nat \<Rightarrow> char" where
  "hex_digit n = (if n < 10 then char_of (48 + n) else char_of (87 + n))"

definition hex_byte :: "char \<Rightarrow> string" where
  "hex_byte b = [hex_digit (byte_val b div 16), hex_digit (byte_val b mod 16)]"

definition local_data_revision :: "codec \<Rightarrow> SyncPlaintextPayload \<Rightarrow> string anyhow" where
  "local_data_revision cd p =
     (let normalized = p\<lparr>sessions := clear_session_local_state (sessions p)\<rparr>
      in and_then (library ''failed to serialize local sync revision'' (plaintext_json cd normalized)) (\<lambda>text.
        Inr (concat (map hex_byte (sha256 cd text)))))"

definition normalize_remote_payload :: "platform \<Rightarrow> SyncPlaintextPayload \<Rightarrow> nat \<Rightarrow> (SyncPlaintextPayload \<times> nat) option" where
  "normalize_remote_payload pl p k =
     (case normalize_synced pl (settings p) k of
        None \<Rightarrow> None
      | Some (y, k) \<Rightarrow> Some (p\<lparr>settings := y\<rparr>, k))"


section \<open>Properties\<close>

definition within_limits :: "32 word \<times> 32 word \<times> 32 word \<Rightarrow> bool" where
  "within_limits costs = (case costs of (memory, time, lanes) \<Rightarrow>
     memory \<le> MAX_KDF_MEMORY_COST_KIB \<and> time \<le> MAX_KDF_TIME_COST \<and> lanes \<le> MAX_KDF_PARALLELISM)"

lemma derive_key_params:
  "within_limits (memory, time, lanes) \<Longrightarrow>
   derive_key_with_params (cd\<lparr>argon2_params := (\<lambda>c. if within_limits c then argon2_params cd c else f c),
     argon2 := (\<lambda>c. if within_limits c then argon2 cd c else g c)\<rparr>) passphrase salt memory time lanes n =
   derive_key_with_params cd passphrase salt memory time lanes n"
  by (simp add: derive_key_with_params_def)

lemma derive_key_within_limits:
  "derive_key_for_kdf (cd\<lparr>argon2_params := (\<lambda>c. if within_limits c then argon2_params cd c else f c),
     argon2 := (\<lambda>c. if within_limits c then argon2 cd c else g c)\<rparr>) passphrase k = derive_key_for_kdf cd passphrase k"
proof (cases "within_limits (memory_cost k, time_cost k, parallelism k)")
  case True
  then show ?thesis unfolding derive_key_for_kdf_def derive_key_params [OF True] by simp
next
  case False
  then consider "MAX_KDF_MEMORY_COST_KIB < memory_cost k" | "MAX_KDF_TIME_COST < time_cost k"
    | "MAX_KDF_PARALLELISM < parallelism k" by (auto simp: within_limits_def not_le)
  then show ?thesis by cases (simp_all add: derive_key_for_kdf_def)
qed

lemma other_libraries:
  "associated_data (cd\<lparr>argon2_params := x, argon2 := y\<rparr>) = associated_data cd"
  "decrypt_with_aad (cd\<lparr>argon2_params := x, argon2 := y\<rparr>) = decrypt_with_aad cd"
  "deserialize_plaintext_payload (cd\<lparr>argon2_params := x, argon2 := y\<rparr>) = deserialize_plaintext_payload cd"
  by (simp_all add: fun_eq_iff associated_data_def decrypt_with_aad_def deserialize_plaintext_payload_def cong: if_cong)

text \<open>C40: Reading a payload from the server runs the key derivation only within the limits of the program
  (512 MiB, 20 passes, 16 lanes), whatever the payload says: the result does not depend on what
  Argon2 does beyond them.\<close>

theorem kdf_costs_are_bounded:
  "decrypt_payload (cd\<lparr>argon2_params := (\<lambda>c. if within_limits c then argon2_params cd c else f c),
     argon2 := (\<lambda>c. if within_limits c then argon2 cd c else g c)\<rparr>) p passphrase = decrypt_payload cd p passphrase"
  unfolding decrypt_payload_def derive_key_within_limits other_libraries ..

lemma decrypt_encrypted:
  assumes "encrypt_with_aad cd nonce key text aad = Inr sealed" "length nonce = 12"
    and "\<And>b. base64_decode cd (base64_encode cd b) = Some b"
    and "\<And>c. aes_encrypt cd key nonce text aad = Some c \<Longrightarrow> aes_decrypt cd key nonce c aad = Some text"
  shows "decrypt_with_aad cd key sealed aad = Inr text"
  using assms by (auto simp: encrypt_with_aad_def decrypt_with_aad_def library_def)

definition sound_codec :: "codec \<Rightarrow> SyncPlaintextPayload \<Rightarrow> bool" where
  \<comment> \<open>what is decoded is what was encoded, for base64, AES-GCM and the JSON text of the payload\<close>
  "sound_codec cd plaintext \<longleftrightarrow>
     (\<forall>b. base64_decode cd (base64_encode cd b) = Some b) \<and>
     (\<forall>key nonce text aad c. aes_encrypt cd key nonce text aad = Some c \<longrightarrow> aes_decrypt cd key nonce c aad = Some text) \<and>
     (\<forall>text. plaintext_json cd plaintext = Some text \<longrightarrow> plaintext_of_json cd text = Some plaintext)"

text \<open>C39: A payload that was built is read back with the same passphrase: with libraries that decode what
  they encode, decryption returns the very plaintext that was encrypted.\<close>

theorem payload_roundtrip:
  assumes "sound_codec cd plaintext" "length (nonce_bytes dr) = 12"
    and "build_payload cd dr device parent plaintext passphrase = Inr p"
  shows "decrypt_payload cd p passphrase = Inr plaintext"
proof -
  let ?p = "\<lparr>payload_version = SYNC_PAYLOAD_VERSION, payload_device = device, synced_at = now_secs dr,
    payload_id = fresh_id dr, parent_payload_id = parent,
    kdf = argon2id_kdf (base64_encode cd (salt_bytes dr)), encrypted_payload = []\<rparr>"
  obtain key json aad sealed where build: "derive_key_for_kdf cd passphrase (kdf ?p) = Inr key"
      "plaintext_json cd plaintext = Some json" "associated_data cd ?p = Inr aad"
      "encrypt_with_aad cd (nonce_bytes dr) key json aad = Inr sealed" "p = ?p\<lparr>encrypted_payload := sealed\<rparr>"
    using assms(3) by (auto simp: build_payload_def Let_def library_def)
  have "decrypt_with_aad cd key sealed aad = Inr json"
    by (rule decrypt_encrypted [OF build(4) assms(2)]) (use assms(1) in \<open>auto simp: sound_codec_def\<close>)
  moreover have "associated_data cd p = Inr aad" using build(3) by (simp add: build(5) associated_data_def)
  moreover have "derive_key_for_kdf cd passphrase (kdf p) = Inr key" using build(1) by (simp add: build(5))
  moreover have "encrypted_payload p = sealed" "payload_version p = SYNC_PAYLOAD_VERSION" by (simp_all add: build(5))
  moreover have "plaintext_of_json cd json = Some plaintext" using assms(1) build(2) by (simp add: sound_codec_def)
  ultimately show ?thesis
    by (simp add: decrypt_payload_def deserialize_plaintext_payload_def library_def)
qed

definition sample_plaintext :: SyncPlaintextPayload where
  "sample_plaintext = \<lparr>sessions = [blank_profile ''a'' 1], proxies = [], snippets = [], managed_keys = [],
     settings = \<lparr>synced_recent_connections_count = 5, synced_key_bindings = default_key_bindings,
       synced_right_click_behavior = ContextMenu, synced_shift_right_click_context_menu = True,
       synced_free_type_mode = False, synced_session_monitoring = False, synced_last_tab_close_behavior = ExitOnLastTab,
       synced_history_duration = FiveMinutesHistory, synced_local_hidden_columns = [], synced_remote_hidden_columns = [],
       synced_onboarding_version = 1, synced_auto_lock_duration = AutoLockOff, synced_ai_providers = [],
       synced_web_search = default_web_search\<rparr>,
     payload_secrets = \<lparr>profile_secrets = [], key_secrets = [], ai_provider_secrets = [], web_search_secret = None,
       proxy_secrets = []\<rparr>\<rparr>"

definition sample_codec :: codec where
  "sample_codec = \<lparr>base64_encode = rev, base64_decode = (\<lambda>t. Some (rev t)), argon2_params = (\<lambda>_. True),
     argon2 = (\<lambda>_ passphrase salt. Some (take 32 (passphrase @ salt))),
     aes_encrypt = (\<lambda>key nonce m aad. Some (rev m)),
     aes_decrypt = (\<lambda>key nonce c aad. Some (rev c)),
     sha256 = (\<lambda>t. take 32 t), plaintext_json = (\<lambda>p. if p = sample_plaintext then Some ''{}'' else None),
     plaintext_of_json = (\<lambda>_. Some sample_plaintext), previous_of_json = (\<lambda>_. None), legacy_of_json = (\<lambda>_. None),
     aad_json = (\<lambda>a. Some (aad_device a)), payload_json = (\<lambda>_. None), payload_of_json = (\<lambda>_. None)\<rparr>"

lemma sample_codec_sound: "sound_codec sample_codec sample_plaintext"
  by (simp add: sound_codec_def sample_codec_def)

definition sample_draws :: draws where
  "sample_draws = \<lparr>now_secs = 7, salt_bytes = replicate 32 CHR ''s'', fresh_id = ''id'', nonce_bytes = replicate 12 CHR ''n''\<rparr>"

lemma sample_built: "\<exists>p. build_payload sample_codec sample_draws ''dev'' None sample_plaintext ''pw'' = Inr p \<and> payload_id p = ''id''"
  by (simp add: build_payload_def Let_def derive_key_for_kdf_def derive_key_with_params_def library_def associated_data_def
      encrypt_with_aad_def argon2id_kdf_def sample_codec_def sample_draws_def MAX_KDF_MEMORY_COST_KIB_def
      MAX_KDF_TIME_COST_def MAX_KDF_PARALLELISM_def and_then_def ok_or_def)

theorem payload_roundtrip_witness:
  "\<exists>p. build_payload sample_codec sample_draws ''dev'' None sample_plaintext ''pw'' = Inr p \<and>
     decrypt_payload sample_codec p ''pw'' = Inr sample_plaintext"
proof -
  obtain p where p: "build_payload sample_codec sample_draws ''dev'' None sample_plaintext ''pw'' = Inr p"
    using sample_built by blast
  moreover have "length (nonce_bytes sample_draws) = 12" by (simp add: sample_draws_def)
  ultimately show ?thesis using payload_roundtrip [OF sample_codec_sound] by blast
qed

end
