(* ===== verification/Sync_Payload.thy ===== *)
theory Sync_Payload
  imports Local_Stores Sync_Crypto Capability Sync_Config
begin

text \<open>
  The content of a synchronised payload, \<^verbatim>\<open>crates/miaominal-sync/src/sync/payload.rs\<close>: how it is collected
  from the local stores, how a payload is merged with what only this device knows, validated and
  applied, and how a failing application is rolled back.

  The state is \<^verbatim>\<open>local_data\<close>. Operations of the stores fail with a \<^verbatim>\<open>store_error\<close>; \<open>sync_error\<close> is the
  error of the synchronisation, with the contexts that the code adds, so that the test for the error
  of a changed configuration (\<^verbatim>\<open>downcast_ref\<close>) reads through them.
\<close>

section \<open>Errors\<close>

datatype sync_error =
  StoreFailed store_error
| Anyhow any_error
| ConfigFailed config_error
| CapabilityFailed CapabilityReport
| ConfigurationChangedDuringPull
| InContext string sync_error
| RollbackFailed sync_error "(string \<times> store_error) list"

type_synonym 'a sync_io = "(local_data, sync_error, 'a) io"

abbreviation in_stores :: "'a local_io \<Rightarrow> 'a sync_io" where
  "in_stores m \<equiv> map_err StoreFailed m"

definition reject :: "string \<Rightarrow> sync_error + 'a" where
  "reject m = Inl (Anyhow (anyhow m))"

section \<open>Collecting a payload\<close>

definition profile_secret_of :: "platform \<Rightarrow> SessionProfile \<Rightarrow> ProfileSecret list local_io" where
  "profile_secret_of pl s =
     attempt (get_stored pl (profile_id s) Password) (\<lambda>password.
     attempt (get_stored pl (profile_id s) Passphrase) (\<lambda>passphrase.
       ok (if password \<noteq> None \<or> passphrase \<noteq> None
           then [\<lparr>profile_secret_id = profile_id s, secret_password = password, secret_passphrase = passphrase\<rparr>]
           else [])))"

definition key_secret_of :: "platform \<Rightarrow> ManagedKeyRecord \<Rightarrow> KeySecret list local_io" where
  "key_secret_of pl k =
     attempt (get_stored pl (key_id k) ManagedPrivateKey) (\<lambda>v.
       ok (case v of None \<Rightarrow> [] | Some material \<Rightarrow> [\<lparr>key_secret_id = key_id k, private_key = material\<rparr>]))"

definition provider_secret_of :: "platform \<Rightarrow> AiProviderConfig \<Rightarrow> AiProviderSecret list local_io" where
  "provider_secret_of pl p =
     (if has_api_key p then
        attempt (get_stored pl (provider_id p) AiProviderApiKey) (\<lambda>v.
          ok (case v of None \<Rightarrow> [] | Some k \<Rightarrow> [\<lparr>provider_secret_id = provider_id p, api_key = k\<rparr>]))
      else ok [])"

definition proxy_secret_of :: "platform \<Rightarrow> ProxyProfile \<Rightarrow> ProxySecret list local_io" where
  "proxy_secret_of pl p =
     (if auth_mode p \<noteq> UsernamePassword \<or> \<not> proxy_has_password p then ok []
      else attempt (get_stored pl (proxy_id p) ProxyPassword) (\<lambda>v.
        ok (case v of None \<Rightarrow> [] | Some password \<Rightarrow> [\<lparr>proxy_secret_id = proxy_id p, proxy_password = password\<rparr>])))"

definition collect_secrets ::
  "platform \<Rightarrow> SessionProfile list \<Rightarrow> ProxyProfile list \<Rightarrow> ManagedKeyRecord list \<Rightarrow> SyncedSettings \<Rightarrow> PlaintextSecrets local_io" where
  "collect_secrets pl ss ps ks y =
     attempt (collect (profile_secret_of pl) ss) (\<lambda>profile.
     attempt (collect (key_secret_of pl) ks) (\<lambda>key.
     attempt (collect (provider_secret_of pl) (synced_ai_providers y)) (\<lambda>provider.
     attempt (if search_has_api_key (synced_web_search y) then get_stored pl ''web_search'' WebSearchApiKey else ok None) (\<lambda>web.
     attempt (collect (proxy_secret_of pl) ps) (\<lambda>proxy.
       ok \<lparr>profile_secrets = concat profile, key_secrets = concat key, ai_provider_secrets = concat provider,
            web_search_secret = web, proxy_secrets = concat proxy\<rparr>)))))"

definition normalize_io :: "platform \<Rightarrow> SyncedSettings \<Rightarrow> SyncedSettings local_io" where
  "normalize_io pl y d =
     (case normalize_synced pl y (next_uuid d) of
        None \<Rightarrow> (Inl Endless, d)
      | Some (y', k) \<Rightarrow> (Inr y', d\<lparr>next_uuid := k\<rparr>))"

definition build_plaintext_payload ::
  "platform \<Rightarrow> SessionProfile list \<Rightarrow> ProxyProfile list \<Rightarrow> SnippetRecord list \<Rightarrow> ManagedKeyRecord list \<Rightarrow> SyncedSettings \<Rightarrow>
   SyncPlaintextPayload local_io" where
  "build_plaintext_payload pl ss ps sn ks y =
     (let ss = clear_session_local_state (filter (\<lambda>s. \<not> is_local s) ss) in
      attempt (normalize_io pl y) (\<lambda>y.
      attempt (collect_secrets pl ss ps ks y) (\<lambda>secrets.
        ok \<lparr>sessions = ss, proxies = ps, snippets = sn, managed_keys = ks, settings = y, payload_secrets = secrets\<rparr>)))"

section \<open>Merging with what stays local\<close>

definition merge_local_session_state :: "SessionProfile list \<Rightarrow> SessionProfile list \<Rightarrow> SessionProfile list" where
  \<comment> \<open>of entries with the same key a \<^verbatim>\<open>HashMap\<close> keeps the last one\<close>
  "merge_local_session_state incoming local =
     (let last_connected = map_of (rev (map (\<lambda>p. (profile_id p, last_connected_at p)) local));
          enabled = map_of (rev (concat (map (\<lambda>p. map (\<lambda>r. ((profile_id p, rule_id r), rule_enabled r))
            (port_forwarding_rules p)) local)))
      in map (\<lambda>p. p\<lparr>last_connected_at := (case last_connected (profile_id p) of None \<Rightarrow> None | Some t \<Rightarrow> t),
                    port_forwarding_rules := map (\<lambda>r. r\<lparr>rule_enabled := enabled (profile_id p, rule_id r) = Some True\<rparr>)
                      (port_forwarding_rules p)\<rparr>)
           (clear_session_local_state incoming))"

definition merge_local_only_sessions :: "SessionProfile list \<Rightarrow> SessionProfile list \<Rightarrow> SessionProfile list" where
  "merge_local_only_sessions merged local =
     (let terminals = filter is_local local
      in filter (\<lambda>p. profile_id p \<notin> set (map profile_id terminals)) merged @ terminals)"

section \<open>Validation\<close>

definition has_control_or_space :: "string \<Rightarrow> bool" where
  \<comment> \<open>a character that \<^verbatim>\<open>char::is_control\<close> or \<^verbatim>\<open>char::is_whitespace\<close> accepts\<close>
  "has_control_or_space s \<longleftrightarrow>
     (\<exists>ch \<in> set (str_chars s).
        (case ch of
           [c] \<Rightarrow> byte_val c < 32 \<or> byte_val c = 127 \<or> c \<in> set ascii_ws
         | [c1, c2] \<Rightarrow> byte_val c1 = 0xC2 \<and> 0x80 \<le> byte_val c2 \<and> byte_val c2 < 0xA0
         | _ \<Rightarrow> False)
        \<or> ch \<in> set wide_ws)"

fun check_proxy_secrets :: "string set \<Rightarrow> ProxySecret list \<Rightarrow> sync_error + string set" where
  "check_proxy_secrets seen [] = Inr seen"
| "check_proxy_secrets seen (s # rest) =
     (if proxy_password s = [] \<or> proxy_secret_id s \<in> seen
      then reject ''sync payload contains an invalid or duplicate proxy secret''
      else check_proxy_secrets (insert (proxy_secret_id s) seen) rest)"

definition check_proxy_auth :: "string set \<Rightarrow> ProxyProfile \<Rightarrow> sync_error + unit" where
  "check_proxy_auth secret_ids p =
     (case auth_mode p of
        NoProxyAuth \<Rightarrow>
          if proxy_id p \<in> secret_ids then reject ''sync payload contains a password for an unauthenticated proxy'' else Inr ()
      | UsernamePassword \<Rightarrow>
          if trim (proxy_username p) = [] then reject ''sync payload proxy authentication username is missing''
          else if protocol p = HttpConnect \<and> CHR '':'' \<in> set (proxy_username p)
          then reject ''sync payload HTTP proxy username contains a colon'' else Inr ())"

fun check_proxies :: "string set \<Rightarrow> string set \<Rightarrow> string set \<Rightarrow> ProxyProfile list \<Rightarrow> sync_error + string set" where
  \<comment> \<open>the identifiers and the names seen so far; the result is the set of identifiers\<close>
  "check_proxies secret_ids ids names [] = Inr ids"
| "check_proxies secret_ids ids names (p # rest) =
     (if trim (proxy_id p) = [] \<or> proxy_id p \<in> ids then reject ''sync payload contains an empty or duplicate proxy id''
      else
        let ids = insert (proxy_id p) ids; n = to_ascii_lowercase (trim (proxy_name p)) in
        if n = [] \<or> n \<in> names then reject ''sync payload contains an empty or duplicate proxy name''
        else if trim (proxy_host p) = [] \<or> has_control_or_space (proxy_host p) \<or> proxy_port p = 0
        then reject ''sync payload contains an invalid proxy endpoint''
        else and_then (check_proxy_auth secret_ids p) (\<lambda>_. check_proxies secret_ids ids (insert n names) rest))"

fun check_entry_proxies :: "string set \<Rightarrow> SessionProfile list \<Rightarrow> sync_error + unit" where
  "check_entry_proxies ids [] = Inr ()"
| "check_entry_proxies ids (s # rest) =
     (case entry_proxy_id s of
        Some i \<Rightarrow>
          if i \<notin> ids then reject (''sync payload host '' @ connection_label s @ '' references missing proxy '' @ i)
          else check_entry_proxies ids rest
      | None \<Rightarrow> check_entry_proxies ids rest)"

definition validate_payload_proxies :: "SyncPlaintextPayload \<Rightarrow> sync_error + unit" where
  "validate_payload_proxies p =
     and_then (check_proxy_secrets {} (proxy_secrets (payload_secrets p))) (\<lambda>secret_ids.
     and_then (check_proxies secret_ids {} {} (proxies p)) (\<lambda>ids.
       if \<not> secret_ids \<subseteq> ids then reject ''sync payload contains a secret for a missing proxy''
       else check_entry_proxies ids (sessions p)))"

section \<open>Applying a payload\<close>

definition set_optional :: "platform \<Rightarrow> string \<Rightarrow> SecretKind \<Rightarrow> string option \<Rightarrow> unit local_io" where
  "set_optional pl i kind v = (case v of None \<Rightarrow> ok () | Some s \<Rightarrow> set_stored pl i kind s)"

definition write_secrets :: "platform \<Rightarrow> PlaintextSecrets \<Rightarrow> unit local_io" where
  \<comment> \<open>the loops of \<^verbatim>\<open>apply_payload_changes\<close> over the secrets\<close>
  "write_secrets pl s =
     attempt (each (\<lambda>p. attempt (set_optional pl (profile_secret_id p) Password (secret_password p)) (\<lambda>_.
         set_optional pl (profile_secret_id p) Passphrase (secret_passphrase p))) (profile_secrets s)) (\<lambda>_.
     attempt (each (\<lambda>k. set_stored pl (key_secret_id k) ManagedPrivateKey (private_key k)) (key_secrets s)) (\<lambda>_.
     attempt (each (\<lambda>p. set_stored pl (provider_secret_id p) AiProviderApiKey (api_key p)) (ai_provider_secrets s)) (\<lambda>_.
     attempt (set_optional pl ''web_search'' WebSearchApiKey (web_search_secret s)) (\<lambda>_.
       each (\<lambda>p. set_stored pl (proxy_secret_id p) ProxyPassword (proxy_password p)) (proxy_secrets s)))))"

definition delete_if :: "platform \<Rightarrow> bool \<Rightarrow> string \<Rightarrow> SecretKind \<Rightarrow> unit local_io" where
  "delete_if pl b i kind = (if b then delete_stored pl i kind else ok ())"

definition cleanup_removed_secrets ::
  "platform \<Rightarrow> SyncPlaintextPayload \<Rightarrow> SessionProfile list \<Rightarrow> ProxyProfile list \<Rightarrow> ManagedKeyRecord list \<Rightarrow> string list \<Rightarrow>
   unit local_io" where
  "cleanup_removed_secrets pl p old_sessions old_proxies old_keys old_providers =
     (let s = payload_secrets p;
          profile_ids = profile_id ` set (sessions p);
          password_ids = profile_secret_id ` {x \<in> set (profile_secrets s). secret_password x \<noteq> None};
          passphrase_ids = profile_secret_id ` {x \<in> set (profile_secrets s). secret_passphrase x \<noteq> None};
          proxy_ids = proxy_id ` set (proxies p);
          proxy_secret_ids = proxy_secret_id ` set (proxy_secrets s);
          key_ids = key_id ` set (managed_keys p);
          provider_ids = provider_id ` set (synced_ai_providers (settings p))
      in attempt (each (\<lambda>x. attempt (delete_if pl (profile_id x \<notin> password_ids) (profile_id x) Password) (\<lambda>_.
             delete_if pl (profile_id x \<notin> passphrase_ids) (profile_id x) Passphrase)) (sessions p)) (\<lambda>_.
         attempt (each (\<lambda>x. attempt (delete_if pl (profile_id x \<notin> profile_ids) (profile_id x) Password) (\<lambda>_.
             delete_if pl (profile_id x \<notin> profile_ids) (profile_id x) Passphrase)) old_sessions) (\<lambda>_.
         attempt (each (\<lambda>x. delete_if pl (proxy_id x \<notin> proxy_secret_ids) (proxy_id x) ProxyPassword) (proxies p)) (\<lambda>_.
         attempt (each (\<lambda>x. delete_if pl (proxy_id x \<notin> proxy_ids) (proxy_id x) ProxyPassword) old_proxies) (\<lambda>_.
         attempt (each (\<lambda>x. delete_if pl (key_id x \<notin> key_ids) (key_id x) ManagedPrivateKey) old_keys) (\<lambda>_.
         attempt (each (\<lambda>x. delete_if pl (\<not> has_api_key x) (provider_id x) AiProviderApiKey)
             (synced_ai_providers (settings p))) (\<lambda>_.
         attempt (each (\<lambda>i. delete_if pl (i \<notin> provider_ids) i AiProviderApiKey) old_providers) (\<lambda>_.
           delete_if pl (\<not> search_has_api_key (synced_web_search (settings p))) ''web_search'' WebSearchApiKey))))))))"

definition merged_settings :: "platform \<Rightarrow> SyncedSettings \<Rightarrow> AppSettings local_io" where
  "merged_settings pl y d =
     (case apply_synced_settings pl (memory_settings d) y (next_uuid d) of
        None \<Rightarrow> (Inl Endless, d)
      | Some (s, k) \<Rightarrow> (Inr s, d\<lparr>next_uuid := k\<rparr>))"

definition apply_payload_changes :: "platform \<Rightarrow> SyncPlaintextPayload \<Rightarrow> unit sync_io" where
  "apply_payload_changes pl p =
     attempt (lift_sum (validate_payload_proxies p)) (\<lambda>_.
     attempt (in_stores load_sessions) (\<lambda>old_sessions.
     attempt (in_stores load_proxies_content) (\<lambda>old_proxies.
     attempt (in_stores load_keys) (\<lambda>old_keys.
     attempt (get_io (\<lambda>d. map provider_id (ai_providers (memory_settings d)))) (\<lambda>old_providers.
     attempt (in_stores (write_secrets pl (payload_secrets p))) (\<lambda>_.
     attempt (in_stores (save_proxies (proxies p))) (\<lambda>_.
     attempt (in_stores (save_sessions (merge_local_only_sessions
        (merge_local_session_state (sessions p) old_sessions) old_sessions))) (\<lambda>_.
     attempt (in_stores (save_snippets (snippets p))) (\<lambda>_.
     attempt (in_stores (save_keys (managed_keys p))) (\<lambda>_.
     attempt (in_stores (merged_settings pl (settings p))) (\<lambda>s.
     attempt (in_stores (replace_settings pl s)) (\<lambda>_.
       in_stores (cleanup_removed_secrets pl p old_sessions old_proxies old_keys old_providers)))))))))))))"

section \<open>Snapshots\<close>

record SecretSnapshot =
  snapshot_id :: string
  snapshot_kind :: SecretKind
  snapshot_value :: "string option"

record PayloadSnapshot =
  snapshot_sessions :: "SessionProfile list"
  snapshot_proxies :: "ProxyProfile list"
  snapshot_snippets :: "SnippetRecord list"
  snapshot_keys :: "ManagedKeyRecord list"
  snapshot_settings :: AppSettings
  snapshot_secrets :: "SecretSnapshot list"

definition add_secret_target :: "string \<Rightarrow> SecretKind \<Rightarrow> (string \<times> SecretKind) list \<Rightarrow> (string \<times> SecretKind) list" where
  "add_secret_target i kind targets = (if (i, kind) \<in> set targets then targets else targets @ [(i, kind)])"

definition secret_targets ::
  "SyncPlaintextPayload \<Rightarrow> SessionProfile list \<Rightarrow> ProxyProfile list \<Rightarrow> ManagedKeyRecord list \<Rightarrow> AppSettings \<Rightarrow>
   (string \<times> SecretKind) list" where
  "secret_targets p old_sessions old_proxies old_keys old_settings =
     (let s = payload_secrets p;
          both = (\<lambda>i. add_secret_target i Passphrase \<circ> add_secret_target i Password);
          t = fold both (map profile_id (old_sessions @ sessions p)) [];
          t = fold both (map profile_secret_id (profile_secrets s)) t;
          t = fold (\<lambda>i. add_secret_target i ProxyPassword)
                (map proxy_id (old_proxies @ proxies p) @ map proxy_secret_id (proxy_secrets s)) t;
          t = fold (\<lambda>i. add_secret_target i ManagedPrivateKey)
                (map key_id (old_keys @ managed_keys p) @ map key_secret_id (key_secrets s)) t;
          t = fold (\<lambda>i. add_secret_target i AiProviderApiKey)
                (map provider_id (ai_providers old_settings @ synced_ai_providers (settings p))
                 @ map provider_secret_id (ai_provider_secrets s)) t
      in add_secret_target ''web_search'' WebSearchApiKey t)"

definition capture_affected_secrets ::
  "platform \<Rightarrow> SyncPlaintextPayload \<Rightarrow> SessionProfile list \<Rightarrow> ProxyProfile list \<Rightarrow> ManagedKeyRecord list \<Rightarrow> AppSettings \<Rightarrow>
   SecretSnapshot list local_io" where
  "capture_affected_secrets pl p old_sessions old_proxies old_keys old_settings =
     collect (\<lambda>(i, kind). attempt (get_stored pl i kind) (\<lambda>v.
         ok \<lparr>snapshot_id = i, snapshot_kind = kind, snapshot_value = v\<rparr>))
       (secret_targets p old_sessions old_proxies old_keys old_settings)"

definition capture :: "platform \<Rightarrow> SyncPlaintextPayload \<Rightarrow> PayloadSnapshot local_io" where
  "capture pl p =
     attempt load_sessions (\<lambda>ss.
     attempt load_proxies_content (\<lambda>ps.
     attempt load_snippets (\<lambda>sn.
     attempt load_keys (\<lambda>ks.
     attempt (get_io memory_settings) (\<lambda>st.
     attempt (capture_affected_secrets pl p ss ps ks st) (\<lambda>secrets.
       ok \<lparr>snapshot_sessions = ss, snapshot_proxies = ps, snapshot_snippets = sn, snapshot_keys = ks,
            snapshot_settings = st, snapshot_secrets = secrets\<rparr>))))))"

definition restore_secret :: "platform \<Rightarrow> SecretSnapshot \<Rightarrow> unit local_io" where
  "restore_secret pl s =
     (case snapshot_value s of
        Some v \<Rightarrow> set_stored pl (snapshot_id s) (snapshot_kind s) v
      | None \<Rightarrow> delete_stored pl (snapshot_id s) (snapshot_kind s))"

fun attempt_all :: "(string \<times> unit local_io) list \<Rightarrow> local_data \<Rightarrow> (string \<times> store_error) list \<times> local_data" where
  \<comment> \<open>every step runs; the errors are collected\<close>
  "attempt_all [] d = ([], d)"
| "attempt_all ((what, m) # rest) d =
     (case m d of
        (Inr _, d') \<Rightarrow> attempt_all rest d'
      | (Inl e, d') \<Rightarrow> (case attempt_all rest d' of (es, d'') \<Rightarrow> ((what, e) # es, d'')))"

fun secret_kind_label :: "SecretKind \<Rightarrow> string" where
  "secret_kind_label Password = ''password''"
| "secret_kind_label Passphrase = ''passphrase''"
| "secret_kind_label ManagedPrivateKey = ''managed-private-key''"
| "secret_kind_label AiProviderApiKey = ''ai-provider-api-key''"
| "secret_kind_label WebSearchApiKey = ''web-search-api-key''"
| "secret_kind_label ProxyPassword = ''proxy-password''"

definition restore_steps :: "platform \<Rightarrow> PayloadSnapshot \<Rightarrow> (string \<times> unit local_io) list" where
  "restore_steps pl s =
     [(''sessions'', save_sessions (snapshot_sessions s)), (''proxies'', save_proxies (snapshot_proxies s)),
      (''snippets'', save_snippets (snapshot_snippets s)), (''managed keys'', save_keys (snapshot_keys s)),
      (''settings'', attempt (replace_settings pl (snapshot_settings s)) (\<lambda>_. ok ()))]
     @ map (\<lambda>x. (''secret '' @ snapshot_id x @ ''/'' @ secret_kind_label (snapshot_kind x), restore_secret pl x))
         (snapshot_secrets s)"

definition restore :: "platform \<Rightarrow> PayloadSnapshot \<Rightarrow> local_data \<Rightarrow> (string \<times> store_error) list \<times> local_data" where
  "restore pl s = attempt_all (restore_steps pl s)"

definition on_fst :: "('a, 'e, 'r) io \<Rightarrow> ('a \<times> 'b, 'e, 'r) io" where
  "on_fst m s = (case m (fst s) of (r, a) \<Rightarrow> (r, (a, snd s)))"

definition on_snd :: "('b, 'e, 'r) io \<Rightarrow> ('a \<times> 'b, 'e, 'r) io" where
  "on_snd m s = (case m (snd s) of (r, b) \<Rightarrow> (r, (fst s, b)))"

definition apply_plaintext_payload ::
  "platform \<Rightarrow> SyncPlaintextPayload \<Rightarrow> ('c, sync_error, unit) io \<Rightarrow> (local_data \<times> 'c, sync_error, unit) io" where
  \<comment> \<open>\<open>finalize\<close> runs on the configuration of the synchronisation, next to the local data\<close>
  "apply_plaintext_payload pl p finalize s =
     (case on_fst (in_stores (capture pl p)) s of
        (Inl e, s1) \<Rightarrow> (Inl e, s1)
      | (Inr snapshot, s1) \<Rightarrow>
          (case attempt (on_fst (apply_payload_changes pl p)) (\<lambda>_.
                  map_err (InContext ''failed to finalize sync pull'') (on_snd finalize)) s1 of
             (Inr _, s2) \<Rightarrow> (Inr (), s2)
           | (Inl e, (d, c)) \<Rightarrow>
               (case restore pl snapshot d of
                  ([], d') \<Rightarrow> (Inl (InContext ''sync pull failed; local changes were rolled back'' e), (d', c))
                | (es, d') \<Rightarrow> (Inl (RollbackFailed e es), (d', c)))))"

section \<open>Evaluation\<close>

text \<open>An operation is only unfolded on a state, so that evaluation does not enter continuations.\<close>

lemmas payload_on_states [code] =
  profile_secret_of_def [THEN fun_cong] key_secret_of_def [THEN fun_cong] provider_secret_of_def
  [THEN fun_cong] proxy_secret_of_def [THEN fun_cong] collect_secrets_def [THEN fun_cong]
  build_plaintext_payload_def [THEN fun_cong] set_optional_def [THEN fun_cong] write_secrets_def
  [THEN fun_cong] delete_if_def [THEN fun_cong] cleanup_removed_secrets_def [THEN fun_cong]
  apply_payload_changes_def [THEN fun_cong] capture_affected_secrets_def [THEN fun_cong] capture_def
  [THEN fun_cong] restore_secret_def [THEN fun_cong]

end
