(* ===== verification/Sync_Backend.thy ===== *)
theory Sync_Backend
  imports Sync_Payload Sync_Secrets Capability_Probe
begin

text \<open>
  The backends of the synchronisation in \<^verbatim>\<open>crates/miaominal-sync/src/sync\<close>: the WebDAV file
  (\<^verbatim>\<open>webdav.rs\<close>), the GitHub gist (\<^verbatim>\<open>github_gist.rs\<close>) and the surface the engine uses (\<^verbatim>\<open>providers.rs\<close>).

  The state is the \<open>world\<close> of the engine. The server and the HTTP client are the function \<open>serve\<close> of the
  argument \<open>env\<close>, from the state of the server and a request to a response (\<^term>\<open>None\<close> when the transport
  fails); so are the URL parser and the JSON of GitHub's responses. Every exchange is appended to
  \<open>exchanges\<close>, and at every request, where the code awaits, other tasks of the program may run:
  \<open>others\<close> says, request by request, what they do to the configuration file and to the local data.
  Error texts omit the reason phrase that the HTTP library prints after a status.
\<close>

section \<open>The world of the engine\<close>

datatype auth = BasicAuth string string | BearerToken string

datatype remote_method = GetRequest | PutRequest | PatchRequest | PostRequest

datatype remote_body =
  NoBody
| JsonText string
| GistFiles "(string \<times> string) list" \<comment> \<open>the file names with their contents\<close>
| NewGist string bool "(string \<times> string) list" \<comment> \<open>the description, whether it is public, the files\<close>

record remote_request =
  rm_method :: remote_method
  rm_url :: string
  rm_auth :: auth
  rm_condition :: precondition
  rm_body :: remote_body

record 'srv world =
  remote_server :: 'srv
  exchanges :: "(remote_request \<times> http_response option) list"
  config_store :: SyncConfigStore
  sync_disk :: config_disk
  accounts :: sync_accounts
  local_stores :: local_data
  others :: "(config_disk \<times> local_data \<Rightarrow> config_disk \<times> local_data) list"

record 'srv env =
  env_codec :: codec
  env_platform :: platform
  serve :: "'srv \<Rightarrow> remote_request \<Rightarrow> http_response option \<times> 'srv"
  parse_url :: "string \<Rightarrow> url option"
  client_builds :: bool
  created_gist :: "http_response \<Rightarrow> string option" \<comment> \<open>the identifier in the body of a created gist\<close>
  gist_files :: "http_response \<Rightarrow> (string \<rightharpoonup> string) option" \<comment> \<open>the files in the body of a gist\<close>
  env_draws :: draws
  env_now :: nat

type_synonym ('srv, 'a) sync = "('srv world, sync_error, 'a) io"

definition raise_sync :: "string \<Rightarrow> ('srv, 'a) sync" where
  "raise_sync m = fail (Anyhow (anyhow m))"

definition capability_error :: "CapabilityReport \<Rightarrow> ('srv, 'a) sync" where
  "capability_error r = fail (CapabilityFailed r)"

definition exchange :: "'srv env \<Rightarrow> remote_request \<Rightarrow> ('srv, http_response option) sync" where
  "exchange e rq w =
     (let (response, srv) = serve e (remote_server w) rq;
          (disk, data) = (case others w of [] \<Rightarrow> (sync_disk w, local_stores w) | f # _ \<Rightarrow> f (sync_disk w, local_stores w))
      in (Inr response, w\<lparr>remote_server := srv, exchanges := exchanges w @ [(rq, response)], sync_disk := disk,
                          local_stores := data, others := tl (others w)\<rparr>))"

definition send_request :: "'srv env \<Rightarrow> remote_request \<Rightarrow> string \<Rightarrow> ('srv, http_response) sync" where
  "send_request e rq what =
     attempt (exchange e rq) (\<lambda>r. case r of None \<Rightarrow> raise_sync what | Some r \<Rightarrow> ok r)"

definition status_error :: "string \<Rightarrow> http_response \<Rightarrow> ('srv, 'a) sync" where
  "status_error what r =
     raise_sync (what @ '' failed: '' @ show_nat (rs_status r) @ '' - '' @ (case rs_text r of None \<Rightarrow> [] | Some t \<Rightarrow> t))"

section \<open>The surface of the backends\<close>

datatype PushCondition = PushIfMatch string | MustNotExist | Unconditional

datatype PushOutcome =
  PushedTo "string option" "string option" \<comment> \<open>the identifier of the resource, the tag\<close>
| Conflict
| ChangedAfterPush

datatype PullOutcome =
  BindingRequired SyncProvider
| MissingRemote "string option"
| NotModified
| PulledPayload string "string option" \<comment> \<open>the text, the tag\<close>

fun precondition_of :: "PushCondition \<Rightarrow> precondition" where
  "precondition_of (PushIfMatch t) = IfMatch t"
| "precondition_of MustNotExist = IfNoneMatch ''*''"
| "precondition_of Unconditional = NoCondition"

definition read_condition :: "string option \<Rightarrow> precondition" where
  "read_condition tag = (case tag of None \<Rightarrow> NoCondition | Some t \<Rightarrow> IfNoneMatch t)"

section \<open>WebDAV\<close>

record WebDavBackend =
  wd_url :: string
  wd_username :: string
  wd_password :: string

definition is_localhost_url :: "url \<Rightarrow> bool" where
  "is_localhost_url u \<longleftrightarrow> url_host u \<in> {Some ''localhost'', Some ''127.0.0.1'', Some ''[::1]'', Some ''::1''}"

definition validate_webdav_url :: "(string \<Rightarrow> url option) \<Rightarrow> string \<Rightarrow> sync_error + unit" where
  "validate_webdav_url parse url =
     (case parse url of
        None \<Rightarrow> reject ''failed to parse WebDAV URL''
      | Some u \<Rightarrow>
          if url_scheme u = ''https'' then Inr ()
          else if url_scheme u = ''http'' \<and> is_localhost_url u then Inr ()
          else if url_scheme u = ''http'' then reject ''WebDAV sync requires HTTPS unless the host is localhost''
          else reject (''unsupported WebDAV URL scheme: '' @ url_scheme u))"

definition new_webdav :: "'srv env \<Rightarrow> string \<Rightarrow> string \<Rightarrow> string \<Rightarrow> sync_error + WebDavBackend" where
  "new_webdav e url user pw =
     and_then (validate_webdav_url (parse_url e) url) (\<lambda>_.
       if \<not> client_builds e then reject ''failed to build the sync HTTP client''
       else Inr \<lparr>wd_url = url, wd_username = user, wd_password = pw\<rparr>)"

datatype WebDavPushOutcome = WebDavPushed "string option" | WebDavConflict | WebDavChangedAfterPush

datatype WebDavPullOutcome = WebDavMissing | WebDavNotModified | WebDavPayload string "string option"

definition webdav_request :: "WebDavBackend \<Rightarrow> remote_method \<Rightarrow> precondition \<Rightarrow> remote_body \<Rightarrow> remote_request" where
  "webdav_request b m condition body =
     \<lparr>rm_method = m, rm_url = wd_url b, rm_auth = BasicAuth (wd_username b) (wd_password b),
      rm_condition = condition, rm_body = body\<rparr>"

definition poll_304 :: "nat \<Rightarrow> string option \<Rightarrow> string option \<Rightarrow> CapabilityReport option" where
  \<comment> \<open>the check of a \<^verbatim>\<open>304\<close> in automatic mode: the tag that was sent, the tag that came back\<close>
  "poll_304 now sent returned =
     (let kind = classify_etag (case returned of Some t \<Rightarrow> Some t | None \<Rightarrow> sent) in
      if sent = None \<or> kind \<noteq> StrongTag \<or> (returned \<noteq> None \<and> returned \<noteq> sent)
      then Some (issue now VersionUnavailable ''poll-304'' (Some 304) kind) else None)"

definition poll_200 :: "nat \<Rightarrow> string option \<Rightarrow> string option \<Rightarrow> CapabilityReport option" where
  "poll_200 now sent returned =
     (let kind = classify_etag returned in
      if kind \<noteq> StrongTag then Some (issue now VersionUnavailable ''poll'' (Some 200) kind)
      else if sent \<noteq> None \<and> sent = returned then Some (issue now ConditionalRead ''poll'' (Some 200) kind)
      else None)"

definition webdav_pull_checked :: "'srv env \<Rightarrow> WebDavBackend \<Rightarrow> string option \<Rightarrow> bool \<Rightarrow> ('srv, WebDavPullOutcome) sync" where
  "webdav_pull_checked e b tag automatic =
     attempt (send_request e (webdav_request b GetRequest (read_condition tag) NoBody) ''failed to GET from WebDAV server'') (\<lambda>r.
       if rs_status r = 304 then
         (case (if automatic then poll_304 (env_now e) tag (response_tag r) else None) of
            Some report \<Rightarrow> capability_error report
          | None \<Rightarrow> ok WebDavNotModified)
       else if rs_status r = 404 then ok WebDavMissing
       else if \<not> is_success (rs_status r) then status_error ''WebDAV GET'' r
       else
         (case (if automatic then poll_200 (env_now e) tag (response_tag r) else None) of
            Some report \<Rightarrow> capability_error report
          | None \<Rightarrow>
              (case rs_text r of
                 None \<Rightarrow> raise_sync ''failed to read WebDAV response body''
               | Some content \<Rightarrow> ok (WebDavPayload content (response_tag r)))))"

definition webdav_pull :: "'srv env \<Rightarrow> WebDavBackend \<Rightarrow> string option \<Rightarrow> ('srv, WebDavPullOutcome) sync" where
  "webdav_pull e b tag = webdav_pull_checked e b tag False"

definition confirm_version :: "'srv env \<Rightarrow> WebDavBackend \<Rightarrow> string \<Rightarrow> string option \<Rightarrow> ('srv, string option option) sync" where
  \<comment> \<open>the tag of the uploaded version: from the response, or from a second look; \<^term>\<open>None\<close> when the second
    look does not find what was uploaded\<close>
  "confirm_version e b text tag =
     (if classify_etag tag = StrongTag then ok (Some tag)
      else attempt (webdav_pull_checked e b None True) (\<lambda>seen.
        case seen of
          WebDavPayload content fetched \<Rightarrow> if content = text then ok (Some fetched) else ok None
        | _ \<Rightarrow> ok None))"

definition webdav_push :: "'srv env \<Rightarrow> WebDavBackend \<Rightarrow> string \<Rightarrow> PushCondition \<Rightarrow> ('srv, WebDavPushOutcome) sync" where
  "webdav_push e b text condition =
     (let weak = (case condition of
            PushIfMatch t \<Rightarrow> if classify_etag (Some t) \<noteq> StrongTag then Some (classify_etag (Some t)) else None
          | _ \<Rightarrow> None)
      in case weak of
        Some kind \<Rightarrow> capability_error (issue (env_now e) VersionUnavailable ''upload-precondition'' None kind)
      | None \<Rightarrow>
          attempt (send_request e (webdav_request b PutRequest (precondition_of condition) (JsonText text))
              ''failed to PUT to WebDAV server'') (\<lambda>r.
            if rs_status r = 412 then ok WebDavConflict
            else if \<not> is_success (rs_status r) then status_error ''WebDAV PUT'' r
            else if condition = Unconditional then ok (WebDavPushed (response_tag r))
            else
              attempt (confirm_version e b text (response_tag r)) (\<lambda>confirmed.
                case confirmed of
                  None \<Rightarrow> ok WebDavChangedAfterPush
                | Some tag \<Rightarrow>
                    if (case condition of PushIfMatch previous \<Rightarrow> tag = Some previous | _ \<Rightarrow> False)
                    then capability_error (issue (env_now e) ConditionalWrite ''upload-version-unchanged'' None StrongTag)
                    else ok (WebDavPushed tag))))"

section \<open>GitHub gists\<close>

definition GIST_FILENAME :: string where "GIST_FILENAME = ''miaominal_sync.json''"
definition DEFAULT_GITHUB_API_BASE :: string where "DEFAULT_GITHUB_API_BASE = ''https://api.github.com''"

record GithubGistBackend =
  gist_token :: string
  backend_gist :: "string option"
  api_base :: string

definition new_gist :: "'srv env \<Rightarrow> string \<Rightarrow> string option \<Rightarrow> string option \<Rightarrow> sync_error + GithubGistBackend" where
  "new_gist e token i base =
     (if \<not> client_builds e then reject ''failed to build the sync HTTP client''
      else Inr \<lparr>gist_token = token, backend_gist = i,
                api_base = (case base of Some b \<Rightarrow> if trim b \<noteq> [] then b else DEFAULT_GITHUB_API_BASE
                                       | None \<Rightarrow> DEFAULT_GITHUB_API_BASE)\<rparr>)"

definition gist_url :: "GithubGistBackend \<Rightarrow> string \<Rightarrow> string" where
  "gist_url b i = api_base b @ ''/gists/'' @ i"

definition gists_url :: "GithubGistBackend \<Rightarrow> string" where
  "gists_url b = api_base b @ ''/gists''"

definition gist_tag :: "http_response \<Rightarrow> string option" where
  \<comment> \<open>\<^verbatim>\<open>response_etag\<close> of \<^verbatim>\<open>github_gist.rs\<close>: a tag that is not text counts as missing\<close>
  "gist_tag r = (case rs_etag r of None \<Rightarrow> None | Some v \<Rightarrow> if header_text v then Some v else None)"

datatype GistPullOutcome =
  GistBindingRequired | GistMissing "string option" | GistNotModified | GistPayload string "string option"

datatype GistPushOutcome = GistPushed string "string option" | GistConflict

definition gist_request :: "GithubGistBackend \<Rightarrow> remote_method \<Rightarrow> string \<Rightarrow> precondition \<Rightarrow> remote_body \<Rightarrow> remote_request" where
  "gist_request b m url condition body =
     \<lparr>rm_method = m, rm_url = url, rm_auth = BearerToken (gist_token b), rm_condition = condition, rm_body = body\<rparr>"

definition gist_push ::
  "'srv env \<Rightarrow> GithubGistBackend \<Rightarrow> string \<Rightarrow> PushCondition \<Rightarrow> ('srv, GistPushOutcome \<times> GithubGistBackend) sync" where
  "gist_push e b text condition =
     (case backend_gist b of
        Some i \<Rightarrow>
          if condition = MustNotExist then ok (GistConflict, b)
          else
            attempt (send_request e (gist_request b PatchRequest (gist_url b i) (precondition_of condition)
                (GistFiles [(GIST_FILENAME, text)])) ''failed to update GitHub Gist'') (\<lambda>r.
              if rs_status r = 412 then ok (GistConflict, b)
              else if \<not> is_success (rs_status r) then status_error ''GitHub Gist update'' r
              else ok (GistPushed i (gist_tag r), b))
      | None \<Rightarrow>
          attempt (send_request e (gist_request b PostRequest (gists_url b) NoCondition
              (NewGist ''Miaominal configuration sync'' False [(GIST_FILENAME, text)])) ''failed to create GitHub Gist'') (\<lambda>r.
            if \<not> is_success (rs_status r) then status_error ''GitHub Gist create'' r
            else
              (case created_gist e r of
                 None \<Rightarrow> raise_sync ''failed to parse Gist response''
               | Some i \<Rightarrow> ok (GistPushed i (gist_tag r), b\<lparr>backend_gist := Some i\<rparr>))))"

definition gist_pull :: "'srv env \<Rightarrow> GithubGistBackend \<Rightarrow> string option \<Rightarrow> ('srv, GistPullOutcome) sync" where
  "gist_pull e b tag =
     (case backend_gist b of
        None \<Rightarrow> ok GistBindingRequired
      | Some i \<Rightarrow>
          attempt (send_request e (gist_request b GetRequest (gist_url b i) (read_condition tag) NoBody)
              ''failed to fetch GitHub Gist'') (\<lambda>r.
            if rs_status r = 304 then ok GistNotModified
            else if rs_status r = 404 then
              raise_sync (''GitHub Gist fetch failed: configured Gist '' @ i
                @ '' was not found or is not accessible with the current token'')
            else if \<not> is_success (rs_status r) then status_error ''GitHub Gist fetch'' r
            else
              (case gist_files e r of
                 None \<Rightarrow> raise_sync ''failed to parse Gist response''
               | Some files \<Rightarrow>
                   (case files GIST_FILENAME of
                      Some content \<Rightarrow> ok (GistPayload content (gist_tag r))
                    | None \<Rightarrow> ok (GistMissing (gist_tag r))))))"

section \<open>The backend of a configuration\<close>

datatype RemoteBackend = GistBackend GithubGistBackend | WebDavFile WebDavBackend

definition on_accounts :: "'a accounts_io \<Rightarrow> ('srv, 'a) sync" where
  "on_accounts m w =
     (case m (accounts w) of
        (Inl e, a) \<Rightarrow> (Inl (Anyhow e), w\<lparr>accounts := a\<rparr>)
      | (Inr v, a) \<Rightarrow> (Inr v, w\<lparr>accounts := a\<rparr>))"

definition configured :: "string \<Rightarrow> 'a option \<Rightarrow> ('srv, 'a) sync" where
  "configured m v = (case v of None \<Rightarrow> raise_sync m | Some x \<Rightarrow> ok x)"

definition build_backend :: "'srv env \<Rightarrow> ('srv, RemoteBackend option) sync" where
  "build_backend e =
     attempt (get_io (\<lambda>w. config (config_store w))) (\<lambda>c.
       case provider c of
         NoProvider \<Rightarrow> ok None
       | GithubGist \<Rightarrow>
           attempt (on_accounts get_github_token) (\<lambda>t.
           attempt (configured ''GitHub token not configured'' t) (\<lambda>token.
           attempt (lift_sum (new_gist e token (gist_id c) (gist_api_base c))) (\<lambda>b. ok (Some (GistBackend b)))))
       | WebDav \<Rightarrow>
           attempt (on_accounts get_webdav_password) (\<lambda>p.
           attempt (configured ''WebDAV password not configured'' p) (\<lambda>password.
           attempt (lift_sum (new_webdav e (webdav_url c) (webdav_username c) password)) (\<lambda>b. ok (Some (WebDavFile b))))))"

definition backend_push ::
  "'srv env \<Rightarrow> RemoteBackend \<Rightarrow> string \<Rightarrow> PushCondition \<Rightarrow> ('srv, PushOutcome \<times> RemoteBackend) sync" where
  "backend_push e b text condition =
     (case b of
        GistBackend g \<Rightarrow>
          attempt (gist_push e g text condition) (\<lambda>(outcome, g). ok (case outcome of
              GistPushed i tag \<Rightarrow> (PushedTo (Some i) tag, GistBackend g)
            | GistConflict \<Rightarrow> (Conflict, GistBackend g)))
      | WebDavFile d \<Rightarrow>
          attempt (webdav_push e d text condition) (\<lambda>outcome. ok (case outcome of
              WebDavPushed tag \<Rightarrow> (PushedTo None tag, b)
            | WebDavConflict \<Rightarrow> (Conflict, b)
            | WebDavChangedAfterPush \<Rightarrow> (ChangedAfterPush, b))))"

definition backend_pull_checked :: "'srv env \<Rightarrow> RemoteBackend \<Rightarrow> string option \<Rightarrow> bool \<Rightarrow> ('srv, PullOutcome) sync" where
  "backend_pull_checked e b tag automatic =
     (case b of
        GistBackend g \<Rightarrow>
          attempt (gist_pull e g tag) (\<lambda>outcome. ok (case outcome of
              GistBindingRequired \<Rightarrow> BindingRequired GithubGist
            | GistMissing t \<Rightarrow> MissingRemote t
            | GistNotModified \<Rightarrow> NotModified
            | GistPayload content t \<Rightarrow> PulledPayload content t))
      | WebDavFile d \<Rightarrow>
          attempt (if automatic then webdav_pull_checked e d tag True else webdav_pull e d tag) (\<lambda>outcome. ok (case outcome of
              WebDavMissing \<Rightarrow> MissingRemote None
            | WebDavNotModified \<Rightarrow> NotModified
            | WebDavPayload content t \<Rightarrow> PulledPayload content t)))"

definition backend_pull :: "'srv env \<Rightarrow> RemoteBackend \<Rightarrow> string option \<Rightarrow> ('srv, PullOutcome) sync" where
  "backend_pull e b tag = backend_pull_checked e b tag False"

section \<open>Evaluation\<close>

text \<open>An operation is only unfolded on a state, so that evaluation does not enter continuations.\<close>

lemmas backend_on_states [code] =
  raise_sync_def [THEN fun_cong] capability_error_def [THEN fun_cong] send_request_def [THEN
  fun_cong] status_error_def [THEN fun_cong] webdav_pull_checked_def [THEN fun_cong] webdav_pull_def
  [THEN fun_cong] confirm_version_def [THEN fun_cong] webdav_push_def [THEN fun_cong] gist_push_def
  [THEN fun_cong] gist_pull_def [THEN fun_cong] configured_def [THEN fun_cong] build_backend_def
  [THEN fun_cong] backend_push_def [THEN fun_cong] backend_pull_checked_def [THEN fun_cong]
  backend_pull_def [THEN fun_cong]

end
