(* ===== verification/Sync_Engine.thy ===== *)
theory Sync_Engine
  imports Sync_Backend
begin

text \<open>
  The engine of the synchronisation, \<^verbatim>\<open>crates/miaominal-sync/src/sync/engine.rs\<close>: the three-way comparison
  of content revisions, the state of the remote payload, pushing, pulling and polling, over the \<open>world\<close>
  of the backends. The last report of the capability check, a field of \<^verbatim>\<open>SyncEngine\<close>, is an argument.
\<close>

section \<open>Outcomes\<close>

datatype SyncInterventionReason =
  BothSidesChanged | RemoteChangedBeforePush | UnsafeProviderWrite | LocalChangedDuringPull
| MissingSyncBaseline | SyncConfigurationChanged

datatype SyncStatus =
  Idle
| Syncing
| RemoteBindingRequired SyncProvider
| Pulled nat
| Pushed nat
| PullRequired "nat option" SyncInterventionReason
| UpToDate nat
| SyncFailure string

datatype RemoteSyncState =
  RemoteDisabled
| RemoteBinding SyncProvider
| RemoteMissing
| RemoteNotModified
| RemoteUpToDate
| RemoteUpdated nat "string option" "string option" "string option"

datatype SyncContentRelation = Identical | LocalChanged | RemoteChanged | Diverged | MissingBaseline

definition classify_content_revisions :: "string \<Rightarrow> string \<Rightarrow> string option \<Rightarrow> SyncContentRelation" where
  \<comment> \<open>two different revisions are not both the baseline: the last case is \<^verbatim>\<open>unreachable!\<close>\<close>
  "classify_content_revisions local remote baseline =
     (if local = remote then Identical
      else (case baseline of
              None \<Rightarrow> MissingBaseline
            | Some b \<Rightarrow>
                if local \<noteq> b \<and> remote = b then LocalChanged
                else if local = b \<and> remote \<noteq> b then RemoteChanged
                else Diverged))"

datatype RemotePayloadState =
  StateBindingRequired SyncProvider
| StateMissing "string option"
| StateNotModified
| StateCurrent SyncPayload "string option"
| StateChanged SyncPayload "string option"

datatype PushMode = AutomaticPush | ManualPush | ForcePush

definition automatic_push_requires_confirmation :: "PushCondition \<Rightarrow> nat option \<Rightarrow> bool \<Rightarrow> bool" where
  "automatic_push_requires_confirmation condition observed_remote_at force \<longleftrightarrow>
     condition = Unconditional \<and> observed_remote_at \<noteq> None \<and> \<not> force"

section \<open>Access to the world\<close>

definition current_config :: "('srv, SyncConfig) sync" where
  "current_config = get_io (\<lambda>w. config (config_store w))"

definition reload_config :: "('srv, unit) sync" where
  \<comment> \<open>\<^verbatim>\<open>config_store.sync_from_disk()\<close>\<close>
  "reload_config w = (Inr (), w\<lparr>config_store := sync_from_disk (config_store w) (sync_disk w)\<rparr>)"

definition update_config :: "64 word \<Rightarrow> (SyncConfig \<Rightarrow> SyncConfig) \<Rightarrow> ('srv, bool) sync" where
  \<comment> \<open>\<^verbatim>\<open>config_store.update_if_revision\<close>\<close>
  "update_config expected f w =
     (case update_if_revision expected f (config_store w) (sync_disk w) of
        (r, st, d) \<Rightarrow> (map_sum ConfigFailed id r, w\<lparr>config_store := st, sync_disk := d\<rparr>))"

definition on_local :: "'a local_io \<Rightarrow> ('srv, 'a) sync" where
  "on_local m w =
     (case m (local_stores w) of
        (r, d) \<Rightarrow> (map_sum StoreFailed id r, w\<lparr>local_stores := d\<rparr>))"

definition anyhow_result :: "'a anyhow \<Rightarrow> ('srv, 'a) sync" where
  "anyhow_result r = lift_sum (map_sum Anyhow id r)"

definition sync_enabled_for_provider :: "SyncConfig \<Rightarrow> bool" where
  "sync_enabled_for_provider c \<longleftrightarrow> provider c \<noteq> NoProvider"

definition sync_passphrase :: "('srv, string) sync" where
  "sync_passphrase =
     attempt (on_accounts get_passphrase) (\<lambda>p. case p of
       Some x \<Rightarrow> if trim x \<noteq> [] then ok x else raise_sync ''sync passphrase not configured''
     | None \<Rightarrow> raise_sync ''sync passphrase not configured'')"

definition non_empty_payload_id :: "SyncPayload \<Rightarrow> string option" where
  "non_empty_payload_id p = (if payload_id p = [] then None else Some (payload_id p))"

definition remote_payload_is_current :: "SyncConfig \<Rightarrow> SyncPayload \<Rightarrow> bool" where
  "remote_payload_is_current c p \<longleftrightarrow> payload_id p \<noteq> [] \<and> remote_payload_id c = Some (payload_id p)"

definition probe_found_preconditions_unsupported :: "CapabilityReport option \<Rightarrow> bool" where
  "probe_found_preconditions_unsupported report =
     (case report of
        None \<Rightarrow> False
      | Some r \<Rightarrow>
          cap_state r \<noteq> Supported \<and> cap_reason r \<noteq> Some ProbeCancelled \<and>
          (case cap_reason r of None \<Rightarrow> False | Some why \<Rightarrow> is_write_precondition_only why))"

section \<open>Snapshots of the local data\<close>

record LocalSyncSnapshot =
  snapshot_plaintext :: SyncPlaintextPayload
  snapshot_revision :: string

definition read_local :: "platform \<Rightarrow> SyncPlaintextPayload local_io" where
  \<comment> \<open>the plaintext of \<^verbatim>\<open>local_snapshot\<close>\<close>
  "read_local pl =
     attempt load_sessions (\<lambda>ss.
     attempt (load_proxies pl) (\<lambda>ps.
     attempt load_snippets (\<lambda>sn.
     attempt load_keys (\<lambda>ks.
     attempt (read_current pl) (\<lambda>st.
       build_plaintext_payload pl ss ps sn ks (synced_settings st))))))"

definition local_snapshot :: "'srv env \<Rightarrow> ('srv, LocalSyncSnapshot) sync" where
  "local_snapshot e =
     attempt (on_local (read_local (env_platform e))) (\<lambda>plaintext.
     attempt (anyhow_result (local_data_revision (env_codec e) plaintext)) (\<lambda>revision.
       ok \<lparr>snapshot_plaintext = plaintext, snapshot_revision = revision\<rparr>))"

definition local_revision :: "'srv env \<Rightarrow> ('srv, string) sync" where
  "local_revision e = attempt (local_snapshot e) (\<lambda>s. ok (snapshot_revision s))"

definition normalize_remote_io :: "platform \<Rightarrow> SyncPlaintextPayload \<Rightarrow> SyncPlaintextPayload local_io" where
  "normalize_remote_io pl p d =
     (case normalize_remote_payload pl p (next_uuid d) of
        None \<Rightarrow> (Inl Endless, d)
      | Some (p', k) \<Rightarrow> (Inr p', d\<lparr>next_uuid := k\<rparr>))"

definition decrypt_normalized_remote_payload ::
  "'srv env \<Rightarrow> SyncPayload \<Rightarrow> string \<Rightarrow> ('srv, SyncPlaintextPayload \<times> string) sync" where
  "decrypt_normalized_remote_payload e p pass =
     attempt (anyhow_result (decrypt_payload (env_codec e) p pass)) (\<lambda>plaintext.
     attempt (on_local (normalize_remote_io (env_platform e) plaintext)) (\<lambda>plaintext.
     attempt (anyhow_result (local_data_revision (env_codec e) plaintext)) (\<lambda>revision.
       ok (plaintext, revision))))"

definition tried :: "('srv, 'a) sync \<Rightarrow> ('srv, sync_error + 'a) sync" where
  \<comment> \<open>the result as a value, where the code matches on it\<close>
  "tried m w = (case m w of (r, w') \<Rightarrow> (Inr r, w'))"

section \<open>The remote payload\<close>

definition ensure :: "bool \<Rightarrow> string \<Rightarrow> ('srv, unit) sync" where
  "ensure b m = (if b then ok () else raise_sync m)"

definition recognise_payload :: "'srv env \<Rightarrow> 64 word \<Rightarrow> string \<Rightarrow> string option \<Rightarrow> ('srv, RemotePayloadState) sync" where
  \<comment> \<open>the arm of \<^verbatim>\<open>remote_payload_state\<close> for a payload\<close>
  "recognise_payload e revision text tag =
     attempt (anyhow_result (parse_remote_payload (env_codec e) text)) (\<lambda>p.
     attempt current_config (\<lambda>c.
       if remote_payload_is_current c p then
         attempt (if remote_etag c \<noteq> tag then
                    attempt (update_config revision (\<lambda>c. c\<lparr>remote_etag := tag\<rparr>)) (\<lambda>updated.
                      ensure updated ''sync configuration changed while refreshing the remote ETag'')
                  else ok ()) (\<lambda>_. ok (StateCurrent p tag))
       else ok (StateChanged p tag)))"

definition remote_payload_state :: "'srv env \<Rightarrow> bool \<Rightarrow> bool \<Rightarrow> ('srv, RemotePayloadState) sync" where
  "remote_payload_state e conditional automatic =
     attempt reload_config (\<lambda>_.
     attempt current_config (\<lambda>c.
     attempt (build_backend e) (\<lambda>backend.
       case backend of
         None \<Rightarrow> ok (StateMissing None)
       | Some b \<Rightarrow>
           let tag = (if conditional \<and> last_synced_local_revision c \<noteq> None then remote_etag c else None) in
           attempt (if automatic then backend_pull_checked e b tag True else backend_pull e b tag) (\<lambda>outcome.
           attempt reload_config (\<lambda>_.
           attempt current_config (\<lambda>c'.
           attempt (ensure (config_revision c' = config_revision c) ''sync configuration changed during the remote check'') (\<lambda>_.
             case outcome of
               BindingRequired p \<Rightarrow> ok (StateBindingRequired p)
             | MissingRemote t \<Rightarrow> ok (StateMissing t)
             | NotModified \<Rightarrow> ok StateNotModified
             | PulledPayload text t \<Rightarrow> recognise_payload e (config_revision c) text t)))))))"

definition record_sync :: "nat \<Rightarrow> string option \<Rightarrow> string option \<Rightarrow> string \<Rightarrow> SyncConfig \<Rightarrow> SyncConfig" where
  "record_sync at tag i revision c =
     c\<lparr>last_sync_at := at, remote_etag := tag, remote_payload_id := i, last_synced_local_revision := Some revision\<rparr>"

definition acknowledge_remote_payload ::
  "64 word \<Rightarrow> SyncPayload \<Rightarrow> string option \<Rightarrow> string \<Rightarrow> ('srv, SyncStatus) sync" where
  "acknowledge_remote_payload expected p tag content_revision =
     attempt (update_config expected (record_sync (synced_at p) tag (non_empty_payload_id p) content_revision)) (\<lambda>persisted.
       if \<not> persisted then attempt reload_config (\<lambda>_. ok (PullRequired (Some (synced_at p)) SyncConfigurationChanged))
       else ok (UpToDate (synced_at p)))"

section \<open>Pushing\<close>

type_synonym push_plan = "PushCondition \<times> string option \<times> nat option" \<comment> \<open>with the parent and the time of the remote\<close>

definition condition_from_tag :: "string option \<Rightarrow> PushCondition" where
  "condition_from_tag tag = (case tag of None \<Rightarrow> Unconditional | Some t \<Rightarrow> PushIfMatch t)"

definition pull_required :: "SyncPayload \<Rightarrow> SyncInterventionReason \<Rightarrow> ('srv, SyncStatus + push_plan) sync" where
  "pull_required p why = ok (Inl (PullRequired (Some (synced_at p)) why))"

definition finished :: "('srv, SyncStatus) sync \<Rightarrow> ('srv, SyncStatus + push_plan) sync" where
  "finished m = attempt m (\<lambda>s. ok (Inl s))"

definition proceed :: "SyncPayload \<Rightarrow> string option \<Rightarrow> ('srv, SyncStatus + push_plan) sync" where
  "proceed p tag = ok (Inr (condition_from_tag tag, non_empty_payload_id p, Some (synced_at p)))"

definition plan_current ::
  "'srv env \<Rightarrow> 64 word \<Rightarrow> bool \<Rightarrow> string \<Rightarrow> string \<Rightarrow> SyncPayload \<Rightarrow> string option \<Rightarrow> ('srv, SyncStatus + push_plan) sync" where
  "plan_current e start force pass local p tag =
     (if force then proceed p tag
      else attempt current_config (\<lambda>c. case last_synced_local_revision c of
        Some baseline \<Rightarrow> if baseline = local then ok (Inl (UpToDate (synced_at p))) else proceed p tag
      | None \<Rightarrow>
          attempt (tried (decrypt_normalized_remote_payload e p pass)) (\<lambda>r. case r of
            Inl _ \<Rightarrow> pull_required p MissingSyncBaseline
          | Inr (_, remote) \<Rightarrow>
              if local = remote then finished (acknowledge_remote_payload start p tag local)
              else pull_required p MissingSyncBaseline)))"

definition plan_changed ::
  "'srv env \<Rightarrow> 64 word \<Rightarrow> bool \<Rightarrow> string \<Rightarrow> string \<Rightarrow> SyncPayload \<Rightarrow> string option \<Rightarrow> ('srv, SyncStatus + push_plan) sync" where
  "plan_changed e start force pass local p tag =
     (if force then proceed p tag
      else
        attempt (tried (decrypt_normalized_remote_payload e p pass)) (\<lambda>r.
        attempt current_config (\<lambda>c. case r of
          Inl err \<Rightarrow> if last_synced_local_revision c = None then pull_required p MissingSyncBaseline else fail err
        | Inr (_, remote) \<Rightarrow>
            (case classify_content_revisions local remote (last_synced_local_revision c) of
               Identical \<Rightarrow> finished (acknowledge_remote_payload start p tag local)
             | LocalChanged \<Rightarrow> proceed p tag
             | RemoteChanged \<Rightarrow> pull_required p RemoteChangedBeforePush
             | Diverged \<Rightarrow> pull_required p BothSidesChanged
             | MissingBaseline \<Rightarrow> pull_required p MissingSyncBaseline))))"

definition plan_push ::
  "'srv env \<Rightarrow> 64 word \<Rightarrow> bool \<Rightarrow> string \<Rightarrow> string \<Rightarrow> RemotePayloadState \<Rightarrow> ('srv, SyncStatus + push_plan) sync" where
  "plan_push e start force pass local remote =
     (case remote of
        StateBindingRequired p \<Rightarrow>
          attempt current_config (\<lambda>c.
            if p = GithubGist \<and> gist_id c = None then ok (Inr (Unconditional, None, None))
            else ok (Inl (RemoteBindingRequired p)))
      | StateMissing tag \<Rightarrow>
          ok (Inr (case tag of None \<Rightarrow> MustNotExist | Some t \<Rightarrow> PushIfMatch t, None, None))
      | StateNotModified \<Rightarrow>
          attempt current_config (\<lambda>c.
            if \<not> force \<and> last_synced_local_revision c = Some local then ok (Inl (UpToDate (last_sync_at c)))
            else ok (Inr (condition_from_tag (remote_etag c), remote_payload_id c, Some (last_sync_at c))))
      | StateCurrent p tag \<Rightarrow> plan_current e start force pass local p tag
      | StateChanged p tag \<Rightarrow> plan_changed e start force pass local p tag)"

definition condition_kind :: "PushCondition \<Rightarrow> EtagKind" where
  "condition_kind condition =
     (case condition of MustNotExist \<Rightarrow> StrongTag | PushIfMatch t \<Rightarrow> classify_etag (Some t) | Unconditional \<Rightarrow> MissingTag)"

definition admit_condition ::
  "nat \<Rightarrow> PushMode \<Rightarrow> SyncProvider \<Rightarrow> bool \<Rightarrow> CapabilityReport option \<Rightarrow> PushCondition \<Rightarrow> CapabilityReport + PushCondition" where
  \<comment> \<open>the condition that is sent: automatic uploads to WebDAV need a strong one, unless the user consented and
    the check found that the server cannot honour conditions\<close>
  "admit_condition now m p unsafe report condition =
     (if m = AutomaticPush \<and> p = WebDav then
        (let kind = condition_kind condition;
             drop = unsafe \<and> probe_found_preconditions_unsupported report
         in if kind \<noteq> StrongTag \<and> \<not> drop then Inl (issue now VersionUnavailable ''upload-precondition'' None kind)
            else Inr (if condition \<noteq> Unconditional \<and> drop then Unconditional else condition))
      else Inr condition)"

definition examine_conflict ::
  "'srv env \<Rightarrow> PushMode \<Rightarrow> SyncProvider \<Rightarrow> bool \<Rightarrow> PushCondition \<Rightarrow> PushOutcome \<Rightarrow> RemoteBackend \<Rightarrow> ('srv, unit) sync" where
  \<comment> \<open>a \<^verbatim>\<open>412\<close> although nothing changed is a server that cannot compare tags\<close>
  "examine_conflict e m p unsafe condition outcome b =
     (if outcome = Conflict \<and> m = AutomaticPush \<and> p = WebDav \<and> \<not> unsafe then
        let observed = (case condition of PushIfMatch t \<Rightarrow> Some t | _ \<Rightarrow> None) in
        attempt (backend_pull_checked e b None True) (\<lambda>after.
          let unchanged = (case after of
                PulledPayload _ tag \<Rightarrow> observed = tag | MissingRemote _ \<Rightarrow> observed = None | _ \<Rightarrow> False)
          in if unchanged then capability_error (issue (env_now e) ConditionalWrite ''upload-412-unchanged'' (Some 412) StrongTag)
             else ok ())
      else ok ())"

definition upload ::
  "'srv env \<Rightarrow> PushMode \<Rightarrow> bool \<Rightarrow> 64 word \<Rightarrow> string \<Rightarrow> LocalSyncSnapshot \<Rightarrow> push_plan \<Rightarrow> ('srv, SyncStatus) sync" where
  \<comment> \<open>the part of \<^verbatim>\<open>push_internal\<close> from \<^verbatim>\<open>build_payload\<close> on\<close>
  "upload e m unsafe start pass local plan =
     (case plan of (condition, parent, observed_remote_at) \<Rightarrow>
        attempt current_config (\<lambda>c.
        attempt (anyhow_result (build_payload (env_codec e) (env_draws e) (device_id c) parent
            (snapshot_plaintext local) pass)) (\<lambda>p.
        attempt (anyhow_result (library ''failed to serialize sync payload'' (payload_json (env_codec e) p))) (\<lambda>text.
        attempt (build_backend e) (\<lambda>backend. case backend of
          None \<Rightarrow> ok Idle
        | Some b \<Rightarrow>
            attempt (backend_push e b text condition) (\<lambda>(outcome, b). case outcome of
              PushedTo resource tag \<Rightarrow>
                attempt (update_config start (\<lambda>c. record_sync (synced_at p) tag (Some (payload_id p)) (snapshot_revision local)
                    (case resource of None \<Rightarrow> c | Some i \<Rightarrow> c\<lparr>gist_id := Some i\<rparr>))) (\<lambda>persisted.
                  if persisted then ok (Pushed (synced_at p))
                  else ok (PullRequired (Some (synced_at p)) SyncConfigurationChanged))
            | _ \<Rightarrow>
                attempt (examine_conflict e m (provider c) unsafe condition outcome b) (\<lambda>_.
                  ok (PullRequired observed_remote_at RemoteChangedBeforePush))))))))"

definition carry_out ::
  "'srv env \<Rightarrow> CapabilityReport option \<Rightarrow> PushMode \<Rightarrow> bool \<Rightarrow> bool \<Rightarrow> 64 word \<Rightarrow> string \<Rightarrow> LocalSyncSnapshot \<Rightarrow>
   SyncStatus + push_plan \<Rightarrow> ('srv, SyncStatus) sync" where
  \<comment> \<open>\<^verbatim>\<open>push_internal\<close> after the match on the remote state\<close>
  "carry_out e report m manual_webdav unsafe start pass local plan =
     (case plan of
        Inl status \<Rightarrow> ok status
      | Inr (condition, parent, observed_remote_at) \<Rightarrow>
          attempt current_config (\<lambda>c.
            case admit_condition (env_now e) m (provider c) unsafe report (if manual_webdav then Unconditional else condition) of
              Inl r \<Rightarrow> capability_error r
            | Inr condition \<Rightarrow>
                if \<not> manual_webdav \<and> automatic_push_requires_confirmation condition observed_remote_at (m = ForcePush) \<and> \<not> unsafe
                then ok (PullRequired observed_remote_at UnsafeProviderWrite)
                else upload e m unsafe start pass local (condition, parent, observed_remote_at)))"

definition push_internal :: "'srv env \<Rightarrow> CapabilityReport option \<Rightarrow> PushMode \<Rightarrow> ('srv, SyncStatus) sync" where
  "push_internal e report m =
     attempt current_config (\<lambda>c0.
       if \<not> sync_enabled_for_provider c0 then ok Idle
       else
     attempt reload_config (\<lambda>_.
     attempt current_config (\<lambda>c.
       let force = (m = ForcePush);
           manual_webdav = (m \<noteq> AutomaticPush \<and> provider c = WebDav);
           unsafe = (m = AutomaticPush \<and> allows_unpreconditioned_webdav_write c)
       in
     attempt (remote_payload_state e (\<not> manual_webdav \<and> \<not> unsafe) (m = AutomaticPush \<and> \<not> unsafe)) (\<lambda>remote.
     attempt (get_io (\<lambda>w. config_revision (config (config_store w)))) (\<lambda>start.
     attempt sync_passphrase (\<lambda>pass.
     attempt (local_snapshot e) (\<lambda>local.
     attempt (plan_push e start force pass (snapshot_revision local) remote)
       (carry_out e report m manual_webdav unsafe start pass local))))))))"

definition push :: "'srv env \<Rightarrow> CapabilityReport option \<Rightarrow> ('srv, SyncStatus) sync" where
  "push e report = push_internal e report AutomaticPush"

definition push_manual :: "'srv env \<Rightarrow> CapabilityReport option \<Rightarrow> ('srv, SyncStatus) sync" where
  "push_manual e report = push_internal e report ManualPush"

definition push_force :: "'srv env \<Rightarrow> CapabilityReport option \<Rightarrow> ('srv, SyncStatus) sync" where
  "push_force e report = push_internal e report ForcePush"

section \<open>Polling\<close>

definition remote_state :: "'srv env \<Rightarrow> ('srv, RemoteSyncState) sync" where
  "remote_state e =
     attempt current_config (\<lambda>c0.
       if \<not> sync_enabled_for_provider c0 then ok RemoteDisabled
       else
     attempt reload_config (\<lambda>_.
     attempt current_config (\<lambda>c.
       let unsafe = allows_unpreconditioned_webdav_write c in
     attempt (remote_payload_state e (\<not> unsafe) (\<not> unsafe)) (\<lambda>remote.
     attempt current_config (\<lambda>c.
       case remote of
         StateBindingRequired p \<Rightarrow> ok (RemoteBinding p)
       | StateMissing _ \<Rightarrow> ok RemoteMissing
       | StateNotModified \<Rightarrow> ok RemoteNotModified
       | StateCurrent p tag \<Rightarrow>
           if last_synced_local_revision c = None then
             attempt sync_passphrase (\<lambda>pass.
             attempt (tried (decrypt_normalized_remote_payload e p pass)) (\<lambda>r.
               ok (RemoteUpdated (synced_at p) tag (non_empty_payload_id p)
                 (case r of Inl _ \<Rightarrow> None | Inr (_, revision) \<Rightarrow> Some revision))))
           else ok RemoteUpToDate
       | StateChanged p tag \<Rightarrow>
           attempt sync_passphrase (\<lambda>pass.
           attempt (tried (decrypt_normalized_remote_payload e p pass)) (\<lambda>r.
           attempt (case r of
               Inr (_, revision) \<Rightarrow> ok (Some revision)
             | Inl err \<Rightarrow> if last_synced_local_revision c = None then ok None else fail err) (\<lambda>revision.
             ok (RemoteUpdated (synced_at p) tag (non_empty_payload_id p) revision)))))))))"

section \<open>Pulling\<close>

fun configuration_changed :: "sync_error \<Rightarrow> bool" where
  \<comment> \<open>\<^verbatim>\<open>downcast_ref\<close> sees through the contexts of an error\<close>
  "configuration_changed ConfigurationChangedDuringPull = True"
| "configuration_changed (InContext _ e) = configuration_changed e"
| "configuration_changed _ = False"

definition finalize_pull ::
  "64 word \<Rightarrow> SyncPayload \<Rightarrow> string option \<Rightarrow> string \<Rightarrow> (SyncConfigStore \<times> config_disk, sync_error, unit) io" where
  "finalize_pull start p tag revision c =
     (case update_if_revision start (record_sync (synced_at p) tag (non_empty_payload_id p) revision) (fst c) (snd c) of
        (Inl err, st, d) \<Rightarrow> (Inl (ConfigFailed err), (st, d))
      | (Inr False, st, d) \<Rightarrow> (Inl ConfigurationChangedDuringPull, (st, d))
      | (Inr True, st, d) \<Rightarrow> (Inr (), (st, d)))"

definition apply_remote ::
  "'srv env \<Rightarrow> 64 word \<Rightarrow> SyncPlaintextPayload \<Rightarrow> SyncPayload \<Rightarrow> string option \<Rightarrow> string \<Rightarrow> ('srv, unit) sync" where
  \<comment> \<open>the call of \<^verbatim>\<open>apply_plaintext_payload\<close>\<close>
  "apply_remote e start plaintext p tag revision w =
     (case apply_plaintext_payload (env_platform e) plaintext (finalize_pull start p tag revision)
        (local_stores w, (config_store w, sync_disk w)) of
        (r, (d, (st, disk))) \<Rightarrow> (r, w\<lparr>local_stores := d, config_store := st, sync_disk := disk\<rparr>))"

definition pull_objection ::
  "string option \<Rightarrow> bool \<Rightarrow> string \<Rightarrow> string \<Rightarrow> string option \<Rightarrow> SyncInterventionReason option" where
  \<comment> \<open>why different content is not applied\<close>
  "pull_objection expected force current remote baseline =
     (if baseline = None \<and> \<not> force then Some MissingSyncBaseline
      else if expected \<noteq> None then
        (case classify_content_revisions current remote baseline of
           RemoteChanged \<Rightarrow> None
         | LocalChanged \<Rightarrow> Some LocalChangedDuringPull
         | Diverged \<Rightarrow> Some BothSidesChanged
         | MissingBaseline \<Rightarrow> Some MissingSyncBaseline
         | Identical \<Rightarrow> None)
      else None)"

definition apply_pulled ::
  "'srv env \<Rightarrow> 64 word \<Rightarrow> SyncPlaintextPayload \<Rightarrow> SyncPayload \<Rightarrow> string option \<Rightarrow> string \<Rightarrow> ('srv, SyncStatus) sync" where
  "apply_pulled e start plaintext p tag remote =
     attempt (on_local (reload_from_disk (env_platform e))) (\<lambda>_.
     attempt (tried (apply_remote e start plaintext p tag remote)) (\<lambda>r. case r of
       Inr _ \<Rightarrow> ok (Pulled (synced_at p))
     | Inl err \<Rightarrow>
         attempt reload_config (\<lambda>_.
           if configuration_changed err then ok (PullRequired (Some (synced_at p)) SyncConfigurationChanged)
           else fail err)))"

definition settle_pull ::
  "'srv env \<Rightarrow> string option \<Rightarrow> bool \<Rightarrow> string \<Rightarrow> 64 word \<Rightarrow> SyncPayload \<Rightarrow> string option \<Rightarrow> ('srv, SyncStatus) sync" where
  \<comment> \<open>\<^verbatim>\<open>pull_internal\<close> once the payload is there; from the second snapshot on under the lock of the data\<close>
  "settle_pull e expected force start_revision start p tag =
     attempt sync_passphrase (\<lambda>pass.
     attempt (decrypt_normalized_remote_payload e p pass) (\<lambda>(plaintext, remote).
     attempt (local_revision e) (\<lambda>current.
       if current \<noteq> start_revision then ok (PullRequired (Some (synced_at p)) LocalChangedDuringPull)
       else if current = remote then acknowledge_remote_payload start p tag current
       else
         attempt current_config (\<lambda>c.
           case pull_objection expected force current remote (last_synced_local_revision c) of
             Some why \<Rightarrow> ok (PullRequired (Some (synced_at p)) why)
           | None \<Rightarrow> apply_pulled e start plaintext p tag remote))))"

definition pull_internal :: "'srv env \<Rightarrow> string option \<Rightarrow> bool \<Rightarrow> ('srv, SyncStatus) sync" where
  "pull_internal e expected force =
     attempt current_config (\<lambda>c0.
       if \<not> sync_enabled_for_provider c0 then ok Idle
       else
     attempt reload_config (\<lambda>_.
     attempt (local_revision e) (\<lambda>observed.
       if expected \<noteq> None \<and> expected \<noteq> Some observed then ok (PullRequired None LocalChangedDuringPull)
       else
     attempt current_config (\<lambda>c.
     attempt (remote_payload_state e False (expected \<noteq> None \<and> \<not> allows_unpreconditioned_webdav_write c)) (\<lambda>remote.
     attempt current_config (\<lambda>c.
       case remote of
         StateBindingRequired p \<Rightarrow> ok (RemoteBindingRequired p)
       | StateMissing _ \<Rightarrow> ok (UpToDate (last_sync_at c))
       | StateNotModified \<Rightarrow> ok (UpToDate (last_sync_at c))
       | StateCurrent p tag \<Rightarrow> settle_pull e expected force observed (config_revision c) p tag
       | StateChanged p tag \<Rightarrow> settle_pull e expected force observed (config_revision c) p tag))))))"

definition pull :: "'srv env \<Rightarrow> ('srv, SyncStatus) sync" where
  "pull e = pull_internal e None False"

definition pull_force :: "'srv env \<Rightarrow> ('srv, SyncStatus) sync" where
  "pull_force e = pull_internal e None True"

definition pull_if_unchanged :: "'srv env \<Rightarrow> string \<Rightarrow> ('srv, SyncStatus) sync" where
  "pull_if_unchanged e expected = pull_internal e (Some expected) False"

section \<open>Evaluation\<close>

text \<open>An operation is only unfolded on a state, so that evaluation does not enter continuations.\<close>

lemmas engine_on_states [code] =
  current_config_def [THEN fun_cong] anyhow_result_def [THEN fun_cong] sync_passphrase_def [THEN
  fun_cong] read_local_def [THEN fun_cong] local_snapshot_def [THEN fun_cong] local_revision_def
  [THEN fun_cong] decrypt_normalized_remote_payload_def [THEN fun_cong] ensure_def [THEN fun_cong]
  recognise_payload_def [THEN fun_cong] remote_payload_state_def [THEN fun_cong]
  acknowledge_remote_payload_def [THEN fun_cong] pull_required_def [THEN fun_cong] finished_def
  [THEN fun_cong] proceed_def [THEN fun_cong] plan_current_def [THEN fun_cong] plan_changed_def
  [THEN fun_cong] plan_push_def [THEN fun_cong] examine_conflict_def [THEN fun_cong] upload_def
  [THEN fun_cong] carry_out_def [THEN fun_cong] push_internal_def [THEN fun_cong] push_def [THEN
  fun_cong] push_manual_def [THEN fun_cong] push_force_def [THEN fun_cong] remote_state_def [THEN
  fun_cong] apply_pulled_def [THEN fun_cong] settle_pull_def [THEN fun_cong] pull_internal_def [THEN
  fun_cong] pull_def [THEN fun_cong] pull_force_def [THEN fun_cong] pull_if_unchanged_def [THEN
  fun_cong]

end
