(* ===== verification/Sync_Samples.thy ===== *)
theory Sync_Samples
  imports Sync_Engine Store_Properties
begin

text \<open>
  Concrete devices and servers for the synchronisation, and what the model computes on them.
\<close>

section \<open>Devices\<close>

definition sample_pull :: SyncPlaintextPayload where
  "sample_pull = sample_plaintext\<lparr>payload_secrets := (payload_secrets sample_plaintext)\<lparr>profile_secrets :=
     [\<lparr>profile_secret_id = ''a'', secret_password = Some ''new'', secret_passphrase = None\<rparr>]\<rparr>\<rparr>"

definition sample_before :: local_data where
  \<comment> \<open>the fourth operation on a file fails, after the new password has been written\<close>
  "sample_before = sample_data\<lparr>secrets := \<lparr>entries = [account ''a'' Password \<mapsto> ''old''], faults = []\<rparr>\<rparr>"

definition sample_clean :: local_data where
  "sample_clean = sample_before\<lparr>sessions_doc := Document [(blank_profile ''t'' 2)\<lparr>profile_name := ''mine''\<rparr>], io_faults := []\<rparr>"

section \<open>A server without a file\<close>

definition sample_serve :: "unit \<Rightarrow> remote_request \<Rightarrow> http_response option \<times> unit" where
  "sample_serve s rq =
     (Some (if rm_method rq = GetRequest then \<lparr>rs_status = 404, rs_etag = None, rs_chunks = [], rs_text = None\<rparr>
            else \<lparr>rs_status = 201, rs_etag = Some [DQUOTE, CHR ''1'', DQUOTE], rs_chunks = [], rs_text = None\<rparr>), ())"

definition sample_env :: "unit env" where
  "sample_env =
     \<lparr>env_codec = sample_codec\<lparr>plaintext_json := (\<lambda>_. Some ''{}''), payload_json := (\<lambda>_. Some ''{}'')\<rparr>,
      env_platform = sample_platform, serve = sample_serve,
      parse_url = (\<lambda>_. Some \<lparr>url_scheme = ''https'', url_host = Some ''h'', url_path = ''/sync.json'',
        url_query = None, url_fragment = None\<rparr>),
      client_builds = True, created_gist = (\<lambda>_. None), gist_files = (\<lambda>_. None), env_draws = sample_draws, env_now = 7\<rparr>"

definition sample_world :: "unit world" where
  "sample_world =
     (let c = default_config\<lparr>provider := WebDav, webdav_url := ''https://h/sync.json'', config_revision := 3\<rparr> in
      \<lparr>remote_server = (), exchanges = [], config_store = holding c, sync_disk = \<lparr>disk_file = Stored c, file_faults = []\<rparr>,
       accounts = \<lparr>credential_store = \<lparr>entries = [ACCOUNT_WEBDAV_PASSWORD \<mapsto> ''pw'', ACCOUNT_PASSPHRASE \<mapsto> ''secret''], faults = []\<rparr>,
         generations = Map.empty\<rparr>,
       local_stores = sample_data\<lparr>io_faults := []\<rparr>, others = []\<rparr>)"

section \<open>A server with a new payload\<close>

definition remote_codec :: codec where
  \<comment> \<open>content with sessions and content without have different revisions; what is received is \<open>sample_pull\<close>\<close>
  "remote_codec = sample_codec\<lparr>plaintext_json := (\<lambda>p. Some (if sessions p = [] then ''a'' else ''b'')),
     plaintext_of_json := (\<lambda>_. Some sample_pull),
     payload_of_json := (\<lambda>_. case build_payload sample_codec sample_draws ''dev'' None sample_plaintext ''secret'' of
        Inr p \<Rightarrow> Some p | Inl _ \<Rightarrow> None)\<rparr>"

definition remote_env :: "unit env" where
  "remote_env = sample_env\<lparr>env_codec := remote_codec,
     serve := (\<lambda>_ _. (Some \<lparr>rs_status = 200, rs_etag = Some [DQUOTE, CHR ''2'', DQUOTE], rs_chunks = [], rs_text = Some ''x''\<rparr>, ()))\<rparr>"

definition synced_world :: "bool list \<Rightarrow> unit world" where
  \<comment> \<open>a device whose data, without sessions, is the recorded baseline; the writes of the configuration that fail\<close>
  "synced_world failing =
     (let c = (config (config_store sample_world))\<lparr>last_synced_local_revision := Some ''61''\<rparr> in
      sample_world\<lparr>config_store := holding c, sync_disk := \<lparr>disk_file = Stored c, file_faults = failing\<rparr>,
        local_stores := (local_stores sample_world)\<lparr>secrets := \<lparr>entries = [account ''a'' Password \<mapsto> ''old''], faults = []\<rparr>\<rparr>\<rparr>)"

section \<open>Runs\<close>

lemma sample_runs:
  "fst (apply_plaintext_payload sample_platform sample_pull (ok ()) (sample_before, ())) =
     Inl (InContext ''sync pull failed; local changes were rolled back'' (StoreFailed (WriteError KeysFile)))"
  "fst (apply_plaintext_payload sample_platform sample_pull (ok ()) (sample_clean, ())) = Inr ()"
  "fst (push_internal sample_env None AutomaticPush sample_world) = Inr (Pushed 7)"
  "map (rm_condition \<circ> fst) (exchanges (snd (push sample_env None sample_world))) = [NoCondition, IfNoneMatch ''*'']"
  "fst (pull_if_unchanged remote_env ''61'' (synced_world [])) = Inr (Pulled 7)"
  "(case fst (pull_internal remote_env (Some ''61'') False (synced_world [True])) of
      Inl (InContext _ (InContext _ (ConfigFailed WriteFailed))) \<Rightarrow> True | _ \<Rightarrow> False)"
  "fst (secret_get (is_uuid sample_platform) ''a'' Password (secrets sample_before)) = Inr (Some ''old'')"
  by code_simp+

lemmas sample_pull_fails = sample_runs(1)
lemmas sample_pushed = sample_runs(3)
lemmas sample_push = sample_runs(4)
lemmas sample_pull_done = sample_runs(5)
lemmas sample_pull_undone = sample_runs(6)

end
