(* ===== verification/Sync_Engine_Properties.thy ===== *)
theory Sync_Engine_Properties
  imports Sync_Engine Sync_Config_Properties Store_Properties Sync_Samples
begin

text \<open>
  What the engine sends and what it changes. \<open>cautious\<close> is the history of exchanges in which nothing is
  written blindly; an automatic push to a WebDAV server without the user's consent keeps it.
\<close>

section \<open>Histories of exchanges\<close>

type_synonym history = "(remote_request \<times> http_response option) list"

definition known_tag :: "history \<Rightarrow> string \<Rightarrow> bool" where
  \<comment> \<open>a strong tag that a read of this history returned, or that the server confirmed\<close>
  "known_tag h t \<longleftrightarrow> classify_etag (Some t) = StrongTag \<and>
     (\<exists>(rq, r) \<in> set h. rm_method rq = GetRequest \<and>
        (case r of
           None \<Rightarrow> False
         | Some r \<Rightarrow> is_success (rs_status r) \<and> response_tag r = Some t \<or>
             rs_status r = 304 \<and> rm_condition rq = IfNoneMatch t))"

definition seen_missing :: "history \<Rightarrow> bool" where
  "seen_missing h \<longleftrightarrow> (\<exists>(rq, r) \<in> set h. rm_method rq = GetRequest \<and> map_option rs_status r = Some 404)"

inductive cautious :: "history \<Rightarrow> bool" where
  nothing_sent: "cautious []"
| reading: "cautious h \<Longrightarrow> rm_method rq = GetRequest \<Longrightarrow> cautious (h @ [(rq, r)])"
| creating: "cautious h \<Longrightarrow> rm_method rq = PutRequest \<Longrightarrow> rm_condition rq = IfNoneMatch ''*'' \<Longrightarrow> seen_missing h \<Longrightarrow>
    cautious (h @ [(rq, r)])"
| replacing: "cautious h \<Longrightarrow> rm_method rq = PutRequest \<Longrightarrow> rm_condition rq = IfMatch t \<Longrightarrow> known_tag h t \<Longrightarrow>
    cautious (h @ [(rq, r)])"

definition justified :: "history \<Rightarrow> PushCondition \<Rightarrow> bool" where
  "justified h condition =
     (case condition of
        MustNotExist \<Rightarrow> seen_missing h
      | PushIfMatch t \<Rightarrow> classify_etag (Some t) = StrongTag \<longrightarrow> known_tag h t
      | Unconditional \<Rightarrow> True)"

section \<open>Operations that exchange nothing\<close>

definition quiet :: "('srv, 'a) sync \<Rightarrow> bool" where
  "quiet m \<longleftrightarrow> (\<forall>w. exchanges (snd (m w)) = exchanges w \<and> config_store (snd (m w)) = config_store w \<and>
     sync_disk (snd (m w)) = sync_disk w \<and> others (snd (m w)) = others w)"

named_theorems quiets \<open>operations that exchange nothing and keep the configuration\<close>

lemma quiet_attempt [quiets]: "quiet m \<Longrightarrow> (\<And>a. quiet (f a)) \<Longrightarrow> quiet (attempt m f)"
  unfolding quiet_def attempt_def by (auto split: prod.split sum.split) (metis snd_conv)+

lemma quiet_basic [quiets]:
  "quiet (ok a)" "quiet (fail err)" "quiet (get_io g)" "quiet (lift_sum r)" "quiet (raise_sync msg)" "quiet current_config"
  "quiet (anyhow_result s)" "quiet (capability_error report)" "quiet (ensure b msg)"
  by (simp_all add: quiet_def ok_def fail_def get_io_def lift_sum_def raise_sync_def current_config_def anyhow_result_def
      capability_error_def ensure_def split: sum.split)

lemma quiet_on [quiets]: "quiet (on_accounts m)" "quiet (on_local n)"
  by (simp_all add: quiet_def on_accounts_def on_local_def split: prod.split sum.split)

lemma quiet_tried [quiets]: "quiet m \<Longrightarrow> quiet (tried m)"
  by (simp add: quiet_def tried_def split: prod.split) (metis snd_conv)

lemma quiet_passphrase [quiets]: "quiet sync_passphrase"
  unfolding sync_passphrase_def by (intro quiets) (auto split: option.split intro: quiets)

lemma quiet_snapshot [quiets]: "quiet (local_snapshot e)" "quiet (local_revision e)"
  unfolding local_revision_def local_snapshot_def by (intro quiets)+

lemma quiet_decrypt [quiets]: "quiet (decrypt_normalized_remote_payload e p pass)"
  unfolding decrypt_normalized_remote_payload_def by (intro quiets)

lemma quiet_build [quiets]: "quiet (build_backend e)"
  unfolding build_backend_def configured_def
  by (intro quiets) (auto split: SyncProvider.split option.split intro!: quiets)

lemma quiet_triple:
  assumes "quiet m" "\<And>w w'. exchanges w' = exchanges w \<Longrightarrow> config_store w' = config_store w \<Longrightarrow>
    sync_disk w' = sync_disk w \<Longrightarrow> others w' = others w \<Longrightarrow> P w \<Longrightarrow> P w'"
  shows "triple P m (\<lambda>_. P) (\<lambda>_. P)"
  using assms by (intro tripleI) (metis quiet_def snd_conv)+

abbreviation careful :: "'srv world \<Rightarrow> bool" where
  "careful w \<equiv> cautious (exchanges w)"

lemma quiet_careful: "quiet m \<Longrightarrow> triple careful m (\<lambda>_. careful) (\<lambda>_. careful)"
  by (rule quiet_triple) simp_all

section \<open>Requests\<close>

definition honest :: "(config_disk \<times> local_data \<Rightarrow> config_disk \<times> local_data) \<Rightarrow> bool" where
  \<comment> \<open>other tasks change the configuration only under another revision\<close>
  "honest f \<longleftrightarrow> (\<forall>x c c'. read_config (disk_file (fst x)) = Inr (Some c) \<longrightarrow>
     read_config (disk_file (fst (f x))) = Inr (Some c') \<longrightarrow> config_revision c' = config_revision c \<longrightarrow> c' = c)"

definition ready :: "SyncConfig \<Rightarrow> 'srv world \<Rightarrow> bool" where
  \<comment> \<open>the store holds the configuration of the file\<close>
  "ready c w \<longleftrightarrow> config_store w = holding c \<and> read_config (disk_file (sync_disk w)) = Inr (Some c) \<and>
     (\<forall>f \<in> set (others w). honest f)"

definition unnoticed :: "SyncConfig \<Rightarrow> 'srv world \<Rightarrow> bool" where
  \<comment> \<open>the same after other tasks ran: a file with this revision is this configuration\<close>
  "unnoticed c w \<longleftrightarrow> config_store w = holding c \<and>
     (\<forall>c'. read_config (disk_file (sync_disk w)) = Inr (Some c') \<longrightarrow> config_revision c' = config_revision c \<longrightarrow> c' = c)"

lemma ready_unnoticed: "ready c w \<Longrightarrow> unnoticed c w"
  by (simp add: ready_def unnoticed_def)

lemma exchange_effect:
  assumes "exchange e rq w = (r, w')"
  shows "config_store w' = config_store w \<and> accounts w' = accounts w \<and>
    (\<exists>response. exchanges w' = exchanges w @ [(rq, response)] \<and> r = Inr response) \<and>
    (\<forall>c. ready c w \<longrightarrow> unnoticed c w')"
  using assms
  by (cases "others w") (auto simp: exchange_def Let_def ready_def unnoticed_def honest_def split: prod.splits, metis fst_conv)

lemma send_request_effect:
  assumes "send_request e rq what w = (r, w')"
  shows "config_store w' = config_store w \<and> (\<exists>response. exchanges w' = exchanges w @ [(rq, response)] \<and>
     (case r of Inr x \<Rightarrow> response = Some x | Inl _ \<Rightarrow> response = None)) \<and> (\<forall>c. ready c w \<longrightarrow> unnoticed c w')"
proof -
  obtain s w1 where w1: "exchange e rq w = (s, w1)" by fastforce
  then show ?thesis
    using assms exchange_effect [OF w1] by (auto simp: send_request_def attempt_def raise_sync_def split: option.splits)
qed

definition webdav_config :: "SyncConfig \<Rightarrow> bool" where
  "webdav_config c \<longleftrightarrow> provider c = WebDav \<and> \<not> allows_unpreconditioned_webdav_write c"

lemma build_webdav:
  assumes "provider (config (config_store w)) = WebDav" "build_backend e w = (Inr b, w')"
  shows "\<exists>d. b = Some (WebDavFile d)"
  using assms
  by (auto simp: build_backend_def current_config_def attempt_def configured_def get_io_def raise_sync_def
      split: prod.splits sum.splits option.splits)

definition witnessed :: "history \<Rightarrow> string option \<Rightarrow> WebDavPullOutcome \<Rightarrow> bool" where
  \<comment> \<open>what an automatic read with this tag has shown, in the history that ends with it\<close>
  "witnessed h tag outcome =
     (case outcome of
        WebDavMissing \<Rightarrow> seen_missing h
      | WebDavNotModified \<Rightarrow> (\<exists>t. tag = Some t \<and> known_tag h t)
      | WebDavPayload _ got \<Rightarrow> (\<exists>t. got = Some t \<and> known_tag h t))"

lemma poll_304_None: "poll_304 now sent returned = None \<longleftrightarrow>
    (\<exists>t. sent = Some t \<and> classify_etag (Some t) = StrongTag \<and> (returned = None \<or> returned = sent))"
  by (auto simp: poll_304_def Let_def split: option.splits if_splits)

lemma poll_200_None: "poll_200 now sent returned = None \<longleftrightarrow> classify_etag returned = StrongTag \<and> (sent \<noteq> None \<longrightarrow> sent \<noteq> returned)"
  by (auto simp: poll_200_def Let_def)

lemma strong_Some: "classify_etag tag = StrongTag \<Longrightarrow> \<exists>t. tag = Some t"
  by (cases tag) (simp_all add: classify_etag_def)

lemma known_from_body:
  "(rq, Some x) \<in> set h \<Longrightarrow> rm_method rq = GetRequest \<Longrightarrow> is_success (rs_status x) \<Longrightarrow> classify_etag (response_tag x) = StrongTag \<Longrightarrow>
   \<exists>t. response_tag x = Some t \<and> known_tag h t"
  using strong_Some [of "response_tag x"] by (force simp: known_tag_def)

lemma known_from_304:
  "(rq, Some x) \<in> set h \<Longrightarrow> rm_method rq = GetRequest \<Longrightarrow> rs_status x = 304 \<Longrightarrow> rm_condition rq = IfNoneMatch t \<Longrightarrow>
   classify_etag (Some t) = StrongTag \<Longrightarrow> known_tag h t"
  by (force simp: known_tag_def)

lemma automatic_read:
  assumes "webdav_pull_checked e d tag True w = (r, w')"
  shows "config_store w' = config_store w \<and> (\<forall>c. ready c w \<longrightarrow> unnoticed c w') \<and>
    (\<exists>response. exchanges w' = exchanges w @ [(webdav_request d GetRequest (read_condition tag) NoBody, response)] \<and>
       (\<forall>outcome. r = Inr outcome \<longrightarrow> witnessed (exchanges w') tag outcome))"
proof -
  let ?rq = "webdav_request d GetRequest (read_condition tag) NoBody"
  obtain s w1 where send: "send_request e ?rq ''failed to GET from WebDAV server'' w = (s, w1)" by fastforce
  obtain response where log: "config_store w1 = config_store w" "\<forall>c. ready c w \<longrightarrow> unnoticed c w1"
      "exchanges w1 = exchanges w @ [(?rq, response)]"
      "case s of Inr x \<Rightarrow> response = Some x | Inl _ \<Rightarrow> response = None"
    using send_request_effect [OF send] by blast
  have get: "rm_method ?rq = GetRequest" "rm_condition ?rq = read_condition tag" by (simp_all add: webdav_request_def)
  show ?thesis
  proof (cases s)
    case (Inl err)
    then show ?thesis using assms send log by (auto simp: webdav_pull_checked_def attempt_def)
  next
    case (Inr x)
    have seen: "(?rq, Some x) \<in> set (exchanges w1)" using log Inr by simp
    have run: "w' = w1" "\<And>outcome. r = Inr outcome \<Longrightarrow> witnessed (exchanges w1) tag outcome"
      using assms send Inr seen get
      by (auto simp: webdav_pull_checked_def attempt_def poll_304_None poll_200_None capability_error_def status_error_def
          raise_sync_def witnessed_def seen_missing_def read_condition_def
          split: if_splits option.splits intro: known_from_body known_from_304)
    then show ?thesis using log by auto
  qed
qed

lemma seen_missing_mono: "seen_missing h \<Longrightarrow> seen_missing (h @ h')"
  by (auto simp: seen_missing_def)

lemma known_tag_mono: "known_tag h t \<Longrightarrow> known_tag (h @ h') t"
  by (auto simp: known_tag_def)

lemma automatic_read_careful: "triple careful (webdav_pull_checked e d tag True) (\<lambda>_. careful) (\<lambda>_. careful)"
  by (rule tripleI; drule automatic_read) (auto simp: webdav_request_def intro!: reading)

lemma triple_if: "triple P m Q E \<Longrightarrow> triple P n Q E \<Longrightarrow> triple P (if b then m else n) Q E"
  by simp

lemma careful_push:
  fixes e :: "'srv env"
  assumes "justified h condition" "condition \<noteq> Unconditional"
  shows "triple (\<lambda>w. careful w \<and> exchanges w = h) (webdav_push e d text condition) (\<lambda>_. careful) (\<lambda>_. careful)"
proof -
  let ?rq = "webdav_request d PutRequest (precondition_of condition) (JsonText text)"
  show ?thesis
  proof (cases "\<exists>t. condition = PushIfMatch t \<and> classify_etag (Some t) \<noteq> StrongTag")
    case True
    then show ?thesis by (auto simp: webdav_push_def triple_def capability_error_def)
  next
    case False
    have sent: "cautious (h @ [(?rq, response)])" if "cautious h" for response
      using assms False that
      by (cases condition) (auto simp: justified_def webdav_request_def intro: creating replacing)
    then have sent': "cautious (exchanges w @ [(?rq, response)])" if "careful w" "exchanges w = h" for w :: "'srv world" and response
      using that by simp
    have put: "triple (\<lambda>w. careful w \<and> exchanges w = h) (send_request e ?rq what) (\<lambda>_. careful) (\<lambda>_. careful)" for what
      by (rule tripleI; drule send_request_effect) (use sent' in auto)
    have confirm: "triple careful (confirm_version e d text tag) (\<lambda>_. careful) (\<lambda>_. careful)" for tag
      unfolding confirm_version_def
      by (auto simp: triple_def [of _ "ok _"] intro!: triple_attempt [OF automatic_read_careful] split: WebDavPullOutcome.split)
    have none: "(case condition of PushIfMatch t \<Rightarrow> if classify_etag (Some t) \<noteq> StrongTag then Some (classify_etag (Some t)) else None
        | _ \<Rightarrow> None) = None"
      using False by (cases condition) auto
    show ?thesis
      unfolding webdav_push_def none Let_def option.case
    proof (rule triple_attempt [OF put])
      fix r
      have last: "triple careful (attempt (confirm_version e d text (response_tag r)) k) (\<lambda>_. careful) (\<lambda>_. careful)"
        if "\<And>x. quiet (k x)" for k :: "string option option \<Rightarrow> ('srv, WebDavPushOutcome) sync"
        by (rule triple_attempt [OF confirm]) (rule quiet_careful [OF that])
      show "triple careful (if rs_status r = 412 then ok WebDavConflict
          else if \<not> is_success (rs_status r) then status_error ''WebDAV PUT'' r
          else if condition = Unconditional then ok (WebDavPushed (response_tag r))
          else attempt (confirm_version e d text (response_tag r)) (\<lambda>confirmed.
            case confirmed of None \<Rightarrow> ok WebDavChangedAfterPush
            | Some tag \<Rightarrow> if (case condition of PushIfMatch previous \<Rightarrow> tag = Some previous | _ \<Rightarrow> False)
                then capability_error (issue (env_now e) ConditionalWrite ''upload-version-unchanged'' None StrongTag)
                else ok (WebDavPushed tag))) (\<lambda>_. careful) (\<lambda>_. careful)"
        unfolding status_error_def by (intro triple_if last quiet_careful) (auto split: option.split intro!: quiets)
    qed
  qed
qed

section \<open>The state of the remote payload\<close>

definition shown :: "history \<Rightarrow> SyncConfig \<Rightarrow> RemotePayloadState \<Rightarrow> bool" where
  "shown h c s =
     (case s of
        StateBindingRequired _ \<Rightarrow> False
      | StateMissing tag \<Rightarrow> tag = None \<and> seen_missing h
      | StateNotModified \<Rightarrow> (\<exists>t. remote_etag c = Some t \<and> known_tag h t)
      | StateCurrent _ tag \<Rightarrow> (\<exists>t. tag = Some t \<and> known_tag h t)
      | StateChanged _ tag \<Rightarrow> (\<exists>t. tag = Some t \<and> known_tag h t))"

definition pulled :: "history \<Rightarrow> SyncConfig \<Rightarrow> PullOutcome \<Rightarrow> bool" where
  "pulled h c s =
     (case s of
        BindingRequired _ \<Rightarrow> False
      | MissingRemote tag \<Rightarrow> tag = None \<and> seen_missing h
      | NotModified \<Rightarrow> (\<exists>t. remote_etag c = Some t \<and> known_tag h t)
      | PulledPayload _ tag \<Rightarrow> (\<exists>t. tag = Some t \<and> known_tag h t))"

lemma automatic_pull:
  assumes "\<And>t. tag = Some t \<Longrightarrow> remote_etag c = Some t"
  shows "triple (\<lambda>w. ready c w \<and> careful w) (backend_pull_checked e (WebDavFile d) tag True)
    (\<lambda>outcome w. unnoticed c w \<and> careful w \<and> pulled (exchanges w) c outcome) (\<lambda>_. careful)"
proof -
  have "triple (\<lambda>w. ready c w \<and> careful w) (webdav_pull_checked e d tag True)
    (\<lambda>outcome w. unnoticed c w \<and> careful w \<and> witnessed (exchanges w) tag outcome) (\<lambda>_. careful)"
    by (rule tripleI; drule automatic_read) (auto simp: webdav_request_def intro!: reading)
  then show ?thesis
    unfolding backend_pull_checked_def RemoteBackend.case if_True
    by (rule triple_attempt) (use assms in \<open>auto simp: triple_def witnessed_def pulled_def split: WebDavPullOutcome.split\<close>)
qed

definition settled :: "SyncConfig \<Rightarrow> 'srv world \<Rightarrow> bool" where
  "settled c w \<longleftrightarrow> config_store w = holding c \<and>
     (\<forall>c'. read_config (disk_file (sync_disk w)) = Inr (Some c') \<longrightarrow> c' = c)"

lemma reload_settles:
  "unnoticed c w \<Longrightarrow> config_revision (config (sync_from_disk (config_store w) (sync_disk w))) = config_revision c \<Longrightarrow>
   settled c (w\<lparr>config_store := sync_from_disk (config_store w) (sync_disk w)\<rparr>)"
  by (auto simp: unnoticed_def settled_def sync_from_disk_def holding_def split: sum.splits option.splits)

lemma settled_update:
  assumes "settled c w" "update_config r f w = (x, w')"
  shows "exchanges w' = exchanges w \<and> (config (config_store w') = c \<or>
    (\<exists>n. config (config_store w') = normalize_legacy_provider_flags (f c)\<lparr>config_revision := n\<rparr>))"
proof -
  obtain y st d where u: "update_if_revision r f (config_store w) (sync_disk w) = (y, st, d)" by (metis prod_cases3)
  have "config st = c \<or> (\<exists>n. config st = normalize_legacy_provider_flags (f c)\<lparr>config_revision := n\<rparr>)"
  proof (cases "read_config (disk_file (sync_disk w))")
    case (Inl err)
    then show ?thesis using u assms(1) by (simp add: update_if_revision_def update_inner_def settled_def holding_def)
  next
    case (Inr p)
    have same: "(case p of Some c \<Rightarrow> c | None \<Rightarrow> config (config_store w)) = c" "loaded_config (config_store w) = c"
        "config (config_store w) = c"
      using assms(1) Inr by (auto simp: settled_def holding_def split: option.split)
    have self: "\<exists>n. normalize_legacy_provider_flags (f c) = normalize_legacy_provider_flags (f c)\<lparr>config_revision := n\<rparr>"
      by (rule exI [of _ "config_revision (normalize_legacy_provider_flags (f c))"]) simp
    show ?thesis
      using u self
      by (auto simp: update_if_revision_def update_inner_def Inr same Let_def holding_def split: if_splits prod.splits sum.splits)
  qed
  then show ?thesis using assms(2) u by (auto simp: update_config_def)
qed

definition webdav_shown :: "RemotePayloadState \<Rightarrow> 'srv world \<Rightarrow> bool" where
  "webdav_shown s w \<longleftrightarrow> careful w \<and> webdav_config (config (config_store w)) \<and> shown (exchanges w) (config (config_store w)) s"

lemma recognise_shown:
  assumes "webdav_config c" "tag = Some t"
  shows "triple (\<lambda>w. settled c w \<and> careful w \<and> known_tag (exchanges w) t) (recognise_payload e revision text tag)
    webdav_shown (\<lambda>_. careful)"
proof -
  let ?P = "\<lambda>w. settled c w \<and> careful w \<and> known_tag (exchanges w) t"
  let ?Q = "\<lambda>_ w. careful w \<and> known_tag (exchanges w) t \<and> webdav_config (config (config_store w))"
  have kept: "triple ?P (ok ()) ?Q (\<lambda>_. careful)" using assms(1) by (simp add: triple_def settled_def holding_def)
  have update: "triple ?P (update_config revision (\<lambda>c. c\<lparr>remote_etag := tag\<rparr>)) ?Q (\<lambda>_. careful)"
    by (rule tripleI; elim conjE; drule (1) settled_update)
       (use assms(1) in \<open>auto simp: webdav_config_def normalize_legacy_provider_flags_def allows_unpreconditioned_webdav_write_def\<close>)
  have refresh: "triple ?P (if b then attempt (update_config revision (\<lambda>c. c\<lparr>remote_etag := tag\<rparr>)) (\<lambda>u. ensure u msg) else ok ())
      ?Q (\<lambda>_. careful)" for b msg
    by (rule triple_if [OF triple_attempt [OF update] kept]) (simp add: ensure_def raise_sync_def triple_def)
  have current: "triple (?Q u) (ok (StateCurrent p tag)) webdav_shown (\<lambda>_. careful)" for u p
    using assms(2) by (simp add: triple_def webdav_shown_def shown_def)
  have changed: "triple ?P (ok (StateChanged p tag)) webdav_shown (\<lambda>_. careful)" for p
    using assms by (simp add: triple_def webdav_shown_def shown_def settled_def holding_def)
  have quiet: "triple ?P m (\<lambda>_. ?P) (\<lambda>_. careful)" if "quiet m" for m :: "('a, 'x) sync"
    by (rule triple_weaken [OF quiet_triple [OF that, of ?P]]) (auto simp: settled_def)
  show ?thesis
    unfolding recognise_payload_def
    by (intro triple_attempt [OF quiet [OF quiet_basic(7)]] triple_attempt [OF quiet [OF quiet_basic(6)]] triple_if changed
        triple_attempt [OF refresh] current)
qed

lemma triple_current:
  "(\<And>c. triple (\<lambda>w. P w \<and> c = config (config_store w)) (f c) Q E) \<Longrightarrow> triple P (attempt current_config f) Q E"
  by (simp add: triple_def current_config_def attempt_def get_io_def)

lemma ready_reload: "triple (\<lambda>w. ready c w \<and> careful w) reload_config (\<lambda>_ w. ready c w \<and> careful w) E"
  by (simp add: triple_def reload_config_def ready_def sync_from_disk_def)

lemma ready_quiet: "quiet m \<Longrightarrow> triple (\<lambda>w. ready c w \<and> careful w) m (\<lambda>_ w. ready c w \<and> careful w) (\<lambda>_. careful)"
  by (rule triple_weaken [OF quiet_triple [where P = "\<lambda>w. ready c w \<and> careful w"]]) (auto simp: ready_def)

lemma ready_build:
  assumes "provider c = WebDav"
  shows "triple (\<lambda>w. ready c w \<and> careful w) (build_backend e)
    (\<lambda>b w. ready c w \<and> careful w \<and> (\<exists>d. b = Some (WebDavFile d))) (\<lambda>_. careful)"
proof (rule tripleI)
  fix w b w' assume w: "ready c w \<and> careful w" and run: "build_backend e w = (Inr b, w')"
  show "ready c w' \<and> careful w' \<and> (\<exists>d. b = Some (WebDavFile d))"
    using triple_ok [OF ready_quiet [OF quiet_build] w run] build_webdav [OF _ run] w assms
    by (simp add: ready_def holding_def)
next
  fix w err w' assume w: "ready c w \<and> careful w" and run: "build_backend e w = (Inl err, w')"
  show "careful w'" using triple_err [OF ready_quiet [OF quiet_build] w run] .
qed

lemma settle_outcome:
  assumes "webdav_config c"
  shows "triple (\<lambda>w. unnoticed c w \<and> careful w \<and> pulled (exchanges w) c outcome)
    (attempt reload_config (\<lambda>_. attempt current_config (\<lambda>c'. attempt (ensure (config_revision c' = config_revision c) msg) (\<lambda>_.
       case outcome of BindingRequired p \<Rightarrow> ok (StateBindingRequired p) | MissingRemote t \<Rightarrow> ok (StateMissing t)
       | NotModified \<Rightarrow> ok StateNotModified | PulledPayload text t \<Rightarrow> recognise_payload e (config_revision c) text t))))
    webdav_shown (\<lambda>_. careful)"
proof -
  let ?P = "\<lambda>w. settled c w \<and> careful w \<and> pulled (exchanges w) c outcome"
  let ?R = "\<lambda>w. careful w \<and> pulled (exchanges w) c outcome \<and> (config_revision (config (config_store w)) = config_revision c \<longrightarrow> settled c w)"
  have reload: "triple (\<lambda>w. unnoticed c w \<and> careful w \<and> pulled (exchanges w) c outcome) reload_config (\<lambda>_. ?R) (\<lambda>_. careful)"
    by (auto simp: triple_def reload_config_def intro: reload_settles)
  have ensured: "triple (\<lambda>w. ?R w \<and> c' = config (config_store w)) (ensure (config_revision c' = config_revision c) msg) (\<lambda>_. ?P) (\<lambda>_. careful)" for c'
    by (auto simp: triple_def ensure_def raise_sync_def)
  have last: "triple ?P (case outcome of BindingRequired p \<Rightarrow> ok (StateBindingRequired p) | MissingRemote t \<Rightarrow> ok (StateMissing t)
       | NotModified \<Rightarrow> ok StateNotModified | PulledPayload text t \<Rightarrow> recognise_payload e (config_revision c) text t)
      webdav_shown (\<lambda>_. careful)"
  proof (cases outcome)
    case (PulledPayload content tag)
    show ?thesis
    proof (cases tag)
      case None
      then show ?thesis using PulledPayload by (simp add: triple_def pulled_def)
    next
      case (Some t)
      show ?thesis unfolding PulledPayload PullOutcome.case
        by (rule triple_weaken [OF recognise_shown [OF assms Some]]) (simp_all add: Some pulled_def)
    qed
  qed (use assms in \<open>auto simp: triple_def pulled_def webdav_shown_def shown_def settled_def holding_def\<close>)
  show ?thesis
    by (rule triple_attempt [OF reload], rule triple_current, rule triple_attempt [OF ensured], rule last)
qed

lemma remote_state_shown:
  assumes "webdav_config c"
  shows "triple (\<lambda>w. ready c w \<and> careful w) (remote_payload_state e True True) webdav_shown (\<lambda>_. careful)"
proof -
  let ?tag = "if True \<and> last_synced_local_revision c \<noteq> None then remote_etag c else None"
  have pull: "triple (\<lambda>w. ready c w \<and> careful w)
    (attempt (if True then backend_pull_checked e (WebDavFile d) ?tag True else backend_pull e (WebDavFile d) ?tag) (\<lambda>outcome.
     attempt reload_config (\<lambda>_. attempt current_config (\<lambda>c'. attempt (ensure (config_revision c' = config_revision c) msg) (\<lambda>_.
       case outcome of BindingRequired p \<Rightarrow> ok (StateBindingRequired p) | MissingRemote t \<Rightarrow> ok (StateMissing t)
       | NotModified \<Rightarrow> ok StateNotModified | PulledPayload text t \<Rightarrow> recognise_payload e (config_revision c) text t)))))
    webdav_shown (\<lambda>_. careful)" for d msg
    unfolding if_True by (rule triple_attempt [OF automatic_pull settle_outcome [OF assms]]) (simp split: if_splits)
  have built: "triple (\<lambda>w. ready c w \<and> careful w \<and> (\<exists>d. b = Some (WebDavFile d)))
      (case b of None \<Rightarrow> ok (StateMissing None) | Some b \<Rightarrow> f b) webdav_shown (\<lambda>_. careful)"
    if "\<And>d. triple (\<lambda>w. ready c w \<and> careful w) (f (WebDavFile d)) webdav_shown (\<lambda>_. careful)" for b f
  proof (rule triple_pure [of _ "\<exists>d. b = Some (WebDavFile d)"])
    assume "\<exists>d. b = Some (WebDavFile d)"
    then obtain d where b: "b = Some (WebDavFile d)" ..
    show ?thesis unfolding b option.case by (rule triple_weaken [OF that [of d]]) simp_all
  qed simp
  have web: "provider c = WebDav" using assms by (simp add: webdav_config_def)
  show ?thesis
    unfolding remote_payload_state_def Let_def
  proof (rule triple_attempt [OF ready_reload], rule triple_current)
    fix c0
    show "triple (\<lambda>w. (ready c w \<and> careful w) \<and> c0 = config (config_store w)) (attempt (build_backend e) (\<lambda>backend.
        case backend of None \<Rightarrow> ok (StateMissing None) | Some b \<Rightarrow>
          attempt (if True then backend_pull_checked e b (if True \<and> last_synced_local_revision c0 \<noteq> None then remote_etag c0 else None) True
             else backend_pull e b (if True \<and> last_synced_local_revision c0 \<noteq> None then remote_etag c0 else None)) (\<lambda>outcome.
          attempt reload_config (\<lambda>_. attempt current_config (\<lambda>c'.
          attempt (ensure (config_revision c' = config_revision c0) ''sync configuration changed during the remote check'') (\<lambda>_.
            case outcome of BindingRequired p \<Rightarrow> ok (StateBindingRequired p) | MissingRemote t \<Rightarrow> ok (StateMissing t)
            | NotModified \<Rightarrow> ok StateNotModified | PulledPayload text t \<Rightarrow> recognise_payload e (config_revision c0) text t))))))
      webdav_shown (\<lambda>_. careful)"
    proof (rule triple_pure [of _ "c0 = c"])
      assume c0: "c0 = c"
      show ?thesis unfolding c0
        by (rule triple_weaken, rule triple_attempt [OF ready_build [OF web]], rule built, rule pull) blast+
    qed (simp add: ready_def holding_def)
  qed
qed

section \<open>The plan of a push\<close>

lemma webdav_quiet: "quiet m \<Longrightarrow> triple (webdav_shown s) m (\<lambda>_. webdav_shown s) (\<lambda>_. careful)"
  by (rule triple_weaken [OF quiet_triple [where P = "webdav_shown s"]]) (auto simp: webdav_shown_def)

lemma update_careful: "triple careful (update_config r f) (\<lambda>_. careful) (\<lambda>_. careful)"
  by (auto simp: triple_def update_config_def split: prod.split sum.split)

lemma reload_careful: "triple careful reload_config (\<lambda>_. careful) (\<lambda>_. careful)"
  by (simp add: triple_def reload_config_def)

lemma acknowledge_careful: "triple careful (acknowledge_remote_payload r p tag n) (\<lambda>_. careful) (\<lambda>_. careful)"
  unfolding acknowledge_remote_payload_def
  by (intro triple_attempt [OF update_careful] triple_if triple_attempt [OF reload_careful] quiet_careful quiets)

definition planned :: "SyncStatus + push_plan \<Rightarrow> 'srv world \<Rightarrow> bool" where
  "planned plan w \<longleftrightarrow> careful w \<and>
     (case plan of Inl _ \<Rightarrow> True
      | Inr (condition, _, _) \<Rightarrow> webdav_config (config (config_store w)) \<and> justified (exchanges w) condition)"

lemma planned_finished: "triple careful m (\<lambda>_. careful) (\<lambda>_. careful) \<Longrightarrow> triple (webdav_shown s) (finished m) planned (\<lambda>_. careful)"
  unfolding finished_def
  by (rule triple_attempt [where R = "\<lambda>_. careful"], erule triple_weaken) (simp_all add: webdav_shown_def triple_def planned_def)

lemma planned_stop: "triple (webdav_shown s) (ok (Inl status)) planned (\<lambda>_. careful)"
  by (simp add: triple_def webdav_shown_def planned_def)

lemma planned_fail: "triple (webdav_shown s) (fail err) planned (\<lambda>_. careful)"
  by (simp add: triple_def webdav_shown_def)

lemma planned_required: "triple (webdav_shown s) (pull_required p why) planned (\<lambda>_. careful)"
  unfolding pull_required_def by (rule planned_stop)

lemma justified_tag: "known_tag h t \<Longrightarrow> justified h (condition_from_tag (Some t))"
  by (simp add: condition_from_tag_def justified_def)

lemma planned_proceed:
  "s = StateCurrent p tag \<or> s = StateChanged p tag \<Longrightarrow> triple (webdav_shown s) (proceed p tag) planned (\<lambda>_. careful)"
  by (auto simp: triple_def webdav_shown_def proceed_def planned_def shown_def justified_tag)

lemmas planned_rules = planned_stop planned_fail planned_required planned_proceed planned_finished [OF acknowledge_careful]

lemma triple_tried:
  "triple P m (\<lambda>_. Q) (\<lambda>_. Q) \<Longrightarrow> triple P (tried m) (\<lambda>_. Q) E"
  by (auto simp: triple_def tried_def split: prod.splits sum.splits)

lemma webdav_current: "(\<And>c. triple (webdav_shown s) (f c) planned (\<lambda>_. careful)) \<Longrightarrow> triple (webdav_shown s) (attempt current_config f) planned (\<lambda>_. careful)"
  by (rule triple_attempt [OF webdav_quiet]) (rule quiets)

lemma webdav_decrypt:
  "(\<And>r. triple (webdav_shown s) (f r) planned (\<lambda>_. careful)) \<Longrightarrow>
   triple (webdav_shown s) (attempt (tried (decrypt_normalized_remote_payload e p pass)) f) planned (\<lambda>_. careful)"
  by (rule triple_attempt [OF webdav_quiet]) (intro quiets)

lemma plan_current_planned:
  "triple (webdav_shown (StateCurrent p tag)) (plan_current e start force pass local p tag) planned (\<lambda>_. careful)"
  unfolding plan_current_def
  by (intro triple_if planned_rules webdav_current disjI1 refl)
     (auto split: option.split sum.split intro!: webdav_decrypt planned_rules)

lemma plan_changed_planned:
  "triple (webdav_shown (StateChanged p tag)) (plan_changed e start force pass local p tag) planned (\<lambda>_. careful)"
  unfolding plan_changed_def
  by (intro triple_if planned_rules webdav_decrypt webdav_current disjI2 refl)
     (auto split: option.split sum.split SyncContentRelation.split intro!: planned_rules)

lemma plan_planned: "triple (webdav_shown s) (plan_push e start force pass local s) planned (\<lambda>_. careful)"
proof (cases s)
  case (StateCurrent p tag)
  then show ?thesis using plan_current_planned by (simp add: plan_push_def)
next
  case (StateChanged p tag)
  then show ?thesis using plan_changed_planned by (simp add: plan_push_def)
next
  case StateNotModified
  then show ?thesis
    by (auto simp: plan_push_def triple_def attempt_def current_config_def webdav_shown_def shown_def planned_def justified_tag)
qed (auto simp: plan_push_def triple_def webdav_shown_def shown_def planned_def justified_def)

section \<open>The upload\<close>

lemma admitted:
  "webdav_config c \<Longrightarrow> admit_condition now AutomaticPush (provider c) False report condition = Inr condition' \<Longrightarrow>
   condition' = condition \<and> condition \<noteq> Unconditional"
  by (auto simp: admit_condition_def webdav_config_def condition_kind_def Let_def split: if_splits)

lemma careful_conflict:
  "triple careful (examine_conflict e m p unsafe condition outcome (WebDavFile d)) (\<lambda>_. careful) (\<lambda>_. careful)"
proof -
  have "triple careful (backend_pull_checked e (WebDavFile d) None True) (\<lambda>_. careful) (\<lambda>_. careful)"
    unfolding backend_pull_checked_def RemoteBackend.case if_True
    by (rule triple_attempt [OF automatic_read_careful]) (rule quiet_careful [OF quiet_basic(1)])
  then show ?thesis
    unfolding examine_conflict_def Let_def
    by (intro triple_if quiet_careful [OF quiet_basic(1)], elim triple_attempt) (intro triple_if quiet_careful quiets)
qed

lemma careful_then:
  "triple careful m (\<lambda>_. careful) (\<lambda>_. careful) \<Longrightarrow> (\<And>a. quiet (f a)) \<Longrightarrow> triple careful (attempt m f) (\<lambda>_. careful) (\<lambda>_. careful)"
  by (rule triple_attempt, assumption, rule quiet_careful, blast)

lemma upload_careful:
  assumes "condition \<noteq> Unconditional"
  shows "triple (planned (Inr (condition, parent, at))) (upload e m unsafe start pass local (condition, parent, at))
    (\<lambda>_. careful) (\<lambda>_. careful)"
proof -
  let ?P = "planned (Inr (condition, parent, at)) :: 'a world \<Rightarrow> bool"
  have quiet: "triple ?P n (\<lambda>_. ?P) (\<lambda>_. careful)" if "quiet n" for n :: "('a, 'x) sync"
    by (rule triple_weaken [OF quiet_triple [OF that, of ?P]]) (auto simp: planned_def)
  have build: "triple ?P (build_backend e) (\<lambda>b w. ?P w \<and> (\<exists>d. b = Some (WebDavFile d))) (\<lambda>_. careful)"
  proof (rule tripleI)
    fix w b w' assume w: "?P w" and run: "build_backend e w = (Inr b, w')"
    show "?P w' \<and> (\<exists>d. b = Some (WebDavFile d))"
      using triple_ok [OF quiet [OF quiet_build] w run] build_webdav [OF _ run] w
      by (simp add: planned_def webdav_config_def)
  next
    fix w err w' assume w: "?P w" and run: "build_backend e w = (Inl err, w')"
    show "careful w'" using triple_err [OF quiet [OF quiet_build] w run] .
  qed
  have push: "triple ?P (backend_push e (WebDavFile d) content condition) (\<lambda>x w. careful w \<and> snd x = WebDavFile d) (\<lambda>_. careful)" for d content
  proof -
    have "triple ?P (webdav_push e d content condition) (\<lambda>_. careful) (\<lambda>_. careful)"
    proof (rule tripleI)
      fix w r w' assume w: "?P w" and run: "webdav_push e d content condition w = (Inr r, w')"
      show "careful w'"
        using triple_ok [OF careful_push [OF _ assms] _ run, of "exchanges w"] w by (simp add: planned_def)
    next
      fix w r w' assume w: "?P w" and run: "webdav_push e d content condition w = (Inl r, w')"
      show "careful w'"
        using triple_err [OF careful_push [OF _ assms] _ run, of "exchanges w"] w by (simp add: planned_def)
    qed
    then show ?thesis
      unfolding backend_push_def RemoteBackend.case
      by (rule triple_attempt) (simp add: triple_def split: WebDavPushOutcome.split)
  qed
  have after: "triple (\<lambda>w. careful w \<and> snd x = WebDavFile d)
      (case x of (outcome, b) \<Rightarrow> case outcome of
         PushedTo resource tag \<Rightarrow> attempt (update_config start (f resource tag)) (\<lambda>u. if u then ok y else ok z)
       | _ \<Rightarrow> attempt (examine_conflict e m q unsafe condition outcome b) (\<lambda>_. ok v)) (\<lambda>_. careful) (\<lambda>_. careful)"
    for x :: "PushOutcome \<times> RemoteBackend" and d f y z q v
  proof (rule triple_pure [of _ "snd x = WebDavFile d"])
    assume "snd x = WebDavFile d"
    then obtain outcome where x: "x = (outcome, WebDavFile d)" by (cases x) simp
    have "triple careful (case outcome of
         PushedTo resource tag \<Rightarrow> attempt (update_config start (f resource tag)) (\<lambda>u. if u then ok y else ok z)
       | _ \<Rightarrow> attempt (examine_conflict e m q unsafe condition outcome (WebDavFile d)) (\<lambda>_. ok v)) (\<lambda>_. careful) (\<lambda>_. careful)"
      by (cases outcome) (auto intro!: careful_then [OF update_careful] careful_then [OF careful_conflict] quiets)
    then show ?thesis unfolding x prod.case by (rule triple_weaken) simp_all
  qed simp
  have built: "triple (\<lambda>w. ?P w \<and> (\<exists>d. b = Some (WebDavFile d))) (case b of None \<Rightarrow> ok Idle | Some b \<Rightarrow>
      attempt (backend_push e b content condition) (\<lambda>x. case x of (outcome, b) \<Rightarrow> case outcome of
         PushedTo resource tag \<Rightarrow> attempt (update_config start (f resource tag)) (\<lambda>u. if u then ok y else ok z)
       | _ \<Rightarrow> attempt (examine_conflict e m q unsafe condition outcome b) (\<lambda>_. ok v))) (\<lambda>_. careful) (\<lambda>_. careful)"
    for b content f y z q v
  proof (rule triple_pure [of _ "\<exists>d. b = Some (WebDavFile d)"])
    assume "\<exists>d. b = Some (WebDavFile d)"
    then obtain d where b: "b = Some (WebDavFile d)" ..
    show ?thesis unfolding b option.case by (rule triple_weaken, rule triple_attempt [OF push after]) blast+
  qed simp
  show ?thesis
    unfolding upload_def prod.case
    by (rule triple_attempt [OF quiet], intro quiets, rule triple_attempt [OF quiet], intro quiets,
        rule triple_attempt [OF quiet], intro quiets, rule triple_attempt [OF build], rule built)
qed

section \<open>Automatic pushes\<close>

lemma plan_sent: "triple (planned plan) (carry_out e report AutomaticPush False False start pass local plan) (\<lambda>_. careful) (\<lambda>_. careful)"
proof (cases plan)
  case (Inl status)
  then show ?thesis by (simp add: carry_out_def triple_def planned_def)
next
  case (Inr x)
  obtain condition parent at where x: "x = (condition, parent, at)" by (metis prod_cases3)
  show ?thesis
    unfolding Inr x carry_out_def sum.case prod.case if_False
  proof (rule triple_current)
    fix c :: SyncConfig
    let ?P = "planned (Inr (condition, parent, at)) :: 'a world \<Rightarrow> bool"
    let ?admit = "admit_condition (env_now e) AutomaticPush (provider c) False report condition"
    show "triple (\<lambda>w. ?P w \<and> c = config (config_store w)) (case ?admit of Inl r \<Rightarrow> capability_error r
      | Inr condition \<Rightarrow> if \<not> False \<and> automatic_push_requires_confirmation condition at (AutomaticPush = ForcePush) \<and> \<not> False then ok (PullRequired at UnsafeProviderWrite)
          else upload e AutomaticPush False start pass local (condition, parent, at)) (\<lambda>_. careful) (\<lambda>_. careful)"
    proof (rule triple_pure [of _ "webdav_config c"])
      assume web: "webdav_config c"
      show ?thesis
      proof (cases ?admit)
        case (Inl r)
        then show ?thesis by (simp add: triple_def capability_error_def planned_def)
      next
        case (Inr condition')
        then have same: "condition' = condition" "condition \<noteq> Unconditional" using admitted [OF web] by blast+
        then have "triple (\<lambda>w. ?P w \<and> c = config (config_store w))
            (upload e AutomaticPush False start pass local (condition, parent, at)) (\<lambda>_. careful) (\<lambda>_. careful)"
          by (intro triple_weaken [OF upload_careful [OF same(2)]]) blast+
        then show ?thesis
          unfolding Inr sum.case same(1) by (rule triple_if [rotated]) (simp add: triple_def planned_def)
      qed
    qed (simp add: planned_def)
  qed
qed

text \<open>C6: an automatic push to a WebDAV server, without the user's consent to unsafe writes, never writes
  blindly: every upload either demands that the file does not exist, after a read found none, or names a
  strong tag that a read of this very run returned or that the server confirmed for the recorded one. This
  holds whatever the server answers and whatever other tasks do to the configuration file meanwhile, as long
  as they write it under a new revision.\<close>

theorem automatic_push_is_conditional:
  assumes "exchanges w = []" "read_config (disk_file (sync_disk w)) = Inr (Some c)"
    and "provider c = WebDav" "\<not> allows_unpreconditioned_webdav_write c" "\<forall>f \<in> set (others w). honest f"
  shows "cautious (exchanges (snd (push e report w)))"
proof -
  let ?w = "w\<lparr>config_store := holding c\<rparr>"
  have web: "webdav_config c" using assms(3,4) by (simp add: webdav_config_def)
  have ready: "ready c ?w \<and> careful ?w" using assms by (simp add: ready_def cautious.nothing_sent)
  have rest: "triple (webdav_shown remote) (attempt (get_io g) (\<lambda>start. attempt sync_passphrase (\<lambda>pass.
     attempt (local_snapshot e) (\<lambda>local. attempt (plan_push e start False pass (snapshot_revision local) remote) (k start pass local)))))
     (\<lambda>_. careful) (\<lambda>_. careful)"
    if "\<And>start pass local plan. triple (planned plan) (k start pass local plan) (\<lambda>_. careful) (\<lambda>_. careful)"
    for g remote and k :: "64 word \<Rightarrow> string \<Rightarrow> LocalSyncSnapshot \<Rightarrow> SyncStatus + push_plan \<Rightarrow> ('a, SyncStatus) sync"
    by (rule triple_attempt [OF webdav_quiet], intro quiets, rule triple_attempt [OF webdav_quiet], intro quiets,
        rule triple_attempt [OF webdav_quiet], intro quiets, rule triple_attempt [OF plan_planned], rule that)
  have "triple (\<lambda>w. w = ?w) (remote_payload_state e True True) webdav_shown (\<lambda>_. careful)"
    by (rule triple_weaken [OF remote_state_shown [OF web]]) (use ready in \<open>simp_all add: assms(1) cautious.nothing_sent\<close>)
  note run = triple_attempt [OF this rest [OF plan_sent]]
  have push: "push e report w = (if False then ok Idle else attempt (remote_payload_state e True True) (\<lambda>remote.
      attempt (get_io (\<lambda>w. config_revision (config (config_store w)))) (\<lambda>start. attempt sync_passphrase (\<lambda>pass.
      attempt (local_snapshot e) (\<lambda>local. attempt (plan_push e start False pass (snapshot_revision local) remote)
        (carry_out e report AutomaticPush False False start pass local)))))) ?w"
    if "sync_enabled_for_provider (config (config_store w))"
    using that assms(2-4)
    by (simp add: push_def push_internal_def attempt_def current_config_def reload_config_def get_io_def sync_from_disk_def
        holding_def cong: if_cong)
  show ?thesis
  proof (cases "sync_enabled_for_provider (config (config_store w))")
    case True
    show ?thesis
      unfolding push [OF True] if_False by (rule triple_snd [OF run refl])
  next
    case False
    then show ?thesis
      using assms(1) by (simp add: push_def push_internal_def attempt_def current_config_def get_io_def ok_def cautious.nothing_sent)
  qed
qed

theorem automatic_push_is_conditional_witness:
  "cautious (exchanges (snd (push sample_env None sample_world))) \<and> length (exchanges (snd (push sample_env None sample_world))) = 2"
proof -
  have "cautious (exchanges (snd (push sample_env None sample_world)))"
    by (rule automatic_push_is_conditional [where c = "config (config_store sample_world)"])
      (simp_all add: sample_world_def Let_def holding_def allows_unpreconditioned_webdav_write_def default_config_def)
  then show ?thesis using arg_cong [OF sample_push, of length] by simp
qed

end
