(* ===== verification/Stored_Secrets.thy ===== *)
theory Stored_Secrets
  imports Secret_Properties Local_Stores Store_Properties
begin

text \<open>
  The secrets of the local data under the operations of the secret store: what every secret reads as
  (\<open>reads\<close>), and the invariant \<open>well_kept\<close> of the credential store that makes setting one of them atomic,
  with a new identifier for every manifest.
\<close>

section \<open>Reading\<close>

lemma cred_get_many_triple:
  "triple (\<lambda>c. entries c = es) (cred_get_many accts) (\<lambda>vs c. entries c = es \<and> vs = map es accts) (\<lambda>_ c. entries c = es)"
proof (induction accts)
  case (Cons a accts)
  have "triple (\<lambda>c. entries c = es) (attempt (cred_get_many accts) (\<lambda>vs. ok (es a # vs)))
      (\<lambda>vs c. entries c = es \<and> vs = map es (a # accts)) (\<lambda>_ c. entries c = es)"
    by (rule triple_attempt [OF Cons.IH]) (simp add: triple_def)
  then have rest: "triple (\<lambda>c. entries c = es \<and> v = es a) (attempt (cred_get_many accts) (\<lambda>vs. ok (v # vs)))
      (\<lambda>vs c. entries c = es \<and> vs = map es (a # accts)) (\<lambda>_ c. entries c = es)" for v
    by (simp add: triple_def)
  show ?case
    using triple_attempt [OF cred_get_triple rest] by (simp add: cred_get_many_def)
qed (simp add: cred_get_many_def triple_def)

lemma read_chunks_triple:
  "triple (\<lambda>c. entries c = es) (read_managed_key_chunks acct m)
     (\<lambda>v c. entries c = es \<and> join_chunks 0 m (map (\<lambda>n. es (chunk_account m acct n)) [0..<count m]) = Inr v)
     (\<lambda>_ c. entries c = es)"
  unfolding read_managed_key_chunks_def
  by (rule triple_attempt [OF triple_map_err [OF cred_get_many_triple]]) (auto simp: triple_def comp_def split: sum.split)

lemma secret_get_triple:
  "triple (\<lambda>c. entries c = es) (secret_get uu i k)
     (\<lambda>v c. entries c = es \<and> observe uu es i k = Inr v) (\<lambda>_ c. entries c = es)"
  unfolding secret_get_def Let_def
proof (rule triple_attempt [OF triple_map_err [OF cred_get_triple]])
  fix found
  have chunks: "triple (\<lambda>c. entries c = es) (map_err f (attempt (read_managed_key_chunks acct m) (\<lambda>v. ok (Some v))))
      (\<lambda>v c. entries c = es \<and> (\<exists>w. v = Some w \<and>
         join_chunks 0 m (map (\<lambda>n. es (chunk_account m acct n)) [0..<count m]) = Inr w)) (\<lambda>_ c. entries c = es)" for f acct m
    by (rule triple_map_err, rule triple_attempt [OF read_chunks_triple]) (simp add: triple_def)
  show "triple (\<lambda>c. entries c = es \<and> found = es (account i k))
      (if k \<noteq> ManagedPrivateKey then ok found
       else case found of None \<Rightarrow> ok None
         | Some v \<Rightarrow> (case manifest_parse uu v of None \<Rightarrow> ok (Some v)
             | Some m \<Rightarrow> map_err (secret_context ''failed to read secret for'' i k)
                 (attempt (read_managed_key_chunks (account i k) m) (\<lambda>v. ok (Some v)))))
      (\<lambda>v c. entries c = es \<and> observe uu es i k = Inr v) (\<lambda>_ c. entries c = es)"
  proof (rule triple_pure [of _ "found = es (account i k)"])
    assume v: "found = es (account i k)"
    show ?thesis
    proof (cases "k = ManagedPrivateKey \<and> (\<exists>w m. found = Some w \<and> manifest_parse uu w = Some m)")
      case True
      then obtain w m where w: "found = Some w" "manifest_parse uu w = Some m" by blast
      show ?thesis
        using True w v
        by (auto simp: observe_eq Let_def intro!: triple_weaken [OF chunks])
    next
      case False
      then show ?thesis using v by (cases found) (auto simp: triple_def observe_eq Let_def split: option.splits)
    qed
  qed simp
qed

section \<open>Identifiers for manifests\<close>

definition keys_from :: "(string \<rightharpoonup> string) \<Rightarrow> string \<Rightarrow> string \<Rightarrow> credentials \<Rightarrow> bool" where
  \<comment> \<open>the entry of every key is the old one, the given text or a manifest of the given generation\<close>
  "keys_from es gen v c \<longleftrightarrow> (\<forall>j. entries c (account j ManagedPrivateKey) \<in>
     {es (account j ManagedPrivateKey), Some v, None} \<union> {Some (manifest_encode m) | m. generation m = gen})"

lemma keys_from_step:
  assumes "keys_from es gen v c" "\<And>j. entries c' (account j ManagedPrivateKey) = entries c (account j ManagedPrivateKey) \<or>
    entries c' (account j ManagedPrivateKey) \<in> {Some v, None} \<union> {Some (manifest_encode m) | m. generation m = gen}"
  shows "keys_from es gen v c'"
  unfolding keys_from_def
proof
  fix j
  show "entries c' (account j ManagedPrivateKey) \<in>
     {es (account j ManagedPrivateKey), Some v, None} \<union> {Some (manifest_encode m) | m. generation m = gen}"
    using assms(1) assms(2) [of j] unfolding keys_from_def by (metis (no_types, lifting) Un_iff insert_iff)
qed

lemma account_key_inject: "account j ManagedPrivateKey = account i k \<longleftrightarrow> j = i \<and> k = ManagedPrivateKey"
  by auto

lemma keys_from_ops:
  "triple (keys_from es gen v) (cred_get a) (\<lambda>_. keys_from es gen v) (\<lambda>_. keys_from es gen v)"
  "triple (keys_from es gen v) (cred_set (account i k) v) (\<lambda>_. keys_from es gen v) (\<lambda>_. keys_from es gen v)"
  "triple (keys_from es gen v) (cred_set (chunk_account m acct n) w) (\<lambda>_. keys_from es gen v) (\<lambda>_. keys_from es gen v)"
  "triple (keys_from es gen v) (cred_delete a) (\<lambda>_. keys_from es gen v) (\<lambda>_. keys_from es gen v)"
  by (rule tripleI;
      (erule keys_from_step, auto simp: cred_get_def cred_set_def cred_delete_def backend_def split: list.splits option.splits))+

lemma keys_from_encoded:
  assumes "generation m = gen"
  shows "triple (keys_from es gen v) (cred_set (account i k) (manifest_encode m)) (\<lambda>_. keys_from es gen v) (\<lambda>_. keys_from es gen v)"
proof -
  have "entries c' (account j ManagedPrivateKey) = entries c (account j ManagedPrivateKey) \<or>
      entries c' (account j ManagedPrivateKey) = Some (manifest_encode m)"
    if "cred_set (account i k) (manifest_encode m) c = (r, c')" for c r c' j
    using that by (auto simp: cred_set_def backend_def split: list.splits option.splits)
  then have "keys_from es gen v c'" if "keys_from es gen v c" "cred_set (account i k) (manifest_encode m) c = (r, c')" for c r c'
    using that assms by (intro keys_from_step [OF that(1)]) blast
  then show ?thesis by (blast intro: tripleI)
qed

lemma triple_same: "triple P m (\<lambda>_. P) (\<lambda>_. P) \<Longrightarrow> P s \<Longrightarrow> P (snd (m s))"
  by (cases "m s"; cases "fst (m s)") (auto simp: triple_def)

lemma keys_from_cleanup: "triple (keys_from es gen v) (cleanup_managed_key_chunks acct m) (\<lambda>_. keys_from es gen v) E"
  using triple_each [where f = "\<lambda>index. cred_delete (chunk_account m acct index)", OF keys_from_ops(4), THEN triple_same]
  by (simp add: triple_def cleanup_managed_key_chunks_def delete_managed_key_chunks_def)

lemma keys_from_write_chunks:
  "triple (keys_from es gen v) (write_chunks i acct k m n chunks) (\<lambda>_. keys_from es gen v) (\<lambda>_. keys_from es gen v)"
proof (induction chunks arbitrary: n)
  case (Cons chunk rest)
  show ?case
  proof (rule tripleI)
    fix c u c' assume c: "keys_from es gen v c" "write_chunks i acct k m n (chunk # rest) c = (Inr u, c')"
    then obtain c1 where "cred_set (chunk_account m acct n) chunk c = (Inr (), c1)" "write_chunks i acct k m (n + 1) rest c1 = (Inr u, c')"
      by (auto split: prod.splits sum.splits)
    then show "keys_from es gen v c'" using c(1) Cons.IH keys_from_ops(3) by (metis triple_ok)
  next
    fix c e c' assume c: "keys_from es gen v c" "write_chunks i acct k m n (chunk # rest) c = (Inl e, c')"
    show "keys_from es gen v c'"
    proof (cases "cred_set (chunk_account m acct n) chunk c")
      case (Pair r c1)
      then have c1: "keys_from es gen v c1" using c(1) triple_same [OF keys_from_ops(3) c(1)] by (metis snd_conv)
      show ?thesis
      proof (cases r)
        case (Inl f)
        then have "c' = snd (cleanup_managed_key_chunks acct (m\<lparr>count := n\<rparr>) c1)" using c(2) Pair by simp
        then show ?thesis using triple_same [OF keys_from_cleanup c1] by simp
      next
        case (Inr u)
        then have "write_chunks i acct k m (n + 1) rest c1 = (Inl e, c')" using c(2) Pair by simp
        then show ?thesis using Cons.IH c1 by (metis triple_err)
      qed
    qed
  qed
qed (simp add: triple_def)

lemma keys_from_set_manifest:
  "generation m = gen \<Longrightarrow> triple (keys_from es gen v) (set_manifest i k m) (\<lambda>_. keys_from es gen v) (\<lambda>_. keys_from es gen v)"
proof (rule tripleI)
  fix c u c' assume m: "generation m = gen" and c: "keys_from es gen v c" "set_manifest i k m c = (Inr u, c')"
  then have "cred_set (account i k) (manifest_encode m) c = (Inr u, c')"
    by (auto simp: set_manifest_def Let_def split: prod.splits sum.splits)
  then show "keys_from es gen v c'" using c(1) keys_from_encoded [OF m] by (metis triple_ok)
next
  fix c e c' assume m: "generation m = gen" and c: "keys_from es gen v c" "set_manifest i k m c = (Inl e, c')"
  obtain r c1 where step: "cred_set (account i k) (manifest_encode m) c = (r, c1)" by fastforce
  then have "keys_from es gen v c1" using triple_same [OF keys_from_encoded [OF m] c(1)] by (metis snd_conv)
  then show "keys_from es gen v c'"
    using c(2) step triple_same [OF keys_from_cleanup] by (auto simp: set_manifest_def Let_def split: sum.splits)
qed

lemma keys_from_cleanup_previous:
  "triple (keys_from es gen v) (cleanup_previous acct prev) (\<lambda>_. keys_from es gen v) (\<lambda>_. keys_from es gen v)"
  by (cases prev) (simp_all add: cleanup_previous_def keys_from_cleanup triple_def [of _ "ok ()"])

lemma keys_from_set:
  "triple (keys_from es gen v) (secret_set uu gen i k v) (\<lambda>_. keys_from es gen v) (\<lambda>_. keys_from es gen v)"
proof (cases "k = ManagedPrivateKey")
  case False
  then show ?thesis by (auto simp: secret_set_def intro!: triple_map_err keys_from_ops)
next
  case True
  have single: "triple (keys_from es gen v) (set_single i v prev) (\<lambda>_. keys_from es gen v) (\<lambda>_. keys_from es gen v)" for prev
    unfolding set_single_def Let_def by (intro triple_attempt [of _ _ "\<lambda>_. keys_from es gen v"] triple_map_err keys_from_ops keys_from_cleanup_previous)
  have chunked: "triple (keys_from es gen v) (set_chunked gen i v prev) (\<lambda>_. keys_from es gen v) (\<lambda>_. keys_from es gen v)" for prev
    unfolding set_chunked_def Let_def
    by (auto intro!: triple_attempt [of _ _ "\<lambda>_. keys_from es gen v"] keys_from_write_chunks keys_from_set_manifest
        keys_from_cleanup_previous simp: triple_def [of _ "fail _"])
  have previous: "triple (keys_from es gen v) (previous_manifest uu i k) (\<lambda>_. keys_from es gen v) (\<lambda>_. keys_from es gen v)"
    unfolding previous_manifest_def
    by (intro triple_attempt [of _ _ "\<lambda>_. keys_from es gen v"] triple_map_err keys_from_ops) (simp add: triple_def)
  have "triple (keys_from es gen v) (attempt (previous_manifest uu i k) (\<lambda>previous.
      if managed_key_fits_single_credential v then set_single i v previous else set_chunked gen i v previous))
      (\<lambda>_. keys_from es gen v) (\<lambda>_. keys_from es gen v)"
    using single chunked by (intro triple_attempt [OF previous]) auto
  then show ?thesis using True by (simp add: secret_set_def)
qed

lemma keys_from_delete:
  "triple (keys_from es gen v) (secret_delete uu i k) (\<lambda>_. keys_from es gen v) (\<lambda>_. keys_from es gen v)"
proof -
  have chunks: "triple (keys_from es gen v) (delete_managed_key_chunks acct m) (\<lambda>_. keys_from es gen v) (\<lambda>_. keys_from es gen v)" for acct m
    unfolding delete_managed_key_chunks_def by (intro triple_each keys_from_ops)
  have previous: "triple (keys_from es gen v) (if k = ManagedPrivateKey then previous_manifest uu i k else ok None)
      (\<lambda>_. keys_from es gen v) (\<lambda>_. keys_from es gen v)"
    unfolding previous_manifest_def
    by (auto intro!: triple_attempt [of _ _ "\<lambda>_. keys_from es gen v"] triple_map_err keys_from_ops simp: triple_def [of _ "ok _"])
  show ?thesis
    unfolding secret_delete_def Let_def
    by (rule triple_attempt [OF previous]) (auto intro!: triple_attempt [of _ _ "\<lambda>_. keys_from es gen v"] triple_map_err keys_from_ops chunks
        simp: triple_def [of _ "ok _"] split: option.split)
qed

lemma parse_encoded_generation:
  assumes "manifest_parse uu (manifest_encode m) = Some m'" "CHR '':'' \<notin> set (generation m)"
  shows "generation m' = generation m"
proof -
  have "rsplit_once (CHR '':'') (generation m @ '':'' @ show_nat (count m)) = Some (generation m, show_nat (count m))"
    using show_nat_no_colon by (simp add: rsplit_once_Some)
  with assms show ?thesis by (auto simp: manifest_parse_def manifest_encode_def split: if_splits option.splits)
qed

lemma fresh_after:
  assumes "keys_from es gen v c" "fresh_generation uu es g" "manifest_parse uu v = None" "gen \<noteq> g" "CHR '':'' \<notin> set gen"
  shows "fresh_generation uu (entries c) g"
proof -
  have "generation m \<noteq> g"
    if w: "entries c (account j ManagedPrivateKey) = Some w" "manifest_parse uu w = Some m" for j w m
  proof -
    have "Some w \<in> {es (account j ManagedPrivateKey), Some v, None} \<union> {Some (manifest_encode m) | m. generation m = gen}"
      using spec [OF assms(1) [unfolded keys_from_def], of j] unfolding w(1) .
    then consider "es (account j ManagedPrivateKey) = Some w" | "w = v" | m' where "w = manifest_encode m'" "generation m' = gen"
      by auto
    then show ?thesis
    proof cases
      case 1
      then show ?thesis using assms(2) w(2) by (auto simp: fresh_generation_def)
    next
      case 2
      then show ?thesis using assms(3) w(2) by simp
    next
      case 3
      then show ?thesis using parse_encoded_generation [of uu m' m] w(2) assms(4,5) by simp
    qed
  qed
  then show ?thesis using assms(2) by (auto simp: fresh_generation_def)
qed

section \<open>The secrets of the local data\<close>

definition reads :: "platform \<Rightarrow> local_data \<Rightarrow> string \<times> SecretKind \<Rightarrow> any_error + string option" where
  "reads pl d x = observe (is_uuid pl) (entries (secrets d)) (fst x) (snd x)"

definition well_kept :: "platform \<Rightarrow> local_data \<Rightarrow> bool" where
  \<comment> \<open>manifests are as the program writes them, and the identifiers still to be drawn are in no manifest\<close>
  "well_kept pl d \<longleftrightarrow> generations_plain (is_uuid pl) (entries (secrets d)) \<and>
     (\<forall>n \<ge> next_uuid d. fresh_generation (is_uuid pl) (entries (secrets d)) (uuids pl n))"

definition no_manifest :: "platform \<Rightarrow> SecretKind \<Rightarrow> string \<Rightarrow> bool" where
  \<comment> \<open>a private key that is not itself the text of a manifest\<close>
  "no_manifest pl k v \<longleftrightarrow> (k = ManagedPrivateKey \<longrightarrow> manifest_parse (is_uuid pl) v = None)"

definition same_files :: "local_data \<Rightarrow> local_data \<Rightarrow> bool" where
  \<comment> \<open>equal up to the secrets, the identifiers drawn and the faults to come\<close>
  "same_files d d' \<longleftrightarrow> d' = d\<lparr>secrets := secrets d', io_faults := io_faults d', next_uuid := next_uuid d'\<rparr>"

lemma same_filesD:
  assumes "same_files d d'"
  shows "sessions_doc d' = sessions_doc d" "proxies_doc d' = proxies_doc d" "snippets_doc d' = snippets_doc d"
    "keys_doc d' = keys_doc d" "settings_doc d' = settings_doc d" "memory_settings d' = memory_settings d"
    "installed d' = installed d"
  using assms unfolding same_files_def by (cases d; cases d'; simp)+

lemma same_files_refl [simp]: "same_files d d"
  by (simp add: same_files_def)

lemma same_files_trans: "same_files d e \<Longrightarrow> same_files e f \<Longrightarrow> same_files d f"
  by (cases d; cases e; cases f) (simp add: same_files_def)

lemma same_files_updates [simp]:
  "same_files d (d\<lparr>secrets := c\<rparr>)" "same_files d (d\<lparr>io_faults := fs\<rparr>)" "same_files d (d\<lparr>next_uuid := n\<rparr>)"
  by (cases d; simp add: same_files_def)+

lemma get_stored_effect:
  assumes "get_stored pl i k d = (r, d')"
  shows "same_files d d' \<and> next_uuid d' = next_uuid d \<and> entries (secrets d') = entries (secrets d) \<and>
    (\<forall>v. r = Inr v \<longrightarrow> reads pl d (i, k) = Inr v)"
proof -
  obtain s c where run: "secret_get (is_uuid pl) i k (secrets d) = (s, c)" by fastforce
  have "entries c = entries (secrets d) \<and> (\<forall>v. s = Inr v \<longrightarrow> observe (is_uuid pl) (entries (secrets d)) i k = Inr v)"
    using triple_ok [OF secret_get_triple refl] triple_err [OF secret_get_triple refl] run by (cases s) blast+
  then show ?thesis
    using assms run by (auto simp: get_stored_def on_secrets_def reads_def split: sum.splits)
qed

lemma set_stored_effect:
  assumes inj: "inj (uuids pl)" and kept: "well_kept pl d" and plain: "no_manifest pl k v"
    and run: "set_stored pl i k v d = (r, d')"
  shows "same_files d d' \<and> well_kept pl d' \<and> reads pl d' = (if r = Inr () then (reads pl d)((i, k) := Inr (Some v)) else reads pl d)"
proof -
  let ?uu = "is_uuid pl" and ?es = "entries (secrets d)" and ?gen = "uuids pl (next_uuid d)"
  obtain s c where c: "secret_set ?uu ?gen i k v (secrets d) = (s, c)" by fastforce
  have d': "d' = d\<lparr>next_uuid := next_uuid d + 1, secrets := c\<rparr>" "r = Inr () \<longleftrightarrow> s = Inr ()"
    using run c by (auto simp: set_stored_def on_secrets_def split: sum.splits)
  have kept': "generations_plain ?uu ?es" "fresh_generation ?uu ?es (uuids pl n)" if "next_uuid d \<le> n" for n
    using kept that by (auto simp: well_kept_def)
  have gens: "generations_plain ?uu ?es" using kept by (simp add: well_kept_def)
  have atomic: "atomic_set ?uu ?es i k v s c"
  proof (cases "k = ManagedPrivateKey")
    case True
    then show ?thesis using secret_set_atomic [OF gens kept'(2) [OF order_refl] _ c] plain by (simp add: no_manifest_def)
  next
    case False
    then show ?thesis
      using c triple_ok [OF atomic_plain_kind [OF gens False] refl] triple_err [OF atomic_plain_kind [OF gens False] refl]
      by (cases s) (auto simp: secret_set_def)
  qed
  have fresh: "fresh_generation ?uu (entries c) (uuids pl n)" if n: "next_uuid d + 1 \<le> n" for n
  proof (cases "k = ManagedPrivateKey")
    case True
    have "keys_from ?es ?gen v c"
      using triple_same [OF keys_from_set, of ?es ?gen v "secrets d" ?uu i k] c by (simp add: keys_from_def)
    moreover have "?gen \<noteq> uuids pl n" using inj n by (auto simp: inj_eq)
    moreover have "CHR '':'' \<notin> set ?gen" using kept'(2) [OF order_refl] by (simp add: fresh_generation_def)
    ultimately show ?thesis
      using plain True kept'(2) n by (intro fresh_after) (auto simp: no_manifest_def)
  next
    case False
    have "entries c = ?es \<or> entries c = ?es(account i k \<mapsto> v)"
      using c False by (auto simp: secret_set_def map_err_def cred_set_def backend_def split: list.splits option.splits)
    then show ?thesis using kept'(2) [of n] n False by (auto simp: fresh_generation_def)
  qed
  show ?thesis
    using atomic fresh d' by (cases d)
      (auto simp: well_kept_def reads_def fun_eq_iff atomic_set_def takes_effect_def changes_nothing_def same_files_def split: if_splits)
qed

lemma delete_stored_effect:
  assumes kept: "well_kept pl d" and run: "delete_stored pl i k d = (r, d')"
  shows "same_files d d' \<and> well_kept pl d' \<and> (reads pl d' = (reads pl d)((i, k) := Inr None) \<or> (\<exists>e. r = Inl e) \<and> reads pl d' = reads pl d)"
proof -
  let ?uu = "is_uuid pl" and ?es = "entries (secrets d)"
  obtain s c where c: "secret_delete ?uu i k (secrets d) = (s, c)" by fastforce
  have d': "d' = d\<lparr>secrets := c\<rparr>" "(\<exists>e. r = Inl e) \<longleftrightarrow> (\<exists>e. s = Inl e)"
    using run c by (auto simp: delete_stored_def on_secrets_def split: sum.splits)
  have gens: "generations_plain ?uu ?es" using kept by (simp add: well_kept_def)
  have fresh: "fresh_generation ?uu (entries c) (uuids pl n)" if n: "next_uuid d \<le> n" for n
  proof -
    have g: "fresh_generation ?uu ?es (uuids pl n)" using kept n by (simp add: well_kept_def)
    have "keys_from ?es (CHR ''x'' # uuids pl n) [] c"
      using triple_same [OF keys_from_delete, of ?es "CHR ''x'' # uuids pl n" "[]" "secrets d" ?uu i k] c by (simp add: keys_from_def)
    then show ?thesis
      by (rule fresh_after [OF _ g]) (use g in \<open>auto simp: fresh_generation_def manifest_parse_def strip_prefix_def
          MANAGED_KEY_CHUNK_MANIFEST_PREFIX_def dest: arg_cong [of _ _ length]\<close>)
  qed
  show ?thesis
  proof (cases "takes_effect ?uu ?es (entries c) i k None")
    case True
    then have "reads pl d' = (reads pl d)((i, k) := Inr None)"
      using d' by (auto simp: reads_def fun_eq_iff takes_effect_def)
    then show ?thesis using secret_delete_effect [OF gens c] fresh d' by (auto simp: well_kept_def)
  next
    case False
    then have same: "entries c = ?es" "\<exists>e. s = Inl e" using secret_delete_effect [OF gens c] by auto
    then have "reads pl d' = reads pl d" using d'(1) by (intro ext) (simp add: reads_def del: fun_upd_apply)
    then show ?thesis using same fresh d' gens by (auto simp: well_kept_def)
  qed
qed

end
