(* ===== verification/Sync_Rollback.thy ===== *)
theory Sync_Rollback
  imports Stored_Secrets Sync_Payload Settings_Properties Sync_Samples
begin

text \<open>
  A pull that fails is undone. The invariant \<open>only_touches\<close> says which secrets the application of a
  payload may have changed; the snapshot covers all of them, so that a rollback without errors brings
  every secret and every document back.
\<close>

section \<open>Identifiers are only drawn\<close>

lemma unseen_id_mono: "unseen_id ids seen i k = Some (j, k') \<Longrightarrow> k \<le> k'"
  by (drule unseen_id.raw_induct [rotated, where P = "\<lambda>ids seen i k y. k \<le> snd y"])
     (fastforce split: if_splits)+

lemma distinct_ids_mono: "distinct_ids ids seen ps k = Some (qs, k') \<Longrightarrow> k \<le> k'"
  by (induction ids seen ps k arbitrary: qs k' rule: distinct_ids.induct)
     (fastforce split: option.splits prod.splits dest: unseen_id_mono)+

lemma sanitize_each_mono: "k \<le> snd (sanitize_each ids ps k)"
proof (induction ps arbitrary: k)
  case (Cons p ps)
  have "k \<le> snd (sanitize_provider ids p k)" by (simp add: sanitize_provider_def Let_def)
  then show ?case using Cons.IH [of "snd (sanitize_provider ids p k)"] by (simp add: split_def Let_def)
qed simp

lemma sanitize_providers_mono: "sanitize_ai_providers ids ps k = Some (qs, k') \<Longrightarrow> k \<le> k'"
  using sanitize_each_mono [of k ids ps]
  by (auto simp: sanitize_ai_providers_def Let_def split: prod.splits dest!: distinct_ids_mono)

lemma draws_mono:
  "sanitize_settings pl s k = Some (s', k') \<Longrightarrow> k \<le> k'"
  "apply_synced_settings pl s y k = Some (s', k') \<Longrightarrow> k \<le> k'"
  "normalize_synced pl y k = Some (y', k') \<Longrightarrow> k \<le> k'"
  by (auto simp: sanitize_settings_def apply_synced_settings_def normalize_synced_def split: option.splits
      dest: sanitize_providers_mono)

section \<open>What an operation touches\<close>

definition only_touches :: "platform \<Rightarrow> (string \<times> SecretKind) set \<Rightarrow> (string \<times> SecretKind \<Rightarrow> any_error + string option) \<Rightarrow>
  local_data \<Rightarrow> bool" where
  "only_touches pl A R d \<longleftrightarrow> well_kept pl d \<and> (\<forall>x. x \<notin> A \<longrightarrow> reads pl d x = R x)"

definition keeps_secrets :: "local_data \<Rightarrow> local_data \<Rightarrow> bool" where
  "keeps_secrets d d' \<longleftrightarrow> secrets d' = secrets d \<and> next_uuid d \<le> next_uuid d'"

lemma keeps_secrets_touches: "only_touches pl A R d \<Longrightarrow> keeps_secrets d d' \<Longrightarrow> only_touches pl A R d'"
  by (auto simp: only_touches_def keeps_secrets_def well_kept_def reads_def)

named_theorems frames \<open>operations that leave the secrets alone\<close>

lemma triple_keeps: "(\<And>d r d'. m d = (r, d') \<Longrightarrow> keeps_secrets d d') \<Longrightarrow> triple (keeps_secrets d0) m (\<lambda>_. keeps_secrets d0) (\<lambda>_. keeps_secrets d0)"
  by (rule tripleI) (fastforce simp: keeps_secrets_def)+

lemma frame_basic [frames]:
  "triple (keeps_secrets d0) (ok a) (\<lambda>_. keeps_secrets d0) (\<lambda>_. keeps_secrets d0)"
  "triple (keeps_secrets d0) (fail e) (\<lambda>_. keeps_secrets d0) (\<lambda>_. keeps_secrets d0)"
  "triple (keeps_secrets d0) (lift_sum x) (\<lambda>_. keeps_secrets d0) (\<lambda>_. keeps_secrets d0)"
  "triple (keeps_secrets d0) (get_io f) (\<lambda>_. keeps_secrets d0) (\<lambda>_. keeps_secrets d0)"
  "triple (keeps_secrets d0) (file_step e') (\<lambda>_. keeps_secrets d0) (\<lambda>_. keeps_secrets d0)"
  by (rule triple_keeps; auto simp: keeps_secrets_def)+

lemma frame_draws [frames]:
  "triple (keeps_secrets d0) (sanitize_io pl s) (\<lambda>_. keeps_secrets d0) (\<lambda>_. keeps_secrets d0)"
  "triple (keeps_secrets d0) (merged_settings pl y) (\<lambda>_. keeps_secrets d0) (\<lambda>_. keeps_secrets d0)"
  "triple (keeps_secrets d0) (normalize_io pl y) (\<lambda>_. keeps_secrets d0) (\<lambda>_. keeps_secrets d0)"
  by (rule triple_keeps; auto simp: keeps_secrets_def sanitize_io_def merged_settings_def normalize_io_def
      split: option.splits dest: draws_mono)+

lemma frame_attempt [frames]:
  "triple (keeps_secrets d0) m (\<lambda>_. keeps_secrets d0) (\<lambda>_. keeps_secrets d0) \<Longrightarrow>
   (\<And>a. triple (keeps_secrets d0) (f a) (\<lambda>_. keeps_secrets d0) (\<lambda>_. keeps_secrets d0)) \<Longrightarrow>
   triple (keeps_secrets d0) (attempt m f) (\<lambda>_. keeps_secrets d0) (\<lambda>_. keeps_secrets d0)"
  by (rule triple_attempt)

lemma frame_modify:
  "(\<And>d. secrets (f d) = secrets d \<and> next_uuid (f d) = next_uuid d) \<Longrightarrow>
   triple (keeps_secrets d0) (modify f) (\<lambda>_. keeps_secrets d0) (\<lambda>_. keeps_secrets d0)"
  by (rule triple_keeps) (auto simp: keeps_secrets_def)

lemma frame_saves [frames]:
  "triple (keeps_secrets d0) (save_sessions ss) (\<lambda>_. keeps_secrets d0) (\<lambda>_. keeps_secrets d0)"
  "triple (keeps_secrets d0) (save_proxies ps) (\<lambda>_. keeps_secrets d0) (\<lambda>_. keeps_secrets d0)"
  "triple (keeps_secrets d0) (save_snippets sn) (\<lambda>_. keeps_secrets d0) (\<lambda>_. keeps_secrets d0)"
  "triple (keeps_secrets d0) (save_keys ks) (\<lambda>_. keeps_secrets d0) (\<lambda>_. keeps_secrets d0)"
  unfolding save_sessions_def save_proxies_def save_snippets_def save_keys_def
  by (intro frames frame_modify; simp)+

lemma frame_read [frames]:
  "triple (keeps_secrets d0) (read_settings_file pl) (\<lambda>_. keeps_secrets d0) (\<lambda>_. keeps_secrets d0)"
  unfolding read_settings_file_def by (intro frames) (auto split: document.split intro!: frames)

lemma frame_load [frames]:
  "triple (keeps_secrets d0) (load_settings_document_unlocked pl) (\<lambda>_. keeps_secrets d0) (\<lambda>_. keeps_secrets d0)"
  unfolding load_settings_document_unlocked_def by (intro frames) (auto intro!: frames)

lemma frame_persist [frames]:
  "triple (keeps_secrets d0) (persist_settings_document_unlocked s) (\<lambda>_. keeps_secrets d0) (\<lambda>_. keeps_secrets d0)"
  unfolding persist_settings_document_unlocked_def by (intro frames frame_modify) simp

lemma frame_latest [frames]:
  "triple (keeps_secrets d0) (latest_settings_unlocked pl) (\<lambda>_. keeps_secrets d0) (\<lambda>_. keeps_secrets d0)"
  unfolding latest_settings_unlocked_def by (intro frames) (auto intro!: frames)

lemma frame_replace [frames]:
  "triple (keeps_secrets d0) (replace_settings pl s) (\<lambda>_. keeps_secrets d0) (\<lambda>_. keeps_secrets d0)"
proof -
  have "triple (keeps_secrets d0) (replace_against_latest_unlocked pl s latest) (\<lambda>_. keeps_secrets d0) (\<lambda>_. keeps_secrets d0)" for latest
    unfolding replace_against_latest_unlocked_def commit_settings_def Let_def
    by (intro frames frame_modify) (auto intro!: frames)
  then show ?thesis unfolding replace_settings_def by (intro frames)
qed

section \<open>Documents\<close>

fun contents :: "'a list document \<Rightarrow> 'a list option" where
  "contents NoDocument = Some []"
| "contents EmptyDocument = Some []"
| "contents BadDocument = None"
| "contents (Document xs) = Some xs"

definition stored_session :: "SessionProfile \<Rightarrow> SessionProfile" where
  "stored_session p = serialized_session (ensure_auth_method p)"

lemma stored_session_idem [simp]: "stored_session (stored_session p) = stored_session p"
  by (simp add: stored_session_def serialized_session_def ensure_auth_method_def effective_auth_method_def)

definition untouched :: "local_data \<Rightarrow> local_data \<Rightarrow> bool" where
  "untouched d d' \<longleftrightarrow> same_files d d' \<and> entries (secrets d') = entries (secrets d) \<and> next_uuid d' = next_uuid d"

lemma untouched_refl [simp]: "untouched d d"
  by (simp add: untouched_def)

lemma untouched_trans: "untouched d e \<Longrightarrow> untouched e f \<Longrightarrow> untouched d f"
  using same_files_trans by (auto simp: untouched_def)

lemma untouched_reads: "untouched d d' \<Longrightarrow> reads pl d' = reads pl d" "untouched d d' \<Longrightarrow> well_kept pl d' = well_kept pl d"
  by (simp_all add: untouched_def reads_def [abs_def] well_kept_def)

lemma read_document_effect:
  "read_document f doc d = (r, d') \<Longrightarrow> untouched d d' \<and> (\<forall>xs. r = Inr xs \<longrightarrow> contents doc = Some xs)"
  by (cases doc) (auto simp: read_document_def attempt_def untouched_def split: if_splits)

lemma load_effect:
  "load_sessions d = (r, d') \<Longrightarrow> untouched d d' \<and> (\<forall>xs. r = Inr xs \<longrightarrow> contents (sessions_doc d) = Some xs)"
  "load_proxies_content d = (r2, d') \<Longrightarrow> untouched d d' \<and> (\<forall>xs. r2 = Inr xs \<longrightarrow> contents (proxies_doc d) = Some xs)"
  "load_snippets d = (r3, d') \<Longrightarrow> untouched d d' \<and> (\<forall>xs. r3 = Inr xs \<longrightarrow> contents (snippets_doc d) = Some xs)"
  "load_keys d = (r4, d') \<Longrightarrow> untouched d d' \<and> (\<forall>xs. r4 = Inr xs \<longrightarrow> contents (keys_doc d) = Some xs)"
  by (auto simp: load_sessions_def load_proxies_content_def load_snippets_def load_keys_def attempt_def
      dest: read_document_effect)

section \<open>The targets of a snapshot\<close>

lemma set_add_target [simp]: "set (add_secret_target i k t) = insert (i, k) (set t)"
  by (auto simp: add_secret_target_def)

lemma set_fold_targets [simp]:
  "set (fold (\<lambda>i. add_secret_target i k) xs t) = (\<lambda>i. (i, k)) ` set xs \<union> set t"
  "set (fold (\<lambda>i. add_secret_target i k \<circ> add_secret_target i k') xs t) = (\<lambda>i. (i, k)) ` set xs \<union> (\<lambda>i. (i, k')) ` set xs \<union> set t"
  by (induction xs arbitrary: t) auto

lemma set_secret_targets:
  "set (secret_targets p ss ps ks st) =
     (\<lambda>i. (i, Password)) ` (profile_id ` (set ss \<union> set (sessions p)) \<union> profile_secret_id ` set (profile_secrets (payload_secrets p)))
     \<union> (\<lambda>i. (i, Passphrase)) ` (profile_id ` (set ss \<union> set (sessions p)) \<union> profile_secret_id ` set (profile_secrets (payload_secrets p)))
     \<union> (\<lambda>i. (i, ProxyPassword)) ` (proxy_id ` (set ps \<union> set (proxies p)) \<union> proxy_secret_id ` set (proxy_secrets (payload_secrets p)))
     \<union> (\<lambda>i. (i, ManagedPrivateKey)) ` (key_id ` (set ks \<union> set (managed_keys p)) \<union> key_secret_id ` set (key_secrets (payload_secrets p)))
     \<union> (\<lambda>i. (i, AiProviderApiKey)) ` (provider_id ` (set (ai_providers st) \<union> set (synced_ai_providers (settings p)))
         \<union> provider_secret_id ` set (ai_provider_secrets (payload_secrets p)))
     \<union> {(''web_search'', WebSearchApiKey)}"
  unfolding secret_targets_def Let_def set_add_target set_fold_targets set_append set_map image_Un list.set(1)
  by blast

section \<open>The application stays within the snapshot\<close>

abbreviation stays :: "platform \<Rightarrow> (string \<times> SecretKind) set \<Rightarrow> (string \<times> SecretKind \<Rightarrow> any_error + string option) \<Rightarrow>
  (local_data, 'e, 'a) io \<Rightarrow> bool" where
  "stays pl A R m \<equiv> triple (only_touches pl A R) m (\<lambda>_. only_touches pl A R) (\<lambda>_. only_touches pl A R)"

lemma stays_set:
  assumes "inj (uuids pl)" "(i, k) \<in> A" "no_manifest pl k v"
  shows "stays pl A R (set_stored pl i k v)"
  by (rule tripleI) (use set_stored_effect [OF assms(1) _ assms(3)] assms(2) in \<open>fastforce simp: only_touches_def\<close>)+

lemma stays_delete: "(i, k) \<in> A \<Longrightarrow> stays pl A R (delete_stored pl i k)"
  by (rule tripleI) (use delete_stored_effect in \<open>fastforce simp: only_touches_def\<close>)+

lemma stays_keeps:
  assumes "\<And>d0. triple (keeps_secrets d0) m (\<lambda>_. keeps_secrets d0) (\<lambda>_. keeps_secrets d0)"
  shows "stays pl A R m"
proof -
  have "keeps_secrets d d'" if "m d = (r, d')" for d r d'
    using that triple_same [OF assms, of d d] by (simp add: keeps_secrets_def)
  then show ?thesis by (intro tripleI) (blast intro: keeps_secrets_touches)+
qed

lemma stays_basic: "stays pl A R (ok a)" "stays pl A R (lift_sum x)" "stays pl A R (get_io f)"
  by (simp_all add: triple_def split: sum.split)

lemma stays_attempt: "stays pl A R m \<Longrightarrow> (\<And>a. stays pl A R (f a)) \<Longrightarrow> stays pl A R (attempt m f)"
  by (rule triple_attempt)

lemma stays_map_err: "stays pl A R m \<Longrightarrow> stays pl A R (map_err g m)"
  by (rule triple_map_err)

definition payload_plain :: "platform \<Rightarrow> PlaintextSecrets \<Rightarrow> bool" where
  "payload_plain pl s \<longleftrightarrow> (\<forall>k \<in> set (key_secrets s). no_manifest pl ManagedPrivateKey (private_key k))"

lemma no_manifest_other: "k \<noteq> ManagedPrivateKey \<Longrightarrow> no_manifest pl k v"
  by (simp add: no_manifest_def)

lemma stays_optional:
  "inj (uuids pl) \<Longrightarrow> (i, k) \<in> A \<Longrightarrow> k \<noteq> ManagedPrivateKey \<Longrightarrow> stays pl A R (set_optional pl i k v)"
  by (cases v) (simp_all add: set_optional_def stays_basic stays_set no_manifest_other)

lemma stays_write_secrets:
  assumes "inj (uuids pl)" "payload_plain pl (payload_secrets p)"
  shows "stays pl (set (secret_targets p ss ps ks st)) R (write_secrets pl (payload_secrets p))"
  unfolding write_secrets_def
  by (intro stays_attempt triple_each stays_optional stays_set assms(1))
     (use assms(2) in \<open>auto simp: set_secret_targets payload_plain_def no_manifest_other\<close>)

lemma stays_delete_if: "(b \<Longrightarrow> (i, k) \<in> A) \<Longrightarrow> stays pl A R (delete_if pl b i k)"
  by (auto simp: delete_if_def intro: stays_delete stays_basic)

lemma stays_cleanup:
  "stays pl (set (secret_targets p ss ps ks st)) R
     (cleanup_removed_secrets pl p ss ps ks (map provider_id (ai_providers st)))"
  unfolding cleanup_removed_secrets_def Let_def
  by (intro stays_attempt triple_each stays_delete_if) (auto simp: set_secret_targets)

definition holds_lists ::
  "SessionProfile list \<Rightarrow> ProxyProfile list \<Rightarrow> ManagedKeyRecord list \<Rightarrow> AppSettings \<Rightarrow> local_data \<Rightarrow> bool" where
  "holds_lists ss ps ks st d \<longleftrightarrow> contents (sessions_doc d) = Some ss \<and> contents (proxies_doc d) = Some ps \<and>
     contents (keys_doc d) = Some ks \<and> memory_settings d = st"

abbreviation with_lists where
  "with_lists pl A R ss ps ks st d \<equiv> only_touches pl A R d \<and> holds_lists ss ps ks st d"

lemma with_lists_move: "with_lists pl A R ss ps ks st d \<Longrightarrow> untouched d d' \<Longrightarrow> with_lists pl A R ss ps ks st d'"
  using same_filesD [of d d'] untouched_reads [of d d' pl]
  by (auto simp: only_touches_def holds_lists_def untouched_def)

lemma with_lists_load:
  assumes "\<And>d r d'. m d = (r, d') \<Longrightarrow> untouched d d' \<and> (\<forall>xs. r = Inr xs \<longrightarrow> contents (f d) = Some xs)"
    and "\<And>d. holds_lists ss ps ks st d \<Longrightarrow> contents (f d) = Some ys"
    and "triple (with_lists pl A R ss ps ks st) (g ys) (\<lambda>_. only_touches pl A R) (\<lambda>_. only_touches pl A R)"
  shows "triple (with_lists pl A R ss ps ks st) (attempt (in_stores m) g) (\<lambda>_. only_touches pl A R) (\<lambda>_. only_touches pl A R)"
proof (rule triple_attempt)
  show "triple (with_lists pl A R ss ps ks st) (in_stores m) (\<lambda>xs d. with_lists pl A R ss ps ks st d \<and> xs = ys) (\<lambda>_. only_touches pl A R)"
  proof (rule triple_map_err, rule tripleI)
    fix d xs d' assume d: "with_lists pl A R ss ps ks st d" "m d = (Inr xs, d')"
    have "untouched d d'" "contents (f d) = Some xs" using assms(1) [OF d(2)] by auto
    then show "with_lists pl A R ss ps ks st d' \<and> xs = ys" using with_lists_move [OF d(1)] assms(2) d(1) by auto
  next
    fix d e d' assume d: "with_lists pl A R ss ps ks st d" "m d = (Inl e, d')"
    then show "only_touches pl A R d'" using with_lists_move [OF d(1)] assms(1) [OF d(2)] by blast
  qed
  show "triple (\<lambda>d. with_lists pl A R ss ps ks st d \<and> xs = ys) (g xs) (\<lambda>_. only_touches pl A R) (\<lambda>_. only_touches pl A R)" for xs
    using assms(3) by (cases "xs = ys") (simp_all add: triple_def)
qed

lemma stays_from_lists: "stays pl A R m \<Longrightarrow> triple (with_lists pl A R ss ps ks st) m (\<lambda>_. only_touches pl A R) (\<lambda>_. only_touches pl A R)"
  by (simp add: triple_def)

lemma apply_changes_stays:
  assumes "inj (uuids pl)" "payload_plain pl (payload_secrets p)"
  shows "triple (with_lists pl (set (secret_targets p ss ps ks st)) R ss ps ks st) (apply_payload_changes pl p)
    (\<lambda>_. only_touches pl (set (secret_targets p ss ps ks st)) R) (\<lambda>_. only_touches pl (set (secret_targets p ss ps ks st)) R)"
proof -
  let ?A = "set (secret_targets p ss ps ks st)"
  have rest: "stays pl ?A R (attempt (in_stores (write_secrets pl (payload_secrets p))) (\<lambda>_.
     attempt (in_stores (save_proxies (proxies p))) (\<lambda>_.
     attempt (in_stores (save_sessions x)) (\<lambda>_.
     attempt (in_stores (save_snippets (snippets p))) (\<lambda>_.
     attempt (in_stores (save_keys (managed_keys p))) (\<lambda>_.
     attempt (in_stores (merged_settings pl (settings p))) (\<lambda>s.
     attempt (in_stores (replace_settings pl s)) (\<lambda>_.
       in_stores (cleanup_removed_secrets pl p ss ps ks (map provider_id (ai_providers st)))))))))))" for x
    by (intro stays_attempt stays_map_err stays_write_secrets stays_cleanup stays_keeps frame_saves frame_draws frame_replace assms)
  have providers: "triple (with_lists pl ?A R ss ps ks st) (attempt (get_io (\<lambda>d. map provider_id (ai_providers (memory_settings d)))) g)
      (\<lambda>_. only_touches pl ?A R) (\<lambda>_. only_touches pl ?A R)" if "stays pl ?A R (g (map provider_id (ai_providers st)))" for g
    using stays_from_lists [OF that, of ss ps ks st] by (simp add: triple_def attempt_def holds_lists_def)
  have "triple (with_lists pl ?A R ss ps ks st) (lift_sum (validate_payload_proxies p))
      (\<lambda>_. with_lists pl ?A R ss ps ks st) (\<lambda>_. only_touches pl ?A R)"
    by (simp add: triple_def split: sum.split)
  then show ?thesis
    unfolding apply_payload_changes_def
    by (rule triple_attempt)
       (rule with_lists_load [OF load_effect(1)], assumption, simp add: holds_lists_def,
        rule with_lists_load [OF load_effect(2)], assumption, simp add: holds_lists_def,
        rule with_lists_load [OF load_effect(4)], assumption, simp add: holds_lists_def,
        rule providers, rule rest)
qed

section \<open>Restoring\<close>

lemma attempt_all_append:
  "attempt_all (xs @ ys) d = (case attempt_all xs d of (es, d') \<Rightarrow> (case attempt_all ys d' of (fs, d'') \<Rightarrow> (es @ fs, d'')))"
  by (induction xs d rule: attempt_all.induct) (simp_all split: prod.split sum.split)

lemma attempt_all_Cons_ok:
  assumes "attempt_all ((what, m) # rest) d = ([], d')"
  obtains d1 where "m d = (Inr (), d1)" "attempt_all rest d1 = ([], d')"
  using assms that by (cases "m d"; cases "fst (m d)") (auto split: prod.splits)

declare attempt_all.simps(2) [simp del]

definition captured :: "(string \<times> SecretKind \<Rightarrow> any_error + string option) \<Rightarrow> SecretSnapshot list \<Rightarrow> bool" where
  "captured R ss \<longleftrightarrow> (\<forall>s \<in> set ss. R (snapshot_id s, snapshot_kind s) = Inr (snapshot_value s))"

lemma captured_Cons [simp]:
  "captured R (s # ss) \<longleftrightarrow> R (snapshot_id s, snapshot_kind s) = Inr (snapshot_value s) \<and> captured R ss"
  by (simp add: captured_def)

definition plain_values :: "platform \<Rightarrow> (string \<times> SecretKind \<Rightarrow> any_error + string option) \<Rightarrow> bool" where
  \<comment> \<open>no private key in the store is the text of a manifest\<close>
  "plain_values pl R \<longleftrightarrow> (\<forall>i k v. R (i, k) = Inr (Some v) \<longrightarrow> no_manifest pl k v)"

lemma restore_secret_effect:
  assumes "inj (uuids pl)" "plain_values pl R" "R (snapshot_id s, snapshot_kind s) = Inr (snapshot_value s)"
    and "only_touches pl A R d" "restore_secret pl s d = (Inr (), d')"
  shows "same_files d d' \<and> only_touches pl (A - {(snapshot_id s, snapshot_kind s)}) R d'"
proof (cases "snapshot_value s")
  case None
  then have "delete_stored pl (snapshot_id s) (snapshot_kind s) d = (Inr (), d')" using assms(5) by (simp add: restore_secret_def)
  from delete_stored_effect [OF _ this] show ?thesis using assms(3,4) None by (auto simp: only_touches_def)
next
  case (Some v)
  then have "set_stored pl (snapshot_id s) (snapshot_kind s) v d = (Inr (), d')" using assms(5) by (simp add: restore_secret_def)
  moreover have "no_manifest pl (snapshot_kind s) v" using assms(2,3) Some by (auto simp: plain_values_def)
  ultimately show ?thesis using set_stored_effect [OF assms(1)] assms(3,4) Some by (fastforce simp: only_touches_def)
qed

lemma restore_secrets_effect:
  assumes "inj (uuids pl)" "plain_values pl R" "captured R ss" "only_touches pl A R d"
    and "attempt_all (map (\<lambda>x. (label x, restore_secret pl x)) ss) d = ([], d')"
  shows "same_files d d' \<and> only_touches pl (A - set (map (\<lambda>s. (snapshot_id s, snapshot_kind s)) ss)) R d'"
  using assms(3-5)
proof (induction ss arbitrary: A d)
  case (Cons s ss)
  then obtain d1 where d1: "restore_secret pl s d = (Inr (), d1)" "attempt_all (map (\<lambda>x. (label x, restore_secret pl x)) ss) d1 = ([], d')"
    unfolding list.map(2) by (elim attempt_all_Cons_ok)
  have one: "same_files d d1" "only_touches pl (A - {(snapshot_id s, snapshot_kind s)}) R d1"
    using restore_secret_effect [OF assms(1,2) _ Cons.prems(2) d1(1)] Cons.prems(1) by auto
  have "same_files d1 d'" "only_touches pl (A - {(snapshot_id s, snapshot_kind s)} - set (map (\<lambda>s. (snapshot_id s, snapshot_kind s)) ss)) R d'"
    using Cons.IH [OF _ one(2) d1(2)] Cons.prems(1) by auto
  moreover have "A - {(snapshot_id s, snapshot_kind s)} - set (map (\<lambda>s. (snapshot_id s, snapshot_kind s)) ss) =
      A - set (map (\<lambda>s. (snapshot_id s, snapshot_kind s)) (s # ss))" by auto
  ultimately show ?case using same_files_trans [OF one(1)] by metis
qed (auto simp: only_touches_def)

lemma save_effect:
  "save_sessions ss d = (Inr u, d') \<Longrightarrow> keeps_secrets d d' \<and> contents (sessions_doc d') = Some (map stored_session ss)
     \<and> proxies_doc d' = proxies_doc d \<and> snippets_doc d' = snippets_doc d \<and> keys_doc d' = keys_doc d \<and> memory_settings d' = memory_settings d"
  "save_proxies ps d = (Inr u, d') \<Longrightarrow> keeps_secrets d d' \<and> contents (proxies_doc d') = Some ps
     \<and> sessions_doc d' = sessions_doc d \<and> snippets_doc d' = snippets_doc d \<and> keys_doc d' = keys_doc d \<and> memory_settings d' = memory_settings d"
  "save_snippets sn d = (Inr u, d') \<Longrightarrow> keeps_secrets d d' \<and> contents (snippets_doc d') = Some sn
     \<and> sessions_doc d' = sessions_doc d \<and> proxies_doc d' = proxies_doc d \<and> keys_doc d' = keys_doc d \<and> memory_settings d' = memory_settings d"
  "save_keys ks d = (Inr u, d') \<Longrightarrow> keeps_secrets d d' \<and> contents (keys_doc d') = Some ks
     \<and> sessions_doc d' = sessions_doc d \<and> proxies_doc d' = proxies_doc d \<and> snippets_doc d' = snippets_doc d \<and> memory_settings d' = memory_settings d"
  by (auto simp: save_sessions_def save_proxies_def save_snippets_def save_keys_def attempt_def keeps_secrets_def
      stored_session_def [abs_def] split: if_splits)

definition same_lists :: "local_data \<Rightarrow> local_data \<Rightarrow> bool" where
  "same_lists d d' \<longleftrightarrow> sessions_doc d' = sessions_doc d \<and> proxies_doc d' = proxies_doc d \<and> snippets_doc d' = snippets_doc d
     \<and> keys_doc d' = keys_doc d"

lemma triple_same_lists: "(\<And>d r d'. m d = (r, d') \<Longrightarrow> same_lists d d') \<Longrightarrow> triple (same_lists d0) m (\<lambda>_. same_lists d0) (\<lambda>_. same_lists d0)"
  by (rule tripleI) (fastforce simp: same_lists_def)+

lemma lists_basic:
  "triple (same_lists d0) (ok a) (\<lambda>_. same_lists d0) (\<lambda>_. same_lists d0)"
  "triple (same_lists d0) (fail e) (\<lambda>_. same_lists d0) (\<lambda>_. same_lists d0)"
  "triple (same_lists d0) (lift_sum x) (\<lambda>_. same_lists d0) (\<lambda>_. same_lists d0)"
  "triple (same_lists d0) (get_io f) (\<lambda>_. same_lists d0) (\<lambda>_. same_lists d0)"
  "triple (same_lists d0) (file_step e') (\<lambda>_. same_lists d0) (\<lambda>_. same_lists d0)"
  "triple (same_lists d0) (sanitize_io pl s) (\<lambda>_. same_lists d0) (\<lambda>_. same_lists d0)"
  by (rule triple_same_lists; auto simp: same_lists_def sanitize_io_def split: option.splits)+

lemma lists_modify:
  "(\<And>d. same_lists d (f d)) \<Longrightarrow> triple (same_lists d0) (modify f) (\<lambda>_. same_lists d0) (\<lambda>_. same_lists d0)"
  by (rule triple_same_lists) auto

lemma lists_attempt:
  "triple (same_lists d0) m (\<lambda>_. same_lists d0) (\<lambda>_. same_lists d0) \<Longrightarrow>
   (\<And>a. triple (same_lists d0) (f a) (\<lambda>_. same_lists d0) (\<lambda>_. same_lists d0)) \<Longrightarrow>
   triple (same_lists d0) (attempt m f) (\<lambda>_. same_lists d0) (\<lambda>_. same_lists d0)"
  by (rule triple_attempt)

lemma lists_replace: "triple (same_lists d0) (replace_settings pl s) (\<lambda>_. same_lists d0) (\<lambda>_. same_lists d0)"
proof -
  have read: "triple (same_lists d0) (read_settings_file pl) (\<lambda>_. same_lists d0) (\<lambda>_. same_lists d0)"
    unfolding read_settings_file_def by (intro lists_attempt lists_basic) (auto split: document.split intro!: lists_basic)
  have load: "triple (same_lists d0) (load_settings_document_unlocked pl) (\<lambda>_. same_lists d0) (\<lambda>_. same_lists d0)"
    unfolding load_settings_document_unlocked_def
    by (intro lists_attempt lists_basic) (auto intro!: lists_attempt lists_basic read)
  have latest: "triple (same_lists d0) (latest_settings_unlocked pl) (\<lambda>_. same_lists d0) (\<lambda>_. same_lists d0)"
    unfolding latest_settings_unlocked_def by (intro lists_attempt lists_basic) (auto intro!: lists_basic load)
  have "triple (same_lists d0) (persist_settings_document_unlocked s) (\<lambda>_. same_lists d0) (\<lambda>_. same_lists d0)" for s
    unfolding persist_settings_document_unlocked_def
    by (intro lists_attempt lists_basic lists_modify) (simp add: same_lists_def)
  then have "triple (same_lists d0) (replace_against_latest_unlocked pl s l) (\<lambda>_. same_lists d0) (\<lambda>_. same_lists d0)" for l
    unfolding replace_against_latest_unlocked_def commit_settings_def Let_def
    by (intro lists_attempt lists_basic lists_modify) (auto simp: same_lists_def intro!: lists_basic)
  then show ?thesis unfolding replace_settings_def by (intro lists_attempt lists_basic latest)
qed

definition restored :: "PayloadSnapshot \<Rightarrow> local_data \<Rightarrow> bool" where
  "restored s d \<longleftrightarrow> contents (sessions_doc d) = Some (map stored_session (snapshot_sessions s)) \<and>
     contents (proxies_doc d) = Some (snapshot_proxies s) \<and> contents (snippets_doc d) = Some (snapshot_snippets s) \<and>
     contents (keys_doc d) = Some (snapshot_keys s)"

lemma restore_effect:
  assumes "inj (uuids pl)" "plain_values pl R" "captured R (snapshot_secrets s)"
    and "only_touches pl (set (map (\<lambda>s. (snapshot_id s, snapshot_kind s)) (snapshot_secrets s))) R d"
    and "restore pl s d = ([], d')"
  shows "restored s d' \<and> reads pl d' = R \<and> well_kept pl d'"
proof -
  let ?A = "set (map (\<lambda>s. (snapshot_id s, snapshot_kind s)) (snapshot_secrets s))"
  obtain d1 d2 d3 d4 d5 where steps: "save_sessions (snapshot_sessions s) d = (Inr (), d1)"
      "save_proxies (snapshot_proxies s) d1 = (Inr (), d2)" "save_snippets (snapshot_snippets s) d2 = (Inr (), d3)"
      "save_keys (snapshot_keys s) d3 = (Inr (), d4)" "attempt (replace_settings pl (snapshot_settings s)) (\<lambda>_. ok ()) d4 = (Inr (), d5)"
      "attempt_all (map (\<lambda>x. (''secret '' @ snapshot_id x @ ''/'' @ secret_kind_label (snapshot_kind x), restore_secret pl x))
         (snapshot_secrets s)) d5 = ([], d')"
    using assms(5) unfolding restore_def restore_steps_def append_Cons append_Nil by (elim attempt_all_Cons_ok)
  obtain b where replace: "replace_settings pl (snapshot_settings s) d4 = (Inr b, d5)"
    using steps(5) by (auto simp: attempt_eq_Inr)
  have "keeps_secrets d4 d5" "same_lists d4 d5"
    using triple_ok [OF frame_replace _ replace, of d4] triple_ok [OF lists_replace _ replace, of d4]
    by (simp_all add: keeps_secrets_def same_lists_def)
  then have "keeps_secrets d d5" "restored s d5"
    using save_effect(1) [OF steps(1)] save_effect(2) [OF steps(2)] save_effect(3) [OF steps(3)] save_effect(4) [OF steps(4)]
    by (auto simp: keeps_secrets_def restored_def same_lists_def)
  moreover from this have "only_touches pl ?A R d5" using keeps_secrets_touches [OF assms(4)] by blast
  then have "same_files d5 d' \<and> only_touches pl (?A - ?A) R d'" by (rule restore_secrets_effect [OF assms(1-3) _ steps(6)])
  ultimately show ?thesis using same_filesD [of d5 d'] by (auto simp: only_touches_def restored_def)
qed

section \<open>Capturing\<close>

definition capture_one :: "platform \<Rightarrow> string \<times> SecretKind \<Rightarrow> SecretSnapshot local_io" where
  "capture_one pl = (\<lambda>(i, k). attempt (get_stored pl i k) (\<lambda>v.
     ok \<lparr>snapshot_id = i, snapshot_kind = k, snapshot_value = v\<rparr>))"

lemma capture_one_effect:
  assumes "capture_one pl t d = (r, d')"
  shows "untouched d d' \<and> (\<forall>s. r = Inr s \<longrightarrow> reads pl d t = Inr (snapshot_value s) \<and> (snapshot_id s, snapshot_kind s) = t)"
proof -
  obtain i k where t: "t = (i, k)" by fastforce
  obtain v d1 where v: "get_stored pl i k d = (v, d1)" by fastforce
  show ?thesis
    using assms get_stored_effect [OF v] v t
    by (cases v) (auto simp: capture_one_def untouched_def attempt_def)
qed

lemma capture_secrets_effect:
  assumes "collect (capture_one pl) ts d = (r, d')"
  shows "untouched d d' \<and> (\<forall>ss. r = Inr ss \<longrightarrow> captured (reads pl d) ss \<and> map (\<lambda>s. (snapshot_id s, snapshot_kind s)) ss = ts)"
  using assms
proof (induction ts arbitrary: d r d')
  case (Cons t ts)
  obtain v d1 where v: "capture_one pl t d = (v, d1)" by fastforce
  note one = capture_one_effect [OF v]
  show ?case
  proof (cases v)
    case (Inl e)
    then show ?thesis using Cons.prems v one by (auto simp: attempt_def)
  next
    case (Inr x)
    obtain q d2 where q: "collect (capture_one pl) ts d1 = (q, d2)" by fastforce
    have "d' = d2 \<and> (\<forall>ss. r = Inr ss \<longrightarrow> (\<exists>ss'. q = Inr ss' \<and> ss = x # ss'))"
      using Cons.prems v Inr q by (cases q) (auto simp: attempt_def)
    then show ?thesis
      using Cons.IH [OF q] one Inr untouched_trans [of d d1 d2] untouched_reads(1) [of d d1 pl] by fastforce
  qed
qed (simp add: captured_def)

definition snapshot_of :: "platform \<Rightarrow> SyncPlaintextPayload \<Rightarrow> local_data \<Rightarrow> PayloadSnapshot \<Rightarrow> bool" where
  "snapshot_of pl p d s \<longleftrightarrow> contents (sessions_doc d) = Some (snapshot_sessions s) \<and>
     contents (proxies_doc d) = Some (snapshot_proxies s) \<and> contents (snippets_doc d) = Some (snapshot_snippets s) \<and>
     contents (keys_doc d) = Some (snapshot_keys s) \<and> memory_settings d = snapshot_settings s \<and>
     captured (reads pl d) (snapshot_secrets s) \<and>
     map (\<lambda>s. (snapshot_id s, snapshot_kind s)) (snapshot_secrets s) =
       secret_targets p (snapshot_sessions s) (snapshot_proxies s) (snapshot_keys s) (snapshot_settings s)"

lemma untouched_files:
  "untouched d d' \<Longrightarrow> sessions_doc d' = sessions_doc d \<and> proxies_doc d' = proxies_doc d \<and> snippets_doc d' = snippets_doc d
     \<and> keys_doc d' = keys_doc d \<and> memory_settings d' = memory_settings d"
  using same_filesD [of d d'] by (simp add: untouched_def)

lemma capture_step:
  assumes "\<And>e r e'. m e = (r, e') \<Longrightarrow> untouched e e' \<and> (\<forall>xs. r = Inr xs \<longrightarrow> contents (f e) = Some xs)"
    and "\<And>e. untouched d e \<Longrightarrow> f e = f d"
    and "\<And>xs. contents (f d) = Some xs \<Longrightarrow> triple (untouched d) (g xs) S (\<lambda>_. untouched d)"
  shows "triple (untouched d) (attempt m g) S (\<lambda>_. untouched d)"
proof (rule triple_attempt)
  show "triple (untouched d) m (\<lambda>xs e. untouched d e \<and> contents (f d) = Some xs) (\<lambda>_. untouched d)"
  proof (rule tripleI)
    fix e xs e' assume e: "untouched d e" "m e = (Inr xs, e')"
    show "untouched d e' \<and> contents (f d) = Some xs"
      using assms(1) [OF e(2)] assms(2) [OF e(1)] untouched_trans [OF e(1)] by auto
  next
    fix e x e' assume e: "untouched d e" "m e = (Inl x, e')"
    show "untouched d e'" using assms(1) [OF e(2)] untouched_trans [OF e(1)] by auto
  qed
  show "triple (\<lambda>e. untouched d e \<and> contents (f d) = Some xs) (g xs) S (\<lambda>_. untouched d)" for xs
    using assms(3) [of xs] by (simp add: triple_def)
qed

lemma capture_effect:
  "triple (untouched d) (capture pl p) (\<lambda>s d'. untouched d d' \<and> snapshot_of pl p d s) (\<lambda>_. untouched d)"
  unfolding capture_def
proof (rule capture_step [OF load_effect(1)], assumption, simp add: untouched_files,
    rule capture_step [OF load_effect(2)], assumption, simp add: untouched_files,
    rule capture_step [OF load_effect(3)], assumption, simp add: untouched_files,
    rule capture_step [OF load_effect(4)], assumption, simp add: untouched_files)
  fix ss ps sn ks
  assume docs: "contents (sessions_doc d) = Some ss" "contents (proxies_doc d) = Some ps"
    "contents (snippets_doc d) = Some sn" "contents (keys_doc d) = Some ks"
  let ?last = "\<lambda>st. attempt (capture_affected_secrets pl p ss ps ks st) (\<lambda>secrets.
       ok \<lparr>snapshot_sessions = ss, snapshot_proxies = ps, snapshot_snippets = sn, snapshot_keys = ks,
            snapshot_settings = st, snapshot_secrets = secrets\<rparr>)"
  have "triple (untouched d) (?last (memory_settings d)) (\<lambda>s d'. untouched d d' \<and> snapshot_of pl p d s) (\<lambda>_. untouched d)"
  proof (rule triple_attempt)
    show "triple (untouched d) (capture_affected_secrets pl p ss ps ks (memory_settings d))
      (\<lambda>xs e. untouched d e \<and> captured (reads pl d) xs \<and>
         map (\<lambda>s. (snapshot_id s, snapshot_kind s)) xs = secret_targets p ss ps ks (memory_settings d)) (\<lambda>_. untouched d)"
      unfolding capture_affected_secrets_def capture_one_def [symmetric]
    proof (rule tripleI)
      fix d1 xs d2 assume run: "untouched d d1"
        "collect (capture_one pl) (secret_targets p ss ps ks (memory_settings d)) d1 = (Inr xs, d2)"
      show "untouched d d2 \<and> captured (reads pl d) xs \<and>
         map (\<lambda>s. (snapshot_id s, snapshot_kind s)) xs = secret_targets p ss ps ks (memory_settings d)"
        using capture_secrets_effect [OF run(2)] untouched_trans [OF run(1)] untouched_reads(1) [OF run(1), of pl] by auto
    next
      fix d1 x d2 assume run: "untouched d d1"
        "collect (capture_one pl) (secret_targets p ss ps ks (memory_settings d)) d1 = (Inl x, d2)"
      show "untouched d d2" using capture_secrets_effect [OF run(2)] untouched_trans [OF run(1)] by auto
    qed
  qed (simp add: triple_def snapshot_of_def docs)
  then show "triple (untouched d) (attempt (get_io memory_settings) ?last)
      (\<lambda>s d'. untouched d d' \<and> snapshot_of pl p d s) (\<lambda>_. untouched d)"
    by (simp add: triple_def attempt_def untouched_files)
qed

section \<open>Settings that are stored, loaded and merged\<close>

definition raw_settings :: "platform \<Rightarrow> local_data \<Rightarrow> AppSettings option" where
  "raw_settings pl d =
     (case settings_doc d of
        BadDocument \<Rightarrow> None
      | Document c \<Rightarrow> Some (fst (migrate_settings c))
      | _ \<Rightarrow> Some (default_for_system pl))"

definition loads_as :: "platform \<Rightarrow> local_data \<Rightarrow> AppSettings \<Rightarrow> bool" where
  \<comment> \<open>what a store that loads the settings file sees; identifiers may be drawn\<close>
  "loads_as pl d s \<longleftrightarrow> (\<exists>raw k k'. raw_settings pl d = Some raw \<and> sanitize_settings pl raw k = Some (s, k'))"

definition variant :: "AppSettings \<Rightarrow> AppSettings \<Rightarrow> bool" where
  \<comment> \<open>equal up to the synchronised settings\<close>
  "variant s m \<longleftrightarrow> m\<lparr>recent_connections_count := recent_connections_count s, key_bindings := key_bindings s,
      terminal_right_click_behavior := terminal_right_click_behavior s,
      terminal_shift_right_click_context_menu := terminal_shift_right_click_context_menu s,
      terminal_free_type_mode := terminal_free_type_mode s,
      auto_collect_session_monitoring := auto_collect_session_monitoring s,
      last_tab_close_behavior := last_tab_close_behavior s, monitor_history_duration := monitor_history_duration s,
      local_sftp_hidden_columns := local_sftp_hidden_columns s, remote_sftp_hidden_columns := remote_sftp_hidden_columns s,
      completed_onboarding_version := completed_onboarding_version s,
      local_vault_auto_lock_duration := local_vault_auto_lock_duration s, ai_providers := ai_providers s,
      web_search := web_search s\<rparr> = s"

lemma variant_refl [simp]: "variant s s"
  by (cases s) (simp add: variant_def)

lemma variant_synced: "apply_synced_settings pl s y k = Some (m, k') \<Longrightarrow> variant s m"
  by (cases s) (auto simp: apply_synced_settings_def variant_def split: option.splits)

lemma variant_sanitize: "variant s m \<Longrightarrow> stable_settings pl s \<Longrightarrow> sanitize_settings pl m k = Some (m', k') \<Longrightarrow> variant s m'"
  by (cases s; cases m) (auto simp: sanitize_settings_def variant_def stable_settings_def split: option.splits)

lemma variant_fields: "variant s m \<Longrightarrow> ssh_bridge m = ssh_bridge s \<and> managed_open_ssh_integration_enabled m = managed_open_ssh_integration_enabled s"
  by (cases s; cases m) (auto simp: variant_def)

lemma variant_unchanged: "variant s m \<Longrightarrow> \<not> settings_changed m s \<Longrightarrow> m = s"
  by (cases s; cases m) (simp add: variant_def settings_changed_def)

lemma variant_unchanged': "variant s m \<Longrightarrow> \<not> settings_changed s m \<Longrightarrow> m = s"
  by (cases s; cases m) (simp add: variant_def settings_changed_def)

lemma preserve_same: "ssh_bridge l = ssh_bridge s \<Longrightarrow> preserve_newer_bridge_policy s l = s"
  by (simp add: preserve_newer_bridge_policy_def)

lemma serialized_reads: "\<not> managed_open_ssh_integration_enabled m \<Longrightarrow> fst (migrate_settings (serialized_settings m)) = m"
  by (cases m) (simp add: migrate_settings_def serialized_settings_def Let_def)

section \<open>Operations that leave the settings alone\<close>

definition keeps_settings :: "local_data \<Rightarrow> local_data \<Rightarrow> bool" where
  "keeps_settings d d' \<longleftrightarrow> settings_doc d' = settings_doc d \<and> memory_settings d' = memory_settings d"

definition off_settings :: "(local_data, 'e, 'a) io \<Rightarrow> bool" where
  "off_settings m \<longleftrightarrow> (\<forall>d. keeps_settings d (snd (m d)))"

named_theorems offs \<open>operations that leave the settings alone\<close>

lemma off_attempt [offs]: "off_settings m \<Longrightarrow> (\<And>a. off_settings (f a)) \<Longrightarrow> off_settings (attempt m f)"
  unfolding off_settings_def attempt_def keeps_settings_def by (auto split: prod.split sum.split) (metis snd_conv)+

lemma off_basic [offs]:
  "off_settings (ok a)" "off_settings (fail e)" "off_settings (get_io g)" "off_settings (lift_sum r)" "off_settings (file_step e')"
  by (simp_all add: off_settings_def keeps_settings_def)

lemma off_map_err [offs]: "off_settings m \<Longrightarrow> off_settings (map_err g m)"
  unfolding off_settings_def map_err_def by (auto split: prod.split sum.split) (metis snd_conv)+

lemma off_each [offs]: "(\<And>x. off_settings (f x)) \<Longrightarrow> off_settings (each f xs)"
  by (induction xs) (simp_all add: offs)

lemma off_untouched: "(\<And>d r d'. m d = (r, d') \<Longrightarrow> untouched d d') \<Longrightarrow> off_settings m"
  unfolding off_settings_def keeps_settings_def
  using same_filesD by (metis prod.collapse untouched_def)

lemma off_loads [offs]: "off_settings load_sessions" "off_settings load_proxies_content" "off_settings load_snippets" "off_settings load_keys"
  using load_effect by (blast intro: off_untouched)+

lemma off_stored [offs]: "off_settings (set_stored pl i k v)" "off_settings (delete_stored pl i k)"
  by (auto simp: off_settings_def keeps_settings_def set_stored_def delete_stored_def on_secrets_def split: prod.split sum.split)

lemma off_saves [offs]:
  "off_settings (save_sessions ss)" "off_settings (save_proxies ps)" "off_settings (save_snippets sn)" "off_settings (save_keys ks)"
  by (auto simp: off_settings_def keeps_settings_def save_sessions_def save_proxies_def save_snippets_def save_keys_def attempt_def)

lemma off_read [offs]: "off_settings (load_settings_document_unlocked pl)"
proof -
  have "off_settings (sanitize_io pl s)" for s
    by (auto simp: off_settings_def keeps_settings_def sanitize_io_def split: option.split)
  moreover have "off_settings (read_settings_file pl)"
    unfolding read_settings_file_def by (intro offs) (auto split: document.split intro!: offs)
  ultimately show ?thesis unfolding load_settings_document_unlocked_def by (intro offs) (auto intro!: offs)
qed

lemma off_write [offs]: "off_settings (write_secrets pl s)"
  unfolding write_secrets_def set_optional_def by (intro offs) (auto split: option.split intro!: offs)

lemma off_cleanup [offs]: "off_settings (cleanup_removed_secrets pl p ss ps ks is)"
  unfolding cleanup_removed_secrets_def Let_def delete_if_def by (intro offs) (auto intro!: offs)

lemma off_triple:
  assumes "off_settings m" "\<And>d d'. keeps_settings d d' \<Longrightarrow> P d \<Longrightarrow> P d'"
  shows "triple P m (\<lambda>_. P) (\<lambda>_. P)"
  using assms unfolding off_settings_def by (intro tripleI) (metis snd_conv)+

section \<open>The settings during an application\<close>

definition before_merge :: "AppSettings \<Rightarrow> settings_content document \<Rightarrow> local_data \<Rightarrow> bool" where
  "before_merge s doc d \<longleftrightarrow> settings_doc d = doc \<and> memory_settings d = s"

definition within_merge :: "AppSettings \<Rightarrow> settings_content document \<Rightarrow> local_data \<Rightarrow> bool" where
  \<comment> \<open>the file is as before, or differs from it in the synchronised settings\<close>
  "within_merge s doc d \<longleftrightarrow> settings_doc d = doc \<and> memory_settings d = s \<or>
     (\<exists>m. settings_doc d = Document (serialized_settings m) \<and> variant s m)"

lemma merge_kept:
  "keeps_settings d d' \<Longrightarrow> before_merge s doc d \<Longrightarrow> before_merge s doc d'"
  "keeps_settings d d' \<Longrightarrow> within_merge s doc d \<Longrightarrow> within_merge s doc d'"
  by (auto simp: keeps_settings_def before_merge_def within_merge_def)

definition document_of :: "platform \<Rightarrow> AppSettings \<Rightarrow> settings_content document \<Rightarrow> bool" where
  \<comment> \<open>each time the document is loaded it gives these settings, which are stable\<close>
  "document_of pl s doc \<longleftrightarrow> stable_settings pl s \<and> (\<forall>d t. settings_doc d = doc \<longrightarrow> loads_as pl d t \<longrightarrow> t = s)"

lemma load_reads:
  assumes "load_settings_document_unlocked pl d = (Inr s, d')"
  shows "loads_as pl d s \<and> keeps_settings d d' \<and> validate_settings s = Inr ()"
proof -
  have "keeps_settings d d'" using off_read assms unfolding off_settings_def by (metis snd_conv)
  with assms show ?thesis
    by (cases "settings_doc d")
      (auto simp: load_settings_document_unlocked_def attempt_eq_Inr loads_as_def raw_settings_def read_settings_file_def
        sanitize_io_def split: option.splits)
qed

lemma latest_reads:
  assumes "latest_settings_unlocked pl d = (Inr l, d')"
  shows "keeps_settings d d' \<and> (settings_doc d = NoDocument \<and> l = memory_settings d \<or> settings_doc d \<noteq> NoDocument \<and> loads_as pl d l)"
  using assms load_reads [of pl d l d']
  by (auto simp: latest_settings_unlocked_def attempt_eq_Inr keeps_settings_def split: if_splits)

lemma commit_effect:
  assumes "commit_settings latest s d = (r, d')"
  defines "t \<equiv> preserve_newer_bridge_policy s latest"
  shows "settings_doc d' = settings_doc d \<and>
      (memory_settings d' = memory_settings d \<or> memory_settings d' = t \<and> \<not> settings_changed latest t) \<or>
    settings_doc d' = Document (serialized_settings t)"
    and "r = Inr b \<Longrightarrow> memory_settings d' = t \<and>
      settings_doc d' = (if settings_changed latest t then Document (serialized_settings t) else settings_doc d)"
  using assms
  by (auto simp: commit_settings_def attempt_def Let_def persist_settings_document_unlocked_def split: prod.splits sum.splits if_splits)

lemma serialized_loads:
  "settings_doc d = Document (serialized_settings m) \<Longrightarrow> \<not> managed_open_ssh_integration_enabled m \<Longrightarrow>
   loads_as pl d t \<longleftrightarrow> (\<exists>k k'. sanitize_settings pl m k = Some (t, k'))"
  by (auto simp: loads_as_def raw_settings_def serialized_reads)

lemma replace_run:
  assumes "replace_settings pl x d = (r, d')"
  obtains "keeps_settings d d'" "\<nexists>b. r = Inr b" | l x' k k' d1 where "keeps_settings d d1"
      "settings_doc d = NoDocument \<and> l = memory_settings d \<or> settings_doc d \<noteq> NoDocument \<and> loads_as pl d l"
      "sanitize_settings pl x k = Some (x', k')" "commit_settings l x' d1 = (r, d')"
proof -
  let ?d = "d\<lparr>io_faults := tl (io_faults d)\<rparr>"
  have start: "keeps_settings d ?d" by (simp add: keeps_settings_def)
  obtain l d1 where latest: "latest_settings_unlocked pl ?d = (l, d1)" by fastforce
  have "off_settings (latest_settings_unlocked pl)" unfolding latest_settings_unlocked_def by (intro offs) (auto intro: offs)
  then have d1: "keeps_settings d d1" using latest start unfolding off_settings_def keeps_settings_def by (metis snd_conv)
  show thesis
  proof (cases "io_faults d \<noteq> [] \<and> hd (io_faults d) \<or> (\<nexists>s. l = Inr s)")
    case True
    then have "r = Inl LockError \<and> d' = ?d \<or> (\<nexists>b. r = Inr b) \<and> d' = d1" using assms latest
      by (cases l) (auto simp: replace_settings_def attempt_def split: if_splits)
    with d1 start that(1) show thesis by auto
  next
    case False
    then obtain s where s: "l = Inr s" by blast
    with latest latest_reads [of pl ?d s d1] have
      reads: "settings_doc d = NoDocument \<and> s = memory_settings d \<or> settings_doc d \<noteq> NoDocument \<and> loads_as pl d s"
      by (simp add: loads_as_def raw_settings_def)
    have run: "replace_against_latest_unlocked pl x s d1 = (r, d')"
      using assms latest s False by (auto simp: replace_settings_def attempt_def)
    show thesis
    proof (cases "sanitize_settings pl x (next_uuid d1)")
      case None
      with run have "r = Inl Endless" "d' = d1" by (simp_all add: replace_against_latest_unlocked_def attempt_def sanitize_io_def)
      with d1 that(1) show thesis by simp
    next
      case (Some y)
      with run have "commit_settings s (fst y) (d1\<lparr>next_uuid := snd y\<rparr>) = (r, d')"
        by (cases y) (simp add: replace_against_latest_unlocked_def attempt_def sanitize_io_def)
      moreover have "keeps_settings d (d1\<lparr>next_uuid := snd y\<rparr>)" using d1 by (simp add: keeps_settings_def)
      ultimately show thesis using that(2) [OF _ reads] Some by (metis prod.collapse)
    qed
  qed
qed

lemma replace_within:
  assumes "document_of pl s doc" "variant s x"
  shows "triple (before_merge s doc) (replace_settings pl x) (\<lambda>_. within_merge s doc) (\<lambda>_. within_merge s doc)"
proof -
  have "within_merge s doc d'" if d: "before_merge s doc d" and run: "replace_settings pl x d = (r, d')" for d r d'
    using run
  proof (cases rule: replace_run)
    case 1
    with d show ?thesis by (auto simp: keeps_settings_def before_merge_def within_merge_def)
  next
    case (2 l x' k k' d1)
    have l: "l = s" using 2(2) d assms(1) by (auto simp: before_merge_def document_of_def)
    have x': "variant s x'" using variant_sanitize [OF assms(2) _ 2(3)] assms(1) by (simp add: document_of_def)
    then have t: "preserve_newer_bridge_policy x' l = x'" using variant_fields [OF x'] l by (simp add: preserve_same)
    show ?thesis
      using commit_effect(1) [OF 2(4), unfolded t] variant_unchanged' [OF x'] x' l 2(1) d
      by (auto simp: keeps_settings_def before_merge_def within_merge_def)
  qed
  then show ?thesis by (intro tripleI) blast+
qed

lemma replace_restores:
  assumes "document_of pl s doc" "within_merge s doc d" "replace_settings pl s d = (Inr b, d')"
  shows "memory_settings d' = s \<and> (settings_doc d' = doc \<or> loads_as pl d' s)"
  using assms(3)
proof (cases rule: replace_run)
  case 1
  then show ?thesis by blast
next
  case (2 l x' k k' d1)
  have stable: "stable_settings pl s" using assms(1) by (simp add: document_of_def)
  then have x': "x' = s" using 2(3) by (simp add: sanitize_settings_stable)
  have managed: "\<not> managed_open_ssh_integration_enabled s" using stable by (simp add: stable_settings_def)
  have l: "variant s l \<and> (l = s \<longrightarrow> settings_doc d = doc \<or> loads_as pl d s)"
    using assms(2)
    unfolding within_merge_def
  proof (elim disjE exE conjE)
    assume "settings_doc d = doc" "memory_settings d = s"
    with 2(2) assms(1) show ?thesis by (auto simp: document_of_def)
  next
    fix m assume m: "settings_doc d = Document (serialized_settings m)" "variant s m"
    then have "\<not> managed_open_ssh_integration_enabled m" using variant_fields managed by blast
    with m 2(2) obtain j j' where "sanitize_settings pl m j = Some (l, j')" "loads_as pl d l"
      by (auto simp: serialized_loads)
    with variant_sanitize [OF m(2) stable] show ?thesis by blast
  qed
  then have "preserve_newer_bridge_policy x' l = s" using variant_fields x' by (simp add: preserve_same)
  with commit_effect(2) [OF 2(4)] have over: "memory_settings d' = s"
    "settings_doc d' = (if settings_changed l s then Document (serialized_settings s) else settings_doc d1)" by auto
  show ?thesis
  proof (cases "settings_changed l s")
    case True
    with over serialized_loads [of d' s pl s] managed sanitize_settings_stable [OF stable] show ?thesis by auto
  next
    case False
    then have "l = s" using variant_unchanged l by blast
    with l over False 2(1) show ?thesis by (auto simp: keeps_settings_def loads_as_def raw_settings_def)
  qed
qed

lemma before_within: "before_merge s doc d \<Longrightarrow> within_merge s doc d"
  by (simp add: before_merge_def within_merge_def)

lemma off_before: "off_settings m \<Longrightarrow> triple (before_merge s doc) m (\<lambda>_. before_merge s doc) (\<lambda>_. within_merge s doc)"
  by (rule triple_weaken [OF off_triple [of m "before_merge s doc"]]) (auto intro: merge_kept before_within)

lemma changes_within:
  assumes "document_of pl s doc"
  shows "triple (before_merge s doc) (apply_payload_changes pl p) (\<lambda>_. within_merge s doc) (\<lambda>_. within_merge s doc)"
proof -
  let ?E = "\<lambda>_. within_merge s doc"
  have merged: "triple (before_merge s doc) (merged_settings pl y) (\<lambda>x d. before_merge s doc d \<and> variant s x) ?E" for y
    by (auto simp: triple_def merged_settings_def before_merge_def within_merge_def split: option.split dest: variant_synced)
  have merge: "triple (before_merge s doc) (in_stores (merged_settings pl y)) (\<lambda>x d. before_merge s doc d \<and> variant s x) ?E" for y
    by (rule triple_map_err) (rule merged)
  have last: "triple (within_merge s doc) (in_stores (cleanup_removed_secrets pl p a b c is)) ?E ?E" for a b c "is"
    by (rule triple_map_err, rule off_triple) (auto intro: offs merge_kept)
  have replaced: "triple (\<lambda>d. before_merge s doc d \<and> variant s x)
      (attempt (in_stores (replace_settings pl x)) (\<lambda>_. in_stores (cleanup_removed_secrets pl p a b c is))) ?E ?E" for x a b c "is"
  proof (rule triple_pure)
    assume x: "variant s x"
    have "triple (\<lambda>d. before_merge s doc d \<and> variant s x) (in_stores (replace_settings pl x)) ?E ?E"
      by (rule triple_map_err, rule triple_weaken [OF replace_within [OF assms x]]) auto
    then show "triple (\<lambda>d. before_merge s doc d \<and> variant s x)
      (attempt (in_stores (replace_settings pl x)) (\<lambda>_. in_stores (cleanup_removed_secrets pl p a b c is))) ?E ?E"
      by (rule triple_attempt) (rule last)
  qed blast
  show ?thesis
    unfolding apply_payload_changes_def
    by (intro triple_attempt [where R = "\<lambda>_. before_merge s doc"] off_before offs
        triple_attempt [OF merge replaced])
qed

lemma off_capture: "off_settings (capture pl p)"
proof -
  have "untouched d d'" if "capture pl p d = (r, d')" for d r d'
    using triple_ok [OF capture_effect untouched_refl, of pl p d] triple_err [OF capture_effect untouched_refl, of pl p d] that
    by (cases r) blast+
  then show ?thesis by (rule off_untouched)
qed

lemma restore_settings:
  assumes "document_of pl (snapshot_settings s) doc" "within_merge (snapshot_settings s) doc d" "restore pl s d = ([], d')"
  shows "memory_settings d' = snapshot_settings s \<and> (settings_doc d' = doc \<or> loads_as pl d' (snapshot_settings s))"
proof -
  obtain d1 d2 d3 d4 d5 where steps: "save_sessions (snapshot_sessions s) d = (Inr (), d1)"
      "save_proxies (snapshot_proxies s) d1 = (Inr (), d2)" "save_snippets (snapshot_snippets s) d2 = (Inr (), d3)"
      "save_keys (snapshot_keys s) d3 = (Inr (), d4)" "attempt (replace_settings pl (snapshot_settings s)) (\<lambda>_. ok ()) d4 = (Inr (), d5)"
      "attempt_all (map (\<lambda>x. (''secret '' @ snapshot_id x @ ''/'' @ secret_kind_label (snapshot_kind x), restore_secret pl x))
         (snapshot_secrets s)) d5 = ([], d')"
    using assms(3) unfolding restore_def restore_steps_def append_Cons append_Nil by (elim attempt_all_Cons_ok)
  have "keeps_settings d d1" "keeps_settings d1 d2" "keeps_settings d2 d3" "keeps_settings d3 d4"
    using steps(1-4) off_saves unfolding off_settings_def by (metis snd_conv)+
  then have d4: "keeps_settings d d4" by (simp add: keeps_settings_def)
  obtain b where replace: "replace_settings pl (snapshot_settings s) d4 = (Inr b, d5)"
    using steps(5) by (auto simp: attempt_eq_Inr)
  have d5: "memory_settings d5 = snapshot_settings s \<and> (settings_doc d5 = doc \<or> loads_as pl d5 (snapshot_settings s))"
    by (rule replace_restores [OF assms(1) merge_kept(2) [OF d4 assms(2)] replace])
  have "keeps_settings d d'" if "attempt_all (map (\<lambda>x. (f x, restore_secret pl x)) xs) d = (es, d')" for f xs d es d'
    using that
  proof (induction xs arbitrary: d es)
    case (Cons x xs)
    obtain q d1 where x: "restore_secret pl x d = (q, d1)" by fastforce
    have "off_settings (restore_secret pl x)"
      by (cases "snapshot_value x") (simp_all add: restore_secret_def [abs_def] offs)
    then have "keeps_settings d d1" using x unfolding off_settings_def by (metis snd_conv)
    moreover obtain es' where "attempt_all (map (\<lambda>x. (f x, restore_secret pl x)) xs) d1 = (es', d')"
      using Cons.prems x by (cases q) (auto simp: attempt_all.simps(2) split: prod.splits)
    ultimately show ?case using Cons.IH by (fastforce simp: keeps_settings_def)
  qed (simp add: keeps_settings_def)
  from this [OF steps(6)] d5 show ?thesis by (auto simp: keeps_settings_def loads_as_def raw_settings_def)
qed

section \<open>A failed pull\<close>

text \<open>a pull that ends with an error, other than the error of the rollback itself, leaves the device
  as it was: every secret reads as before, and the proxies, the snippets, the keys, the sessions and the
  settings are the ones stored before (sessions possibly as the store writes them, settings as they are
  loaded).\<close>

theorem failed_pull_is_undone:
  assumes "inj (uuids pl)" "well_kept pl d" "payload_plain pl (payload_secrets p)" "plain_values pl (reads pl d)"
    and "apply_plaintext_payload pl p finalize (d, c) = (Inl e, (d', c'))" "\<And>f es. e \<noteq> RollbackFailed f es"
    and "document_of pl (memory_settings d) (settings_doc d)"
  shows "reads pl d' = reads pl d \<and> contents (proxies_doc d') = contents (proxies_doc d) \<and>
    contents (snippets_doc d') = contents (snippets_doc d) \<and> contents (keys_doc d') = contents (keys_doc d) \<and>
    (contents (sessions_doc d') = contents (sessions_doc d) \<or>
     contents (sessions_doc d') = map_option (map stored_session) (contents (sessions_doc d))) \<and>
    memory_settings d' = memory_settings d \<and> (settings_doc d' = settings_doc d \<or> loads_as pl d' (memory_settings d))"
proof (cases "capture pl p d")
  case (Pair r d1)
  show ?thesis
  proof (cases r)
    case (Inl f)
    then have "d' = d1" using assms(5) Pair by (simp add: apply_plaintext_payload_def on_fst_def map_err_def)
    moreover have one: "untouched d d1" using triple_err [OF capture_effect untouched_refl] Pair Inl by fastforce
    moreover have "settings_doc d1 = settings_doc d" using one same_filesD(5) [of d d1] by (simp add: untouched_def)
    ultimately show ?thesis using untouched_reads(1) [OF one, of pl] untouched_files [OF one] by simp
  next
    case (Inr s)
    have cap: "untouched d d1" "snapshot_of pl p d s"
      using triple_ok [OF capture_effect untouched_refl] Pair Inr by fastforce+
    let ?A = "set (secret_targets p (snapshot_sessions s) (snapshot_proxies s) (snapshot_keys s) (snapshot_settings s))"
    let ?R = "reads pl d"
    have start: "with_lists pl ?A ?R (snapshot_sessions s) (snapshot_proxies s) (snapshot_keys s) (snapshot_settings s) d1"
      using cap assms(2) untouched_reads [OF cap(1), of pl] untouched_files [OF cap(1)]
      by (simp add: only_touches_def holds_lists_def snapshot_of_def)
    obtain q d2 where changes: "apply_payload_changes pl p d1 = (q, d2)" by fastforce
    have touched: "only_touches pl ?A ?R d2"
      using triple_ok [OF apply_changes_stays [OF assms(1,3)] start] triple_err [OF apply_changes_stays [OF assms(1,3)] start]
        changes by (cases q) blast+
    obtain es where undo: "restore pl s d2 = (es, d')" "es = []"
      using assms(5,6) Pair Inr changes
      by (auto simp: apply_plaintext_payload_def on_fst_def on_snd_def map_err_def attempt_def
          split: sum.splits prod.splits list.splits)
    have "restored s d' \<and> reads pl d' = ?R \<and> well_kept pl d'"
      by (rule restore_effect [OF assms(1,4)]) (use cap(2) touched undo in \<open>auto simp: snapshot_of_def\<close>)
    moreover have "memory_settings d' = memory_settings d \<and> (settings_doc d' = settings_doc d \<or> loads_as pl d' (memory_settings d))"
    proof -
      have m: "snapshot_settings s = memory_settings d" using cap(2) by (simp add: snapshot_of_def)
      have "before_merge (memory_settings d) (settings_doc d) d1"
        using same_filesD(5,6) [of d d1] cap(1) by (simp add: before_merge_def untouched_def)
      then have "within_merge (memory_settings d) (settings_doc d) d2"
        using triple_ok [OF changes_within [OF assms(7)]] triple_err [OF changes_within [OF assms(7)]] changes by (cases q) blast+
      with restore_settings [of pl s "settings_doc d" d2 d'] assms(7) undo m show ?thesis by simp
    qed
    ultimately show ?thesis using cap(2) by (auto simp: restored_def snapshot_of_def)
  qed
qed

lemma sample_old: "reads sample_platform sample_before (''a'', Password) = Inr (Some ''old'')"
  using sample_runs(7) by (simp add: reads_def observe_def sample_before_def)

lemma sample_before_kept: "well_kept sample_platform sample_before" "plain_values sample_platform (reads sample_platform sample_before)"
  by (auto simp: well_kept_def generations_plain_def fresh_generation_def plain_values_def no_manifest_def reads_def
      observe_eq sample_before_def sample_platform_def)

lemma sample_settings_stable: "stable_settings sample_platform (default_settings sample_platform)"
  by code_simp

lemma sample_document:
  "document_of sample_platform (default_settings sample_platform) (Document (serialized_settings (default_settings sample_platform)))"
proof -
  have "\<not> managed_open_ssh_integration_enabled (default_settings sample_platform)"
    using sample_settings_stable by (simp add: stable_settings_def)
  then show ?thesis
    using sample_settings_stable by (auto simp: document_of_def serialized_loads sanitize_settings_stable)
qed

theorem failed_pull_is_undone_witness:
  "reads sample_platform (fst (snd (apply_plaintext_payload sample_platform sample_pull (ok ()) (sample_before, ()))))
     (''a'', Password) = Inr (Some ''old'')"
proof -
  obtain d' c' where run: "apply_plaintext_payload sample_platform sample_pull (ok ()) (sample_before, ()) =
      (Inl (InContext ''sync pull failed; local changes were rolled back'' (StoreFailed (WriteError KeysFile))), (d', c'))"
    using sample_pull_fails by (metis prod.collapse)
  have "reads sample_platform d' = reads sample_platform sample_before"
    using failed_pull_is_undone [OF _ sample_before_kept(1) _ sample_before_kept(2) run] sample_ids sample_document
    by (simp add: good_ids_def payload_plain_def sample_pull_def sample_plaintext_def sample_before_def sample_data_def)
  then show ?thesis using run sample_old by simp
qed

end
