(* ===== verification/Sync_Pull.thy ===== *)
theory Sync_Pull
  imports Sync_Rollback
begin

text \<open>
  A pull that succeeds stores the documents of the payload, merged with the sessions that only this
  device has: neither the secrets nor the settings, written between and after them, disturb the files.
\<close>

lemma same_lists_docs:
  "same_lists d d' \<Longrightarrow> sessions_doc d' = sessions_doc d \<and> proxies_doc d' = proxies_doc d \<and> snippets_doc d' = snippets_doc d
     \<and> keys_doc d' = keys_doc d"
  by (simp add: same_lists_def)

lemma same_lists_trans: "same_lists d e \<Longrightarrow> same_lists e f \<Longrightarrow> same_lists d f"
  by (simp add: same_lists_def)

lemma lists_stored:
  "triple (same_lists d0) (set_stored pl i k v) (\<lambda>_. same_lists d0) (\<lambda>_. same_lists d0)"
  "triple (same_lists d0) (delete_stored pl i k) (\<lambda>_. same_lists d0) (\<lambda>_. same_lists d0)"
  "triple (same_lists d0) (merged_settings pl y) (\<lambda>_. same_lists d0) (\<lambda>_. same_lists d0)"
  by (rule triple_same_lists; auto simp: same_lists_def set_stored_def delete_stored_def on_secrets_def merged_settings_def
      split: prod.splits sum.splits option.splits)+

lemma lists_write: "triple (same_lists d0) (write_secrets pl s) (\<lambda>_. same_lists d0) (\<lambda>_. same_lists d0)"
  unfolding write_secrets_def set_optional_def
  by (intro lists_attempt triple_each lists_stored) (auto split: option.split intro!: lists_stored lists_basic)

lemma lists_cleanup: "triple (same_lists d0) (cleanup_removed_secrets pl p ss ps ks is) (\<lambda>_. same_lists d0) (\<lambda>_. same_lists d0)"
  unfolding cleanup_removed_secrets_def Let_def delete_if_def
  by (intro lists_attempt triple_each) (auto intro!: lists_stored lists_basic)

lemma lists_run: "(\<And>d0. triple (same_lists d0) m (\<lambda>_. same_lists d0) (\<lambda>_. same_lists d0)) \<Longrightarrow> m d = (r, d') \<Longrightarrow> same_lists d d'"
  using triple_same [of "same_lists d" m d] by (simp add: same_lists_def)

section \<open>Sessions and settings of a pull\<close>

definition pulled_rule :: "SessionProfile list \<Rightarrow> string \<Rightarrow> PortForwardRule \<Rightarrow> PortForwardRule \<Rightarrow> bool" where
  \<comment> \<open>the rule of the payload, enabled if this device has it and has it enabled\<close>
  "pulled_rule old i r r' \<longleftrightarrow>
     (let mine = {x. \<exists>q \<in> set old. profile_id q = i \<and> x \<in> set (port_forwarding_rules q) \<and> rule_id x = rule_id r}
      in \<exists>b. r' = r\<lparr>rule_enabled := b\<rparr> \<and> (b \<longrightarrow> (\<exists>x \<in> mine. rule_enabled x)) \<and> (\<not> b \<longrightarrow> mine = {} \<or> (\<exists>x \<in> mine. \<not> rule_enabled x)))"

definition pulled_session :: "SessionProfile list \<Rightarrow> SessionProfile \<Rightarrow> SessionProfile \<Rightarrow> bool" where
  \<comment> \<open>the session of the payload as the store writes it, with the state that this device has of it\<close>
  "pulled_session old p q \<longleftrightarrow>
     (\<exists>t rs. q = stored_session (p\<lparr>last_connected_at := t, port_forwarding_rules := rs\<rparr>) \<and>
        ((\<exists>mine \<in> set old. profile_id mine = profile_id p \<and> last_connected_at mine = t) \<or>
         (\<forall>mine \<in> set old. profile_id mine \<noteq> profile_id p) \<and> t = None) \<and>
        list_all2 (pulled_rule old (profile_id p)) (port_forwarding_rules p) rs)"

lemma last_of: "map_of (rev (map (\<lambda>x. (f x, g x)) xs)) i = Some t \<Longrightarrow> \<exists>x \<in> set xs. f x = i \<and> g x = t"
  by (drule map_of_SomeD) auto

lemma last_of_none: "map_of (rev (map (\<lambda>x. (f x, g x)) xs)) i = None \<Longrightarrow> \<forall>x \<in> set xs. f x \<noteq> i"
  by (force simp: map_of_eq_None_iff)

lemma merged_rule:
  fixes old :: "SessionProfile list"
  defines "m \<equiv> map_of (rev (concat (map (\<lambda>p. map (\<lambda>r. ((profile_id p, rule_id r), rule_enabled r)) (port_forwarding_rules p)) old)))"
  shows "pulled_rule old i r (r\<lparr>rule_enabled := m (i, rule_id r) = Some True\<rparr>)"
proof (cases "m (i, rule_id r)")
  case None
  then have none: "(i, rule_id r) \<notin> fst ` set (concat (map (\<lambda>p. map (\<lambda>r. ((profile_id p, rule_id r), rule_enabled r))
      (port_forwarding_rules p)) old))"
    by (simp only: m_def map_of_eq_None_iff set_rev not_False_eq_True)
  have "rule_id x \<noteq> rule_id r" if "q \<in> set old" "profile_id q = i" "x \<in> set (port_forwarding_rules q)" for q x
  proof
    assume "rule_id x = rule_id r"
    with that have "((i, rule_id r), rule_enabled x) \<in> set (concat (map (\<lambda>p. map (\<lambda>r. ((profile_id p, rule_id r), rule_enabled r))
        (port_forwarding_rules p)) old))"
      by (simp, intro bexI [of _ q]) (auto intro: rev_image_eqI [of x])
    then have "(i, rule_id r) \<in> fst ` set (concat (map (\<lambda>p. map (\<lambda>r. ((profile_id p, rule_id r), rule_enabled r))
        (port_forwarding_rules p)) old))" by (rule rev_image_eqI) simp
    with none show False ..
  qed
  with None show ?thesis by (auto simp: pulled_rule_def)
next
  case (Some b)
  then have "\<exists>q \<in> set old. profile_id q = i \<and> (\<exists>x \<in> set (port_forwarding_rules q). rule_id x = rule_id r \<and> rule_enabled x = b)"
    unfolding m_def by (drule_tac map_of_SomeD) (auto; blast)
  with Some show ?thesis by (cases b) (auto simp: pulled_rule_def)
qed

lemma merged_sessions:
  "list_all2 (pulled_session old) (filter (\<lambda>p. P (profile_id p)) incoming)
     (map stored_session (filter (\<lambda>p. P (profile_id p)) (merge_local_session_state incoming old)))"
proof (induction incoming)
  case (Cons p ps)
  define t where "t = (case map_of (rev (map (\<lambda>p. (profile_id p, last_connected_at p)) old)) (profile_id p) of None \<Rightarrow> None | Some t \<Rightarrow> t)"
  define m where "m = map_of (rev (concat (map (\<lambda>p. map (\<lambda>r. ((profile_id p, rule_id r), rule_enabled r)) (port_forwarding_rules p)) old)))"
  define rs where "rs = map (\<lambda>r. r\<lparr>rule_enabled := m (profile_id p, rule_id r) = Some True\<rparr>) (port_forwarding_rules p)"
  have "merge_local_session_state (p # ps) old =
      p\<lparr>last_connected_at := t, port_forwarding_rules := rs\<rparr> # merge_local_session_state ps old"
    by (simp add: merge_local_session_state_def clear_session_local_state_def Let_def t_def m_def rs_def)
  moreover have "list_all2 (pulled_rule old (profile_id p)) (port_forwarding_rules p) rs"
    unfolding rs_def m_def by (simp add: list_all2_conv_all_nth merged_rule)
  moreover have "(\<exists>mine \<in> set old. profile_id mine = profile_id p \<and> last_connected_at mine = t) \<or>
      (\<forall>mine \<in> set old. profile_id mine \<noteq> profile_id p) \<and> t = None"
    using last_of [of profile_id last_connected_at old "profile_id p"] last_of_none [of profile_id last_connected_at old "profile_id p"]
    by (auto simp: t_def split: option.split)
  ultimately show ?case using Cons by (auto simp: pulled_session_def)
qed (simp add: merge_local_session_state_def clear_session_local_state_def Let_def)

definition settled_synced :: "SyncedSettings \<Rightarrow> bool" where
  \<comment> \<open>synchronised settings within their limits, as every device uploads them\<close>
  "settled_synced y \<longleftrightarrow> stable_providers (synced_ai_providers y) \<and>
     sanitize_web_search (synced_web_search y) = synced_web_search y \<and>
     clamp (synced_recent_connections_count y) RECENT_CONNECTIONS_COUNT_MIN RECENT_CONNECTIONS_COUNT_MAX =
       synced_recent_connections_count y \<and>
     sanitize_sftp_browser_hidden_columns (synced_local_hidden_columns y) = synced_local_hidden_columns y \<and>
     sanitize_sftp_browser_hidden_columns (synced_remote_hidden_columns y) = synced_remote_hidden_columns y"

lemma synced_after:
  assumes "apply_synced_settings pl s y k = Some (m, k')" "sanitize_settings pl m j = Some (m', j')" "settled_synced y"
  shows "synced_settings (preserve_newer_bridge_policy m' l) = y"
  using assms
  by (cases y) (auto simp: apply_synced_settings_def sanitize_settings_def settled_synced_def synced_settings_def sanitize_stable
      preserve_newer_bridge_policy_def Let_def)

lemma merged_settings_effect:
  assumes "merged_settings pl y d = (Inr x, d1)" "replace_settings pl x d1 = (Inr b, d2)"
  shows "(settled_synced y \<longrightarrow> synced_settings (memory_settings d2) = y) \<and>
    (settings_doc d2 = Document (serialized_settings (memory_settings d2)) \<or>
     settings_doc d2 = settings_doc d \<and>
       (\<exists>l. (loads_as pl d l \<or> settings_doc d = NoDocument \<and> l = memory_settings d) \<and> \<not> settings_changed l (memory_settings d2)))"
proof -
  obtain k k' where x: "apply_synced_settings pl (memory_settings d) y k = Some (x, k')" and d1: "keeps_settings d d1"
    using assms(1) by (auto simp: merged_settings_def keeps_settings_def split: option.splits)
  from assms(2) show ?thesis
  proof (cases rule: replace_run)
    case (2 l x' j j' d3)
    from commit_effect(2) [OF 2(4) refl] have over: "memory_settings d2 = preserve_newer_bridge_policy x' l"
      "settings_doc d2 = (if settings_changed l (memory_settings d2) then Document (serialized_settings (memory_settings d2)) else settings_doc d3)"
      by auto
    have kept: "settings_doc d3 = settings_doc d" using 2(1) d1 by (simp add: keeps_settings_def)
    have "loads_as pl d l \<or> settings_doc d = NoDocument \<and> l = memory_settings d"
      using 2(2) d1 by (auto simp: keeps_settings_def loads_as_def raw_settings_def)
    with over(2) kept have "settings_doc d2 = Document (serialized_settings (memory_settings d2)) \<or>
        settings_doc d2 = settings_doc d \<and>
          (\<exists>l. (loads_as pl d l \<or> settings_doc d = NoDocument \<and> l = memory_settings d) \<and> \<not> settings_changed l (memory_settings d2))"
      by (cases "settings_changed l (memory_settings d2)") auto
    with over(1) synced_after [OF x 2(3)] show ?thesis by simp
  qed blast
qed

text \<open>C12: after a pull that succeeds, the proxies, the snippets and the keys are those of the payload. The sessions
  are those of the payload, as the store writes them, except for the sessions that are local terminals here; each
  with the time of the last connection and the enabled forwarding rules that this device has of a session
  with its identifier (no time and no rule enabled if it has none); the local terminals of this device
  follow. The synchronised part of the settings in force is that of the payload (if it is within its limits), and
  the settings file holds them, or is unchanged because it loads as settings that do not differ.\<close>

theorem successful_pull_stores_the_payload:
  assumes "apply_plaintext_payload pl p finalize (d, c) = (Inr (), (d', c'))"
  shows "\<exists>old kept. contents (sessions_doc d) = Some old \<and>
    contents (sessions_doc d') = Some (kept @ map stored_session (filter is_local old)) \<and>
    list_all2 (pulled_session old) (filter (\<lambda>q. \<forall>mine \<in> set old. is_local mine \<longrightarrow> profile_id mine \<noteq> profile_id q) (sessions p)) kept \<and>
    contents (proxies_doc d') = Some (proxies p) \<and> contents (snippets_doc d') = Some (snippets p) \<and>
    contents (keys_doc d') = Some (managed_keys p) \<and>
    (settled_synced (settings p) \<longrightarrow> synced_settings (memory_settings d') = settings p) \<and>
    (settings_doc d' = Document (serialized_settings (memory_settings d')) \<or>
     settings_doc d' = settings_doc d \<and>
       (\<exists>l. (loads_as pl d l \<or> settings_doc d = NoDocument \<and> l = memory_settings d) \<and> \<not> settings_changed l (memory_settings d')))"
proof -
  obtain s d1 where cap: "capture pl p d = (Inr s, d1)"
    using assms by (auto simp: apply_plaintext_payload_def on_fst_def map_err_def split: prod.splits sum.splits)
  then have d1: "untouched d d1" using triple_ok [OF capture_effect untouched_refl] by fastforce
  have run: "apply_payload_changes pl p d1 = (Inr (), d')"
    using assms cap
    by (auto simp: apply_plaintext_payload_def on_fst_def on_snd_def map_err_def attempt_def split: prod.splits sum.splits list.splits)
  obtain old d2 op d3 ok' d4 d5 d6 d7 d8 d9 d10 d11 st where
    steps: "load_sessions d1 = (Inr old, d2)" "load_proxies_content d2 = (Inr op, d3)" "load_keys d3 = (Inr ok', d4)"
      "write_secrets pl (payload_secrets p) d4 = (Inr (), d5)" "save_proxies (proxies p) d5 = (Inr (), d6)"
      "save_sessions (merge_local_only_sessions (merge_local_session_state (sessions p) old) old) d6 = (Inr (), d7)"
      "save_snippets (snippets p) d7 = (Inr (), d8)" "save_keys (managed_keys p) d8 = (Inr (), d9)"
      "merged_settings pl (settings p) d9 = (Inr st, d10)" "\<exists>u. replace_settings pl st d10 = (Inr u, d11)"
      "\<exists>is. cleanup_removed_secrets pl p old op ok' is d11 = (Inr (), d')"
  proof -
    show thesis
      using run unfolding apply_payload_changes_def
      by (clarsimp simp: attempt_eq_Inr lift_sum_def get_io_def ok_def split: sum.splits)
        (rule that, (assumption | (rule exI, assumption))+)
  qed
  have loads: "same_lists d d4" "contents (sessions_doc d) = Some old"
    using d1 load_effect(1) [OF steps(1)] load_effect(2) [OF steps(2)] load_effect(4) [OF steps(3)] untouched_files
    by (auto simp: same_lists_def)
  have "same_lists d4 d5" by (rule lists_run [OF lists_write steps(4)])
  moreover have "same_lists d9 d10" by (rule lists_run [OF lists_stored(3) steps(9)])
  moreover have "same_lists d10 d11" "same_lists d11 d'"
    using steps(10,11) lists_run [OF lists_replace] lists_run [OF lists_cleanup] by blast+
  ultimately have docs: "contents (sessions_doc d) = Some old"
      "contents (sessions_doc d') = Some (map stored_session (merge_local_only_sessions (merge_local_session_state (sessions p) old) old))"
      "contents (proxies_doc d') = Some (proxies p)" "contents (snippets_doc d') = Some (snippets p)"
      "contents (keys_doc d') = Some (managed_keys p)"
    using loads save_effect(2) [OF steps(5)] save_effect(1) [OF steps(6)] save_effect(3) [OF steps(7)] save_effect(4) [OF steps(8)]
    by (auto simp: same_lists_def)
  let ?P = "\<lambda>i. \<forall>mine \<in> set old. is_local mine \<longrightarrow> profile_id mine \<noteq> i"
  have same: "filter (\<lambda>q. profile_id q \<notin> set (map profile_id (filter is_local old))) xs = filter (\<lambda>q. ?P (profile_id q)) xs" for xs
    by (rule filter_cong) (simp, force)
  have sessions: "contents (sessions_doc d') = Some (map stored_session (filter (\<lambda>q. ?P (profile_id q)) (merge_local_session_state (sessions p) old))
      @ map stored_session (filter is_local old))"
    using docs(2) unfolding merge_local_only_sessions_def Let_def same map_append .
  have before: "keeps_settings d d9"
  proof -
    have "keeps_settings d d1" using d1 same_filesD(5,6) by (simp add: keeps_settings_def untouched_def)
    moreover have "keeps_settings d1 d2" "keeps_settings d2 d3" "keeps_settings d3 d4" "keeps_settings d4 d5" "keeps_settings d5 d6"
      "keeps_settings d6 d7" "keeps_settings d7 d8" "keeps_settings d8 d9"
      using steps(1-8) off_loads off_write off_saves unfolding off_settings_def by (metis snd_conv)+
    ultimately show ?thesis by (simp add: keeps_settings_def)
  qed
  obtain u where u: "replace_settings pl st d10 = (Inr u, d11)" using steps(10) by blast
  have after: "keeps_settings d11 d'" using steps(11) off_cleanup unfolding off_settings_def by (metis snd_conv)
  have "(settled_synced (settings p) \<longrightarrow> synced_settings (memory_settings d') = settings p) \<and>
    (settings_doc d' = Document (serialized_settings (memory_settings d')) \<or>
     settings_doc d' = settings_doc d \<and>
       (\<exists>l. (loads_as pl d l \<or> settings_doc d = NoDocument \<and> l = memory_settings d) \<and> \<not> settings_changed l (memory_settings d')))"
    using merged_settings_effect [OF steps(9) u] before after by (simp add: keeps_settings_def loads_as_def raw_settings_def)
  with docs sessions merged_sessions [of old ?P "sessions p"] show ?thesis by blast
qed

theorem successful_pull_stores_the_payload_witness:
  "\<exists>old kept. contents (sessions_doc sample_clean) = Some old \<and>
    contents (sessions_doc (fst (snd (apply_plaintext_payload sample_platform sample_pull (ok ()) (sample_clean, ()))))) =
      Some (kept @ map stored_session (filter is_local old)) \<and>
    list_all2 (pulled_session old) (filter (\<lambda>q. \<forall>mine \<in> set old. is_local mine \<longrightarrow> profile_id mine \<noteq> profile_id q) (sessions sample_pull)) kept"
proof -
  obtain d' c' where run: "apply_plaintext_payload sample_platform sample_pull (ok ()) (sample_clean, ()) = (Inr (), (d', c'))"
    using sample_runs(2) by (metis prod.collapse)
  show ?thesis using successful_pull_stores_the_payload [OF run] run by auto
qed

end
