(* ===== verification/Sync_Engine_Pull.thy ===== *)
theory Sync_Engine_Pull
  imports Sync_Engine_Properties Sync_Pull
begin

text \<open>
  Pulls: what the engine checks before it applies a remote payload, and that a pull which does not
  report that it pulled leaves the documents and the secrets of the device as they were.
\<close>

section \<open>Operations that leave the local data alone\<close>

definition undisturbed :: "local_data \<Rightarrow> local_data \<Rightarrow> bool" where
  "undisturbed d d' \<longleftrightarrow> same_lists d d' \<and> settings_doc d' = settings_doc d \<and>
     entries (secrets d') = entries (secrets d) \<and> next_uuid d \<le> next_uuid d'"

lemma undisturbed_refl [simp]: "undisturbed d d"
  by (simp add: undisturbed_def same_lists_def)

lemma undisturbed_trans: "undisturbed d e \<Longrightarrow> undisturbed e f \<Longrightarrow> undisturbed d f"
  by (simp add: undisturbed_def same_lists_def)

lemma undisturbed_reads:
  "undisturbed d d' \<Longrightarrow> reads pl d' = reads pl d" "undisturbed d d' \<Longrightarrow> well_kept pl d \<Longrightarrow> well_kept pl d'"
  by (auto simp: undisturbed_def reads_def [abs_def] well_kept_def)

definition gentle :: "'a local_io \<Rightarrow> bool" where
  "gentle m \<longleftrightarrow> (\<forall>d. undisturbed d (snd (m d)))"

named_theorems gentles \<open>operations that leave the local data alone\<close>

lemma gentle_attempt [gentles]: "gentle m \<Longrightarrow> (\<And>a. gentle (f a)) \<Longrightarrow> gentle (attempt m f)"
  unfolding gentle_def attempt_def by (auto split: prod.split sum.split) (metis snd_conv undisturbed_trans)+

lemma gentle_basic [gentles]: "gentle (ok a)" "gentle (fail err)" "gentle (get_io g)" "gentle (lift_sum r)"
  by (simp_all add: gentle_def lift_sum_def ok_def fail_def get_io_def split: sum.split)

lemma gentle_frames:
  assumes "\<And>d0. triple (keeps_secrets d0) m (\<lambda>_. keeps_secrets d0) (\<lambda>_. keeps_secrets d0)"
    and "\<And>d0. triple (same_lists d0) m (\<lambda>_. same_lists d0) (\<lambda>_. same_lists d0)" and "off_settings m"
  shows "gentle m"
  unfolding gentle_def
proof
  fix d
  have "keeps_secrets d (snd (m d))" "same_lists d (snd (m d))"
    by (rule triple_same [OF assms(1)], simp add: keeps_secrets_def) (rule triple_same [OF assms(2)], simp add: same_lists_def)
  with assms(3) show "undisturbed d (snd (m d))" by (simp add: undisturbed_def keeps_secrets_def off_settings_def keeps_settings_def)
qed

lemma gentle_untouched: "(\<And>d r d'. m d = (r, d') \<Longrightarrow> untouched d d') \<Longrightarrow> gentle m"
proof -
  assume all: "\<And>d r d'. m d = (r, d') \<Longrightarrow> untouched d d'"
  have "untouched d (snd (m d))" for d by (rule all [of d "fst (m d)"]) simp
  then show "gentle m"
    using untouched_files same_filesD(5) by (simp add: gentle_def undisturbed_def same_lists_def untouched_def)
qed

lemma gentle_loads [gentles]: "gentle load_sessions" "gentle load_proxies_content" "gentle load_snippets" "gentle load_keys"
  using load_effect by (blast intro: gentle_untouched)+

lemma gentle_get_stored [gentles]: "gentle (get_stored pl i k)"
  by (rule gentle_untouched) (use get_stored_effect in \<open>auto simp: untouched_def\<close>)

lemma gentle_collect [gentles]: "(\<And>x. gentle (f x)) \<Longrightarrow> gentle (collect f xs)"
  by (induction xs) (auto intro: gentles)

lemma gentle_refresh: "gentle (refresh_password pl p)"
proof (rule gentle_untouched)
  fix d r d' assume run: "refresh_password pl p d = (r, d')"
  obtain s c where c: "secret_get (is_uuid pl) (proxy_id p) ProxyPassword (secrets d) = (s, c)" by fastforce
  have "entries c = entries (secrets d)"
    using triple_ok [OF secret_get_triple refl] triple_err [OF secret_get_triple refl] c by (cases s) blast+
  then show "untouched d d'" using run c by (auto simp: refresh_password_def untouched_def split: sum.splits if_splits)
qed

lemma gentle_proxies [gentles]: "gentle (load_proxies pl)"
  unfolding load_proxies_def by (intro gentles gentle_refresh)

lemma lists_load_settings: "triple (same_lists d0) (load_settings_document_unlocked pl) (\<lambda>_. same_lists d0) (\<lambda>_. same_lists d0)"
proof -
  have read: "triple (same_lists d0) (read_settings_file pl) (\<lambda>_. same_lists d0) (\<lambda>_. same_lists d0)"
    unfolding read_settings_file_def by (intro lists_attempt lists_basic) (auto split: document.split intro!: lists_basic)
  show ?thesis
    unfolding load_settings_document_unlocked_def
    by (intro lists_attempt lists_basic) (auto intro!: lists_attempt lists_basic read)
qed

lemma gentle_current [gentles]: "gentle (read_current pl)"
proof -
  have "triple (keeps_secrets d0) (read_current pl) (\<lambda>_. keeps_secrets d0) (\<lambda>_. keeps_secrets d0)" for d0
    unfolding read_current_def by (intro frames)
  moreover have "triple (same_lists d0) (read_current pl) (\<lambda>_. same_lists d0) (\<lambda>_. same_lists d0)" for d0
    unfolding read_current_def by (intro lists_attempt lists_basic lists_load_settings)
  moreover have "off_settings (read_current pl)"
    unfolding read_current_def by (intro offs)
  ultimately show ?thesis by (rule gentle_frames)
qed

lemma gentle_reload [gentles]: "gentle (reload_from_disk pl)"
  unfolding reload_from_disk_def
  by (intro gentles) (simp add: gentle_def undisturbed_def same_lists_def)

lemma gentle_draws [gentles]: "gentle (normalize_io pl y)" "gentle (normalize_remote_io pl p)"
  by (auto simp: gentle_def normalize_io_def normalize_remote_io_def normalize_remote_payload_def undisturbed_def same_lists_def
      split: option.split option.splits dest: draws_mono(3))

lemma gentle_secrets [gentles]: "gentle (collect_secrets pl ss ps ks y)"
  unfolding collect_secrets_def profile_secret_of_def key_secret_of_def provider_secret_of_def proxy_secret_of_def
  by (intro gentles) (auto intro!: gentles split: option.split)

lemma gentle_build [gentles]: "gentle (build_plaintext_payload pl ss ps sn ks y)"
  unfolding build_plaintext_payload_def Let_def by (intro gentles)

lemma gentle_read_local [gentles]: "gentle (read_local pl)"
  unfolding read_local_def by (intro gentles)

section \<open>The engine up to the application\<close>

definition calm :: "'srv world \<Rightarrow> bool" where
  \<comment> \<open>other tasks leave the local data alone\<close>
  "calm w \<longleftrightarrow> (\<forall>f \<in> set (others w). \<forall>x. snd (f x) = snd x)"

definition leaves :: "('srv, 'a) sync \<Rightarrow> bool" where
  "leaves m \<longleftrightarrow> (\<forall>w. calm w \<longrightarrow> calm (snd (m w)) \<and> undisturbed (local_stores w) (local_stores (snd (m w))))"

named_theorems leaving \<open>steps of the engine that leave the local data alone\<close>

lemma leaves_attempt [leaving]: "leaves m \<Longrightarrow> (\<And>a. leaves (f a)) \<Longrightarrow> leaves (attempt m f)"
  unfolding leaves_def attempt_def by (auto split: prod.split sum.split) (metis snd_conv undisturbed_trans)+

lemma leaves_basic [leaving]:
  "leaves (ok a)" "leaves (fail err)" "leaves (get_io g)" "leaves (lift_sum r)" "leaves (raise_sync msg)"
  "leaves (anyhow_result s)" "leaves (capability_error report)" "leaves (ensure b msg)" "leaves current_config"
  "leaves reload_config" "leaves (update_config n h)" "leaves (on_accounts k)"
  by (simp_all add: leaves_def calm_def ok_def fail_def get_io_def lift_sum_def raise_sync_def anyhow_result_def capability_error_def
      ensure_def current_config_def reload_config_def update_config_def on_accounts_def split: sum.split prod.split)

lemma leaves_local [leaving]: "gentle m \<Longrightarrow> leaves (on_local m)"
  by (simp add: leaves_def gentle_def on_local_def calm_def split_def)

lemma leaves_tried [leaving]: "leaves m \<Longrightarrow> leaves (tried m)"
  by (simp add: leaves_def tried_def split_def)

lemma leaves_exchange [leaving]: "leaves (exchange e rq)"
  unfolding leaves_def
proof (intro allI impI)
  fix w :: "'a world" assume calm: "calm w"
  obtain response srv where "serve e (remote_server w) rq = (response, srv)" by fastforce
  then show "calm (snd (exchange e rq w)) \<and> undisturbed (local_stores w) (local_stores (snd (exchange e rq w)))"
    using calm by (cases "others w") (simp_all add: exchange_def calm_def split_def)
qed

lemma leaves_send [leaving]: "leaves (send_request e rq what)"
  unfolding send_request_def by (intro leaving) (auto split: option.split intro!: leaving)

lemma leaves_webdav_pull [leaving]: "leaves (webdav_pull_checked e d tag automatic)"
  unfolding webdav_pull_checked_def status_error_def by (intro leaving) (auto split: option.split intro!: leaving)

lemma leaves_gist_pull [leaving]: "leaves (gist_pull e d tag)"
  unfolding gist_pull_def status_error_def by (auto split: option.split intro!: leaving)

lemma leaves_pull [leaving]: "leaves (backend_pull_checked e b tag automatic)"
  unfolding backend_pull_checked_def webdav_pull_def
  by (cases b) (auto split: prod.split intro!: leaving)

lemma leaves_build [leaving]: "leaves (build_backend e)"
  unfolding build_backend_def configured_def
  by (intro leaving) (auto split: SyncProvider.split option.split intro!: leaving)

lemma leaves_passphrase [leaving]: "leaves sync_passphrase"
  unfolding sync_passphrase_def by (intro leaving) (auto split: option.split intro: leaving)

lemma leaves_revision [leaving]: "leaves (local_revision e)"
  unfolding local_revision_def local_snapshot_def by (intro leaving gentles)

lemma leaves_decrypt [leaving]: "leaves (decrypt_normalized_remote_payload e p pass)"
  unfolding decrypt_normalized_remote_payload_def by (intro leaving gentles)

lemma leaves_recognise [leaving]: "leaves (recognise_payload e n body tag)"
  unfolding recognise_payload_def by (intro leaving) (auto intro!: leaving)

lemma leaves_remote [leaving]: "leaves (remote_payload_state e conditional automatic)"
  unfolding remote_payload_state_def Let_def backend_pull_def
  by (intro leaving) (auto split: option.split PullOutcome.split intro!: leaving)

lemma leaves_acknowledge [leaving]: "leaves (acknowledge_remote_payload n p tag i)"
  unfolding acknowledge_remote_payload_def by (intro leaving) (auto intro!: leaving)

section \<open>The application\<close>

definition same_content :: "platform \<Rightarrow> local_data \<Rightarrow> local_data \<Rightarrow> bool" where
  \<comment> \<open>every secret reads the same, and the documents have the same contents: the sessions possibly as the store
     writes them, the settings as they are loaded\<close>
  "same_content pl d d' \<longleftrightarrow> reads pl d' = reads pl d \<and> contents (proxies_doc d') = contents (proxies_doc d) \<and>
    contents (snippets_doc d') = contents (snippets_doc d) \<and> contents (keys_doc d') = contents (keys_doc d) \<and>
    (contents (sessions_doc d') = contents (sessions_doc d) \<or>
     contents (sessions_doc d') = map_option (map stored_session) (contents (sessions_doc d))) \<and>
    (settings_doc d' = settings_doc d \<or> (\<exists>s. loads_as pl d s \<and> loads_as pl d' s))"

lemma undisturbed_same: "undisturbed d d' \<Longrightarrow> same_content pl d d'"
  using undisturbed_reads(1) [of d d' pl] by (simp add: same_content_def undisturbed_def same_lists_def)

lemma undisturbed_loads: "undisturbed d d' \<Longrightarrow> loads_as pl d' = loads_as pl d"
  by (simp add: undisturbed_def loads_as_def [abs_def] raw_settings_def)

lemma same_content_after: "undisturbed d e \<Longrightarrow> same_content pl e f \<Longrightarrow> same_content pl d f"
  using undisturbed_reads(1) [of d e pl] undisturbed_loads [of d e pl]
  by (simp add: same_content_def undisturbed_def same_lists_def)

definition plain_device :: "platform \<Rightarrow> local_data \<Rightarrow> bool" where
  \<comment> \<open>identifiers are not drawn twice, no secret is the text of a manifest, the settings are the same each time
     they are loaded\<close>
  "plain_device pl d \<longleftrightarrow> inj (uuids pl) \<and> well_kept pl d \<and> plain_values pl (reads pl d) \<and>
     (\<exists>s. document_of pl s (settings_doc d))"

lemma plain_device_undisturbed: "plain_device pl d \<Longrightarrow> undisturbed d d' \<Longrightarrow> plain_device pl d'"
  using undisturbed_reads [of d d' pl] by (simp add: plain_device_def undisturbed_def)

fun failed_rollback :: "sync_error \<Rightarrow> bool" where
  "failed_rollback (RollbackFailed _ _) = True"
| "failed_rollback _ = False"

definition unfinished :: "sync_error + SyncStatus \<Rightarrow> bool" where
  "unfinished r \<longleftrightarrow> (case r of Inl err \<Rightarrow> \<not> failed_rollback err | Inr status \<Rightarrow> \<forall>at. status \<noteq> Pulled at)"

lemma reload_loads: "reload_from_disk pl d = (Inr u, d') \<Longrightarrow> loads_as pl d' (memory_settings d')"
  by (auto simp: reload_from_disk_def read_current_def attempt_eq_Inr loads_as_def raw_settings_def keeps_settings_def
      dest!: load_reads split: if_splits)

lemma apply_pulled_unfinished:
  assumes "plain_device (env_platform e) (local_stores w)" "payload_plain (env_platform e) (payload_secrets plaintext)"
    and "calm w" "apply_pulled e start plaintext p tag remote w = (r, w')" "unfinished r"
  shows "same_content (env_platform e) (local_stores w) (local_stores w')"
proof -
  let ?pl = "env_platform e"
  obtain s w1 where w1: "on_local (reload_from_disk ?pl) w = (s, w1)" by fastforce
  have one: "undisturbed (local_stores w) (local_stores w1)"
    using leaves_local [OF gentle_reload, of ?pl] w1 assms(3) by (fastforce simp: leaves_def)
  show ?thesis
  proof (cases s)
    case (Inl err)
    then have "w' = w1" using assms(4) w1 by (simp add: apply_pulled_def attempt_def)
    then show ?thesis using undisturbed_same [OF one] by simp
  next
    case (Inr u)
    obtain q w2 where w2: "apply_remote e start plaintext p tag remote w1 = (q, w2)" by fastforce
    obtain d st disk where app: "apply_plaintext_payload ?pl plaintext (finalize_pull start p tag remote)
        (local_stores w1, (config_store w1, sync_disk w1)) = (q, (d, (st, disk)))" "local_stores w2 = d"
      using w2 by (auto simp: apply_remote_def split: prod.splits)
    obtain err where err: "q = Inl err" "local_stores w' = d" "\<not> failed_rollback err"
    proof (cases q)
      case (Inl err)
      have "local_stores w' = d" using assms(4) w1 w2 Inr Inl app(2)
        by (auto simp: apply_pulled_def attempt_def tried_def reload_config_def ok_def fail_def split: if_splits)
      moreover have "\<not> failed_rollback err" using assms(4,5) w1 w2 Inr Inl
        by (cases err) (auto simp: apply_pulled_def attempt_def tried_def reload_config_def ok_def fail_def unfinished_def split: if_splits)
      ultimately show ?thesis using that Inl by blast
    next
      case (Inr u)
      then show ?thesis using assms(4,5) w1 w2 \<open>s = Inr _\<close>
        by (auto simp: apply_pulled_def attempt_def tried_def unfinished_def ok_def)
    qed
    have plain: "plain_device ?pl (local_stores w1)" by (rule plain_device_undisturbed [OF assms(1) one])
    obtain x where x: "document_of ?pl x (settings_doc (local_stores w1))" using plain by (auto simp: plain_device_def)
    have loaded: "loads_as ?pl (local_stores w1) (memory_settings (local_stores w1))"
    proof (cases "reload_from_disk ?pl (local_stores w)")
      case (Pair a l)
      with w1 Inr reload_loads [of ?pl "local_stores w"] show ?thesis by (cases a) (auto simp: on_local_def)
    qed
    from x loaded have "document_of ?pl (memory_settings (local_stores w1)) (settings_doc (local_stores w1))"
      by (auto simp: document_of_def)
    moreover have "\<And>f es. err \<noteq> RollbackFailed f es" using err(3) by auto
    ultimately have "reads ?pl d = reads ?pl (local_stores w1) \<and> contents (proxies_doc d) = contents (proxies_doc (local_stores w1)) \<and>
        contents (snippets_doc d) = contents (snippets_doc (local_stores w1)) \<and> contents (keys_doc d) = contents (keys_doc (local_stores w1)) \<and>
        (contents (sessions_doc d) = contents (sessions_doc (local_stores w1)) \<or>
         contents (sessions_doc d) = map_option (map stored_session) (contents (sessions_doc (local_stores w1)))) \<and>
        memory_settings d = memory_settings (local_stores w1) \<and>
        (settings_doc d = settings_doc (local_stores w1) \<or> loads_as ?pl d (memory_settings (local_stores w1)))"
      using failed_pull_is_undone [OF _ _ assms(2) _ app(1) [unfolded err(1)]] plain by (auto simp: plain_device_def)
    then
    have "same_content ?pl (local_stores w1) d" using loaded by (auto simp: same_content_def)
    then show ?thesis using same_content_after [OF one] err(2) by simp
  qed
qed

definition safe_end :: "platform \<Rightarrow> local_data \<Rightarrow> (sync_error + SyncStatus) \<times> 'srv world \<Rightarrow> bool" where
  "safe_end pl d x \<longleftrightarrow> (unfinished (fst x) \<longrightarrow> same_content pl d (local_stores (snd x)))"

lemma safe_leaves: "leaves m \<Longrightarrow> calm w \<Longrightarrow> undisturbed d (local_stores w) \<Longrightarrow> safe_end pl d (m w)"
  using undisturbed_same undisturbed_trans by (fastforce simp: leaves_def safe_end_def)

lemma safe_ok: "undisturbed d (local_stores w) \<Longrightarrow> safe_end pl d (Inr s, w)"
  using undisturbed_same by (simp add: safe_end_def)

lemma safe_attempt:
  assumes "leaves m" "calm w" "undisturbed d (local_stores w)"
    and "\<And>a w1. m w = (Inr a, w1) \<Longrightarrow> calm w1 \<Longrightarrow> undisturbed d (local_stores w1) \<Longrightarrow> safe_end pl d (f a w1)"
  shows "safe_end pl d (attempt m f w)"
proof -
  obtain r w1 where m: "m w = (r, w1)" by fastforce
  have w1: "calm w1" "undisturbed d (local_stores w1)"
    using assms(1-3) m undisturbed_trans by (fastforce simp: leaves_def)+
  show ?thesis
  proof (cases r)
    case (Inl err)
    then show ?thesis using m undisturbed_same [OF w1(2)] by (simp add: attempt_def safe_end_def)
  next
    case (Inr a)
    then show ?thesis using m assms(4) w1 by (simp add: attempt_def)
  qed
qed

definition plain_payloads :: "'srv env \<Rightarrow> bool" where
  \<comment> \<open>no private key in a payload is the text of a manifest\<close>
  "plain_payloads e \<longleftrightarrow> (\<forall>p pass x. decrypt_payload (env_codec e) p pass = Inr x \<longrightarrow>
     payload_plain (env_platform e) (payload_secrets x))"

lemma map_sum_Inr: "map_sum f id r = Inr a \<longleftrightarrow> r = Inr a"
  by (cases r) auto

lemma decrypt_plain:
  assumes "plain_payloads e"
    and "decrypt_normalized_remote_payload e p pass w = (Inr (plaintext, remote), w')"
  shows "payload_plain (env_platform e) (payload_secrets plaintext)"
  using assms
  by (auto simp: map_sum_Inr plain_payloads_def decrypt_normalized_remote_payload_def attempt_eq_Inr anyhow_result_def lift_sum_def on_local_def ok_def
      normalize_remote_io_def normalize_remote_payload_def split: prod.splits option.splits sum.splits)

lemma settle_safe:
  fixes e :: "'srv env"
  assumes "plain_device (env_platform e) d" "calm w" "undisturbed d (local_stores w)"
    and "plain_payloads e"
  shows "safe_end (env_platform e) d (settle_pull e expected force observed start p tag w)"
  unfolding settle_pull_def
proof (rule safe_attempt [OF leaves_passphrase assms(2,3)], rule safe_attempt [OF leaves_decrypt], assumption, assumption)
  fix pass x and w1 w2 :: "'srv world"
  assume decrypt: "decrypt_normalized_remote_payload e p pass w1 = (Inr x, w2)" and w2: "calm w2" "undisturbed d (local_stores w2)"
  obtain plaintext remote where x: "x = (plaintext, remote)" by fastforce
  have plain: "payload_plain (env_platform e) (payload_secrets plaintext)"
    using decrypt_plain [OF assms(4)] decrypt x by blast
  show "safe_end (env_platform e) d ((case x of (plaintext, remote) \<Rightarrow> attempt (local_revision e) (\<lambda>current.
       if current \<noteq> observed then ok (PullRequired (Some (synced_at p)) LocalChangedDuringPull)
       else if current = remote then acknowledge_remote_payload start p tag current
       else attempt current_config (\<lambda>c.
           case pull_objection expected force current remote (last_synced_local_revision c) of
             Some why \<Rightarrow> ok (PullRequired (Some (synced_at p)) why)
           | None \<Rightarrow> apply_pulled e start plaintext p tag remote))) w2)"
    unfolding x prod.case
  proof (rule safe_attempt [OF leaves_revision w2])
    fix current and w3 :: "'srv world" assume w3: "calm w3" "undisturbed d (local_stores w3)"
    have applied: "safe_end (env_platform e) d (apply_pulled e start plaintext p tag remote w4)"
      if "calm w4" "undisturbed d (local_stores w4)" for w4 :: "'srv world"
      using apply_pulled_unfinished [OF plain_device_undisturbed [OF assms(1) that(2)] plain that(1) surjective_pairing]
        same_content_after [OF that(2)]
      by (simp add: safe_end_def)
    have objected: "safe_end (env_platform e) d (attempt current_config (\<lambda>c.
        case pull_objection expected force current remote (last_synced_local_revision c) of
          Some why \<Rightarrow> ok (PullRequired (Some (synced_at p)) why)
        | None \<Rightarrow> apply_pulled e start plaintext p tag remote) w3)"
      by (rule safe_attempt [OF leaves_basic(9) w3]) (auto split: option.split intro: applied safe_ok)
    then show "safe_end (env_platform e) d ((if current \<noteq> observed then ok (PullRequired (Some (synced_at p)) LocalChangedDuringPull)
       else if current = remote then acknowledge_remote_payload start p tag current
       else attempt current_config (\<lambda>c.
           case pull_objection expected force current remote (last_synced_local_revision c) of
             Some why \<Rightarrow> ok (PullRequired (Some (synced_at p)) why)
           | None \<Rightarrow> apply_pulled e start plaintext p tag remote)) w3)"
      using w3 by (auto intro: safe_ok safe_leaves [OF leaves_acknowledge])
  qed
qed

lemma pull_safe:
  assumes "plain_device (env_platform e) (local_stores w)" "calm w"
    and "plain_payloads e"
  shows "safe_end (env_platform e) (local_stores w) (pull_internal e expected force w)"
proof -
  let ?fine = "safe_end (env_platform e) (local_stores w)"
  have settle: "?fine (settle_pull e expected force observed start p tag w1)"
    if "calm w1" "undisturbed (local_stores w) (local_stores w1)" for observed start p tag w1
    using settle_safe [OF assms(1) that assms(3)] .
  have finish: "?fine (attempt current_config (\<lambda>c. attempt (remote_payload_state e False (b c)) (\<lambda>remote. attempt current_config (\<lambda>c.
      case remote of StateBindingRequired p \<Rightarrow> ok (RemoteBindingRequired p) | StateMissing _ \<Rightarrow> ok (UpToDate (last_sync_at c))
      | StateNotModified \<Rightarrow> ok (UpToDate (last_sync_at c))
      | StateCurrent p tag \<Rightarrow> settle_pull e expected force observed (config_revision c) p tag
      | StateChanged p tag \<Rightarrow> settle_pull e expected force observed (config_revision c) p tag))) w1)"
    if w1: "calm w1" "undisturbed (local_stores w) (local_stores w1)" for w1 b observed
    by (rule safe_attempt [OF leaves_basic(9) w1], rule safe_attempt [OF leaves_remote], assumption, assumption,
        rule safe_attempt [OF leaves_basic(9)], assumption, assumption)
       (auto split: RemotePayloadState.split intro: settle safe_ok)
  have rest: "?fine (attempt (local_revision e) (\<lambda>observed. if expected \<noteq> None \<and> expected \<noteq> Some observed
        then ok (PullRequired None LocalChangedDuringPull) else f observed) w1)"
    if "calm w1" "undisturbed (local_stores w) (local_stores w1)"
      "\<And>observed w2. calm w2 \<Longrightarrow> undisturbed (local_stores w) (local_stores w2) \<Longrightarrow> ?fine (f observed w2)" for w1 f
    by (rule safe_attempt [OF leaves_revision that(1,2)]) (auto intro: that(3) safe_ok)
  have enabled: "?fine ((if b then ok Idle else attempt reload_config (\<lambda>_. f)) w1)"
    if "calm w1" "undisturbed (local_stores w) (local_stores w1)"
      "\<And>w2. calm w2 \<Longrightarrow> undisturbed (local_stores w) (local_stores w2) \<Longrightarrow> ?fine (f w2)" for w1 f b
    using safe_attempt [OF leaves_basic(10) that(1,2), of "env_platform e" "\<lambda>_. f"] that by (auto intro: safe_ok)
  show ?thesis
    unfolding pull_internal_def
    by (rule safe_attempt [OF leaves_basic(9) assms(2) undisturbed_refl], erule (1) enabled, erule (1) rest, rule finish)
qed


text \<open>C8: an automatic pull overwrites local data only when it is the data that was last synchronised: if
  it reports that it pulled, then right before the application, under the lock of the data, the local
  revision was the one the caller expected, that revision was the recorded baseline, and the remote
  content was a different one.\<close>

theorem automatic_pull_overwrites_only_synced_data:
  assumes "pull_if_unchanged e expected w = (Inr (Pulled at), w')"
  shows "\<exists>w1 w2 plaintext p tag remote start. local_revision e w1 = (Inr expected, w2) \<and>
    last_synced_local_revision (config (config_store w2)) = Some expected \<and> remote \<noteq> expected \<and> synced_at p = at \<and>
    apply_pulled e start plaintext p tag remote w2 = (Inr (Pulled at), w')"
proof -
  have settled: "\<exists>w1 w2 plaintext remote. local_revision e w1 = (Inr expected, w2) \<and>
      last_synced_local_revision (config (config_store w2)) = Some expected \<and> remote \<noteq> expected \<and> synced_at p = at \<and>
      apply_pulled e start plaintext p tag remote w2 = (Inr (Pulled at), w')"
    if "settle_pull e (Some expected) False observed start p tag v = (Inr (Pulled at), w')" "observed = expected" for start p tag v observed
  proof -
    have "synced_at p = at" if run: "apply_pulled e start plaintext p tag remote u = (Inr (Pulled at), w')" for plaintext remote u
    proof -
      obtain a u1 where u1: "on_local (reload_from_disk (env_platform e)) u = (a, u1)" by fastforce
      obtain r u2 where u2: "apply_remote e start plaintext p tag remote u1 = (r, u2)" by fastforce
      show ?thesis
        using run u1 u2 by (cases a; cases r) (auto simp: apply_pulled_def attempt_def tried_def reload_config_def ok_def fail_def split: if_splits)
    qed
    then show ?thesis
      using that
      by (auto simp: settle_pull_def attempt_eq_Inr current_config_def get_io_def ok_def pull_objection_def classify_content_revisions_def
          acknowledge_remote_payload_def reload_config_def split: if_splits option.splits prod.splits; blast)
  qed
  obtain w1 observed w2 where w2: "local_revision e w1 = (Inr observed, w2)" "observed = expected"
    and rest: "attempt current_config (\<lambda>c. attempt (remote_payload_state e False (\<not> allows_unpreconditioned_webdav_write c)) (\<lambda>remote.
      attempt current_config (\<lambda>c. case remote of StateBindingRequired p \<Rightarrow> ok (RemoteBindingRequired p)
        | StateMissing _ \<Rightarrow> ok (UpToDate (last_sync_at c)) | StateNotModified \<Rightarrow> ok (UpToDate (last_sync_at c))
        | StateCurrent p tag \<Rightarrow> settle_pull e (Some expected) False observed (config_revision c) p tag
        | StateChanged p tag \<Rightarrow> settle_pull e (Some expected) False observed (config_revision c) p tag))) w2 = (Inr (Pulled at), w')"
    using assms by (auto simp: pull_if_unchanged_def pull_internal_def attempt_eq_Inr ok_def split: if_splits)
  then obtain start p tag v where "settle_pull e (Some expected) False expected start p tag v = (Inr (Pulled at), w')"
    by (clarsimp simp: attempt_eq_Inr current_config_def get_io_def ok_def) (case_tac a; auto)
  then show ?thesis using settled by blast
qed

theorem automatic_pull_overwrites_only_synced_data_witness:
  "\<exists>w1 w2 plaintext p tag remote start. local_revision remote_env w1 = (Inr ''61'', w2) \<and>
    last_synced_local_revision (config (config_store w2)) = Some ''61'' \<and> remote \<noteq> ''61'' \<and> synced_at p = 7 \<and>
    fst (apply_pulled remote_env start plaintext p tag remote w2) = Inr (Pulled 7)"
proof -
  obtain w' where "pull_if_unchanged remote_env ''61'' (synced_world []) = (Inr (Pulled 7), w')"
    using sample_pull_done by (metis prod.collapse)
  from automatic_pull_overwrites_only_synced_data [OF this] show ?thesis by (metis fst_conv)
qed

lemma remote_plaintext:
  assumes "decrypt_payload (env_codec remote_env) p pass = Inr x"
  shows "x = sample_pull"
proof -
  have "deserialize_plaintext_payload remote_codec v js = Inr x \<Longrightarrow> x = sample_pull" for v js
    by (simp add: deserialize_plaintext_payload_def remote_codec_def sample_codec_def library_def bail_def split: if_splits)
  then show ?thesis
    using assms by (auto simp: decrypt_payload_def Let_def remote_env_def bail_def split: if_splits)
qed


end
