(* ===== verification/Sync_Engine_Push.thy ===== *)
theory Sync_Engine_Push
  imports Sync_Engine_Properties
begin

text \<open>
  What a push that succeeds has sent and recorded, for every provider and mode.
\<close>

definition carries :: "string \<Rightarrow> remote_body \<Rightarrow> bool" where
  "carries js body \<longleftrightarrow> body = JsonText js \<or> body = GistFiles [(GIST_FILENAME, js)] \<or>
     body = NewGist ''Miaominal configuration sync'' False [(GIST_FILENAME, js)]"

definition accepted :: "string \<Rightarrow> history \<Rightarrow> bool" where
  \<comment> \<open>the server accepted an upload of this text\<close>
  "accepted js h \<longleftrightarrow> (\<exists>(rq, r) \<in> set h. carries js (rm_body rq) \<and>
     (case r of None \<Rightarrow> False | Some r \<Rightarrow> is_success (rs_status r)))"

lemma send_accepted:
  "send_request e rq what w = (Inr r, w') \<Longrightarrow> carries js (rm_body rq) \<Longrightarrow> is_success (rs_status r) \<Longrightarrow> accepted js (exchanges w')"
  using send_request_effect [of e rq what w "Inr r" w'] by (auto simp: accepted_def)

lemma accepted_mono: "accepted js h \<Longrightarrow> accepted js (h @ h')"
  by (auto simp: accepted_def)

lemma confirm_exchanges:
  assumes "confirm_version e d js tag w = (r, w')"
  shows "\<exists>h. exchanges w' = exchanges w @ h"
proof (cases "classify_etag tag = StrongTag")
  case True
  then show ?thesis using assms by (simp add: confirm_version_def)
next
  case False
  obtain s w1 where s: "webdav_pull_checked e d None True w = (s, w1)" by fastforce
  then have "\<exists>h. exchanges w1 = exchanges w @ h" using automatic_read [OF s] by blast
  moreover have "w' = w1" using assms False s
    by (cases s) (auto simp: confirm_version_def attempt_def split: WebDavPullOutcome.splits if_splits)
  ultimately show ?thesis by simp
qed

lemma webdav_push_accepted:
  assumes "webdav_push e d js condition w = (Inr (WebDavPushed tag), w')"
  shows "accepted js (exchanges w')"
proof -
  let ?rq = "webdav_request d PutRequest (precondition_of condition) (JsonText js)"
  obtain r w1 where sent: "send_request e ?rq ''failed to PUT to WebDAV server'' w = (Inr r, w1)" "is_success (rs_status r)"
    and after: "w' = w1 \<or> (\<exists>c. confirm_version e d js (response_tag r) w1 = (Inr c, w'))"
    using assms
    by (auto simp: webdav_push_def Let_def capability_error_def attempt_eq_Inr status_error_def raise_sync_def
        split: option.splits if_splits)
  have "accepted js (exchanges w1)"
    by (rule send_accepted [OF sent(1) _ sent(2)]) (simp add: carries_def webdav_request_def)
  then show ?thesis using after confirm_exchanges accepted_mono by metis
qed

lemma gist_push_accepted:
  assumes "gist_push e g js condition w = (Inr (GistPushed i tag, g'), w')"
  shows "accepted js (exchanges w')"
proof -
  obtain rq what r where "send_request e rq what w = (Inr r, w')" "is_success (rs_status r)" "carries js (rm_body rq)"
    using assms
    by (auto simp: gist_push_def attempt_eq_Inr status_error_def raise_sync_def carries_def gist_request_def
        split: option.splits if_splits)
  then show ?thesis by (intro send_accepted)
qed

lemma push_accepted:
  assumes "backend_push e b js condition w = (Inr (PushedTo i tag, b'), w')"
  shows "accepted js (exchanges w')"
proof (cases b)
  case (GistBackend g)
  obtain outcome g' where "gist_push e g js condition w = (Inr (outcome, g'), w')"
      "\<exists>i tag. outcome = GistPushed i tag"
    using assms GistBackend by (auto simp: backend_push_def attempt_eq_Inr) (case_tac a; auto)
  then show ?thesis using gist_push_accepted by blast
next
  case (WebDavFile d)
  obtain outcome where "webdav_push e d js condition w = (Inr outcome, w')" "\<exists>tag. outcome = WebDavPushed tag"
    using assms WebDavFile by (auto simp: backend_push_def attempt_eq_Inr) (case_tac a; auto)
  then show ?thesis using webdav_push_accepted by blast
qed

lemma update_recorded:
  assumes "update_config n f w = (Inr True, w')"
    and "\<And>c. Q (normalize_legacy_provider_flags (f c))" "\<And>c r. Q (normalize_legacy_provider_flags (f c)\<lparr>config_revision := r\<rparr>)"
  shows "exchanges w' = exchanges w \<and> Q (config (config_store w'))"
proof -
  obtain y st d where u: "update_if_revision n f (config_store w) (sync_disk w) = (y, st, d)" by (metis prod_cases3)
  have "y = Inr True \<Longrightarrow> Q (config st)"
    using u assms(2,3)
    by (auto simp: update_if_revision_def update_inner_def holding_def Let_def split: sum.splits if_splits prod.splits) metis
  then show ?thesis using assms(1) u by (cases y) (auto simp: update_config_def)
qed

definition records :: "nat \<Rightarrow> string \<Rightarrow> string \<Rightarrow> SyncConfig \<Rightarrow> bool" where
  "records at i revision c \<longleftrightarrow>
     last_sync_at c = at \<and> remote_payload_id c = Some i \<and> last_synced_local_revision c = Some revision"

lemma upload_records:
  assumes "upload e m unsafe start pass local plan w = (Inr (Pushed at), w')"
  shows "\<exists>dev parent p js. build_payload (env_codec e) (env_draws e) dev parent (snapshot_plaintext local) pass = Inr p \<and>
    payload_json (env_codec e) p = Some js \<and> accepted js (exchanges w') \<and>
    records at (payload_id p) (snapshot_revision local) (config (config_store w'))"
proof -
  obtain condition parent seen where plan: "plan = (condition, parent, seen)" by (metis prod_cases3)
  obtain dev p js b i tag b' w1 w2 where steps:
    "build_payload (env_codec e) (env_draws e) dev parent (snapshot_plaintext local) pass = Inr p"
    "payload_json (env_codec e) p = Some js" "backend_push e b js condition w1 = (Inr (PushedTo i tag, b'), w2)"
    "update_config start (\<lambda>c. record_sync (synced_at p) tag (Some (payload_id p)) (snapshot_revision local)
       (case i of None \<Rightarrow> c | Some i \<Rightarrow> c\<lparr>gist_id := Some i\<rparr>)) w2 = (Inr True, w')" "at = synced_at p"
  proof -
    have inr: "map_sum f id r = Inr a \<longleftrightarrow> r = Inr a" for f :: "any_error \<Rightarrow> sync_error" and r :: "any_error + 'x" and a
      by (cases r) auto
    obtain dev p js backend w1 where first:
      "build_payload (env_codec e) (env_draws e) dev parent (snapshot_plaintext local) pass = Inr p"
      "payload_json (env_codec e) p = Some js" and last: "(case backend of None \<Rightarrow> ok Idle | Some b \<Rightarrow>
         attempt (backend_push e b js condition) (\<lambda>(outcome, b). case outcome of
           PushedTo resource tag \<Rightarrow> attempt (update_config start (\<lambda>c. record_sync (synced_at p) tag (Some (payload_id p))
               (snapshot_revision local) (case resource of None \<Rightarrow> c | Some i \<Rightarrow> c\<lparr>gist_id := Some i\<rparr>)))
             (\<lambda>persisted. if persisted then ok (Pushed (synced_at p)) else ok (PullRequired (Some (synced_at p)) SyncConfigurationChanged))
         | _ \<Rightarrow> attempt (examine_conflict e m (provider (config (config_store w))) unsafe condition outcome b)
             (\<lambda>_. ok (PullRequired seen RemoteChangedBeforePush)))) w1 = (Inr (Pushed at), w')"
      using assms
      by (auto simp: upload_def plan attempt_eq_Inr anyhow_result_def lift_sum_def library_def current_config_def get_io_def inr
          split: sum.splits)
    obtain b outcome b' w2 where push: "backend_push e b js condition w1 = (Inr (outcome, b'), w2)"
      and ends: "(case outcome of
           PushedTo resource tag \<Rightarrow> attempt (update_config start (\<lambda>c. record_sync (synced_at p) tag (Some (payload_id p))
               (snapshot_revision local) (case resource of None \<Rightarrow> c | Some i \<Rightarrow> c\<lparr>gist_id := Some i\<rparr>)))
             (\<lambda>persisted. if persisted then ok (Pushed (synced_at p)) else ok (PullRequired (Some (synced_at p)) SyncConfigurationChanged))
         | _ \<Rightarrow> attempt (examine_conflict e m (provider (config (config_store w))) unsafe condition outcome b')
             (\<lambda>_. ok (PullRequired seen RemoteChangedBeforePush))) w2 = (Inr (Pushed at), w')"
      using last by (cases backend) (auto simp: attempt_eq_Inr)
    show ?thesis
    proof (cases outcome)
      case (PushedTo i tag)
      show ?thesis
        using first push ends that unfolding PushedTo by (auto simp: attempt_eq_Inr split: if_splits)
    qed (use ends in \<open>auto simp: attempt_eq_Inr\<close>)
  qed
  have "exchanges w' = exchanges w2 \<and> records at (payload_id p) (snapshot_revision local) (config (config_store w'))"
    by (rule update_recorded [OF steps(4)])
       (simp_all add: records_def record_sync_def normalize_legacy_provider_flags_def steps(5) split: option.split)
  then show ?thesis using steps push_accepted [OF steps(3)] by auto
qed

definition not_pushed :: "('srv, SyncStatus + push_plan) sync \<Rightarrow> bool" where
  "not_pushed m \<longleftrightarrow> (\<forall>w s w'. m w = (Inr (Inl s), w') \<longrightarrow> (\<forall>at. s \<noteq> Pushed at))"

named_theorems not_pushes \<open>plans that do not report a push\<close>

lemma not_pushed_attempt [not_pushes]: "(\<And>a. not_pushed (f a)) \<Longrightarrow> not_pushed (attempt m f)"
  by (fastforce simp: not_pushed_def attempt_eq_Inr)

lemma not_pushed_basic [not_pushes]:
  "not_pushed (pull_required p why)" "not_pushed (proceed p tag)" "not_pushed (fail err)" "not_pushed (ok (Inr q))"
  "not_pushed (ok (Inl (UpToDate n)))" "not_pushed (ok (Inl (RemoteBindingRequired v)))"
  "not_pushed (finished (acknowledge_remote_payload r p tag i))"
  by (auto simp: not_pushed_def pull_required_def proceed_def finished_def acknowledge_remote_payload_def attempt_eq_Inr
      split: if_splits)

lemma plan_never_pushed: "plan_push e start force pass local remote w = (Inr (Inl (Pushed at)), w') \<Longrightarrow> False"
proof -
  have "not_pushed (plan_push e start force pass local remote)"
    unfolding plan_push_def plan_current_def plan_changed_def
    by (auto split: RemotePayloadState.split option.split sum.split SyncContentRelation.split intro!: not_pushes)
  then show "plan_push e start force pass local remote w = (Inr (Inl (Pushed at)), w') \<Longrightarrow> False"
    by (auto simp: not_pushed_def)
qed

text \<open>C9: a push that reports success has really sent what it records: the payload was built from one snapshot
  of the local data, the server accepted an upload with its text, and the configuration now holds that
  payload's identifier, its time and the revision of that very snapshot, so that a concurrent edit stays
  to be pushed.\<close>

theorem push_records_what_it_sent:
  assumes "push_internal e report m w = (Inr (Pushed at), w')"
  shows "\<exists>w1 w2 local dev parent pass p js. local_snapshot e w1 = (Inr local, w2) \<and>
    build_payload (env_codec e) (env_draws e) dev parent (snapshot_plaintext local) pass = Inr p \<and>
    payload_json (env_codec e) p = Some js \<and> accepted js (exchanges w') \<and>
    records at (payload_id p) (snapshot_revision local) (config (config_store w'))"
proof -
  have out: "\<exists>start plan u. upload e m unsafe start pass local plan u = (Inr (Pushed at), w')"
    if "carry_out e report m manual unsafe start pass local (Inr plan) v = (Inr (Pushed at), w')" for manual unsafe start pass local plan v
    using that by (auto simp: carry_out_def attempt_eq_Inr capability_error_def current_config_def get_io_def
        split: prod.splits sum.splits if_splits) blast+
  obtain w1 local w2 start remote force pass manual unsafe plan w3 where
    steps: "local_snapshot e w1 = (Inr local, w2)" "plan_push e start force pass (snapshot_revision local) remote w2 = (Inr plan, w3)"
      "carry_out e report m manual unsafe start pass local plan w3 = (Inr (Pushed at), w')"
    using assms by (auto simp: push_internal_def attempt_eq_Inr split: if_splits)
  obtain q where "plan = Inr q"
    using steps(2,3) plan_never_pushed [of e start force pass "snapshot_revision local" remote w2] by (cases plan) (auto simp: carry_out_def)
  then obtain start' plan' u where "upload e m unsafe start' pass local plan' u = (Inr (Pushed at), w')" using out steps(3) by blast
  from upload_records [OF this] show ?thesis using steps(1) by blast
qed

theorem push_records_what_it_sent_witness:
  "\<exists>p js. payload_json (env_codec sample_env) p = Some js \<and>
     accepted js (exchanges (snd (push_internal sample_env None AutomaticPush sample_world))) \<and>
     (\<exists>revision. records 7 (payload_id p) revision
        (config (config_store (snd (push_internal sample_env None AutomaticPush sample_world)))))"
proof -
  obtain w' where run: "push_internal sample_env None AutomaticPush sample_world = (Inr (Pushed 7), w')"
    using sample_pushed by (metis prod.collapse)
  from push_records_what_it_sent [OF this] show ?thesis unfolding run by auto
qed

end
