(* ===== verification/Auto_Sync.thy ===== *)
theory Auto_Sync
  imports Sync_Engine Capability_Probe
begin

text \<open>
  The scheduler of automatic synchronisation (\<^verbatim>\<open>crates/miaominal-services/src/services/auto_sync.rs\<close>): one task
  that owns the state \<^verbatim>\<open>AutoSyncTask\<close>, woken by commands, timers and file events. What it shares with the
  rest of the program is the record \<open>outside\<close>: the world of the engine, the clocks, the generation of
  cancellations, the queue of commands and of file events. The operations of the trait \<^verbatim>\<open>SyncOps\<close> are the
  functions of the record \<open>scheduler\<close>; they change \<open>outside\<close> as they like, so that everything other tasks do
  while the scheduler awaits is part of them (\<open>Sync_Service\<close> has the operations of the program). Each
  call is recorded with the guards as they were (\<open>calls\<close>, \<open>published\<close> and \<open>torn\<close> are such records; nothing
  depends on them). Instants and durations are milliseconds; the text of an
  error message is the error.
\<close>

section \<open>Constants and data\<close>

definition AUTO_SYNC_POLL_INTERVAL :: nat where "AUTO_SYNC_POLL_INTERVAL = 60000"
definition AUTO_SYNC_DEBOUNCE :: nat where "AUTO_SYNC_DEBOUNCE = 5000"
definition AUTO_SYNC_BACKOFF_INITIAL :: nat where "AUTO_SYNC_BACKOFF_INITIAL = 30000"
definition AUTO_SYNC_BACKOFF_MAX :: nat where "AUTO_SYNC_BACKOFF_MAX = 600000"

definition TRACKED_CONFIG_FILES :: "string list" where
  "TRACKED_CONFIG_FILES =
     [''settings.toml'', ''sessions.toml'', ''proxies.toml'', ''snippets.toml'', ''managed_keys.toml'']"

datatype AutoSyncPhase =
  CheckingCapability | PausedCapability | Disabled | Watching | Debouncing | Pushing | Pulling
| PullNeeded | PausedVaultLocked | RetryBackoff

record AutoSyncIntervention =
  int_id :: string
  int_reason :: SyncInterventionReason
  int_remote_at :: "nat option"

record SyncReloadResult =
  reloaded_settings :: "store_error + AppSettings"
  reloaded_sessions :: "store_error + SessionProfile list"
  reloaded_proxies :: "store_error + ProxyProfile list"
  reloaded_snippets :: "store_error + SnippetRecord list"
  reloaded_keys :: "store_error + ManagedKeyRecord list"

record SyncTaskResult =
  task_status :: SyncStatus
  updated_config :: SyncConfig
  reload :: "SyncReloadResult option"

record SyncEngine =
  engine_store :: SyncConfigStore
  last_capability_report :: "CapabilityReport option"

record AutoSyncSnapshot =
  snap_capability :: CapabilityReport
  snap_notice_id :: "string option"
  snap_config :: "SyncConfig option"
  snap_revision :: "64 word"
  snap_enabled :: bool
  snap_phase :: AutoSyncPhase
  snap_message :: "sync_error option"
  snap_result :: "SyncTaskResult option"
  snap_result_id :: "64 word option"
  snap_dirty :: bool
  snap_retry_at :: "nat option"
  snap_intervention :: "AutoSyncIntervention option"

datatype RetryAction = RetryPoll | RetryPush

record probe_token = \<comment> \<open>an \<^verbatim>\<open>Arc<ProbeCancellation>\<close>: its address, and the generation it started at\<close>
  token_id :: nat
  token_started :: "64 word"

record CheckRequests =
  pending_request :: "probe_token option"
  requests_cancelled :: bool

datatype AutoSyncCommand =
  EnableChecked probe_token bool
| RecheckCapability probe_token
| CancelCheck
| SetEngine SyncEngine
| SetSettingsStore AppSettings
| ReconcileManualSync SyncStatus SyncEngine AppSettings
| SetVaultLocked bool
| Wake
| Shutdown

record 'srv outside =
  sync_world :: "'srv world"
  pending_probe :: "PendingProbe option"
  cancel_generation :: "64 word"
  clock :: nat
  unix_clock :: nat
  ids_used :: nat
  tokens_made :: nat
  commands :: "AutoSyncCommand list"
  senders_gone :: bool
  file_events :: nat
  watcher_gone :: bool
  requests :: CheckRequests

record 'srv scheduler =
  op_check :: "SyncEngine \<Rightarrow> 64 word \<Rightarrow> 'srv outside \<Rightarrow> CapabilityReport \<times> 'srv outside"
  op_push :: "SyncEngine \<Rightarrow> AppSettings \<Rightarrow> 'srv outside \<Rightarrow> (sync_error + SyncTaskResult) \<times> 'srv outside"
  op_pull_if_unchanged :: "SyncEngine \<Rightarrow> AppSettings \<Rightarrow> string \<Rightarrow> 'srv outside \<Rightarrow>
    (sync_error + SyncTaskResult) \<times> 'srv outside"
  op_remote_state :: "SyncEngine \<Rightarrow> 'srv outside \<Rightarrow> (sync_error + RemoteSyncState) \<times> 'srv outside"
  op_local_revision :: "SyncEngine \<Rightarrow> AppSettings \<Rightarrow> 'srv outside \<Rightarrow> (sync_error + string) \<times> 'srv outside"
  config_path :: string
  file_bytes :: "'srv world \<Rightarrow> string \<Rightarrow> string option" \<comment> \<open>the bytes of a file of the configuration\<close>
  sha256 :: "string \<Rightarrow> string"
  uuid_text :: "nat \<Rightarrow> string"

datatype sync_call = CheckCall | PushCall | PullCall string | StateCall | RevisionCall

record logged_call = \<comment> \<open>a call of an operation, and the guards when it was made\<close>
  called :: sync_call
  call_enabled :: bool
  call_locked :: bool
  call_blocked :: bool
  call_conflict :: bool
  call_torn :: bool

record 'srv task =
  capability :: CapabilityReport
  capability_notice_id :: "string option"
  capability_binding :: "(string \<times> string \<times> 64 word) option"
  settings_store :: AppSettings
  engine :: SyncEngine
  enabled :: bool
  vault_locked :: bool
  fingerprint :: string
  phase :: AutoSyncPhase
  message :: "sync_error option"
  last_result :: "SyncTaskResult option"
  last_result_id :: "64 word option"
  result_sequence :: "64 word"
  dirty :: bool
  remote_missing :: bool
  pending_conflict :: bool
  intervention :: "AutoSyncIntervention option"
  backoff_delay :: nat
  retry_action :: RetryAction
  retry_deadline :: "nat option"
  retry_at_unix :: "nat option"
  task_revision :: "64 word"
  published :: "AutoSyncSnapshot list" \<comment> \<open>what was sent to the watch channel\<close>
  outside :: "'srv outside"
  calls :: "logged_call list"
  torn :: bool \<comment> \<open>a check found another consent under the revision that the task holds\<close>

abbreviation task_config :: "'srv task \<Rightarrow> SyncConfig" where
  "task_config t \<equiv> config (engine_store (engine t))"

definition set_config :: "SyncConfig \<Rightarrow> 'srv task \<Rightarrow> 'srv task" where
  \<comment> \<open>\<^verbatim>\<open>self.engine.config_store.config = c\<close>\<close>
  "set_config c t = t\<lparr>engine := (engine t)\<lparr>engine_store := (engine_store (engine t))\<lparr>config := c\<rparr>\<rparr>\<rparr>"

section \<open>Publishing\<close>

definition snapshot :: "'srv task \<Rightarrow> AutoSyncSnapshot" where
  "snapshot t =
     \<lparr>snap_capability = capability t, snap_notice_id = capability_notice_id t, snap_config = Some (task_config t),
      snap_revision = task_revision t, snap_enabled = enabled t, snap_phase = phase t, snap_message = message t,
      snap_result = last_result t, snap_result_id = last_result_id t, snap_dirty = dirty t,
      snap_retry_at = retry_at_unix t, snap_intervention = intervention t\<rparr>"

definition publish :: "'srv task \<Rightarrow> 'srv task" where
  "publish t = (let t = t\<lparr>task_revision := task_revision t + 1\<rparr> in t\<lparr>published := published t @ [snapshot t]\<rparr>)"

definition set_phase :: "AutoSyncPhase \<Rightarrow> 'srv task \<Rightarrow> 'srv task" where
  "set_phase p t = (if phase t \<noteq> p then publish (t\<lparr>phase := p\<rparr>) else t)"

definition clear_intervention :: "'srv task \<Rightarrow> 'srv task" where
  "clear_intervention t = t\<lparr>pending_conflict := False, intervention := None\<rparr>"

definition clear_last_result :: "'srv task \<Rightarrow> 'srv task" where
  "clear_last_result t = t\<lparr>last_result := None, last_result_id := None\<rparr>"

definition set_last_result :: "SyncTaskResult \<Rightarrow> 'srv task \<Rightarrow> 'srv task" where
  "set_last_result r t =
     (let n = result_sequence t + 1; n = (if n = 0 then 1 else n)
      in t\<lparr>result_sequence := n, last_result := Some r, last_result_id := Some n\<rparr>)"

definition new_uuid :: "'srv scheduler \<Rightarrow> 'srv task \<Rightarrow> string \<times> 'srv task" where
  "new_uuid e t = (uuid_text e (ids_used (outside t)), t\<lparr>outside := (outside t)\<lparr>ids_used := ids_used (outside t) + 1\<rparr>\<rparr>)"

definition enter_intervention :: "'srv scheduler \<Rightarrow> SyncInterventionReason \<Rightarrow> nat option \<Rightarrow> 'srv task \<Rightarrow> 'srv task" where
  "enter_intervention e why at t =
     (let t = t\<lparr>pending_conflict := True\<rparr>;
          (changed, t) = (case intervention t of
              Some i \<Rightarrow> (int_reason i \<noteq> why \<or> int_remote_at i \<noteq> at,
                         t\<lparr>intervention := Some (i\<lparr>int_reason := why, int_remote_at := at\<rparr>)\<rparr>)
            | None \<Rightarrow> (let (u, t) = new_uuid e t in
                (True, t\<lparr>intervention := Some \<lparr>int_id = u, int_reason = why, int_remote_at = at\<rparr>\<rparr>)))
      in if phase t \<noteq> PullNeeded then set_phase PullNeeded t else if changed then publish t else t)"

section \<open>Fingerprints\<close>

definition hex_digit :: "nat \<Rightarrow> char" where
  "hex_digit n = ''0123456789abcdef'' ! (n mod 16)"

definition hex_byte :: "char \<Rightarrow> string" where
  "hex_byte c = [hex_digit (of_char c div 16), hex_digit (of_char c)]"

definition sample_fingerprint :: "'srv scheduler \<Rightarrow> 'srv world \<Rightarrow> string" where
  "sample_fingerprint e w =
     concat (map hex_byte (sha256 e (concat (map (\<lambda>name.
       name @ [CHR 0x00] @ (case file_bytes e w name of Some bytes \<Rightarrow> bytes | None \<Rightarrow> [])) TRACKED_CONFIG_FILES))))"

definition resample :: "'srv scheduler \<Rightarrow> 'srv task \<Rightarrow> 'srv task" where
  "resample e t = t\<lparr>fingerprint := sample_fingerprint e (sync_world (outside t))\<rparr>"

section \<open>Capability\<close>

definition default_report :: CapabilityReport where
  "default_report =
     \<lparr>cap_state = Unchecked, cap_reason = None, cap_step = [], http_status = None, etag_kind = MissingTag,
      checked_at = 0, cleanup_file = None\<rparr>"

fun provider_debug :: "SyncProvider \<Rightarrow> string" where
  "provider_debug NoProvider = ''None''"
| "provider_debug GithubGist = ''GithubGist''"
| "provider_debug WebDav = ''WebDav''"

definition credential_generation :: "'srv scheduler \<Rightarrow> 'srv task \<Rightarrow> 64 word" where
  "credential_generation e t = webdav_credential_generation (config_path e) (accounts (sync_world (outside t)))"

definition refresh_capability_binding :: "'srv scheduler \<Rightarrow> 'srv task \<Rightarrow> 'srv task" where
  "refresh_capability_binding e t =
     (let c = task_config t;
          b = (provider_debug (provider c) @ '':'' @ webdav_url c, webdav_username c, credential_generation e t)
      in if capability_binding t \<noteq> Some b
         then t\<lparr>capability_binding := Some b,
                capability := (if cleanup_file (capability t) = None then default_report else capability t),
                engine := (engine t)\<lparr>last_capability_report := None\<rparr>, capability_notice_id := None\<rparr>
         else t)"

definition legacy_probe_exempt :: "'srv task \<Rightarrow> bool" where
  "legacy_probe_exempt t = legacy_auto_sync_compat (task_config t)"

definition unsafe_write_consent :: "'srv task \<Rightarrow> bool" where
  "unsafe_write_consent t = webdav_unsafe_write_consent (task_config t)"

definition capability_blocks :: "'srv task \<Rightarrow> bool" where
  "capability_blocks t \<longleftrightarrow>
     provider (task_config t) = WebDav \<and> cap_state (capability t) \<noteq> Supported \<and> \<not> legacy_probe_exempt t \<and>
     \<not> permits_unpreconditioned_write (capability t) (unsafe_write_consent t)"

definition log_call :: "sync_call \<Rightarrow> 'srv task \<Rightarrow> 'srv task" where
  "log_call c t = t\<lparr>calls := calls t @ [\<lparr>called = c, call_enabled = enabled t, call_locked = vault_locked t,
     call_blocked = capability_blocks t, call_conflict = pending_conflict t, call_torn = torn t\<rparr>]\<rparr>"

definition update_engine_config :: "64 word \<Rightarrow> (SyncConfig \<Rightarrow> SyncConfig) \<Rightarrow> 'srv task \<Rightarrow> (config_error + bool) \<times> 'srv task" where
  \<comment> \<open>\<^verbatim>\<open>self.engine.config_store.update_if_revision\<close>\<close>
  "update_engine_config expected f t =
     (case update_if_revision expected f (engine_store (engine t)) (sync_disk (sync_world (outside t))) of
        (r, st, d) \<Rightarrow> (r, t\<lparr>engine := (engine t)\<lparr>engine_store := st\<rparr>,
          outside := (outside t)\<lparr>sync_world := (sync_world (outside t))\<lparr>sync_disk := d\<rparr>\<rparr>\<rparr>))"

definition clear_consent_when_disabled :: "'srv task \<Rightarrow> 'srv task" where
  \<comment> \<open>the error of the update is only logged\<close>
  "clear_consent_when_disabled t =
     (if enabled t \<or> (\<not> unsafe_write_consent t \<and> \<not> legacy_probe_exempt t) then t
      else (snd (update_engine_config (config_revision (task_config t))
              (\<lambda>c. c\<lparr>webdav_unsafe_write_consent := False, legacy_auto_sync_compat := False\<rparr>) t))
             \<lparr>capability_notice_id := None\<rparr>)"

definition capability_needs_notice :: "CapabilityReport \<Rightarrow> bool \<Rightarrow> 'srv task \<Rightarrow> bool" where
  "capability_needs_notice r dialog_owns_it t =
     (if cap_state r = Supported \<or> cap_reason r = Some ProbeCancelled then False
      else if \<not> (case cap_reason r of None \<Rightarrow> False | Some why \<Rightarrow> is_write_precondition_only why) then True
      else if dialog_owns_it then False
      else \<not> permits_unpreconditioned_write r (unsafe_write_consent t))"

definition record_capability_with :: "'srv scheduler \<Rightarrow> CapabilityReport \<Rightarrow> bool \<Rightarrow> bool \<Rightarrow> 'srv task \<Rightarrow> 'srv task" where
  "record_capability_with e r notify dialog_owns_it t =
     (let t = (if notify \<and> capability_notice_id t = None \<and> capability_needs_notice r dialog_owns_it t
               then (let (u, t) = new_uuid e t in t\<lparr>capability_notice_id := Some u\<rparr>) else t)
      in publish (t\<lparr>capability := r, engine := (engine t)\<lparr>last_capability_report := Some r\<rparr>,
                    phase := (if enabled t then PausedCapability else Disabled)\<rparr>))"

definition record_capability :: "'srv scheduler \<Rightarrow> CapabilityReport \<Rightarrow> bool \<Rightarrow> 'srv task \<Rightarrow> 'srv task" where
  "record_capability e r notify = record_capability_with e r notify False"

definition issue_now :: "CapabilityReason \<Rightarrow> string \<Rightarrow> 'srv task \<Rightarrow> CapabilityReport" where
  "issue_now why step t = issue (unix_clock (outside t)) why step None MissingTag"

section \<open>Retries\<close>

definition reset_backoff :: "'srv task \<Rightarrow> 'srv task" where
  "reset_backoff t = t\<lparr>backoff_delay := AUTO_SYNC_BACKOFF_INITIAL, retry_deadline := None, retry_at_unix := None, message := None\<rparr>"

fun capability_issue :: "sync_error \<Rightarrow> CapabilityReport option" where
  \<comment> \<open>\<^verbatim>\<open>downcast_ref::<CapabilityError>\<close> sees through the contexts of an error\<close>
  "capability_issue (CapabilityFailed r) = Some r"
| "capability_issue (InContext _ err) = capability_issue err"
| "capability_issue _ = None"

definition schedule_retry :: "'srv scheduler \<Rightarrow> RetryAction \<Rightarrow> sync_error \<Rightarrow> 'srv task \<Rightarrow> 'srv task" where
  "schedule_retry e action err t =
     (case capability_issue err of
        Some r \<Rightarrow> record_capability e r True (t\<lparr>retry_deadline := None, retry_at_unix := None, message := None\<rparr>)
      | None \<Rightarrow>
          let delay = backoff_delay t
          in publish (t\<lparr>backoff_delay := min (delay * 2) AUTO_SYNC_BACKOFF_MAX, retry_action := action,
               retry_deadline := Some (clock (outside t) + delay),
               retry_at_unix := Some (min (unix_clock (outside t) + delay div 1000) (2 ^ 64 - 1)),
               message := Some err, phase := RetryBackoff\<rparr>))"

section \<open>The check of the capability\<close>

definition run_check :: "'srv scheduler \<Rightarrow> 'srv task \<Rightarrow> CapabilityReport \<times> 'srv task" where
  \<comment> \<open>the call of the operation, and what the report becomes if the configuration changed meanwhile\<close>
  "run_check e t =
     (let started = cancel_generation (outside t); revision = config_revision (task_config t); generation = credential_generation e t;
          t = set_phase CheckingCapability (t\<lparr>capability := (capability t)\<lparr>cap_state := Checking\<rparr>\<rparr>);
          t = log_call CheckCall t;
          (r, out) = op_check e (engine t) started (outside t);
          consent = unsafe_write_consent t;
          t = t\<lparr>outside := out, engine := (engine t)\<lparr>engine_store :=
                  sync_from_disk (engine_store (engine t)) (sync_disk (sync_world out))\<rparr>\<rparr>;
          t = t\<lparr>torn := (torn t \<or> (config_revision (task_config t) = revision \<and> unsafe_write_consent t \<noteq> consent))\<rparr>;
          changed = (cancel_generation out \<noteq> started \<or> config_revision (task_config t) \<noteq> revision \<or>
                     credential_generation e t \<noteq> generation)
      in (if changed \<and> cleanup_file r = None then issue_now ProbeCancelled ''cancel'' t else r, t))"

definition settle_check :: "'srv scheduler \<Rightarrow> bool \<Rightarrow> bool \<Rightarrow> bool \<Rightarrow> CapabilityReport \<Rightarrow> 'srv task \<Rightarrow> bool \<times> 'srv task" where
  \<comment> \<open>\<^verbatim>\<open>check_capability\<close> once the report is there\<close>
  "settle_check e explicit notify_user consent r t =
     (if cap_state r = Supported then
        (True, set_phase (if enabled t then Watching else Disabled)
           (reset_backoff (t\<lparr>capability := r, engine := (engine t)\<lparr>last_capability_report := Some r\<rparr>, capability_notice_id := None\<rparr>)))
      else
        let retry = (cap_reason r = Some Network \<and> enabled t);
            covered_by_consent = permits_unpreconditioned_write r consent;
            dialog_owns_it = (explicit \<and> \<not> permits_unpreconditioned_write r consent);
            t = record_capability_with e r (notify_user \<or> (\<not> explicit \<and> \<not> retry)) dialog_owns_it t;
            t = (if retry then schedule_retry e RetryPoll (Anyhow (anyhow ''WebDAV connection unavailable'')) t else t)
        in if covered_by_consent \<and> \<not> retry
           then (True, set_phase (if enabled t then Watching else Disabled) t)
           else (False, t))"

definition check_capability :: "'srv scheduler \<Rightarrow> bool \<Rightarrow> bool \<Rightarrow> 'srv task \<Rightarrow> bool \<times> 'srv task" where
  "check_capability e explicit notify_user t =
     (let consent = unsafe_write_consent t;
          t = (if notify_user then t\<lparr>capability_notice_id := None\<rparr> else t);
          t = refresh_capability_binding e t
      in if provider (task_config t) \<noteq> WebDav then (True, t)
         else if vault_locked t then (False, set_phase PausedVaultLocked t)
         else if \<not> explicit \<and> cap_state (capability t) = Supported then (True, t)
         else if \<not> explicit \<and> \<not> capability_blocks t then (True, t)
         else if \<not> explicit \<and> (cap_state (capability t) = Unsupported \<or> cap_state (capability t) = Incomplete) \<and>
                 (cap_reason (capability t) \<noteq> Some Network \<or> retry_deadline t \<noteq> None)
         then (False, set_phase (if retry_deadline t \<noteq> None then RetryBackoff else PausedCapability) t)
         else let (r, t) = run_check e t in settle_check e explicit notify_user consent r t)"

definition ensure_capability :: "'srv scheduler \<Rightarrow> bool \<Rightarrow> 'srv task \<Rightarrow> bool \<times> 'srv task" where
  "ensure_capability e explicit = check_capability e explicit explicit"

section \<open>Pushing\<close>

definition refresh_dirty_from_revision :: "'srv scheduler \<Rightarrow> 'srv task \<Rightarrow> (sync_error + string) \<times> 'srv task" where
  "refresh_dirty_from_revision e t =
     (let t = log_call RevisionCall t;
          (r, out) = op_local_revision e (engine t) (settings_store t) (outside t);
          t = t\<lparr>outside := out\<rparr>
      in case r of
           Inl err \<Rightarrow> (Inl err, t)
         | Inr revision \<Rightarrow>
             (Inr revision, t\<lparr>dirty := (remote_missing t \<or> last_synced_local_revision (task_config t) \<noteq> Some revision)\<rparr>))"

definition retry_dirty :: "'srv scheduler \<Rightarrow> RetryAction \<Rightarrow> sync_error \<Rightarrow> 'srv task \<Rightarrow> 'srv task" where
  \<comment> \<open>\<^verbatim>\<open>self.dirty = true; self.schedule_retry(action, error)\<close>\<close>
  "retry_dirty e action err t = schedule_retry e action err (t\<lparr>dirty := True\<rparr>)"

definition schedule_debounced_push :: "'srv task \<times> nat option \<Rightarrow> 'srv task \<times> nat option" where
  \<comment> \<open>with the deadline of the debounce, a variable of the loop\<close>
  "schedule_debounced_push td =
     (case td of (t, deadline) \<Rightarrow>
        if \<not> enabled t \<or> vault_locked t \<or> retry_deadline t \<noteq> None \<or> capability_blocks t then (t, deadline)
        else (set_phase Debouncing t, Some (clock (outside t) + AUTO_SYNC_DEBOUNCE)))"

definition run_push :: "'srv scheduler \<Rightarrow> 'srv task \<Rightarrow> (sync_error + SyncTaskResult) \<times> 'srv task" where
  "run_push e t =
     (let t = log_call PushCall (set_phase Pushing t);
          (r, out) = op_push e (engine t) (settings_store t) (outside t)
      in (r, t\<lparr>outside := out\<rparr>))"

definition push_failed :: "'srv scheduler \<Rightarrow> sync_error \<Rightarrow> 'srv task \<Rightarrow> 'srv task" where
  "push_failed e err t =
     (let recheck = (case capability_issue err of
            Some r \<Rightarrow> if cap_step r = ''upload-412-unchanged'' then Some r else None | None \<Rightarrow> None);
          t = retry_dirty e RetryPush err t
      in case recheck of
           None \<Rightarrow> t
         | Some r \<Rightarrow>
             (let notice = capability_notice_id t; (passed, t) = check_capability e True False t
              in if passed then record_capability e r True (t\<lparr>capability_notice_id := notice\<rparr>) else t))"

fun push_attempts :: "'srv scheduler \<Rightarrow> nat \<Rightarrow> 'srv task \<Rightarrow> 'srv task" where
  \<comment> \<open>the loop of \<^verbatim>\<open>push_if_dirty\<close>; the number is the attempts left\<close>
  "push_attempts e 0 t = t"
| "push_attempts e (Suc n) t =
     (if pending_conflict t then set_phase PullNeeded (t\<lparr>dirty := True\<rparr>)
      else case refresh_dirty_from_revision e t of
        (Inl err, t) \<Rightarrow> retry_dirty e RetryPush err t
      | (Inr _, t) \<Rightarrow>
          if \<not> dirty t then t
          else case run_push e t of
            (Inl err, t) \<Rightarrow> push_failed e err t
          | (Inr r, t) \<Rightarrow>
              (let t = set_config (updated_config r) (set_last_result r t) in
               case task_status r of
                 Pushed _ \<Rightarrow>
                   (let t = reset_backoff (clear_intervention (resample e (t\<lparr>remote_missing := False\<rparr>))) in
                    case refresh_dirty_from_revision e t of
                      (Inl err, t) \<Rightarrow> retry_dirty e RetryPush err t
                    | (Inr _, t) \<Rightarrow> if dirty t \<and> 0 < n then push_attempts e n t else set_phase Watching t)
               | PullRequired at why \<Rightarrow> enter_intervention e why at (t\<lparr>dirty := True\<rparr>)
               | _ \<Rightarrow> set_phase Watching (reset_backoff t)))"

definition MAX_IMMEDIATE_PUSHES :: nat where "MAX_IMMEDIATE_PUSHES = 2"

definition push_if_dirty :: "'srv scheduler \<Rightarrow> 'srv task \<Rightarrow> 'srv task" where
  "push_if_dirty e t =
     (case ensure_capability e False t of
        (False, t) \<Rightarrow> t
      | (True, t) \<Rightarrow> push_attempts e MAX_IMMEDIATE_PUSHES t)"

section \<open>Polling\<close>

definition push_missing :: "'srv scheduler \<Rightarrow> 'srv task \<Rightarrow> 'srv task" where
  \<comment> \<open>the arms of \<^verbatim>\<open>poll_remote\<close> for a remote that has nothing\<close>
  "push_missing e t = push_if_dirty e ((clear_intervention ((reset_backoff t)\<lparr>remote_missing := True\<rparr>))\<lparr>dirty := True\<rparr>)"

definition note_unchanged :: "'srv scheduler \<Rightarrow> 'srv task \<Rightarrow> 'srv task" where
  \<comment> \<open>the arm of \<^verbatim>\<open>poll_remote\<close> for an unchanged remote\<close>
  "note_unchanged e t =
     (let t = reset_backoff t in
      if last_synced_local_revision (task_config t) = None
      then enter_intervention e MissingSyncBaseline None (t\<lparr>dirty := True\<rparr>)
      else case refresh_dirty_from_revision e t of
        (Inl err, t) \<Rightarrow> retry_dirty e RetryPoll err t
      | (Inr _, t) \<Rightarrow> set_phase (if pending_conflict t then PullNeeded else Watching) t)"

definition run_pull :: "'srv scheduler \<Rightarrow> string \<Rightarrow> 'srv task \<Rightarrow> (sync_error + SyncTaskResult) \<times> 'srv task" where
  "run_pull e expected t =
     (let t = log_call (PullCall expected) (set_phase Pulling t);
          (r, out) = op_pull_if_unchanged e (engine t) (settings_store t) expected (outside t)
      in (r, t\<lparr>outside := out\<rparr>))"

definition adopt_settings :: "SyncTaskResult \<Rightarrow> 'srv task \<Rightarrow> 'srv task" where
  "adopt_settings r t =
     (case reload r of
        Some l \<Rightarrow> (case reloaded_settings l of Inr s \<Rightarrow> t\<lparr>settings_store := s\<rparr> | Inl _ \<Rightarrow> t)
      | None \<Rightarrow> t)"

definition settle_pulled :: "'srv scheduler \<Rightarrow> 'srv task \<Rightarrow> 'srv task" where
  "settle_pulled e t =
     (let t = reset_backoff (clear_intervention (resample e (t\<lparr>remote_missing := False\<rparr>))) in
      case refresh_dirty_from_revision e t of
        (Inl err, t) \<Rightarrow> retry_dirty e RetryPoll err t
      | (Inr _, t) \<Rightarrow> set_phase Watching t)"

definition pull_remote :: "'srv scheduler \<Rightarrow> nat \<Rightarrow> string \<Rightarrow> 'srv task \<Rightarrow> 'srv task" where
  "pull_remote e at expected t =
     (case run_pull e expected t of
        (Inl err, t) \<Rightarrow> schedule_retry e RetryPoll err t
      | (Inr r, t) \<Rightarrow>
          (let t = adopt_settings r (set_config (updated_config r) (set_last_result r t)) in
           case task_status r of
             Pulled _ \<Rightarrow> settle_pulled e t
           | UpToDate _ \<Rightarrow> settle_pulled e t
           | PullRequired remote_at why \<Rightarrow>
               enter_intervention e why (if remote_at = None then Some at else remote_at) (t\<lparr>dirty := True\<rparr>)
           | _ \<Rightarrow> set_phase Watching (reset_backoff t)))"

definition examine_update :: "'srv scheduler \<Rightarrow> nat \<Rightarrow> string option \<Rightarrow> 'srv task \<Rightarrow> 'srv task" where
  \<comment> \<open>the arm of \<^verbatim>\<open>poll_remote\<close> for a changed remote\<close>
  "examine_update e at content t =
     (case content of
        None \<Rightarrow> enter_intervention e MissingSyncBaseline (Some at) (t\<lparr>dirty := True\<rparr>)
      | Some remote \<Rightarrow>
          (case refresh_dirty_from_revision e t of
             (Inl err, t) \<Rightarrow> retry_dirty e RetryPoll err t
           | (Inr expected, t) \<Rightarrow>
               (case classify_content_revisions expected remote (last_synced_local_revision (task_config t)) of
                  LocalChanged \<Rightarrow> push_if_dirty e t
                | Diverged \<Rightarrow> enter_intervention e BothSidesChanged (Some at) (t\<lparr>dirty := True\<rparr>)
                | MissingBaseline \<Rightarrow> enter_intervention e MissingSyncBaseline (Some at) (t\<lparr>dirty := True\<rparr>)
                | _ \<Rightarrow> pull_remote e at expected t)))"

definition poll_remote :: "'srv scheduler \<Rightarrow> 'srv task \<Rightarrow> 'srv task" where
  "poll_remote e t =
     (case ensure_capability e False t of
        (False, t) \<Rightarrow> t
      | (True, t) \<Rightarrow>
          (let t = log_call StateCall (set_phase Pulling t);
               (r, out) = op_remote_state e (engine t) (outside t);
               t = t\<lparr>outside := out\<rparr>
           in case r of
                Inl err \<Rightarrow> schedule_retry e RetryPoll err t
              | Inr RemoteDisabled \<Rightarrow> set_phase Watching (reset_backoff t)
              | Inr (RemoteBinding p) \<Rightarrow>
                  if p = GithubGist \<and> gist_id (task_config t) = None then push_missing e t
                  else set_phase Watching (reset_backoff t)
              | Inr RemoteMissing \<Rightarrow> push_missing e t
              | Inr RemoteNotModified \<Rightarrow> note_unchanged e t
              | Inr RemoteUpToDate \<Rightarrow> note_unchanged e t
              | Inr (RemoteUpdated at tag payload content) \<Rightarrow> examine_update e at content t))"

definition on_tick :: "'srv scheduler \<Rightarrow> 'srv task \<Rightarrow> 'srv task" where
  "on_tick e t =
     (if \<not> enabled t \<or> vault_locked t \<or> retry_deadline t \<noteq> None then t
      else case ensure_capability e False t of
        (False, t) \<Rightarrow> t
      | (True, t) \<Rightarrow>
          (let t = push_if_dirty e t in
           if pending_conflict t then t
           else if phase t \<noteq> Pushing \<and> phase t \<noteq> RetryBackoff then poll_remote e t else t))"

section \<open>Commands\<close>

definition configuration_issue :: "'srv scheduler \<Rightarrow> string \<Rightarrow> 'srv task \<Rightarrow> 'srv task" where
  "configuration_issue e step t = record_capability e (issue_now Configuration step t) True t"

definition read_passphrase :: "'srv task \<Rightarrow> (any_error + string option) \<times> 'srv task" where
  "read_passphrase t =
     (let w = sync_world (outside t) in
      case get_passphrase (accounts w) of
        (r, a) \<Rightarrow> (r, t\<lparr>outside := (outside t)\<lparr>sync_world := w\<lparr>accounts := a\<rparr>\<rparr>\<rparr>))"

definition save_consent :: "bool \<Rightarrow> 'srv task \<Rightarrow> bool \<times> 'srv task" where
  \<comment> \<open>an unchanged consent is not written\<close>
  "save_consent consent t =
     (if unsafe_write_consent t \<noteq> consent then
        (case update_engine_config (config_revision (task_config t)) (\<lambda>c. c\<lparr>webdav_unsafe_write_consent := consent\<rparr>) t of
           (r, t) \<Rightarrow> (r = Inr True, t))
      else (True, t))"

definition enable_checked :: "'srv scheduler \<Rightarrow> bool \<Rightarrow> 'srv task \<Rightarrow> 'srv task" where
  "enable_checked e consent t =
     (let t = t\<lparr>capability_notice_id := None\<rparr> in
      if vault_locked t then set_phase PausedVaultLocked t
      else case read_passphrase t of (pass, t) \<Rightarrow>
        if \<not> (case pass of Inr (Some v) \<Rightarrow> trim v \<noteq> [] | _ \<Rightarrow> False)
        then configuration_issue e ''encryption-passphrase'' t
        else case save_consent consent t of
          (False, t) \<Rightarrow> configuration_issue e ''save-preference'' t
        | (True, t) \<Rightarrow>
            (let started = cancel_generation (outside t); (passed, t) = ensure_capability e True t in
             if \<not> passed \<or> cancel_generation (outside t) \<noteq> started then t
             else case update_engine_config (config_revision (task_config t)) (\<lambda>c. c\<lparr>auto_sync_enabled := True\<rparr>) t of
               (Inr True, t) \<Rightarrow> on_tick e (publish (t\<lparr>enabled := True\<rparr>))
             | (_, t) \<Rightarrow> configuration_issue e ''save-preference'' t))"

definition resting_phase :: "'srv task \<Rightarrow> AutoSyncPhase" where
  "resting_phase t =
     (if \<not> enabled t then Disabled else if vault_locked t then PausedVaultLocked
      else if capability_blocks t then PausedCapability else Watching)"

definition adopt_engine :: "'srv scheduler \<Rightarrow> SyncEngine \<Rightarrow> 'srv task \<Rightarrow> 'srv task" where
  \<comment> \<open>\<^verbatim>\<open>self.engine = engine; self.refresh_capability_binding()\<close>\<close>
  "adopt_engine e g t = refresh_capability_binding e (t\<lparr>engine := g\<rparr>)"

definition apply_engine :: "'srv scheduler \<Rightarrow> SyncEngine \<Rightarrow> 'srv task \<Rightarrow> 'srv task" where
  "apply_engine e g t =
     (let t = clear_last_result (adopt_engine e g t);
          t = clear_consent_when_disabled (t\<lparr>enabled := auto_sync_enabled (task_config t)\<rparr>);
          t = reset_backoff (clear_intervention ((resample e t)\<lparr>remote_missing := False\<rparr>));
          (r, t) = (if enabled t \<and> \<not> vault_locked t then refresh_dirty_from_revision e t
                    else (Inr [], t\<lparr>dirty := False\<rparr>))
      in case r of
           Inl err \<Rightarrow> retry_dirty e RetryPoll err t
         | Inr _ \<Rightarrow> set_phase (resting_phase t) t)"

definition note_manual :: "'srv scheduler \<Rightarrow> SyncStatus \<Rightarrow> 'srv task \<Rightarrow> 'srv task" where
  \<comment> \<open>the match of \<^verbatim>\<open>reconcile_manual_sync\<close>\<close>
  "note_manual e status t =
     (case status of
        Pushed _ \<Rightarrow> clear_intervention ((resample e t)\<lparr>remote_missing := False\<rparr>)
      | Pulled _ \<Rightarrow> clear_intervention ((resample e t)\<lparr>remote_missing := False\<rparr>)
      | UpToDate _ \<Rightarrow> clear_intervention
          (if sample_fingerprint e (sync_world (outside t)) \<noteq> fingerprint t then t\<lparr>dirty := True\<rparr> else t)
      | PullRequired at why \<Rightarrow> enter_intervention e why at (t\<lparr>dirty := True\<rparr>)
      | _ \<Rightarrow> t)"

definition reconcile_manual_sync :: "'srv scheduler \<Rightarrow> SyncStatus \<Rightarrow> SyncEngine \<Rightarrow> AppSettings \<Rightarrow> 'srv task \<Rightarrow> 'srv task" where
  "reconcile_manual_sync e status g s t =
     (let t = (adopt_engine e g t)\<lparr>settings_store := s\<rparr>;
          t = clear_consent_when_disabled (t\<lparr>enabled := auto_sync_enabled (task_config t)\<rparr>);
          t = note_manual e status (reset_backoff (clear_last_result t));
          (r, t) = (if \<not> pending_conflict t then refresh_dirty_from_revision e t else (Inr [], t))
      in case r of
           Inl err \<Rightarrow> retry_dirty e RetryPoll err t
         | Inr _ \<Rightarrow> publish (t\<lparr>phase := (if resting_phase t = Watching \<and> pending_conflict t then PullNeeded else resting_phase t)\<rparr>))"

definition set_vault_lock :: "'srv scheduler \<Rightarrow> bool \<Rightarrow> 'srv task \<Rightarrow> 'srv task" where
  "set_vault_lock e locked t =
     (let t = t\<lparr>vault_locked := locked\<rparr> in
      if locked then set_phase PausedVaultLocked t
      else if enabled t then
        (let t = (if cap_reason (capability t) = Some ProbeCancelled \<and> cleanup_file (capability t) = None
                  then t\<lparr>capability := default_report\<rparr> else t)
         in on_tick e (set_phase Watching (reset_backoff t)))
      else t)"

definition cancelled_check :: "'srv scheduler \<Rightarrow> 'srv task \<Rightarrow> 'srv task" where
  \<comment> \<open>the arm of \<^verbatim>\<open>CancelCheck\<close>\<close>
  "cancelled_check e t =
     (let t = t\<lparr>retry_deadline := None, retry_at_unix := None\<rparr> in
      if cleanup_file (capability t) = None
      then record_capability e (issue_now ProbeCancelled ''cancel'' t) False t else t)"

definition token_cancelled :: "probe_token \<Rightarrow> 'srv outside \<Rightarrow> bool" where
  "token_cancelled k out \<longleftrightarrow> token_started k \<noteq> cancel_generation out"

definition finish_request :: "probe_token \<Rightarrow> CheckRequests \<Rightarrow> CheckRequests" where
  \<comment> \<open>only the owner of the slot releases it: tokens are compared by address\<close>
  "finish_request k r =
     (case pending_request r of
        Some p \<Rightarrow> if token_id p = token_id k then r\<lparr>pending_request := None\<rparr> else r
      | None \<Rightarrow> r)"

definition finish_check :: "probe_token \<Rightarrow> 'srv task \<Rightarrow> 'srv task" where
  "finish_check k t = t\<lparr>outside := (outside t)\<lparr>requests := finish_request k (requests (outside t))\<rparr>\<rparr>"

fun run_command :: "'srv scheduler \<Rightarrow> AutoSyncCommand \<Rightarrow> 'srv task \<Rightarrow> 'srv task option" where
  \<comment> \<open>\<^verbatim>\<open>None\<close> leaves the loop\<close>
  "run_command e (EnableChecked k consent) t =
     Some (finish_check k (if token_cancelled k (outside t) then t else enable_checked e consent t))"
| "run_command e (RecheckCapability k) t =
     Some (finish_check k
       (if token_cancelled k (outside t) then t
        else let (passed, t) = ensure_capability e True t in if passed \<and> enabled t then on_tick e t else t))"
| "run_command e CancelCheck t = Some (cancelled_check e t)"
| "run_command e (SetEngine g) t =
     Some (let t = apply_engine e g t in if enabled t \<and> \<not> vault_locked t then on_tick e t else t)"
| "run_command e (SetSettingsStore s) t = Some (t\<lparr>settings_store := s\<rparr>)"
| "run_command e (ReconcileManualSync status g s) t = Some (reconcile_manual_sync e status g s t)"
| "run_command e (SetVaultLocked locked) t = Some (set_vault_lock e locked t)"
| "run_command e Wake t = Some (if enabled t \<and> \<not> vault_locked t then on_tick e t else t)"
| "run_command e Shutdown t = None"

section \<open>The loop\<close>

record 'srv loop =
  sched :: "'srv task"
  debounce_deadline :: "nat option"
  tick_deadline :: nat
  watcher_active :: bool

definition due :: "nat option \<Rightarrow> 'srv task \<Rightarrow> bool" where
  "due deadline t \<longleftrightarrow> (case deadline of Some d \<Rightarrow> d \<le> clock (outside t) | None \<Rightarrow> False) \<and> enabled t \<and> \<not> vault_locked t"

definition start_task :: "'srv scheduler \<Rightarrow> AppSettings \<Rightarrow> SyncEngine \<Rightarrow> bool \<Rightarrow> 'srv outside \<Rightarrow> 'srv task" where
  "start_task e s g locked out =
     (let on = auto_sync_enabled (config (engine_store g));
          t = publish
            \<lparr>capability = default_report, capability_notice_id = None, capability_binding = None, settings_store = s,
             engine = g, enabled = on, vault_locked = locked, fingerprint = sample_fingerprint e (sync_world out),
             phase = (if \<not> on then Disabled else if locked then PausedVaultLocked else Watching),
             message = None, last_result = None, last_result_id = None, result_sequence = 0, dirty = False,
             remote_missing = False, pending_conflict = False, intervention = None,
             backoff_delay = AUTO_SYNC_BACKOFF_INITIAL, retry_action = RetryPoll, retry_deadline = None,
             retry_at_unix = None, task_revision = 0, published = [], outside = out, calls = [], torn = False\<rparr>
      in if enabled t \<and> \<not> vault_locked t
         then (if last_synced_local_revision (task_config t) = None then poll_remote e t else on_tick e t) else t)"

definition start_loop :: "'srv scheduler \<Rightarrow> AppSettings \<Rightarrow> SyncEngine \<Rightarrow> bool \<Rightarrow> bool \<Rightarrow> 'srv outside \<Rightarrow> 'srv loop" where
  \<comment> \<open>the second flag: whether the file watcher starts\<close>
  "start_loop e s g locked watching out =
     (let t = start_task e s g locked out
      in \<lparr>sched = t, debounce_deadline = None, tick_deadline = clock (outside t) + AUTO_SYNC_POLL_INTERVAL,
          watcher_active = watching\<rparr>)"

definition run_retry :: "'srv scheduler \<Rightarrow> 'srv task \<Rightarrow> 'srv task" where
  "run_retry e t =
     (let t = t\<lparr>retry_deadline := None, retry_at_unix := None, message := None\<rparr>
      in case retry_action t of RetryPoll \<Rightarrow> poll_remote e t | RetryPush \<Rightarrow> push_if_dirty e t)"

definition on_outside :: "('srv outside \<Rightarrow> 'srv outside) \<Rightarrow> 'srv task \<Rightarrow> 'srv task" where
  "on_outside f t = t\<lparr>outside := f (outside t)\<rparr>"

datatype 'srv turn = Waits | Stops | Continues "'srv loop"

definition loop_turn :: "'srv scheduler \<Rightarrow> 'srv loop \<Rightarrow> 'srv turn" where
  \<comment> \<open>one round of the loop: the first branch of \<^verbatim>\<open>select!\<close>, in its order, that is ready\<close>
  "loop_turn e l =
     (let t = sched l; out = outside t in
      case commands out of
        c # cs \<Rightarrow>
          (case run_command e c (on_outside (\<lambda>out. out\<lparr>commands := cs\<rparr>) t) of
             None \<Rightarrow> Stops | Some t \<Rightarrow> Continues (l\<lparr>sched := t\<rparr>))
      | [] \<Rightarrow>
          if senders_gone out then Stops
          else if due (retry_deadline t) t then Continues (l\<lparr>sched := run_retry e t\<rparr>)
          else if due (debounce_deadline l) t then
            Continues (l\<lparr>debounce_deadline := None, sched := (if retry_deadline t = None then push_if_dirty e t else t)\<rparr>)
          else if due (Some (tick_deadline l)) t then
            Continues (l\<lparr>tick_deadline := clock out + AUTO_SYNC_POLL_INTERVAL, sched := on_tick e t\<rparr>)
          else if watcher_active l \<and> 0 < file_events out then
            (case schedule_debounced_push (on_outside (\<lambda>out. out\<lparr>file_events := file_events out - 1\<rparr>) t, debounce_deadline l) of
               (t, deadline) \<Rightarrow> Continues (l\<lparr>sched := t, debounce_deadline := deadline\<rparr>))
          else if watcher_active l \<and> watcher_gone out then Continues (l\<lparr>watcher_active := False\<rparr>)
          else Waits)"

section \<open>The service\<close>

definition cancel_checks :: "'srv outside \<Rightarrow> 'srv outside" where
  "cancel_checks out = out\<lparr>cancel_generation := cancel_generation out + 1\<rparr>"

definition send_command :: "AutoSyncCommand \<Rightarrow> 'srv outside \<Rightarrow> 'srv outside" where
  "send_command c out = out\<lparr>commands := commands out @ [c]\<rparr>"

definition service_set_engine :: "SyncEngine \<Rightarrow> 'srv outside \<Rightarrow> 'srv outside" where
  "service_set_engine g out = send_command (SetEngine g) (cancel_checks out)"

definition service_set_settings_store :: "AppSettings \<Rightarrow> 'srv outside \<Rightarrow> 'srv outside" where
  "service_set_settings_store s = send_command (SetSettingsStore s)"

definition service_reconcile_manual_sync :: "SyncStatus \<Rightarrow> SyncEngine \<Rightarrow> AppSettings \<Rightarrow> 'srv outside \<Rightarrow> 'srv outside" where
  "service_reconcile_manual_sync status g s = send_command (ReconcileManualSync status g s)"

definition service_set_vault_locked :: "bool \<Rightarrow> 'srv outside \<Rightarrow> 'srv outside" where
  "service_set_vault_locked locked out =
     send_command (SetVaultLocked locked) (if locked then cancel_checks out else out)"

definition service_wake :: "'srv outside \<Rightarrow> 'srv outside" where
  "service_wake = send_command Wake"

definition service_shutdown :: "'srv outside \<Rightarrow> 'srv outside" where
  "service_shutdown out = send_command Shutdown (cancel_checks out)"

definition request_check :: "AutoSyncPhase \<Rightarrow> bool \<Rightarrow> bool \<Rightarrow> bool \<Rightarrow> 'srv outside \<Rightarrow> bool \<times> 'srv outside" where
  \<comment> \<open>with the phase of the last snapshot, and whether the task still receives commands\<close>
  "request_check shown receives enable consent out =
     (let r = requests out in
      if (case pending_request r of
            Some k \<Rightarrow> \<not> token_cancelled k out
          | None \<Rightarrow> \<not> requests_cancelled r \<and> shown = CheckingCapability)
      then (False, out)
      else
        let k = \<lparr>token_id = tokens_made out, token_started = cancel_generation out\<rparr>;
            out = out\<lparr>tokens_made := tokens_made out + 1\<rparr>
        in if \<not> receives then (False, out)
           else (True, (send_command (if enable then EnableChecked k consent else RecheckCapability k) out)
                  \<lparr>requests := \<lparr>pending_request = Some k, requests_cancelled = False\<rparr>\<rparr>))"

definition service_enable_checked :: "AutoSyncPhase \<Rightarrow> bool \<Rightarrow> bool \<Rightarrow> 'srv outside \<Rightarrow> bool \<times> 'srv outside" where
  "service_enable_checked shown receives consent = request_check shown receives True consent"

definition service_recheck_capability :: "AutoSyncPhase \<Rightarrow> bool \<Rightarrow> 'srv outside \<Rightarrow> bool \<times> 'srv outside" where
  "service_recheck_capability shown receives = request_check shown receives False False"

definition service_cancel_check :: "'srv outside \<Rightarrow> 'srv outside" where
  "service_cancel_check out =
     (let out = cancel_checks out
      in send_command CancelCheck (out\<lparr>requests := (requests out)\<lparr>requests_cancelled := True\<rparr>\<rparr>))"

section \<open>Runs\<close>

text \<open>A step is a round of the loop, or something that other tasks do to what they share with it.\<close>

inductive scheduler_step :: "'srv scheduler \<Rightarrow> 'srv loop \<Rightarrow> 'srv loop \<Rightarrow> bool" for e :: "'srv scheduler" where
  Turn: "loop_turn e l = Continues l' \<Longrightarrow> scheduler_step e l l'"
| Other: "scheduler_step e l (l\<lparr>sched := on_outside f (sched l)\<rparr>)"

inductive scheduler_run :: "'srv scheduler \<Rightarrow> 'srv loop \<Rightarrow> bool" for e :: "'srv scheduler" where
  Start: "scheduler_run e (start_loop e s g locked watching out)"
| Step: "scheduler_run e l \<Longrightarrow> scheduler_step e l l' \<Longrightarrow> scheduler_run e l'"

inductive_cases turn_or_other: "scheduler_step e l l'"

end
