(* ===== verification/Auto_Sync_Properties.thy ===== *)
theory Auto_Sync_Properties
  imports Auto_Sync
begin

text \<open>
  What holds in every run of the scheduler, whatever the operations return and whatever other tasks do
  to the shared state: its record stays well formed, and the operations are called only under their
  guards. At the end: a state in which the scheduler never polls again.
\<close>

section \<open>Well-formed tasks\<close>

definition snapshot_ok :: "AutoSyncSnapshot \<Rightarrow> bool" where
  "snapshot_ok s \<longleftrightarrow>
     (snap_result s = None \<longleftrightarrow> snap_result_id s = None) \<and> snap_result_id s \<noteq> Some 0 \<and>
     (snap_phase s = PullNeeded \<longrightarrow> snap_intervention s \<noteq> None)"

definition numbered :: "AutoSyncSnapshot list \<Rightarrow> bool" where
  "numbered ss \<longleftrightarrow> (\<forall>i < length ss. snap_revision (ss ! i) = of_nat (Suc i))"

definition fields_ok :: "'srv task \<Rightarrow> bool" where
  "fields_ok t \<longleftrightarrow>
     (intervention t = None \<longleftrightarrow> \<not> pending_conflict t) \<and>
     (retry_deadline t = None \<longleftrightarrow> retry_at_unix t = None) \<and>
     AUTO_SYNC_BACKOFF_INITIAL \<le> backoff_delay t \<and> backoff_delay t \<le> AUTO_SYNC_BACKOFF_MAX \<and>
     (last_result t = None \<longleftrightarrow> last_result_id t = None) \<and> last_result_id t \<noteq> Some 0 \<and>
     task_revision t = of_nat (length (published t)) \<and> numbered (published t) \<and> list_all snapshot_ok (published t)"

definition task_ok :: "'srv task \<Rightarrow> bool" where
  "task_ok t \<longleftrightarrow> fields_ok t \<and> (phase t = PullNeeded \<longrightarrow> pending_conflict t)"

section \<open>Calls under their guards\<close>

definition repeats_push :: "logged_call list \<Rightarrow> bool" where
  \<comment> \<open>the last calls: a push that the check of the capability admitted, and the revisions read after it\<close>
  "repeats_push cs \<longleftrightarrow>
     (\<exists>before p a b. cs = before @ [p, a, b] \<and> called p = PushCall \<and> (call_blocked p \<longrightarrow> call_torn p) \<and>
        called a = RevisionCall \<and> called b = RevisionCall)"

fun guarded :: "logged_call list \<Rightarrow> logged_call \<Rightarrow> bool" where
  "guarded cs c =
     (case called c of
        RevisionCall \<Rightarrow> True
      | CheckCall \<Rightarrow> \<not> call_locked c
      | PushCall \<Rightarrow> call_enabled c \<and> \<not> call_locked c \<and> \<not> call_conflict c \<and> (call_blocked c \<longrightarrow> call_torn c \<or> repeats_push cs)
      | _ \<Rightarrow> call_enabled c \<and> \<not> call_locked c \<and> (call_blocked c \<longrightarrow> call_torn c))"

declare guarded.simps [simp del]

definition calls_ok :: "logged_call list \<Rightarrow> bool" where
  "calls_ok cs \<longleftrightarrow> (\<forall>i < length cs. guarded (take i cs) (cs ! i))"

lemma calls_ok_snoc [simp]: "calls_ok (cs @ [c]) \<longleftrightarrow> calls_ok cs \<and> guarded cs c"
  by (auto simp: calls_ok_def less_Suc_eq nth_append)

lemma calls_ok_Nil [simp]: "calls_ok []"
  by (simp add: calls_ok_def)

locale capability_check =
  fixes check :: "SyncEngine \<Rightarrow> 64 word \<Rightarrow> 'srv outside \<Rightarrow> CapabilityReport \<times> 'srv outside"
  assumes leftovers: "check g started out = (r, out') \<Longrightarrow> cleanup_file r \<noteq> None \<Longrightarrow>
    cap_reason r = Some Cleanup \<and> cap_state r \<noteq> Supported"
begin

text \<open>A report that admits writes leaves no file behind.\<close>

lemma admits_without_leftovers:
  "check g started out = (r, out') \<Longrightarrow> permits_unpreconditioned_write r consent \<Longrightarrow> cleanup_file r = None"
  using leftovers [of g started out r out']
  by (cases "cleanup_file r") (auto simp: permits_unpreconditioned_write_def split: if_splits)

end

abbreviation honest_check :: "'srv scheduler \<Rightarrow> bool" where
  "honest_check e \<equiv> capability_check (op_check e)"

definition core :: "'srv scheduler \<Rightarrow> 'srv task \<Rightarrow> bool" where
  "core e t \<longleftrightarrow> fields_ok t \<and> (honest_check e \<longrightarrow> calls_ok (calls t))"

definition sound :: "'srv scheduler \<Rightarrow> 'srv task \<Rightarrow> bool" where
  "sound e t \<longleftrightarrow> core e t \<and> (phase t = PullNeeded \<longrightarrow> pending_conflict t)"

lemma sound_core: "sound e t \<Longrightarrow> core e t"
  by (simp add: sound_def)

lemma sound_task_ok: "sound e t \<longleftrightarrow> task_ok t \<and> (honest_check e \<longrightarrow> calls_ok (calls t))"
  by (auto simp: sound_def core_def task_ok_def)

section \<open>Frames\<close>

lemma publish_frame [simp]:
  "enabled (publish t) = enabled t" "vault_locked (publish t) = vault_locked t" "calls (publish t) = calls t"
  "pending_conflict (publish t) = pending_conflict t" "phase (publish t) = phase t" "engine (publish t) = engine t"
  "capability (publish t) = capability t" "outside (publish t) = outside t" "retry_deadline (publish t) = retry_deadline t"
  "intervention (publish t) = intervention t" "dirty (publish t) = dirty t" "remote_missing (publish t) = remote_missing t"
  by (simp_all add: publish_def Let_def)

lemma set_phase_frame [simp]:
  "enabled (set_phase p t) = enabled t" "vault_locked (set_phase p t) = vault_locked t" "calls (set_phase p t) = calls t"
  "pending_conflict (set_phase p t) = pending_conflict t" "phase (set_phase p t) = p" "engine (set_phase p t) = engine t"
  "capability (set_phase p t) = capability t" "outside (set_phase p t) = outside t"
  "retry_deadline (set_phase p t) = retry_deadline t" "intervention (set_phase p t) = intervention t"
  "dirty (set_phase p t) = dirty t" "remote_missing (set_phase p t) = remote_missing t"
  by (simp_all add: set_phase_def)

lemma publish_fields:
  assumes "fields_ok t" "phase t = PullNeeded \<longrightarrow> pending_conflict t"
  shows "fields_ok (publish t)"
  using assms
  by (auto simp: fields_ok_def publish_def Let_def numbered_def nth_append less_Suc_eq snapshot_def snapshot_ok_def)

lemma publish_sound: "sound e t \<Longrightarrow> sound e (publish t)"
  using publish_fields by (auto simp: sound_def core_def)

lemma core_phase [simp]: "core e (t\<lparr>phase := p\<rparr>) = core e t"
  by (simp add: core_def fields_ok_def)

lemma set_phase_sound:
  assumes "core e t" "p = PullNeeded \<longrightarrow> pending_conflict t"
  shows "sound e (set_phase p t)"
proof (cases "phase t = p")
  case True
  with assms show ?thesis by (auto simp: set_phase_def sound_def)
next
  case False
  have "sound e (t\<lparr>phase := p\<rparr>)" using assms by (simp add: sound_def)
  with False show ?thesis by (simp add: set_phase_def publish_sound)
qed

lemma core_updates [simp]:
  "core e (t\<lparr>capability := r\<rparr>) = core e t" "core e (t\<lparr>capability_notice_id := u\<rparr>) = core e t"
  "core e (t\<lparr>capability_binding := b\<rparr>) = core e t" "core e (t\<lparr>settings_store := s\<rparr>) = core e t"
  "core e (t\<lparr>engine := g\<rparr>) = core e t" "core e (t\<lparr>enabled := x\<rparr>) = core e t" "core e (t\<lparr>vault_locked := x\<rparr>) = core e t"
  "core e (t\<lparr>fingerprint := y\<rparr>) = core e t" "core e (t\<lparr>message := m\<rparr>) = core e t" "core e (t\<lparr>dirty := x\<rparr>) = core e t"
  "core e (t\<lparr>remote_missing := x\<rparr>) = core e t" "core e (t\<lparr>outside := out\<rparr>) = core e t"
  "core e (t\<lparr>retry_action := a\<rparr>) = core e t" "core e (t\<lparr>torn := x\<rparr>) = core e t"
  by (simp_all add: core_def fields_ok_def)

lemma core_no_retry: "core e t \<Longrightarrow> core e (t\<lparr>retry_deadline := None, retry_at_unix := None\<rparr>)"
  by (simp add: core_def fields_ok_def)

lemma core_clear: "core e t \<Longrightarrow> core e (clear_intervention t)"
  by (simp add: core_def fields_ok_def clear_intervention_def)

lemma core_clear_result: "core e t \<Longrightarrow> core e (clear_last_result t)"
  by (simp add: core_def fields_ok_def clear_last_result_def)

lemma core_set_result: "core e t \<Longrightarrow> core e (set_last_result r t)"
  by (simp add: core_def fields_ok_def set_last_result_def Let_def)

lemma core_reset: "core e t \<Longrightarrow> core e (reset_backoff t)"
  by (simp add: core_def fields_ok_def reset_backoff_def AUTO_SYNC_BACKOFF_INITIAL_def AUTO_SYNC_BACKOFF_MAX_def)

lemma core_log: "core e t \<Longrightarrow> core e (log_call c t) \<longleftrightarrow> (honest_check e \<longrightarrow> guarded (calls t)
    \<lparr>called = c, call_enabled = enabled t, call_locked = vault_locked t, call_blocked = capability_blocks t, call_conflict = pending_conflict t, call_torn = torn t\<rparr>)"
  by (auto simp: core_def fields_ok_def log_call_def)

lemma resample_frame [simp]: "core e (resample e t) = core e t" "enabled (resample e t) = enabled t"
  "vault_locked (resample e t) = vault_locked t" "calls (resample e t) = calls t" "phase (resample e t) = phase t"
  "pending_conflict (resample e t) = pending_conflict t" "engine (resample e t) = engine t" "capability (resample e t) = capability t"
  by (simp_all add: resample_def)

lemma set_config_frame [simp]: "core e (set_config c t) = core e t" "enabled (set_config c t) = enabled t"
  "vault_locked (set_config c t) = vault_locked t" "calls (set_config c t) = calls t" "phase (set_config c t) = phase t"
  "pending_conflict (set_config c t) = pending_conflict t"
  by (simp_all add: set_config_def)

lemma clear_frame [simp]:
  "enabled (clear_intervention t) = enabled t" "vault_locked (clear_intervention t) = vault_locked t"
  "calls (clear_intervention t) = calls t" "phase (clear_intervention t) = phase t" "\<not> pending_conflict (clear_intervention t)"
  "engine (clear_intervention t) = engine t" "capability (clear_intervention t) = capability t"
  "dirty (clear_intervention t) = dirty t" "outside (clear_intervention t) = outside t"
  by (simp_all add: clear_intervention_def)

lemma reset_frame [simp]:
  "enabled (reset_backoff t) = enabled t" "vault_locked (reset_backoff t) = vault_locked t" "calls (reset_backoff t) = calls t"
  "phase (reset_backoff t) = phase t" "pending_conflict (reset_backoff t) = pending_conflict t" "engine (reset_backoff t) = engine t"
  "capability (reset_backoff t) = capability t" "outside (reset_backoff t) = outside t" "remote_missing (reset_backoff t) = remote_missing t"
  by (simp_all add: reset_backoff_def)

lemma result_frame [simp]:
  "enabled (set_last_result r t) = enabled t" "vault_locked (set_last_result r t) = vault_locked t"
  "calls (set_last_result r t) = calls t" "phase (set_last_result r t) = phase t"
  "pending_conflict (set_last_result r t) = pending_conflict t"
  "enabled (clear_last_result t) = enabled t" "vault_locked (clear_last_result t) = vault_locked t"
  "phase (clear_last_result t) = phase t" "pending_conflict (clear_last_result t) = pending_conflict t"
  "engine (clear_last_result t) = engine t"
  by (simp_all add: set_last_result_def clear_last_result_def Let_def)

lemma log_frame [simp]:
  "enabled (log_call c t) = enabled t" "vault_locked (log_call c t) = vault_locked t" "phase (log_call c t) = phase t"
  "pending_conflict (log_call c t) = pending_conflict t" "engine (log_call c t) = engine t" "capability (log_call c t) = capability t"
  "outside (log_call c t) = outside t" "settings_store (log_call c t) = settings_store t" "retry_deadline (log_call c t) = retry_deadline t"
  "remote_missing (log_call c t) = remote_missing t" "dirty (log_call c t) = dirty t"
  by (simp_all add: log_call_def)

lemma torn_frames [simp]: "torn (publish t) = torn t" "torn (set_phase p t) = torn t" "torn (log_call c t) = torn t"
  by (simp_all add: publish_def set_phase_def log_call_def Let_def)

lemma uuid_frame [simp]:
  "enabled (snd (new_uuid e t)) = enabled t" "vault_locked (snd (new_uuid e t)) = vault_locked t"
  "core e (snd (new_uuid e t)) = core e t" "calls (snd (new_uuid e t)) = calls t" "phase (snd (new_uuid e t)) = phase t"
  by (simp_all add: new_uuid_def)

section \<open>Every operation keeps the task sound\<close>

definition stays :: "'srv scheduler \<Rightarrow> 'srv task \<Rightarrow> 'srv task \<Rightarrow> bool" where
  "stays e t t' \<longleftrightarrow> sound e t' \<and> enabled t' = enabled t \<and> vault_locked t' = vault_locked t"

lemma stays_trans: "stays e t u \<Longrightarrow> stays e u v \<Longrightarrow> stays e t v"
  by (simp add: stays_def)

lemma stays_from: "stays e u v \<Longrightarrow> enabled u = enabled t \<Longrightarrow> vault_locked u = vault_locked t \<Longrightarrow> stays e t v"
  by (simp add: stays_def)

lemma stays_phase: "core e t \<Longrightarrow> p \<noteq> PullNeeded \<or> pending_conflict t \<Longrightarrow> stays e t (set_phase p t)"
  by (auto simp: stays_def intro: set_phase_sound)

lemma stays_publish: "sound e t \<Longrightarrow> stays e t (publish t)"
  by (simp add: stays_def publish_sound)

lemma enter_stays:
  assumes "core e t"
  shows "stays e t (enter_intervention e why at t)"
proof -
  have settled: "stays e t (if phase u \<noteq> PullNeeded then set_phase PullNeeded u else if changed then publish u else u)"
    if "core e u" "pending_conflict u" "enabled u = enabled t" "vault_locked u = vault_locked t" for u :: "'a task" and changed
    using that set_phase_sound [of e u PullNeeded] publish_sound [of e u] by (simp add: stays_def sound_def)
  show ?thesis
  proof (cases "intervention t")
    case None
    with settled [of "(snd (new_uuid e (t\<lparr>pending_conflict := True\<rparr>)))
        \<lparr>intervention := Some \<lparr>int_id = fst (new_uuid e (t\<lparr>pending_conflict := True\<rparr>)), int_reason = why, int_remote_at = at\<rparr>\<rparr>" True] assms
    show ?thesis
      by (simp add: enter_intervention_def Let_def new_uuid_def core_def fields_ok_def split: if_split_asm)
  next
    case (Some i)
    with settled [of "t\<lparr>pending_conflict := True, intervention := Some (i\<lparr>int_reason := why, int_remote_at := at\<rparr>)\<rparr>"
        "int_reason i \<noteq> why \<or> int_remote_at i \<noteq> at"] assms
    show ?thesis
      by (auto simp: enter_intervention_def Let_def core_def fields_ok_def split: if_splits)
  qed
qed

lemma record_stays:
  assumes "core e t"
  shows "stays e t (record_capability_with e r notify owns t)"
proof -
  have "sound e (publish (u\<lparr>capability := r, engine := g, phase := (if enabled u then PausedCapability else Disabled)\<rparr>))"
    if "core e u" for u :: "'a task" and g
    using that by (intro publish_sound) (simp add: sound_def)
  from this [of t] this [of "(snd (new_uuid e t))\<lparr>capability_notice_id := Some (fst (new_uuid e t))\<rparr>"] assms show ?thesis
    by (simp add: record_capability_with_def Let_def stays_def case_prod_beta)
qed

lemma record_capability_stays: "core e t \<Longrightarrow> stays e t (record_capability e r notify t)"
  by (simp add: record_capability_def record_stays)

lemma retry_stays:
  assumes "core e t"
  shows "stays e t (schedule_retry e action err t)"
proof (cases "capability_issue err")
  case None
  have "sound e (publish (t\<lparr>backoff_delay := min (backoff_delay t * 2) AUTO_SYNC_BACKOFF_MAX, retry_action := action,
      retry_deadline := Some d, retry_at_unix := Some u, message := Some err, phase := RetryBackoff\<rparr>))" for d u
    using assms by (intro publish_sound)
      (simp add: sound_def core_def fields_ok_def AUTO_SYNC_BACKOFF_INITIAL_def AUTO_SYNC_BACKOFF_MAX_def)
  with None show ?thesis by (simp add: schedule_retry_def Let_def stays_def)
next
  case (Some r)
  have "core e (t\<lparr>retry_deadline := None, retry_at_unix := None, message := None\<rparr>)"
    using assms by (simp add: core_def fields_ok_def)
  from stays_from [OF record_capability_stays [OF this]] Some show ?thesis by (simp add: schedule_retry_def)
qed

lemma retry_dirty_stays: "core e t \<Longrightarrow> stays e t (retry_dirty e action err t)"
  unfolding retry_dirty_def by (rule stays_from [OF retry_stays]) simp_all

lemma guarded_revision [simp]: "guarded cs \<lparr>called = RevisionCall, call_enabled = a, call_locked = b, call_blocked = c, call_conflict = d, call_torn = x\<rparr>"
  by (simp add: guarded.simps)

lemma refresh_dirty:
  assumes "refresh_dirty_from_revision e t = (r, t')"
  shows "core e t \<Longrightarrow> core e t'" "enabled t' = enabled t" "vault_locked t' = vault_locked t" "phase t' = phase t"
    "pending_conflict t' = pending_conflict t" "engine t' = engine t" "capability t' = capability t" "retry_deadline t' = retry_deadline t"
    "calls t' = calls (log_call RevisionCall t)" "torn t' = torn t"
  using assms
  by (auto simp: refresh_dirty_from_revision_def Let_def core_log split: prod.splits sum.splits)

lemma update_engine_frame:
  assumes "update_engine_config expected f t = (r, t')"
  shows "core e t' = core e t" "enabled t' = enabled t" "vault_locked t' = vault_locked t" "phase t' = phase t"
    "pending_conflict t' = pending_conflict t" "capability t' = capability t" "calls t' = calls t"
  using assms by (auto simp: update_engine_config_def split: prod.splits)

lemmas update_engine_frames = update_engine_frame [OF prod.collapse [symmetric]]

lemma consent_frame [simp]:
  "core e (clear_consent_when_disabled t) = core e t" "enabled (clear_consent_when_disabled t) = enabled t"
  "vault_locked (clear_consent_when_disabled t) = vault_locked t" "phase (clear_consent_when_disabled t) = phase t"
  "pending_conflict (clear_consent_when_disabled t) = pending_conflict t"
  by (simp_all add: clear_consent_when_disabled_def update_engine_frames)

lemma binding_frame [simp]:
  "core e (refresh_capability_binding e t) = core e t" "enabled (refresh_capability_binding e t) = enabled t"
  "vault_locked (refresh_capability_binding e t) = vault_locked t" "phase (refresh_capability_binding e t) = phase t"
  "pending_conflict (refresh_capability_binding e t) = pending_conflict t"
  "task_config (refresh_capability_binding e t) = task_config t" "calls (refresh_capability_binding e t) = calls t"
  "engine_store (engine (refresh_capability_binding e t)) = engine_store (engine t)"
  by (simp_all add: refresh_capability_binding_def Let_def)

lemma run_check:
  assumes "run_check e t = (r, t')" "core e t" "\<not> vault_locked t"
  shows "core e t'" "enabled t' = enabled t" "vault_locked t' = vault_locked t" "pending_conflict t' = pending_conflict t"
    "phase t' = CheckingCapability"
proof -
  let ?s = "set_phase CheckingCapability (t\<lparr>capability := (capability t)\<lparr>cap_state := Checking\<rparr>\<rparr>)"
  have "core e ?s" using assms(2) by (intro sound_core [OF set_phase_sound]) simp_all
  then have "core e (log_call CheckCall ?s)" using assms(3) by (simp add: core_log guarded.simps)
  with assms(1) show "core e t'" "enabled t' = enabled t" "vault_locked t' = vault_locked t" "pending_conflict t' = pending_conflict t"
    "phase t' = CheckingCapability"
    by (auto simp: run_check_def Let_def split: prod.splits if_splits)
qed

lemma settle_stays:
  assumes "core e t"
  shows "stays e t (snd (settle_check e explicit notify consent r t))"
proof (cases "cap_state r = Supported")
  case True
  have "core e (reset_backoff (t\<lparr>capability := r, engine := g, capability_notice_id := None\<rparr>))" for g
    using assms by (intro core_reset) simp
  from stays_phase [OF this] True show ?thesis
    by (simp add: settle_check_def stays_def)
next
  case False
  define owns where "owns = (explicit \<and> \<not> permits_unpreconditioned_write r consent)"
  define retry where "retry = (cap_reason r = Some Network \<and> enabled t)"
  define v where "v = record_capability_with e r (notify \<or> (\<not> explicit \<and> \<not> retry)) owns t"
  define u where "u = (if retry then schedule_retry e RetryPoll (Anyhow (anyhow ''WebDAV connection unavailable'')) v else v)"
  have v: "stays e t v" unfolding v_def using assms by (rule record_stays)
  moreover have "core e v" using v by (simp add: stays_def sound_def)
  ultimately have u: "stays e t u" unfolding u_def using stays_trans [OF v retry_stays [of e v]] by simp
  moreover have "core e u" using u by (simp add: stays_def sound_def)
  ultimately have "stays e t (set_phase (if enabled u then Watching else Disabled) u)"
    using stays_phase [of e u "if enabled u then Watching else Disabled"] by (auto intro: stays_trans)
  then have "stays e t (if permits_unpreconditioned_write r consent \<and> \<not> retry
      then set_phase (if enabled u then Watching else Disabled) u else u)"
    using u by simp
  moreover have "snd (settle_check e explicit notify consent r t) = (if permits_unpreconditioned_write r consent \<and> \<not> retry
      then set_phase (if enabled u then Watching else Disabled) u else u)"
    using False by (simp add: settle_check_def Let_def u_def v_def owns_def retry_def)
  ultimately show ?thesis by simp
qed

lemma check_stays:
  assumes "sound e t"
  shows "stays e t (snd (check_capability e explicit notify t))"
proof -
  define u where "u = refresh_capability_binding e (if notify then t\<lparr>capability_notice_id := None\<rparr> else t)"
  have u: "sound e u" "enabled u = enabled t" "vault_locked u = vault_locked t" using assms by (simp_all add: u_def sound_def)
  have same: "stays e t u" using u by (simp add: stays_def)
  have phased: "stays e t (set_phase p u)" if "p \<noteq> PullNeeded" for p
    using stays_phase [of e u p] u that same stays_trans by (auto simp: sound_def)
  have checked: "stays e t (snd (settle_check e explicit notify consent r t'))" if "run_check e u = (r, t')" "\<not> vault_locked u" for consent r t'
    using run_check [OF that(1) _ that(2)] settle_stays [of e t'] u by (simp add: stays_def sound_def)
  show ?thesis
    unfolding check_capability_def Let_def u_def [symmetric]
    using same phased checked by (auto split: prod.split)
qed


section \<open>The capability admits what runs\<close>

lemma run_check_consent:
  assumes "honest_check e" "run_check e t = (r, t')" "\<not> torn t'"
    and "permits_unpreconditioned_write r (unsafe_write_consent t)"
  shows "permits_unpreconditioned_write r (unsafe_write_consent t')"
proof -
  define started where "started = cancel_generation (outside t)"
  define u where "u = log_call CheckCall (set_phase CheckingCapability (t\<lparr>capability := (capability t)\<lparr>cap_state := Checking\<rparr>\<rparr>))"
  obtain r0 out where op: "op_check e (engine u) started (outside u) = (r0, out)" by fastforce
  have eng: "engine u = engine t" by (simp add: u_def)
  let ?c = "config (sync_from_disk (engine_store (engine t)) (sync_disk (sync_world out)))"
  have cfg: "task_config t' = ?c" using assms(2) op eng
    by (auto simp: run_check_def Let_def u_def started_def split: if_splits)
  show ?thesis
  proof (cases "config_revision ?c = config_revision (task_config t)")
    case True
    have "webdav_unsafe_write_consent ?c = unsafe_write_consent t"
      using assms(2,3) op eng True
      by (auto simp: run_check_def Let_def u_def started_def unsafe_write_consent_def split: if_splits)
    with cfg assms(4) show ?thesis by (simp add: unsafe_write_consent_def)
  next
    case False
    then have "(cleanup_file r0 = None \<and> cap_reason r = Some ProbeCancelled \<and> cap_state r = Incomplete) \<or> (cleanup_file r0 \<noteq> None \<and> r = r0)"
      using assms(2) op eng
      by (auto simp: run_check_def Let_def u_def started_def issue_now_def issue_def split: if_splits)
    with capability_check.admits_without_leftovers [OF assms(1) op] assms(4) show ?thesis
      by (auto simp: permits_unpreconditioned_write_def split: if_splits)
  qed
qed

lemma blocks_cong:
  "task_config t' = task_config t \<Longrightarrow> capability t' = capability t \<Longrightarrow> capability_blocks t' = capability_blocks t"
  by (simp add: capability_blocks_def legacy_probe_exempt_def unsafe_write_consent_def)

definition admitted :: "'srv task \<Rightarrow> bool" where
  "admitted t \<longleftrightarrow> (capability_blocks t \<longrightarrow> torn t)"

lemma blocks_frames [simp]:
  "capability_blocks (set_phase p t) = capability_blocks t" "capability_blocks (log_call c t) = capability_blocks t"
  "capability_blocks (t\<lparr>outside := out\<rparr>) = capability_blocks t" "capability_blocks (t\<lparr>dirty := x\<rparr>) = capability_blocks t"
  "capability_blocks (publish t) = capability_blocks t"
  by (rule blocks_cong; simp)+

lemma admitted_frames [simp]:
  "admitted (set_phase p t) = admitted t" "admitted (log_call c t) = admitted t" "admitted (t\<lparr>outside := out\<rparr>) = admitted t"
  by (simp_all add: admitted_def)

lemma record_frame [simp]:
  "task_config (record_capability_with e r notify owns t) = task_config t"
  "capability (record_capability_with e r notify owns t) = r"
  "torn (record_capability_with e r notify owns t) = torn t"
  by (simp_all add: record_capability_with_def Let_def new_uuid_def)

lemma settle_admits:
  assumes "settle_check e explicit notify consent r t = (True, t')"
    and "\<not> torn t \<longrightarrow> permits_unpreconditioned_write r consent \<longrightarrow> permits_unpreconditioned_write r (unsafe_write_consent t)"
  shows "admitted t'"
proof (cases "cap_state r = Supported")
  case True
  have "t' = set_phase (if enabled t then Watching else Disabled)
      (reset_backoff (t\<lparr>capability := r, engine := (engine t)\<lparr>last_capability_report := Some r\<rparr>, capability_notice_id := None\<rparr>))"
    using assms(1) by (simp add: settle_check_def True)
  then show ?thesis by (simp add: admitted_def capability_blocks_def True)
next
  case unsupported: False
  show ?thesis
  proof (cases "cap_reason r = Some Network \<and> enabled t")
    case True
    with assms(1) unsupported show ?thesis by (simp add: settle_check_def Let_def)
  next
    case False
    let ?v = "record_capability_with e r (notify \<or> \<not> explicit) (explicit \<and> \<not> permits_unpreconditioned_write r consent) t"
    have "settle_check e explicit notify consent r t =
        (if permits_unpreconditioned_write r consent then (True, set_phase (if enabled ?v then Watching else Disabled) ?v) else (False, ?v))"
      unfolding settle_check_def Let_def if_not_P [OF unsupported] if_not_P [OF False] using False by simp
    with assms(1) have "permits_unpreconditioned_write r consent" "t' = set_phase (if enabled ?v then Watching else Disabled) ?v"
      by (simp_all split: if_split_asm)
    with assms(2) show ?thesis by (auto simp: admitted_def capability_blocks_def unsafe_write_consent_def)
  qed
qed

lemma check_admits:
  assumes "honest_check e" "check_capability e explicit notify t = (True, t')"
  shows "admitted t'"
proof -
  define u where "u = refresh_capability_binding e (if notify then t\<lparr>capability_notice_id := None\<rparr> else t)"
  have cfg: "unsafe_write_consent u = unsafe_write_consent t" by (simp add: u_def unsafe_write_consent_def)
  show ?thesis
  proof (cases "provider (task_config u) \<noteq> WebDav \<or> (\<not> explicit \<and> cap_state (capability u) = Supported) \<or> (\<not> explicit \<and> \<not> capability_blocks u)")
    case True
    with assms(2) have "t' = u" "provider (task_config u) \<noteq> WebDav \<or> cap_state (capability u) = Supported \<or> \<not> capability_blocks u"
      unfolding check_capability_def Let_def u_def [symmetric] by (auto split: if_splits)
    then show ?thesis by (auto simp: admitted_def capability_blocks_def)
  next
    case False
    with assms(2) obtain r v where run: "run_check e u = (r, v)"
      and settle: "settle_check e explicit notify (unsafe_write_consent t) r v = (True, t')"
      unfolding check_capability_def Let_def u_def [symmetric] by (auto split: if_splits prod.splits)
    from settle show ?thesis
      by (rule settle_admits) (use run_check_consent [OF assms(1) run] cfg in simp)
  qed
qed

text \<open>A task that may call the operations: enabled, unlocked, sound.\<close>

definition ready :: "'srv scheduler \<Rightarrow> 'srv task \<Rightarrow> bool" where
  "ready e t \<longleftrightarrow> sound e t \<and> enabled t \<and> \<not> vault_locked t"

lemma ready_after: "ready e t \<Longrightarrow> stays e t t' \<Longrightarrow> ready e t'"
  by (simp add: ready_def stays_def)

lemma readyD: "ready e t \<Longrightarrow> core e t" "ready e t \<Longrightarrow> enabled t" "ready e t \<Longrightarrow> \<not> vault_locked t" "ready e t \<Longrightarrow> sound e t"
  by (simp_all add: ready_def sound_def)

lemma run_push:
  assumes "run_push e t = (r, t')" "core e t" "enabled t" "\<not> vault_locked t" "\<not> pending_conflict t"
    and "honest_check e \<longrightarrow> admitted t \<or> repeats_push (calls t)"
  shows "core e t'" "enabled t'" "\<not> vault_locked t'" "phase t' = Pushing" "\<not> pending_conflict t'"
    "calls t' = calls (log_call PushCall t)"
proof -
  have "core e (set_phase Pushing t)" by (rule sound_core, rule set_phase_sound) (use assms(2) in simp_all)
  then have "core e (log_call PushCall (set_phase Pushing t))"
    using assms(3-6) by (auto simp: core_log guarded.simps admitted_def)
  with assms show "core e t'" "enabled t'" "\<not> vault_locked t'" "phase t' = Pushing" "\<not> pending_conflict t'"
    "calls t' = calls (log_call PushCall t)"
    by (auto simp: run_push_def Let_def log_call_def split: prod.splits)
qed

lemma push_failed_stays:
  assumes "core e t"
  shows "stays e t (push_failed e err t)"
proof -
  let ?u = "retry_dirty e RetryPush err t"
  have u: "stays e t ?u" using assms by (rule retry_dirty_stays)
  then have c: "stays e t (snd (check_capability e True False ?u))" using check_stays stays_trans stays_def by metis
  let ?v = "(snd (check_capability e True False ?u))\<lparr>capability_notice_id := capability_notice_id ?u\<rparr>"
  have "core e ?v" using c by (simp add: stays_def sound_def)
  then have "stays e ?v (record_capability e r True ?v)" for r by (rule record_capability_stays)
  then have "stays e t (record_capability e r True ?v)" for r using c by (simp add: stays_def)
  with u c show ?thesis by (simp add: push_failed_def Let_def case_prod_beta split: option.split)
qed

definition may_push :: "'srv scheduler \<Rightarrow> 'srv task \<Rightarrow> bool" where
  "may_push e t \<longleftrightarrow> (honest_check e \<longrightarrow> admitted t \<or> repeats_push (calls (log_call RevisionCall t)))"

lemma refresh_ready:
  assumes "refresh_dirty_from_revision e t = (r, t')" "ready e t"
  shows "ready e t'" "stays e t t'" "admitted t' = admitted t"
proof -
  show "ready e t'" "stays e t t'" using refresh_dirty [OF assms(1)] assms(2) by (auto simp: ready_def sound_def stays_def)
  show "admitted t' = admitted t" using blocks_cong [of t' t] refresh_dirty(6,7,10) [OF assms(1)] by (simp add: admitted_def)
qed

lemma after_push:
  assumes "core e t" "enabled t" "\<not> vault_locked t" "phase t \<noteq> PullNeeded"
    and "may_push e t \<Longrightarrow> ready e t \<Longrightarrow> 0 < n \<Longrightarrow> stays e t (push_attempts e n t)"
    and "\<And>r u. refresh_dirty_from_revision e t = (r, u) \<Longrightarrow> 0 < n \<Longrightarrow> ready e u \<Longrightarrow> stays e u (push_attempts e n u)"
  shows "stays e t (case refresh_dirty_from_revision e t of
      (Inl err, t) \<Rightarrow> retry_dirty e RetryPush err t
    | (Inr _, t) \<Rightarrow> if dirty t \<and> 0 < n then push_attempts e n t else set_phase Watching t)"
proof -
  obtain r u where run: "refresh_dirty_from_revision e t = (r, u)" by fastforce
  have "ready e t" using assms(1-4) by (simp add: ready_def sound_def)
  from refresh_ready [OF run this] have u: "ready e u" "stays e t u" by auto
  show ?thesis
    using u run assms(6) [OF run] retry_dirty_stays [OF readyD(1) [OF u(1)]] stays_phase [OF readyD(1) [OF u(1)], of Watching]
    by (auto split: sum.split intro: stays_trans)
qed

lemma attempt_stays:
  assumes "ready e t" "may_push e t"
    and more: "\<And>u. 0 < n \<Longrightarrow> ready e u \<Longrightarrow> may_push e u \<Longrightarrow> stays e u (push_attempts e n u)" "0 < n \<Longrightarrow> honest_check e \<Longrightarrow> admitted t"
  shows "stays e t (push_attempts e (Suc n) t)"
proof (cases "pending_conflict t")
  case True
  have "core e (t\<lparr>dirty := True\<rparr>)" using assms(1) by (simp add: readyD)
  from stays_phase [OF this, of PullNeeded] True show ?thesis by (simp add: stays_def)
next
  case no_conflict: False
  obtain r u where run: "refresh_dirty_from_revision e t = (r, u)" by fastforce
  note u = refresh_ready [OF run assms(1)] refresh_dirty [OF run]
  show ?thesis
  proof (cases r)
    case (Inl err)
    with run no_conflict u(2) retry_dirty_stays [OF readyD(1) [OF u(1)]] show ?thesis by (auto intro: stays_trans)
  next
    case (Inr rev)
    show ?thesis
    proof (cases "dirty u")
      case False
      with run Inr no_conflict u(2) show ?thesis by simp
    next
      case True
      obtain q v where push: "run_push e u = (q, v)" by fastforce
      have admitted: "honest_check e \<longrightarrow> admitted u \<or> repeats_push (calls u)" using assms(2) u by (simp add: may_push_def)
      have "\<not> pending_conflict u" using u no_conflict by simp
      note v = run_push [OF push readyD(1-3) [OF u(1)] this admitted]
      have uv: "core e v \<Longrightarrow> stays e v x \<Longrightarrow> stays e t x" for x
        using v(2,3) readyD(2,3) [OF assms(1)] by (simp add: stays_def)
      show ?thesis
      proof (cases q)
        case (Inl err)
        have "stays e t (push_failed e err v)" using uv [OF v(1) push_failed_stays [OF v(1)]] .
        with run Inr no_conflict True push Inl show ?thesis by simp
      next
        case pushed: (Inr res)
        let ?w = "set_config (updated_config res) (set_last_result res v)"
        have w: "core e ?w" "enabled ?w" "\<not> vault_locked ?w" "phase ?w = Pushing" "\<not> pending_conflict ?w" "calls ?w = calls v"
          using v by (simp_all add: core_set_result)
        have wt: "stays e ?w x \<Longrightarrow> stays e t x" for x
          using w(2,3) readyD(2,3) [OF assms(1)] by (simp add: stays_def)
        have body: "push_attempts e (Suc n) t = (case task_status res of
             Pushed _ \<Rightarrow> (case refresh_dirty_from_revision e (reset_backoff (clear_intervention (resample e (?w\<lparr>remote_missing := False\<rparr>)))) of
                (Inl err, t) \<Rightarrow> retry_dirty e RetryPush err t
              | (Inr _, t) \<Rightarrow> if dirty t \<and> 0 < n then push_attempts e n t else set_phase Watching t)
           | PullRequired at why \<Rightarrow> enter_intervention e why at (?w\<lparr>dirty := True\<rparr>)
           | _ \<Rightarrow> set_phase Watching (reset_backoff ?w))"
          using run Inr no_conflict True push pushed by (cases "task_status res") (simp_all add: Let_def)
        let ?x = "reset_backoff (clear_intervention (resample e (?w\<lparr>remote_missing := False\<rparr>)))"
        have x: "core e ?x" "enabled ?x" "\<not> vault_locked ?x" "phase ?x \<noteq> PullNeeded" "calls ?x = calls v"
          using w by (simp_all add: core_reset core_clear)
        have again: "stays e y (push_attempts e n y)"
          if rd: "refresh_dirty_from_revision e ?x = (s, y)" and left: "0 < n" and y: "ready e y" for s y
        proof (rule more(1) [OF left y])
          let ?p = "\<lparr>called = PushCall, call_enabled = enabled u, call_locked = vault_locked u,
              call_blocked = capability_blocks u, call_conflict = pending_conflict u, call_torn = torn u\<rparr>"
          obtain a b where "calls (log_call RevisionCall y) = calls u @ [?p, a, b]" "called a = RevisionCall" "called b = RevisionCall"
            using refresh_dirty(9) [OF rd] x(5) v(6) by (simp add: log_call_def)
          moreover have "honest_check e \<Longrightarrow> call_blocked ?p \<longrightarrow> call_torn ?p" using more(2) [OF left] u by (simp add: admitted_def)
          ultimately have "honest_check e \<Longrightarrow> repeats_push (calls (log_call RevisionCall y))"
            unfolding repeats_push_def by (intro exI [of _ "calls u"] exI [of _ ?p] exI [of _ a] exI [of _ b]) simp
          then show "may_push e y" by (simp add: may_push_def)
        qed
        have "stays e ?x (case refresh_dirty_from_revision e ?x of
            (Inl err, t) \<Rightarrow> retry_dirty e RetryPush err t
          | (Inr _, t) \<Rightarrow> if dirty t \<and> 0 < n then push_attempts e n t else set_phase Watching t)"
          by (rule after_push [OF x(1-4) more(1) again]) assumption+
        then have sent: "stays e t (case refresh_dirty_from_revision e ?x of
            (Inl err, t) \<Rightarrow> retry_dirty e RetryPush err t
          | (Inr _, t) \<Rightarrow> if dirty t \<and> 0 < n then push_attempts e n t else set_phase Watching t)"
          by (rule stays_from) (simp_all add: v(2,3) readyD(2,3) [OF assms(1)])
        have rest: "stays e t (set_phase Watching (reset_backoff ?w))"
          by (rule stays_from [OF stays_phase [OF core_reset [OF w(1)]]]) (simp_all add: v(2,3) readyD(2,3) [OF assms(1)])
        have "core e (?w\<lparr>dirty := True\<rparr>)" using w(1) by simp
        then have needed: "stays e t (enter_intervention e why at (?w\<lparr>dirty := True\<rparr>))" for why at
          by (rule stays_from [OF enter_stays]) (simp_all add: v(2,3) readyD(2,3) [OF assms(1)])
        show ?thesis
          unfolding body by (cases "task_status res") (simp_all only: SyncStatus.case sent rest needed)
      qed
    qed
  qed
qed

lemma push_attempts_stays:
  assumes "ready e t" "honest_check e \<Longrightarrow> admitted t"
  shows "stays e t (push_attempts e MAX_IMMEDIATE_PUSHES t)"
proof -
  have one: "stays e u (push_attempts e (Suc 0) u)" if "ready e u" "may_push e u" for u :: "'a task"
    by (rule attempt_stays [OF that]) simp_all
  have "stays e t (push_attempts e (Suc (Suc 0)) t)"
    by (rule attempt_stays [OF assms(1)]) (use assms one in \<open>simp_all add: may_push_def\<close>)
  then show ?thesis by (simp add: MAX_IMMEDIATE_PUSHES_def numeral_2_eq_2)
qed

lemma checked_ready:
  assumes "ensure_capability e explicit t = (p, t')" "ready e t"
  shows "ready e t'" "stays e t t'" "p \<Longrightarrow> honest_check e \<Longrightarrow> admitted t'"
proof -
  show "stays e t t'" using check_stays [OF readyD(4) [OF assms(2)]] assms(1) unfolding ensure_capability_def by (metis snd_conv)
  then show "ready e t'" using assms(2) by (rule ready_after [rotated])
  show "admitted t'" if p "honest_check e"
    using check_admits [OF that(2), of explicit explicit t t'] assms(1) that by (simp add: ensure_capability_def)
qed

lemma push_if_dirty_stays:
  assumes "ready e t"
  shows "stays e t (push_if_dirty e t)"
proof -
  obtain p u where run: "ensure_capability e False t = (p, u)" by fastforce
  note u = checked_ready [OF run assms(1)]
  show ?thesis
    using u run push_attempts_stays [of e u] by (cases p) (auto simp: push_if_dirty_def intro: stays_trans)
qed

lemma phase_core: "ready e t \<Longrightarrow> p \<noteq> PullNeeded \<Longrightarrow> stays e t (set_phase p t)"
  by (intro stays_phase) (simp_all add: readyD)

lemma ready_update:
  assumes "ready e t" "core e u" "enabled u = enabled t" "vault_locked u = vault_locked t" "phase u \<noteq> PullNeeded \<or> pending_conflict u"
  shows "ready e u"
  using assms by (auto simp: ready_def sound_def)

lemma push_missing_stays:
  assumes "ready e t" "phase t \<noteq> PullNeeded"
  shows "stays e t (push_missing e t)"
  unfolding push_missing_def
  by (rule stays_from [OF push_if_dirty_stays], rule ready_update [OF assms(1)])
    (use assms in \<open>simp_all add: readyD core_clear core_reset\<close>)

lemma note_unchanged_stays:
  assumes "ready e t" "phase t \<noteq> PullNeeded"
  shows "stays e t (note_unchanged e t)"
proof -
  let ?t = "reset_backoff t"
  have t: "ready e ?t" using assms by (intro ready_update [OF assms(1)]) (simp_all add: readyD core_reset)
  obtain r u where run: "refresh_dirty_from_revision e ?t = (r, u)" by fastforce
  note u = refresh_ready [OF run t]
  have "stays e ?t (enter_intervention e why at (?t\<lparr>dirty := True\<rparr>))" for why at
    using readyD(1) [OF t] by (intro stays_from [OF enter_stays]) simp_all
  moreover have "stays e ?t (case r of Inl err \<Rightarrow> retry_dirty e RetryPoll err u
      | Inr _ \<Rightarrow> set_phase (if pending_conflict u then PullNeeded else Watching) u)"
    using u(2) retry_dirty_stays [OF readyD(1) [OF u(1)]] stays_phase [OF readyD(1) [OF u(1)]]
    by (auto split: sum.split intro: stays_trans)
  ultimately have "stays e ?t (note_unchanged e t)"
    using run by (auto simp: note_unchanged_def Let_def split: sum.splits)
  then show ?thesis by (rule stays_from) simp_all
qed

lemma pull_remote_stays:
  assumes "ready e t" "honest_check e \<Longrightarrow> admitted t"
  shows "stays e t (pull_remote e at expected t)"
proof -
  obtain r u where run: "run_pull e expected t = (r, u)" by fastforce
  have "core e (log_call (PullCall expected) (set_phase Pulling t))"
    using assms(2) readyD(2,3) [OF assms(1)] sound_core [OF set_phase_sound [OF readyD(1) [OF assms(1)], of Pulling]]
    by (simp add: core_log guarded.simps admitted_def)
  then have u: "core e u" "enabled u = enabled t" "vault_locked u = vault_locked t" "phase u = Pulling"
    using run by (auto simp: run_pull_def Let_def split: prod.splits)
  have from_u: "stays e t x" if "stays e v x" "enabled v = enabled u" "vault_locked v = vault_locked u" for v x
    using that u by (auto intro: stays_from)
  show ?thesis
  proof (cases r)
    case (Inl err)
    with run from_u [OF retry_stays [OF u(1)]] show ?thesis by (simp add: pull_remote_def)
  next
    case (Inr res)
    let ?v = "adopt_settings res (set_config (updated_config res) (set_last_result res u))"
    have v: "core e ?v" "enabled ?v = enabled u" "vault_locked ?v = vault_locked u" "phase ?v = Pulling"
      using u by (simp_all add: adopt_settings_def core_set_result split: option.split sum.split)
    let ?x = "reset_backoff (clear_intervention (resample e (?v\<lparr>remote_missing := False\<rparr>)))"
    have x: "core e ?x" "enabled ?x = enabled u" "vault_locked ?x = vault_locked u"
      using v by (simp_all add: core_reset core_clear)
    obtain s y where rd: "refresh_dirty_from_revision e ?x = (s, y)" by fastforce
    note y = refresh_dirty [OF rd]
    have pulled: "stays e t (settle_pulled e ?v)"
      using from_u [of y] y(1) [OF x(1)] y(2,3) x(2,3) retry_dirty_stays [of e y] stays_phase [of e y Watching] rd
      by (auto simp: settle_pulled_def Let_def split: sum.split)
    have rest: "stays e t (set_phase Watching (reset_backoff ?v))"
      by (rule from_u [OF stays_phase [OF core_reset [OF v(1)]]]) (use v in simp_all)
    have needed: "stays e t (enter_intervention e why a (?v\<lparr>dirty := True\<rparr>))" for why a
      by (rule from_u [OF enter_stays]) (use v in simp_all)
    have "pull_remote e at expected t = (case task_status res of
             Pulled _ \<Rightarrow> settle_pulled e ?v
           | UpToDate _ \<Rightarrow> settle_pulled e ?v
           | PullRequired remote_at why \<Rightarrow>
               enter_intervention e why (if remote_at = None then Some at else remote_at) (?v\<lparr>dirty := True\<rparr>)
           | _ \<Rightarrow> set_phase Watching (reset_backoff ?v))"
      using run Inr by (cases "task_status res") (simp_all add: pull_remote_def Let_def)
    then show ?thesis by (cases "task_status res") (simp_all only: SyncStatus.case pulled rest needed)
  qed
qed

lemma examine_update_stays:
  assumes "ready e t" "honest_check e \<Longrightarrow> admitted t"
  shows "stays e t (examine_update e at content t)"
proof (cases content)
  case None
  with readyD(1) [OF assms(1)] show ?thesis
    by (simp add: examine_update_def) (rule stays_from [OF enter_stays]; simp)
next
  case (Some remote)
  obtain r u where rd: "refresh_dirty_from_revision e t = (r, u)" by fastforce
  note u = refresh_ready [OF rd assms(1)]
  have blocks: "honest_check e \<Longrightarrow> admitted u" using u(3) assms(2) by simp
  have entered: "stays e u (enter_intervention e why a (u\<lparr>dirty := True\<rparr>))" for why a
    by (rule stays_from [OF enter_stays]) (use readyD(1) [OF u(1)] in simp_all)
  have "stays e u (case r of Inl err \<Rightarrow> retry_dirty e RetryPoll err u
           | Inr expected \<Rightarrow>
               (case classify_content_revisions expected remote (last_synced_local_revision (task_config u)) of
                  LocalChanged \<Rightarrow> push_if_dirty e u
                | Diverged \<Rightarrow> enter_intervention e BothSidesChanged (Some at) (u\<lparr>dirty := True\<rparr>)
                | MissingBaseline \<Rightarrow> enter_intervention e MissingSyncBaseline (Some at) (u\<lparr>dirty := True\<rparr>)
                | _ \<Rightarrow> pull_remote e at expected u))"
    using retry_dirty_stays [OF readyD(1) [OF u(1)]] push_if_dirty_stays [OF u(1)] entered
      pull_remote_stays [OF u(1) blocks]
    by (auto split: sum.split SyncContentRelation.split)
  with u(2) show ?thesis using rd Some by (auto simp: examine_update_def split: sum.splits intro: stays_trans)
qed

lemma poll_remote_stays:
  assumes "ready e t"
  shows "stays e t (poll_remote e t)"
proof -
  obtain p u where run: "ensure_capability e False t = (p, u)" by fastforce
  note u = checked_ready [OF run assms(1)]
  show ?thesis
  proof (cases p)
    case False
    with run u show ?thesis by (simp add: poll_remote_def)
  next
    case True
    obtain r out where op: "op_remote_state e (engine u) (outside u) = (r, out)" by fastforce
    let ?v = "(log_call StateCall (set_phase Pulling u))\<lparr>outside := out\<rparr>"
    have "core e (log_call StateCall (set_phase Pulling u))"
      using u(3) [OF True] readyD(2,3) [OF u(1)] sound_core [OF set_phase_sound [OF readyD(1) [OF u(1)], of Pulling]]
      by (simp add: core_log guarded.simps admitted_def)
    then have v: "ready e ?v" "phase ?v \<noteq> PullNeeded" "honest_check e \<Longrightarrow> admitted ?v"
      using u(1) u(3) [OF True] by (simp_all add: ready_def sound_def)
    have uv: "stays e u x" if "stays e ?v x" for x using that by (simp add: stays_def)
    have watching: "stays e ?v (set_phase Watching (reset_backoff ?v))"
      by (rule stays_from [OF stays_phase [OF core_reset [OF readyD(1) [OF v(1)]]]]) simp_all
    have "stays e ?v (case r of
                Inl err \<Rightarrow> schedule_retry e RetryPoll err ?v
              | Inr RemoteDisabled \<Rightarrow> set_phase Watching (reset_backoff ?v)
              | Inr (RemoteBinding p) \<Rightarrow>
                  if p = GithubGist \<and> gist_id (task_config ?v) = None then push_missing e ?v
                  else set_phase Watching (reset_backoff ?v)
              | Inr RemoteMissing \<Rightarrow> push_missing e ?v
              | Inr RemoteNotModified \<Rightarrow> note_unchanged e ?v
              | Inr RemoteUpToDate \<Rightarrow> note_unchanged e ?v
              | Inr (RemoteUpdated at tag payload content) \<Rightarrow> examine_update e at content ?v)"
      using retry_stays [OF readyD(1) [OF v(1)]] watching push_missing_stays [OF v(1,2)] note_unchanged_stays [OF v(1,2)]
        examine_update_stays [OF v(1,3)]
      by (simp split: sum.split RemoteSyncState.split)
    from stays_trans [OF u(2) uv [OF this]] show ?thesis
      using run True op by (cases r) (simp_all add: poll_remote_def Let_def)
  qed
qed

lemma on_tick_stays:
  assumes "sound e t"
  shows "stays e t (on_tick e t)"
proof (cases "\<not> enabled t \<or> vault_locked t \<or> retry_deadline t \<noteq> None")
  case True
  with assms(1) show ?thesis by (auto simp: on_tick_def stays_def)
next
  case False
  then have t: "ready e t" using assms(1) by (simp add: ready_def)
  obtain p u where run: "ensure_capability e False t = (p, u)" by fastforce
  note u = checked_ready [OF run t]
  have pushed: "stays e u (push_if_dirty e u)" by (rule push_if_dirty_stays [OF u(1)])
  then have "stays e u (poll_remote e (push_if_dirty e u))"
    using poll_remote_stays [OF ready_after [OF u(1) pushed]] by (rule stays_trans)
  with pushed u(2) False run show ?thesis
    by (cases p) (auto simp: on_tick_def Let_def intro: stays_trans)
qed

section \<open>Commands and the loop\<close>

lemma stays_sound: "stays e t t' \<Longrightarrow> sound e t'"
  by (simp add: stays_def)

lemma issue_sound: "core e t \<Longrightarrow> sound e (configuration_issue e step t)"
  unfolding configuration_issue_def by (rule stays_sound [OF record_capability_stays])

lemma passphrase_frame [simp]:
  "core e (snd (read_passphrase t)) = core e t" "phase (snd (read_passphrase t)) = phase t"
  "pending_conflict (snd (read_passphrase t)) = pending_conflict t"
  by (simp_all add: read_passphrase_def Let_def case_prod_beta)

lemma save_consent_frame [simp]:
  "core e (snd (save_consent consent t)) = core e t" "phase (snd (save_consent consent t)) = phase t"
  "pending_conflict (snd (save_consent consent t)) = pending_conflict t"
  by (simp_all add: save_consent_def case_prod_beta update_engine_frames)

lemma sound_cong: "core e u = core e t \<Longrightarrow> phase u = phase t \<Longrightarrow> pending_conflict u = pending_conflict t \<Longrightarrow> sound e u = sound e t"
  by (simp add: sound_def)

lemma ensure_sound: "sound e t \<Longrightarrow> sound e (snd (ensure_capability e explicit t))"
  unfolding ensure_capability_def by (rule stays_sound [OF check_stays])

lemma enable_sound:
  assumes "sound e t"
  shows "sound e (enable_checked e consent t)"
proof -
  let ?t = "t\<lparr>capability_notice_id := None\<rparr>"
  have t: "sound e ?t" using assms(1) by (simp add: sound_def)
  define u where "u = snd (save_consent consent (snd (read_passphrase ?t)))"
  have u: "sound e u" using t by (simp add: u_def sound_def)
  define v where "v = snd (ensure_capability e True u)"
  have v: "sound e v" unfolding v_def using u by (rule ensure_sound)
  define f where "f = (\<lambda>c::SyncConfig. c\<lparr>auto_sync_enabled := True\<rparr>)"
  define w where "w = snd (update_engine_config (config_revision (task_config v)) f v)"
  have w: "sound e w" using v by (simp add: w_def sound_def update_engine_frames)
  have "sound e (publish (w\<lparr>enabled := True\<rparr>))" using w by (intro publish_sound) (simp add: sound_def)
  then have ticked: "sound e (on_tick e (publish (w\<lparr>enabled := True\<rparr>)))" by (rule stays_sound [OF on_tick_stays])
  have locked: "sound e (set_phase PausedVaultLocked ?t)" by (rule set_phase_sound [OF sound_core [OF t]]) simp
  have issues: "sound e (configuration_issue e step (snd (read_passphrase ?t)))" "sound e (configuration_issue e step u)"
    "sound e (configuration_issue e step w)" for step
    using sound_core [OF t] sound_core [OF u] sound_core [OF w] by (simp_all add: issue_sound)
  show ?thesis
    using locked issues ticked v
    unfolding enable_checked_def Let_def case_prod_beta u_def [symmetric] v_def [symmetric] f_def [symmetric] w_def [symmetric]
    by (simp add: u_def [symmetric] v_def [symmetric] w_def [symmetric] split: bool.split sum.split)
qed

lemma adopt_frame [simp]: "core e (adopt_engine e g t) = core e t" "phase (adopt_engine e g t) = phase t"
  "pending_conflict (adopt_engine e g t) = pending_conflict t" "vault_locked (adopt_engine e g t) = vault_locked t"
  by (simp_all add: adopt_engine_def)

lemma resting_no_pull [simp]: "resting_phase t \<noteq> PullNeeded"
  by (simp add: resting_phase_def)

lemma apply_engine_sound:
  assumes "core e t"
  shows "sound e (apply_engine e g t)"
proof -
  define u where "u = clear_consent_when_disabled ((clear_last_result (adopt_engine e g t))
    \<lparr>enabled := auto_sync_enabled (task_config (clear_last_result (adopt_engine e g t)))\<rparr>)"
  define v where "v = reset_backoff (clear_intervention ((resample e u)\<lparr>remote_missing := False\<rparr>))"
  have v: "core e v" using assms by (simp add: v_def u_def core_reset core_clear core_clear_result)
  obtain r w where run: "(if enabled v \<and> \<not> vault_locked v then refresh_dirty_from_revision e v else (Inr [], v\<lparr>dirty := False\<rparr>)) = (r, w)"
    by fastforce
  then have "core e w" using v refresh_dirty(1) by (auto split: if_splits)
  then have "sound e (retry_dirty e RetryPoll err w)" "sound e (set_phase (resting_phase w) w)" for err
    by (auto intro: set_phase_sound stays_sound [OF retry_dirty_stays])
  with run show ?thesis unfolding apply_engine_def Let_def u_def [symmetric] v_def [symmetric] by (simp split: sum.split)
qed

lemma note_manual_core: "core e t \<Longrightarrow> core e (note_manual e status t)"
  using sound_core [OF stays_sound [OF enter_stays [of e "t\<lparr>dirty := True\<rparr>"]]]
  by (cases status) (auto simp: note_manual_def intro!: core_clear)

lemma reconcile_sound:
  assumes "core e t"
  shows "sound e (reconcile_manual_sync e status g s t)"
proof -
  define u where "u = clear_consent_when_disabled ((adopt_engine e g t)
    \<lparr>settings_store := s, enabled := auto_sync_enabled (task_config ((adopt_engine e g t)\<lparr>settings_store := s\<rparr>))\<rparr>)"
  define v where "v = note_manual e status (reset_backoff (clear_last_result u))"
  have v: "core e v" using assms by (simp add: v_def u_def note_manual_core core_reset core_clear_result)
  obtain r w where run: "(if \<not> pending_conflict v then refresh_dirty_from_revision e v else (Inr [], v)) = (r, w)"
    by fastforce
  then have w: "core e w" using v refresh_dirty(1) by (auto split: if_splits)
  then have "sound e (retry_dirty e RetryPoll err w)" for err by (rule stays_sound [OF retry_dirty_stays])
  moreover have "sound e (publish (w\<lparr>phase := (if resting_phase w = Watching \<and> pending_conflict w then PullNeeded else resting_phase w)\<rparr>))"
    using w by (intro publish_sound) (simp add: sound_def)
  ultimately show ?thesis using run
    unfolding reconcile_manual_sync_def Let_def u_def [symmetric] v_def [symmetric] by (auto split: sum.split if_splits)
qed

lemma lock_sound:
  assumes "sound e t"
  shows "sound e (set_vault_lock e locked t)"
proof -
  have c: "core e (t\<lparr>vault_locked := locked\<rparr>)" "core e (reset_backoff (t\<lparr>vault_locked := locked\<rparr>))"
    "core e (reset_backoff (t\<lparr>vault_locked := locked, capability := r\<rparr>))" for r
    using assms(1) by (simp_all add: core_reset sound_core)
  have tick: "sound e (on_tick e (set_phase Watching u))" if "core e u" for u
    using that by (intro stays_sound [OF on_tick_stays [OF set_phase_sound]]) simp_all
  show ?thesis
    using c tick assms(1) by (auto simp: set_vault_lock_def Let_def sound_def intro: set_phase_sound [unfolded sound_def, THEN conjunct1]
      set_phase_sound [unfolded sound_def, THEN conjunct2, rule_format])
qed

lemma finish_frame [simp]: "sound e (finish_check k t) = sound e t"
  by (simp add: finish_check_def sound_def)

theorem command_sound:
  assumes "sound e t" "run_command e c t = Some t'"
  shows "sound e t'"
proof -
  have tick: "sound e u \<Longrightarrow> sound e (on_tick e u)" for u by (rule stays_sound [OF on_tick_stays])
  have applied: "sound e (apply_engine e g t)" for g by (rule apply_engine_sound [OF sound_core [OF assms(1)]])
  have cancelled: "sound e (cancelled_check e t)"
    using stays_sound [OF record_capability_stays [OF core_no_retry [OF sound_core [OF assms(1)]]]] core_no_retry [OF sound_core [OF assms(1)]] assms(1)
    by (simp add: cancelled_check_def Let_def sound_def)
  have on: "sound e (enable_checked e x t)" for x by (rule enable_sound [OF assms(1)])
  have ensured: "sound e (snd (ensure_capability e True t))" by (rule ensure_sound [OF assms(1)])
  have locked: "sound e (set_vault_lock e x t)" for x by (rule lock_sound [OF assms(1)])
  show ?thesis
    using assms(2)
    by (cases c) (auto simp: Let_def case_prod_beta assms(1) sound_core split: if_splits
      intro: tick [OF assms(1)] tick [OF ensured] tick [OF applied] on ensured applied cancelled reconcile_sound locked
        sound_cong [THEN iffD1, rotated -1, OF assms(1)])
qed

lemma start_sound: "sound e (start_task e s g locked out)"
proof -
  define on where "on = auto_sync_enabled (config (engine_store g))"
  define t where "t = publish
            \<lparr>capability = default_report, capability_notice_id = None, capability_binding = None, settings_store = s,
             engine = g, enabled = on, vault_locked = locked, fingerprint = sample_fingerprint e (sync_world out),
             phase = (if \<not> on then Disabled else if locked then PausedVaultLocked else Watching),
             message = None, last_result = None, last_result_id = None, result_sequence = 0, dirty = False,
             remote_missing = False, pending_conflict = False, intervention = None,
             backoff_delay = AUTO_SYNC_BACKOFF_INITIAL, retry_action = RetryPoll, retry_deadline = None,
             retry_at_unix = None, task_revision = 0, published = [], outside = out, calls = [], torn = False\<rparr>"
  have t: "sound e t" unfolding t_def
    by (rule publish_sound)
      (simp add: sound_def core_def fields_ok_def numbered_def AUTO_SYNC_BACKOFF_INITIAL_def AUTO_SYNC_BACKOFF_MAX_def)
  have "enabled t \<and> \<not> vault_locked t \<Longrightarrow> sound e (poll_remote e t)"
    using t by (intro stays_sound [OF poll_remote_stays]) (simp add: ready_def)
  moreover have "sound e (on_tick e t)" by (rule stays_sound [OF on_tick_stays [OF t]])
  ultimately show ?thesis using t unfolding start_task_def Let_def on_def [symmetric] t_def [symmetric] by simp
qed

lemma retry_run_sound:
  assumes "ready e t"
  shows "sound e (run_retry e t)"
proof -
  let ?t = "t\<lparr>retry_deadline := None, retry_at_unix := None, message := None\<rparr>"
  have "core e ?t" using readyD(1) [OF assms(1)] by (simp add: core_def fields_ok_def)
  then have "ready e ?t" using assms(1) by (simp add: ready_def sound_def)
  then show ?thesis
    using stays_sound [OF poll_remote_stays] stays_sound [OF push_if_dirty_stays]
    by (cases "retry_action t") (simp_all add: run_retry_def Let_def)
qed

lemma debounce_sound:
  assumes "sound e t"
  shows "sound e (fst (schedule_debounced_push (t, d)))"
  using assms set_phase_sound [OF sound_core [OF assms], of Debouncing] by (simp add: schedule_debounced_push_def)

lemma outside_sound [simp]: "sound e (on_outside f t) = sound e t"
  by (simp add: on_outside_def sound_def)

lemma turn_sound:
  assumes "sound e (sched l)" "loop_turn e l = Continues l'"
  shows "sound e (sched l')"
proof (cases "commands (outside (sched l))")
  case (Cons c cs)
  then show ?thesis
    using assms(2) command_sound [of e "on_outside (\<lambda>out. out\<lparr>commands := cs\<rparr>) (sched l)" c] assms(1)
    by (auto simp: loop_turn_def Let_def split: option.splits)
next
  case Nil
  have due_ready: "due d (sched l) \<Longrightarrow> ready e (sched l)" for d using assms(1) by (auto simp: due_def ready_def)
  have "sound e (sched l')" if "loop_turn e l = Continues l'" "due (retry_deadline (sched l)) (sched l)"
    using that Nil retry_run_sound [OF due_ready [OF that(2)]] by (auto simp: loop_turn_def Let_def split: if_splits)
  moreover have "sound e (push_if_dirty e (sched l))" if "due d (sched l)" for d
    by (rule stays_sound [OF push_if_dirty_stays [OF due_ready [OF that]]])
  moreover have "sound e (on_tick e (sched l))" by (rule stays_sound [OF on_tick_stays [OF assms(1)]])
  moreover have "sound e (fst (schedule_debounced_push (on_outside f (sched l), d)))" for f d
    by (rule debounce_sound) (simp add: assms(1))
  ultimately show ?thesis
    using assms(1,2) Nil by (auto simp: loop_turn_def Let_def case_prod_beta split: if_splits)
qed

lemma run_sound: "scheduler_run e l \<Longrightarrow> sound e (sched l)"
proof (induction rule: scheduler_run.induct)
  case (Start s g locked watching out)
  then show ?case by (simp add: start_loop_def Let_def start_sound)
next
  case (Step l l')
  from Step.hyps(2) show ?case
    by (rule turn_or_other) (use Step.IH in \<open>auto intro: turn_sound\<close>)
qed

lemma guarded_calls:
  assumes "scheduler_run e l" "honest_check e" "i < length (calls (sched l))"
  shows "guarded (take i (calls (sched l))) (calls (sched l) ! i)"
  using run_sound [OF assms(1)] assms(2,3) by (simp add: sound_task_ok calls_ok_def)

section \<open>Ticks\<close>

definition settled :: "'srv scheduler \<Rightarrow> string \<Rightarrow> 'srv task \<Rightarrow> bool" where
  \<comment> \<open>enabled, unlocked, nothing waits, and the local data is what was last synchronised\<close>
  "settled e r t \<longleftrightarrow>
     enabled t \<and> \<not> vault_locked t \<and> retry_deadline t = None \<and> \<not> pending_conflict t \<and> \<not> remote_missing t \<and>
     provider (task_config t) \<noteq> WebDav \<and> last_synced_local_revision (task_config t) = Some r \<and>
     (\<forall>g s out. fst (op_local_revision e g s out) = Inr r)"

lemma binding_settled [simp]: "settled e r (refresh_capability_binding e t) = settled e r t"
  by (simp add: settled_def) (simp add: refresh_capability_binding_def Let_def)

lemma ensure_settled: "settled e r t \<Longrightarrow> ensure_capability e False t = (True, refresh_capability_binding e t)"
  by (simp add: settled_def ensure_capability_def check_capability_def Let_def)

lemma refresh_settled:
  assumes "settled e r t"
  obtains out where "refresh_dirty_from_revision e t = (Inr r, (log_call RevisionCall t)\<lparr>outside := out, dirty := False\<rparr>)"
proof -
  obtain q out where op: "op_local_revision e (engine t) (settings_store t) (outside t) = (q, out)" by fastforce
  moreover have "q = Inr r" using assms op by (metis settled_def fst_conv)
  ultimately have "refresh_dirty_from_revision e t = (Inr r, (log_call RevisionCall t)\<lparr>outside := out, dirty := False\<rparr>)"
    using assms by (simp add: refresh_dirty_from_revision_def settled_def Let_def)
  then show thesis by (rule that)
qed

lemma push_settled:
  assumes "settled e r t"
  obtains out where "push_if_dirty e t = (log_call RevisionCall (refresh_capability_binding e t))\<lparr>outside := out, dirty := False\<rparr>"
proof -
  let ?u = "refresh_capability_binding e t"
  from refresh_settled [of e r ?u] assms obtain out where
    rd: "refresh_dirty_from_revision e ?u = (Inr r, (log_call RevisionCall ?u)\<lparr>outside := out, dirty := False\<rparr>)" by auto
  have "push_if_dirty e t = push_attempts e (Suc (Suc 0)) ?u"
    by (simp add: push_if_dirty_def ensure_settled [OF assms] MAX_IMMEDIATE_PUSHES_def numeral_2_eq_2)
  also have "\<dots> = (log_call RevisionCall ?u)\<lparr>outside := out, dirty := False\<rparr>"
    using assms rd by (simp add: settled_def)
  finally show thesis by (rule that)
qed

lemma settled_log [simp]: "settled e r ((log_call c t)\<lparr>outside := out, dirty := x\<rparr>) = settled e r t"
  by (simp add: settled_def)

lemma settled_tick:
  assumes "settled e r t"
  obtains v where "settled e r v" "phase v = phase t" "calls v = calls (log_call RevisionCall (refresh_capability_binding e (refresh_capability_binding e t)))"
    "on_tick e t = (if phase t = Pushing \<or> phase t = RetryBackoff then v else poll_remote e v)"
proof -
  let ?u = "refresh_capability_binding e t"
  from push_settled [of e r ?u] assms obtain out where
    push: "push_if_dirty e ?u = (log_call RevisionCall (refresh_capability_binding e ?u))\<lparr>outside := out, dirty := False\<rparr>" by auto
  let ?v = "push_if_dirty e ?u"
  have v: "settled e r ?v" "phase ?v = phase t" using assms unfolding push by simp_all
  have "on_tick e t = (if phase t = Pushing \<or> phase t = RetryBackoff then ?v else poll_remote e ?v)"
    using assms v by (auto simp: on_tick_def ensure_settled [OF assms] Let_def settled_def)
  with v that [of ?v] push show thesis by (simp add: log_call_def)
qed

text \<open>A push that failed is retried; when by then nothing is left to push, the scheduler keeps the phase of
  the backoff without a deadline, and while the local data does not change no tick polls the server again.\<close>

lemma clean_retry_keeps_the_backoff_phase:
  assumes "settled e r (t\<lparr>retry_deadline := None, retry_at_unix := None, message := None\<rparr>)" "retry_action t = RetryPush"
    and "phase t = RetryBackoff"
  shows "settled e r (run_retry e t) \<and> phase (run_retry e t) = RetryBackoff"
proof -
  let ?t = "t\<lparr>retry_deadline := None, retry_at_unix := None, message := None\<rparr>"
  from push_settled [OF assms(1)] obtain out where
    push: "push_if_dirty e ?t = (log_call RevisionCall (refresh_capability_binding e ?t))\<lparr>outside := out, dirty := False\<rparr>" .
  have "run_retry e t = push_if_dirty e ?t" using assms(2) by (simp add: run_retry_def Let_def)
  with push assms(1,3) show ?thesis by simp
qed

lemma backoff_phase_stops_polling:
  assumes "settled e r t" "phase t = RetryBackoff"
  shows "phase ((on_tick e ^^ n) t) = RetryBackoff \<and>
    (\<exists>ks. calls ((on_tick e ^^ n) t) = calls t @ ks \<and> (\<forall>k \<in> set ks. called k = RevisionCall))"
proof -
  have "settled e r ((on_tick e ^^ n) t) \<and> phase ((on_tick e ^^ n) t) = RetryBackoff \<and>
    (\<exists>ks. calls ((on_tick e ^^ n) t) = calls t @ ks \<and> (\<forall>k \<in> set ks. called k = RevisionCall))"
  proof (induction n)
    case 0
    with assms show ?case by simp
  next
    case (Suc n)
    let ?t = "(on_tick e ^^ n) t"
    from Suc have "settled e r ?t" by blast
    from settled_tick [OF this] obtain v where v: "settled e r v" "phase v = phase ?t"
      "calls v = calls (log_call RevisionCall (refresh_capability_binding e (refresh_capability_binding e ?t)))"
      "on_tick e ?t = (if phase ?t = Pushing \<or> phase ?t = RetryBackoff then v else poll_remote e v)" .
    then have "on_tick e ?t = v" using Suc by simp
    with v Suc show ?case by (auto simp: log_call_def)
  qed
  then show ?thesis by blast
qed

text \<open>Locking the vault shows the phase of a locked vault even while automatic synchronisation is disabled,
  and unlocking it does not take that back.\<close>

lemma unlocking_a_disabled_scheduler_shows_it_locked:
  "\<not> enabled t \<Longrightarrow> phase (set_vault_lock e False (set_vault_lock e True t)) = PausedVaultLocked"
  by (simp add: set_vault_lock_def Let_def)

end
