(* ===== verification/Sync_Service.thy ===== *)
theory Sync_Service
  imports Auto_Sync_Properties Capability_Properties Sync_Samples
begin

text \<open>
  The operations of the trait \<^verbatim>\<open>SyncOps\<close> that the program runs
  (\<^verbatim>\<open>crates/miaominal-services/src/services/sync_service.rs\<close>, \<^verbatim>\<open>sync_executor.rs\<close>): each takes the engine by value,
  runs the operation of \<open>Sync_Engine\<close> on it, and returns the status with the configuration the engine holds
  afterwards. The lock of the process makes an operation one step; the stores are those of the world. What
  other tasks do while the operation awaits is the list \<open>others\<close> of the world. The check of the capability runs
  the probe of \<open>Capability_Probe\<close>; \<open>probing\<close> holds what its libraries and the clock return.
\<close>

record 'srv probing =
  probe_http :: "'srv http"
  probe_deadline :: nat
  cleanup_deadline :: nat
  probe_setting :: "SyncConfig \<Rightarrow> string \<Rightarrow> probe_setup" \<comment> \<open>for the URL, the user name and the password\<close>
  probe_cancel :: "nat option" \<comment> \<open>how often the flag is read before another task cancels\<close>

definition with_engine :: "SyncEngine \<Rightarrow> AppSettings \<Rightarrow> 'srv outside \<Rightarrow> 'srv world" where
  \<comment> \<open>the world with the engine and the settings store of the caller\<close>
  "with_engine g s out =
     (sync_world out)\<lparr>config_store := engine_store g,
        local_stores := (local_stores (sync_world out))\<lparr>memory_settings := s\<rparr>\<rparr>"

definition on_world :: "('srv, 'a) sync \<Rightarrow> SyncEngine \<Rightarrow> AppSettings \<Rightarrow> 'srv outside \<Rightarrow> (sync_error + 'a) \<times> 'srv world \<times> 'srv outside" where
  "on_world m g s out = (case m (with_engine g s out) of (r, w) \<Rightarrow> (r, w, out\<lparr>sync_world := w\<rparr>))"

definition task_result :: "(sync_error + SyncStatus) \<times> 'srv world \<times> 'srv outside \<Rightarrow> (sync_error + SyncTaskResult) \<times> 'srv outside" where
  "task_result x =
     (case x of (r, w, out) \<Rightarrow>
        (map_sum id (\<lambda>status. \<lparr>task_status = status, updated_config = config (config_store w), reload = None\<rparr>) r, out))"

section \<open>Pushes, polls and revisions\<close>

definition service_push :: "'srv env \<Rightarrow> SyncEngine \<Rightarrow> AppSettings \<Rightarrow> 'srv outside \<Rightarrow> (sync_error + SyncTaskResult) \<times> 'srv outside" where
  "service_push e g s out = task_result (on_world (push e (last_capability_report g)) g s out)"

definition service_push_manual :: "'srv env \<Rightarrow> SyncEngine \<Rightarrow> AppSettings \<Rightarrow> 'srv outside \<Rightarrow> (sync_error + SyncTaskResult) \<times> 'srv outside" where
  "service_push_manual e g s out = task_result (on_world (push_manual e (last_capability_report g)) g s out)"

definition service_push_force :: "'srv env \<Rightarrow> SyncEngine \<Rightarrow> AppSettings \<Rightarrow> 'srv outside \<Rightarrow> (sync_error + SyncTaskResult) \<times> 'srv outside" where
  "service_push_force e g s out = task_result (on_world (push_force e (last_capability_report g)) g s out)"

definition service_remote_state :: "'srv env \<Rightarrow> SyncEngine \<Rightarrow> 'srv outside \<Rightarrow> (sync_error + RemoteSyncState) \<times> 'srv outside" where
  \<comment> \<open>no settings store is involved\<close>
  "service_remote_state e g out =
     (case on_world (remote_state e) g (memory_settings (local_stores (sync_world out))) out of (r, _, out) \<Rightarrow> (r, out))"

definition service_local_revision :: "'srv env \<Rightarrow> SyncEngine \<Rightarrow> AppSettings \<Rightarrow> 'srv outside \<Rightarrow> (sync_error + string) \<times> 'srv outside" where
  "service_local_revision e g s out = (case on_world (local_revision e) g s out of (r, _, out) \<Rightarrow> (r, out))"

section \<open>Pulls\<close>

definition load_settings :: "platform \<Rightarrow> bool \<Rightarrow> bool \<Rightarrow> AppSettings local_io" where
  \<comment> \<open>\<^verbatim>\<open>SettingsStore::load()\<close>; whether the directory holds other data, whether the policy demands the vault\<close>
  "load_settings pl existing_app_data vault_required =
     attempt (load_settings_store pl existing_app_data) (\<lambda>_.
     attempt (get_io memory_settings) (\<lambda>s.
       if vault_required \<and> \<not> local_vault_enabled s
       then attempt (replace_settings pl (s\<lparr>local_vault_enabled := True\<rparr>)) (\<lambda>_. get_io memory_settings)
       else ok s))"

definition reload_all :: "platform \<Rightarrow> bool \<Rightarrow> bool \<Rightarrow> local_data \<Rightarrow> SyncReloadResult \<times> local_data" where
  "reload_all pl existing_app_data vault_required d =
     (let (st, d) = load_settings pl existing_app_data vault_required d; (ss, d) = load_sessions d; (ps, d) = load_proxies pl d;
          (sn, d) = load_snippets d; (ks, d) = load_keys d
      in (\<lparr>reloaded_settings = st, reloaded_sessions = ss, reloaded_proxies = ps, reloaded_snippets = sn, reloaded_keys = ks\<rparr>, d))"

definition any_failed :: "SyncReloadResult \<Rightarrow> bool" where
  "any_failed r \<longleftrightarrow>
     isl (reloaded_settings r) \<or> isl (reloaded_sessions r) \<or> isl (reloaded_proxies r) \<or>
     isl (reloaded_snippets r) \<or> isl (reloaded_keys r)"

definition service_pull_internal ::
  "'srv env \<Rightarrow> bool \<Rightarrow> bool \<Rightarrow> string option \<Rightarrow> bool \<Rightarrow> SyncEngine \<Rightarrow> AppSettings \<Rightarrow> 'srv outside \<Rightarrow>
   (sync_error + SyncTaskResult) \<times> 'srv outside" where
  "service_pull_internal e existing_app_data vault_required expected force g s out =
     (case on_world (case expected of Some x \<Rightarrow> pull_if_unchanged e x | None \<Rightarrow> if force then pull_force e else pull e) g s out of
        (Inl err, w, out) \<Rightarrow> (Inl err, out)
      | (Inr status, w, out) \<Rightarrow>
          (case status of
             Pulled _ \<Rightarrow>
               (case reload_all (env_platform e) existing_app_data vault_required (local_stores w) of
                  (l, d) \<Rightarrow> (Inr \<lparr>task_status = status, updated_config = config (config_store w), reload = Some l\<rparr>,
                            out\<lparr>sync_world := w\<lparr>local_stores := d\<rparr>\<rparr>))
           | _ \<Rightarrow> (Inr \<lparr>task_status = status, updated_config = config (config_store w), reload = None\<rparr>, out)))"

definition service_pull where
  "service_pull e existing_app_data vault_required = service_pull_internal e existing_app_data vault_required None False"

definition service_pull_force where
  "service_pull_force e existing_app_data vault_required = service_pull_internal e existing_app_data vault_required None True"

definition service_pull_if_unchanged where
  "service_pull_if_unchanged e existing_app_data vault_required g s expected =
     service_pull_internal e existing_app_data vault_required (Some expected) False g s"

section \<open>The check of the capability\<close>

definition probing_env :: "'srv probing \<Rightarrow> 'srv outside \<Rightarrow> 'srv probe_env" where
  "probing_env p out = \<lparr>server = remote_server (sync_world out), cancel_in = probe_cancel p, budget = 0, in_flight = False\<rparr>"

definition set_server :: "'srv \<Rightarrow> 'srv outside \<Rightarrow> 'srv outside" where
  "set_server srv out = out\<lparr>sync_world := (sync_world out)\<lparr>remote_server := srv\<rparr>\<rparr>"

definition run_probe :: "'srv probing \<Rightarrow> SyncEngine \<Rightarrow> 64 word \<Rightarrow> 'srv outside \<Rightarrow> CapabilityReport \<times> 'srv outside" where
  \<comment> \<open>\<^verbatim>\<open>check_capability\<close> when no file of an earlier probe is left\<close>
  "run_probe p g started out =
     (if cancel_generation out \<noteq> started
      then (issue (unix_clock out) ProbeCancelled ''cancel'' None MissingTag, out)
      else
        let c = config (sync_from_disk (engine_store g) (sync_disk (sync_world out)));
            (r, a) = get_webdav_password (accounts (sync_world out));
            out = out\<lparr>sync_world := (sync_world out)\<lparr>accounts := a\<rparr>\<rparr>
        in case r of
             Inr (Some password) \<Rightarrow>
               if password = [] then (issue (unix_clock out) Configuration ''credentials'' None MissingTag, out)
               else
                 (case check_webdav (probe_http p) (unix_clock out) (probe_deadline p) (cleanup_deadline p)
                         (probe_setting p c password) (probing_env p out) of
                    ((report, left), env) \<Rightarrow> (report, (set_server (server env) out)\<lparr>pending_probe := left\<rparr>))
           | _ \<Rightarrow> (issue (unix_clock out) Configuration ''credentials'' None MissingTag, out))"

definition service_check :: "'srv probing \<Rightarrow> SyncEngine \<Rightarrow> 64 word \<Rightarrow> 'srv outside \<Rightarrow> CapabilityReport \<times> 'srv outside" where
  "service_check p g started out =
     (case pending_probe out of
        None \<Rightarrow> run_probe p g started out
      | Some old \<Rightarrow>
          (case cleanup (probe_http p) (unix_clock out) (cleanup_deadline p) old (probing_env p out) of
             (Inl report, env) \<Rightarrow> (report, set_server (server env) out)
           | (Inr _, env) \<Rightarrow> run_probe p g started ((set_server (server env) out)\<lparr>pending_probe := None\<rparr>)))"

section \<open>The scheduler of the program\<close>

record 'srv program =
  program_env :: "'srv env"
  program_probing :: "'srv probing"
  program_existing_data :: bool
  program_vault_required :: bool
  program_config_path :: string
  program_file_bytes :: "'srv world \<Rightarrow> string \<Rightarrow> string option"
  program_sha256 :: "string \<Rightarrow> string"
  program_uuid :: "nat \<Rightarrow> string"

definition executor :: "'srv program \<Rightarrow> 'srv scheduler" where
  \<comment> \<open>\<^verbatim>\<open>impl SyncOps for SyncExecutor\<close>\<close>
  "executor p =
     \<lparr>op_check = service_check (program_probing p), op_push = service_push (program_env p),
      op_pull_if_unchanged = service_pull_if_unchanged (program_env p) (program_existing_data p) (program_vault_required p),
      op_remote_state = service_remote_state (program_env p), op_local_revision = service_local_revision (program_env p),
      config_path = program_config_path p, file_bytes = program_file_bytes p, sha256 = program_sha256 p,
      uuid_text = program_uuid p\<rparr>"

section \<open>What the check promises the scheduler\<close>

lemma run_probe_leftovers:
  assumes "run_probe p g started out = (r, out')" "cleanup_file r \<noteq> None"
  shows "cap_reason r = Some Cleanup \<and> cap_state r = Incomplete"
  using assms check_leftovers
  by (fastforce simp: run_probe_def Let_def issue_def split: prod.splits sum.splits option.splits if_splits)

lemma service_check_leftovers:
  assumes "service_check p g started out = (r, out')" "cleanup_file r \<noteq> None"
  shows "cap_reason r = Some Cleanup \<and> cap_state r \<noteq> Supported"
  using assms run_probe_leftovers cleanup_report
  by (fastforce simp: service_check_def split: prod.splits sum.splits option.splits)

interpretation service: capability_check "service_check p" for p
  by unfold_locales (rule service_check_leftovers)

lemma executor_check: "capability_check (op_check (executor p))"
  by (simp add: executor_def service.capability_check_axioms)

section \<open>Runs of the program\<close>

text \<open>C11: The scheduler keeps its state well formed in every run, whatever the operations return and whatever
  other tasks do: an intervention is there exactly while a conflict is pending, a retry has both its
  deadlines or none, the delay of the next retry stays between 30 seconds and 10 minutes, a result has its
  number, which is never 0, and the snapshots sent to the user interface are numbered one after the other
  (modulo the width of the counter); a snapshot that asks the user to pull always says why.\<close>

theorem scheduler_state_is_well_formed:
  assumes "scheduler_run e l"
  shows "task_ok (sched l)"
  using run_sound [OF assms] by (simp add: sound_task_ok)

text \<open>C10: The operations of the synchronisation run only under their guards. In every run of the program's
  scheduler: no operation runs while the vault is locked, except that it computes the revision of the
  local data; polls, pulls and pushes run only while automatic synchronisation is enabled, and pushes
  only while no conflict waits for the user; on a WebDAV server they run only when the check of its
  capability, the recorded consent or the exemption admits them. Exceptions are the second push of a
  round, which directly follows an admitted one, and runs in which a check found a configuration file
  with another consent under the revision the scheduler held.\<close>

theorem operations_run_under_their_guards:
  assumes "scheduler_run (executor p) l" "i < length (calls (sched l))"
    and "c = calls (sched l) ! i" "called c \<noteq> RevisionCall"
  shows "\<not> call_locked c \<and>
    (called c \<noteq> CheckCall \<longrightarrow> call_enabled c \<and>
       (call_blocked c \<longrightarrow> call_torn c \<or> called c = PushCall \<and> repeats_push (take i (calls (sched l))))) \<and>
    (called c = PushCall \<longrightarrow> \<not> call_conflict c)"
proof -
  have "guarded (take i (calls (sched l))) c"
    using guarded_calls [OF assms(1) executor_check assms(2)] assms(3) by simp
  with assms(4) show ?thesis by (cases "called c") (auto simp: guarded.simps)
qed

section \<open>A run\<close>

definition sample_program :: "unit program" where
  "sample_program =
     \<lparr>program_env = sample_env,
      program_probing = \<lparr>probe_http = (\<lambda>srv rsc rq. (None, srv)), probe_deadline = 1, cleanup_deadline = 1,
        probe_setting = (\<lambda>c pass. \<lparr>parsed_url = None, client_built = True, url_joined = True, new_id = [], body_ids = []\<rparr>),
        probe_cancel = None\<rparr>,
      program_existing_data = True, program_vault_required = False, program_config_path = ''sync.toml'',
      program_file_bytes = (\<lambda>w name. None), program_sha256 = (\<lambda>s. []), program_uuid = (\<lambda>n. ''id'')\<rparr>"

definition sample_outside :: "unit outside" where
  "sample_outside =
     \<lparr>sync_world = sample_world, pending_probe = None, cancel_generation = 0, clock = 0, unix_clock = 0, ids_used = 0,
      tokens_made = 0, commands = [], senders_gone = False, file_events = 0, watcher_gone = False,
      requests = \<lparr>pending_request = None, requests_cancelled = False\<rparr>\<rparr>"

definition sample_start :: "unit loop" where
  \<comment> \<open>enabled, but no provider is chosen yet\<close>
  "sample_start =
     start_loop (executor sample_program) (memory_settings (local_stores sample_world))
       \<lparr>engine_store = holding (default_config\<lparr>auto_sync_enabled := True\<rparr>), last_capability_report = None\<rparr> False True sample_outside"

lemma sample_scheduler_run: "scheduler_run (executor sample_program) sample_start"
  unfolding sample_start_def by (rule scheduler_run.Start)

lemma sample_calls: "map called (calls (sched sample_start)) = [StateCall]"
  by (simp add: sample_start_def start_loop_def start_task_def Let_def sample_outside_def holding_def executor_def
    default_config_def publish_def snapshot_def poll_remote_def ensure_capability_def check_capability_def
    refresh_capability_binding_def log_call_def set_phase_def reset_backoff_def
    service_remote_state_def on_world_def with_engine_def remote_state_def attempt_def current_config_def get_io_def ok_def
    sync_enabled_for_provider_def)

theorem scheduler_state_is_well_formed_witness: "task_ok (sched sample_start)"
  by (rule scheduler_state_is_well_formed [OF sample_scheduler_run])

theorem operations_run_under_their_guards_witness:
  "called (calls (sched sample_start) ! 0) = StateCall \<and> call_enabled (calls (sched sample_start) ! 0) \<and>
   \<not> call_locked (calls (sched sample_start) ! 0)"
proof -
  have i: "0 < length (calls (sched sample_start))" using sample_calls by (metis length_map length_Cons zero_less_Suc)
  then have c: "called (calls (sched sample_start) ! 0) = StateCall" using sample_calls nth_map [OF i, of called] by simp
  then have "called (calls (sched sample_start) ! 0) \<noteq> RevisionCall" by simp
  from operations_run_under_their_guards [OF sample_scheduler_run i refl this] c show ?thesis by simp
qed

end
