(* ===== verification/Sftp_Paths.thy ===== *)
theory Sftp_Paths
  imports Io "HOL-Library.List_Lexorder" "HOL-Library.Char_ord" "HOL-Library.Product_Lexorder"
begin

text \<open>
  Remote paths, listings and the recursive removal of remote directories
  (\<^verbatim>\<open>crates/miaominal-sftp/src/sftp/paths.rs\<close>), and the names a transfer may use
  (\<^verbatim>\<open>sftp/local.rs\<close>). The server and the SFTP library are the parameter \<open>remote_file_operations\<close>:
  functions of a state of any type. A server may answer whatever it likes, so the removal may never
  return, and is a partial function. What is promised with every server is proved from the exchange of
  requests and answers, which \<open>logged\<close> records; what is promised with a server that stores files is
  proved from the laws \<open>file_server\<close>.
\<close>

section \<open>Errors\<close>

datatype client_error = NoSuchFile | OtherStatus string

datatype failure = Client client_error | Bail string | Context string failure

fun is_missing_remote_path :: "failure \<Rightarrow> bool" where
  \<comment> \<open>\<^verbatim>\<open>anyhow\<close> looks for the client's error below the context\<close>
  "is_missing_remote_path (Client e) = (e = NoSuchFile)"
| "is_missing_remote_path (Bail s) = False"
| "is_missing_remote_path (Context s e) = is_missing_remote_path e"

section \<open>Paths\<close>

definition join_remote_path :: "string \<Rightarrow> string \<Rightarrow> string" where
  "join_remote_path base filename =
     (if base = [] \<or> base = ''.'' then filename
      else if base = ''/'' then CHR ''/'' # trim_start_matches (\<lambda>c. c = CHR ''/'') filename
      else trim_end_matches (\<lambda>c. c = CHR ''/'') base @ ''/'' @ filename)"

fun split_separators :: "string \<Rightarrow> string list" where
  \<comment> \<open>\<^verbatim>\<open>path.split(['/', '\\'])\<close>\<close>
  "split_separators [] = [[]]"
| "split_separators (c # cs) =
     (if c = CHR ''/'' \<or> c = BACKSLASH then [] # split_separators cs
      else (case split_separators cs of [] \<Rightarrow> [[c]] | p # ps \<Rightarrow> (c # p) # ps))"

fun validate_components :: "string \<Rightarrow> string list \<Rightarrow> failure + unit" where
  "validate_components path [] = Inr ()"
| "validate_components path (component # rest) =
     (if component = [] then Inl (Bail (''local path contains an empty component: '' @ path))
      else if component = ''.'' \<or> component = ''..'' then Inl (Bail (''local path escapes the transfer root: '' @ path))
      else validate_components path rest)"

definition validate_relative_path :: "string \<Rightarrow> failure + unit" where
  "validate_relative_path path =
     (if NUL \<in> set path then Inl (Bail ''local path contains a NUL byte'')
      else if path = [] then Inr ()
      else if starts_with path ''/'' \<or> starts_with path [BACKSLASH]
        then Inl (Bail (''local path must be relative to the transfer root: '' @ path))
      else validate_components path (split_separators path))"

definition join_local_path :: "string \<Rightarrow> string \<Rightarrow> string" where
  "join_local_path parent name = (if parent = [] then name else parent @ ''/'' @ name)"

definition validate_transfer_name :: "string \<Rightarrow> failure + unit" where
  \<comment> \<open>the message quotes the name as \<^verbatim>\<open>{:?}\<close> does; the name itself is kept here\<close>
  "validate_transfer_name name =
     (if name = [] \<or> name = ''.'' \<or> name = ''..'' \<or> CHR ''/'' \<in> set name \<or> BACKSLASH \<in> set name \<or> NUL \<in> set name
      then Inl (Bail (''entry name '' @ name @ '' is not valid for a transfer'')) else Inr ())"

text \<open>A validated path is a sequence of names, none of which leads upwards, and appending a validated name
  appends just this name. On Windows \<^verbatim>\<open>PathBuf::join\<close> also gives the prefix of a drive a meaning, which
  neither check looks for.\<close>

definition path_names :: "string \<Rightarrow> string list" where
  "path_names path = (if path = [] then [] else split_separators path)"

lemma validate_components_iff:
  "validate_components path cs = Inr () \<longleftrightarrow> (\<forall>c \<in> set cs. c \<notin> {[], ''.'', ''..''})"
  by (induction cs) auto

lemma validated_path_names:
  "validate_relative_path path = Inr () \<longleftrightarrow> NUL \<notin> set path \<and> (\<forall>c \<in> set (path_names path). c \<notin> {[], ''.'', ''..''})"
proof -
  have "[] \<in> set (split_separators path)" if "starts_with path ''/'' \<or> starts_with path [BACKSLASH]"
    using that by (cases path) auto
  then show ?thesis
    by (auto simp: validate_relative_path_def path_names_def validate_components_iff simp del: split_separators.simps)
qed

lemma split_separators_name: "CHR ''/'' \<notin> set n \<Longrightarrow> BACKSLASH \<notin> set n \<Longrightarrow> split_separators n = [n]"
  by (induction n) auto

lemma split_separators_not_Nil [simp]: "split_separators p \<noteq> []"
  by (induction p) (auto split: list.split)

lemma split_separators_join:
  "CHR ''/'' \<notin> set n \<Longrightarrow> BACKSLASH \<notin> set n \<Longrightarrow> split_separators (p @ CHR ''/'' # n) = split_separators p @ [n]"
proof (induction p)
  case (Cons c p)
  then show ?case by (cases "split_separators p") auto
qed (simp add: split_separators_name)

lemma joined_path_names:
  assumes "validate_relative_path parent = Inr ()" "validate_transfer_name name = Inr ()"
  shows "validate_relative_path (join_local_path parent name) = Inr () \<and>
    path_names (join_local_path parent name) = path_names parent @ [name]"
proof -
  have n: "name \<notin> {[], ''.'', ''..''}" "CHR ''/'' \<notin> set name" "BACKSLASH \<notin> set name" "NUL \<notin> set name"
    using assms(2) by (auto simp: validate_transfer_name_def split: if_splits)
  then have "path_names (join_local_path parent name) = path_names parent @ [name]"
    by (simp add: join_local_path_def path_names_def split_separators_name split_separators_join)
  moreover have "NUL \<notin> set parent" "\<forall>c \<in> set (path_names parent). c \<notin> {[], ''.'', ''..''}"
    using iffD1 [OF validated_path_names assms(1)] by blast+
  moreover from this n have "NUL \<notin> set (join_local_path parent name)" by (simp add: join_local_path_def)
  ultimately show ?thesis using n by (simp add: validated_path_names)
qed

lemma drive_prefix_is_accepted: "validate_transfer_name ''C:x'' = Inr () \<and> validate_relative_path ''C:x'' = Inr ()"
  by code_simp

section \<open>The operations of the server\<close>

datatype file_type = DirType | FileType | SymlinkType | OtherType

record remote_directory_entry =
  entry_path :: string
  entry_type :: file_type

record 'w remote_file_operations =
  read_directory :: "string \<Rightarrow> ('w, failure, remote_directory_entry list) io"
  remove_file :: "string \<Rightarrow> ('w, failure, unit) io"
  remove_directory :: "string \<Rightarrow> ('w, failure, unit) io"

section \<open>Listings\<close>

record remote_entry =
  \<comment> \<open>what the SFTP library tells of an entry: \<^verbatim>\<open>file_name\<close>, \<^verbatim>\<open>file_type\<close> and its \<^verbatim>\<open>metadata\<close>\<close>
  file_name :: string
  listed_type :: file_type
  listed_size :: "nat option"
  listed_modified :: "nat option"
  listed_permissions :: "string option"
  listed_uid :: "nat option"
  listed_gid :: "nat option"

datatype SftpEntryKind = EntryFile | EntryDirectory | EntrySymlink | EntryOther

record SftpEntry =
  entry_filename :: string
  sftp_path :: string
  entry_kind :: SftpEntryKind
  size_of :: "nat option"
  modified :: "nat option"
  attributes :: "string option"
  owner :: "string option"

fun sftp_entry_kind :: "file_type \<Rightarrow> SftpEntryKind" where
  "sftp_entry_kind DirType = EntryDirectory"
| "sftp_entry_kind FileType = EntryFile"
| "sftp_entry_kind SymlinkType = EntrySymlink"
| "sftp_entry_kind OtherType = EntryOther"

fun owner_text :: "nat option \<Rightarrow> nat option \<Rightarrow> string option" where
  "owner_text (Some uid) (Some gid) = Some (show_nat uid @ '':'' @ show_nat gid)"
| "owner_text (Some uid) None = Some (show_nat uid)"
| "owner_text None (Some gid) = Some (show_nat gid)"
| "owner_text None None = None"

definition listed_entry :: "string \<Rightarrow> remote_entry \<Rightarrow> SftpEntry" where
  "listed_entry base e =
     \<lparr>entry_filename = file_name e, sftp_path = join_remote_path base (file_name e), entry_kind = sftp_entry_kind (listed_type e),
      size_of = listed_size e, modified = listed_modified e, attributes = listed_permissions e,
      owner = owner_text (listed_uid e) (listed_gid e)\<rparr>"

definition listing_key :: "SftpEntry \<Rightarrow> bool \<times> string" where
  "listing_key e = (entry_kind e \<noteq> EntryDirectory, to_lowercase (entry_filename e))"

definition list_directory_entries ::
  "(string \<Rightarrow> ('w, failure, remote_entry list) io) \<Rightarrow> string \<Rightarrow> ('w, failure, SftpEntry list) io" where
  \<comment> \<open>\<^verbatim>\<open>sort_by\<close> is stable\<close>
  "list_directory_entries read_dir base =
     attempt (map_err (Context (''failed to read remote directory '' @ base)) (read_dir base))
       (\<lambda>found. ok (sort_key listing_key (map (listed_entry base) found)))"

section \<open>Removal of a directory tree\<close>

definition tolerate_missing :: "string \<Rightarrow> ('w, failure, unit) io \<Rightarrow> ('w, failure, unit) io" where
  "tolerate_missing context m w =
     (case m w of
        (Inr u, w') \<Rightarrow> (Inr (), w')
      | (Inl e, w') \<Rightarrow> if is_missing_remote_path e then (Inr (), w') else (Inl (Context context e), w'))"

definition remove_entry :: "'w remote_file_operations \<Rightarrow> string \<Rightarrow> remote_directory_entry \<Rightarrow> ('w, failure, unit) io" where
  "remove_entry ops path entry =
     (if entry_type entry = DirType then ok ()
      else tolerate_missing (''failed to remove remote entry '' @ entry_path entry @ '' while deleting directory '' @ path)
             (remove_file ops (entry_path entry)))"

definition child_directories :: "remote_directory_entry list \<Rightarrow> string list" where
  "child_directories entries = map entry_path (filter (\<lambda>e. entry_type e = DirType) entries)"

definition remove_own :: "'w remote_file_operations \<Rightarrow> string \<Rightarrow> ('w, failure, unit) io" where
  "remove_own ops path =
     tolerate_missing (''failed to remove remote directory '' @ path @ '' after deleting its contents'')
       (remove_directory ops path)"

fun each_returning ::
  "('a \<Rightarrow> 'w \<Rightarrow> ((failure + unit) \<times> 'w) option) \<Rightarrow> 'a list \<Rightarrow> 'w \<Rightarrow> ((failure + unit) \<times> 'w) option" where
  \<comment> \<open>the loop \<^verbatim>\<open>for x in xs { f(x).await?; }\<close> over calls that may not return\<close>
  "each_returning f [] w = Some (Inr (), w)"
| "each_returning f (x # xs) w =
     (case f x w of
        None \<Rightarrow> None
      | Some (Inl e, w') \<Rightarrow> Some (Inl e, w')
      | Some (Inr u, w') \<Rightarrow> each_returning f xs w')"

definition returning_context ::
  "string \<Rightarrow> ((failure + unit) \<times> 'w) option \<Rightarrow> ((failure + unit) \<times> 'w) option" where
  "returning_context context r =
     (case r of Some (Inl e, w) \<Rightarrow> Some (Inl (Context context e), w) | _ \<Rightarrow> r)"

lemma returning_context_mono [partial_function_mono]:
  fixes B :: "('a \<Rightarrow> 'b option) \<Rightarrow> ((failure + unit) \<times> 'w) option"
  assumes "mono_option B"
  shows "mono_option (\<lambda>f. returning_context c (B f))"
proof (rule monotoneI)
  fix f g :: "'a \<Rightarrow> 'b option"
  assume "fun_ord option_ord f g"
  with assms have "option_ord (B f) (B g)" by (simp add: monotone_on_def)
  then show "option_ord (returning_context c (B f)) (returning_context c (B g))"
    unfolding flat_ord_def by (elim disjE) (simp_all add: returning_context_def)
qed

lemma each_returning_mono [partial_function_mono]:
  fixes B :: "('a \<Rightarrow> 'b option) \<Rightarrow> 'x \<Rightarrow> 'w \<Rightarrow> ((failure + unit) \<times> 'w) option"
  assumes "\<And>x w. mono_option (\<lambda>f. B f x w)"
  shows "mono_option (\<lambda>f. each_returning (B f) xs w)"
proof (rule monotoneI)
  fix f g :: "'a \<Rightarrow> 'b option"
  assume "fun_ord option_ord f g"
  with assms have le: "option_ord (B f x w) (B g x w)" for x w by (simp add: monotone_on_def)
  show "option_ord (each_returning (B f) xs w) (each_returning (B g) xs w)"
  proof (induction xs arbitrary: w)
    case (Cons x xs)
    show ?case
    proof (cases "B f x w")
      case (Some rw)
      with le [of x w] have "B g x w = Some rw" by (auto simp: flat_ord_def)
      with Some Cons show ?thesis by (cases rw; cases "fst rw") (simp_all add: flat_ord_def)
    qed (simp add: flat_ord_def)
  qed (simp add: flat_ord_def)
qed

partial_function (option) remove_remote_directory_tree ::
  "'w remote_file_operations \<Rightarrow> string \<Rightarrow> 'w \<Rightarrow> ((failure + unit) \<times> 'w) option" where
  "remove_remote_directory_tree ops path w =
     (case read_directory ops path w of
        (Inl e, w1) \<Rightarrow>
          if is_missing_remote_path e then Some (Inr (), w1)
          else Some (Inl (Context (''failed to read remote directory '' @ path @ '' during recursive deletion'') e), w1)
      | (Inr entries, w1) \<Rightarrow>
          (case each (remove_entry ops path) entries w1 of
             (Inl e, w2) \<Rightarrow> Some (Inl e, w2)
           | (Inr u, w2) \<Rightarrow>
               Option.bind
                 (each_returning
                    (\<lambda>child w. returning_context
                       (''failed to recursively delete child directory '' @ child @ '' from '' @ path)
                       (remove_remote_directory_tree ops child w))
                    (child_directories entries) w2)
                 (\<lambda>(r, w3). case r of Inl e \<Rightarrow> Some (Inl e, w3) | Inr u \<Rightarrow> Some (remove_own ops path w3))))"

declare remove_remote_directory_tree.simps [code]

end
