(* ===== verification/Sftp_Removal.thy ===== *)
theory Sftp_Removal
  imports Sftp_Paths
begin

text \<open>
  The recursive removal of remote directories. With every server: what is removed was found in the
  directory that is removed, symbolic links are never followed, directories come after their content,
  and the first failure ends the removal. With a server that stores files: the removal returns, it
  leaves everything outside of the directory alone, and removes all of it when the server permits.
\<close>

section \<open>The exchange with the server\<close>

datatype exchange =
    ReadDirectory string "failure + remote_directory_entry list"
  | RemoveFile string "failure + unit"
  | RemoveDirectory string "failure + unit"

definition logging :: "('a \<Rightarrow> exchange) \<Rightarrow> (('w \<Rightarrow> 'a \<times> 'w) \<Rightarrow> 'w \<times> exchange list \<Rightarrow> 'a \<times> 'w \<times> exchange list)" where
  "logging event m = (\<lambda>(w, log). case m w of (r, w') \<Rightarrow> (r, w', log @ [event r]))"

definition logged :: "'w remote_file_operations \<Rightarrow> ('w \<times> exchange list) remote_file_operations" where
  "logged ops =
     \<lparr>read_directory = (\<lambda>p. logging (ReadDirectory p) (read_directory ops p)),
      remove_file = (\<lambda>p. logging (RemoveFile p) (remove_file ops p)),
      remove_directory = (\<lambda>p. logging (RemoveDirectory p) (remove_directory ops p))\<rparr>"

fun harmless :: "failure + 'a \<Rightarrow> bool" where
  "harmless (Inr _) = True"
| "harmless (Inl e) = is_missing_remote_path e"

fun failed :: "exchange \<Rightarrow> bool" where
  "failed (ReadDirectory p r) = (\<not> harmless r)"
| "failed (RemoveFile p r) = (\<not> harmless r)"
| "failed (RemoveDirectory p r) = (\<not> harmless r)"

definition listed :: "exchange list \<Rightarrow> (remote_directory_entry \<Rightarrow> bool) \<Rightarrow> bool" where
  "listed log P \<longleftrightarrow> (\<exists>p es. ReadDirectory p (Inr es) \<in> set log \<and> (\<exists>e \<in> set es. P e))"

definition cleared :: "exchange list \<Rightarrow> remote_directory_entry \<Rightarrow> bool" where
  \<comment> \<open>the entry is gone: it was removed, or was missing when it was to be read or removed\<close>
  "cleared log e \<longleftrightarrow>
     (if entry_type e = DirType
      then (\<exists>r. harmless r \<and> RemoveDirectory (entry_path e) r \<in> set log) \<or>
           (\<exists>f. is_missing_remote_path f \<and> ReadDirectory (entry_path e) (Inl f) \<in> set log)
      else (\<exists>r. harmless r \<and> RemoveFile (entry_path e) r \<in> set log))"

definition emptied :: "exchange list \<Rightarrow> string \<Rightarrow> bool" where
  "emptied log p \<longleftrightarrow> (\<exists>a es b. log = a @ ReadDirectory p (Inr es) # b \<and> (\<forall>e \<in> set es. cleared b e))"

fun permitted :: "string \<Rightarrow> exchange list \<Rightarrow> exchange \<Rightarrow> bool" where
  \<comment> \<open>the request, given the exchanges before it\<close>
  "permitted root log (ReadDirectory p r) =
     (p = root \<or> listed log (\<lambda>e. entry_path e = p \<and> entry_type e = DirType))"
| "permitted root log (RemoveFile p r) = listed log (\<lambda>e. entry_path e = p \<and> entry_type e \<noteq> DirType)"
| "permitted root log (RemoveDirectory p r) = emptied log p"

fun orderly :: "string \<Rightarrow> exchange list \<Rightarrow> exchange list \<Rightarrow> bool" where
  \<comment> \<open>each request of the second list is permitted by what went before\<close>
  "orderly root before [] = True"
| "orderly root before (x # log) = (permitted root before x \<and> orderly root (before @ [x]) log)"

lemma listed_append: "listed a P \<Longrightarrow> listed (a @ b) P" "listed b P \<Longrightarrow> listed (a @ b) P"
  by (auto simp: listed_def)

lemma cleared_append: "cleared a e \<Longrightarrow> cleared (a @ b) e" "cleared b e \<Longrightarrow> cleared (a @ b) e"
  by (auto simp: cleared_def split: if_splits)

lemma orderly_append:
  "orderly root before (a @ b) \<longleftrightarrow> orderly root before a \<and> orderly root (before @ a) b"
  by (induction a arbitrary: before) simp_all

lemma permitted_child:
  "permitted child before x \<Longrightarrow> listed before (\<lambda>e. entry_path e = child \<and> entry_type e = DirType) \<Longrightarrow>
   permitted root before x"
  by (cases x) auto

lemma orderly_child:
  "orderly child before l \<Longrightarrow> listed before (\<lambda>e. entry_path e = child \<and> entry_type e = DirType) \<Longrightarrow>
   orderly root before l"
  by (induction l arbitrary: before) (auto intro: permitted_child listed_append)

section \<open>With every server\<close>

definition stops :: "(failure + unit) \<Rightarrow> exchange list \<Rightarrow> bool" where
  \<comment> \<open>a failure is the last exchange, and the removal reports it\<close>
  "stops r log \<longleftrightarrow> (case r of
     Inr _ \<Rightarrow> \<forall>x \<in> set log. \<not> failed x
   | Inl _ \<Rightarrow> log \<noteq> [] \<and> failed (last log) \<and> (\<forall>x \<in> set (butlast log). \<not> failed x))"

definition unlinked :: "remote_directory_entry \<Rightarrow> exchange list \<Rightarrow> bool" where
  "unlinked e log \<longleftrightarrow> entry_type e = DirType \<or> cleared log e"

lemma stops_append: "stops (Inr ()) a \<Longrightarrow> stops r b \<Longrightarrow> stops r (a @ b)"
  by (auto simp: stops_def butlast_append split: sum.splits)

lemma remove_entry_logged:
  assumes "remove_entry (logged ops) p e (w, before) = (r, (w', log))"
    and "entry_type e \<noteq> DirType \<Longrightarrow> listed before (\<lambda>x. entry_path x = entry_path e \<and> entry_type x \<noteq> DirType)"
  obtains l where "log = before @ l" "orderly root before l" "stops r l" "r = Inr () \<Longrightarrow> unlinked e l"
proof (cases "entry_type e = DirType")
  case True
  with assms(1) have "r = Inr ()" "log = before" by (simp_all add: remove_entry_def)
  with True that [of "[]"] show ?thesis by (simp add: stops_def unlinked_def)
next
  case False
  obtain a v where a: "remove_file ops (entry_path e) w = (a, v)" by fastforce
  with False assms have "log = before @ [RemoveFile (entry_path e) a]" "stops r [RemoveFile (entry_path e) a]"
      "r = Inr () \<Longrightarrow> unlinked e [RemoveFile (entry_path e) a]"
    by (auto simp: remove_entry_def tolerate_missing_def logged_def logging_def stops_def unlinked_def cleared_def
        split: sum.splits if_splits)
  with that False assms(2) show ?thesis by simp
qed

abbreviation directory_entry :: "string \<Rightarrow> remote_directory_entry" where
  "directory_entry p \<equiv> \<lparr>entry_path = p, entry_type = DirType\<rparr>"

lemma remove_entries_logged:
  assumes "each (remove_entry (logged ops) p) es (w, before) = (r, (w', log))"
    and "\<forall>e \<in> set es. entry_type e \<noteq> DirType \<longrightarrow>
      listed before (\<lambda>x. entry_path x = entry_path e \<and> entry_type x \<noteq> DirType)"
  shows "\<exists>l. log = before @ l \<and> orderly root before l \<and> stops r l \<and> (r = Inr () \<longrightarrow> (\<forall>e \<in> set es. unlinked e l))"
  using assms
proof (induction es arbitrary: w before)
  case Nil
  then show ?case by (intro exI [of _ "[]"]) (auto simp: stops_def)
next
  case (Cons e es)
  from Cons.prems(1) show ?case
    unfolding each.simps
  proof (rule attempt_cases)
    fix f assume e: "remove_entry (logged ops) p e (w, before) = (Inl f, w', log)" and r: "r = Inl f"
    then show ?thesis using Cons.prems(2) by (auto elim: remove_entry_logged [of _ _ _ _ _ _ _ _ root])
  next
    fix u v
    assume e: "remove_entry (logged ops) p e (w, before) = (Inr u, v)"
      and rest: "each (remove_entry (logged ops) p) es v = (r, w', log)"
    obtain w1 l1 where v: "v = (w1, l1)" by (cases v)
    with e Cons.prems(2) obtain a where a: "l1 = before @ a" "orderly root before a" "stops (Inr ()) a" "unlinked e a"
      using remove_entry_logged [of ops p e w before "Inr u" w1 l1 root] by auto
    have "\<forall>e \<in> set es. entry_type e \<noteq> DirType \<longrightarrow> listed l1 (\<lambda>x. entry_path x = entry_path e \<and> entry_type x \<noteq> DirType)"
      using Cons.prems(2) by (auto simp: a(1) intro: listed_append)
    with Cons.IH [of w1 l1] rest v obtain b where b: "log = l1 @ b" "orderly root l1 b" "stops r b"
        "r = Inr () \<longrightarrow> (\<forall>e \<in> set es. unlinked e b)" by auto
    from a b show ?thesis
      by (intro exI [of _ "a @ b"]) (auto simp: orderly_append unlinked_def intro: stops_append cleared_append)
  qed
qed

lemma remove_children_logged:
  assumes "each_returning f cs (w, before) = Some (r, (w', log))"
    and "\<forall>c \<in> set cs. listed before (\<lambda>x. entry_path x = c \<and> entry_type x = DirType)"
    and f: "\<And>c w b r w' log. f c (w, b) = Some (r, (w', log)) \<Longrightarrow>
      \<exists>l. log = b @ l \<and> orderly c b l \<and> stops r l \<and> (r = Inr () \<longrightarrow> cleared l (directory_entry c))"
  shows "\<exists>l. log = before @ l \<and> orderly root before l \<and> stops r l \<and>
    (r = Inr () \<longrightarrow> (\<forall>c \<in> set cs. cleared l (directory_entry c)))"
  using assms(1,2)
proof (induction cs arbitrary: w before)
  case Nil
  then show ?case by (intro exI [of _ "[]"]) (auto simp: stops_def)
next
  case (Cons c cs)
  then obtain r1 w1 l1 where c: "f c (w, before) = Some (r1, (w1, l1))" by (auto split: option.splits)
  from f [OF this] Cons.prems(2) obtain a where a: "l1 = before @ a" "orderly root before a" "stops r1 a"
      "r1 = Inr () \<longrightarrow> cleared a (directory_entry c)" by (auto intro: orderly_child)
  show ?case
  proof (cases r1)
    case (Inl e)
    with c Cons.prems(1) a show ?thesis by auto
  next
    case (Inr u)
    with c Cons.prems(1) have "each_returning f cs (w1, l1) = Some (r, (w', log))" by simp
    moreover have "\<forall>c \<in> set cs. listed l1 (\<lambda>x. entry_path x = c \<and> entry_type x = DirType)"
      using Cons.prems(2) by (auto simp: a(1) intro: listed_append)
    ultimately obtain b where b: "log = l1 @ b" "orderly root l1 b" "stops r b"
        "r = Inr () \<longrightarrow> (\<forall>c \<in> set cs. cleared b (directory_entry c))" using Cons.IH by blast
    from a b Inr show ?thesis
      by (intro exI [of _ "a @ b"]) (auto simp: orderly_append intro: stops_append cleared_append)
  qed
qed

lemma stops_context: "stops (map_sum (Context c) id r) l = stops r l"
  by (cases r) (simp_all add: stops_def)

lemma returning_context_Some:
  "returning_context c m = Some (r, w) \<longleftrightarrow> (\<exists>r'. m = Some (r', w) \<and> r = map_sum (Context c) id r')"
  by (auto simp: returning_context_def split: option.splits sum.splits)

lemma context_logged:
  assumes "returning_context m (f c (w, b)) = Some (r, (w', log))"
    and f: "\<And>r. f c (w, b) = Some (r, (w', log)) \<Longrightarrow>
      \<exists>l. log = b @ l \<and> orderly c b l \<and> stops r l \<and> (r = Inr () \<longrightarrow> cleared l (directory_entry c))"
  shows "\<exists>l. log = b @ l \<and> orderly c b l \<and> stops r l \<and> (r = Inr () \<longrightarrow> cleared l (directory_entry c))"
proof -
  from assms(1) obtain r' where r': "f c (w, b) = Some (r', (w', log))" "r = map_sum (Context m) id r'"
    by (auto simp: returning_context_Some)
  from f [OF r'(1)] r'(2) show ?thesis by (cases r') (auto simp: stops_def)
qed

lemma remove_own_logged:
  assumes "remove_own (logged ops) root (w, before) = (r, (w', log))" "emptied before root"
  shows "\<exists>x. log = before @ [x] \<and> orderly root before [x] \<and> stops r [x] \<and> (r = Inr () \<longrightarrow> cleared [x] (directory_entry root))"
proof -
  obtain x w4 where x: "remove_directory ops root w = (x, w4)" by fastforce
  with assms show ?thesis
    by (intro exI [of _ "RemoveDirectory root x"])
      (auto simp: remove_own_def tolerate_missing_def logged_def logging_def stops_def cleared_def
        split: sum.splits if_splits)
qed

lemma removal_of_listed:
  assumes es: "\<And>P e. e \<in> set es \<Longrightarrow> P e \<Longrightarrow> listed before P" "before = b0 @ [ReadDirectory root (Inr es)]"
    and run: "(case each (remove_entry (logged ops) root) es (w, before) of
             (Inl e, w2) \<Rightarrow> Some (Inl e, w2)
           | (Inr u, w2) \<Rightarrow>
               Option.bind (each_returning (\<lambda>child w. returning_context (g child) (f child w)) (child_directories es) w2)
                 (\<lambda>(r, w3). case r of Inl e \<Rightarrow> Some (Inl e, w3) | Inr u \<Rightarrow> Some (remove_own (logged ops) root w3))) =
      Some (r, (w', log))"
    and f: "\<And>c w b r w' log. f c (w, b) = Some (r, (w', log)) \<Longrightarrow>
      \<exists>l. log = b @ l \<and> orderly c b l \<and> stops r l \<and> (r = Inr () \<longrightarrow> cleared l (directory_entry c))"
  shows "\<exists>l. log = before @ l \<and> orderly root before l \<and> stops r l \<and> (r = Inr () \<longrightarrow> cleared l (directory_entry root))"
proof -
  obtain r2 w2 l2 where two: "each (remove_entry (logged ops) root) es (w, before) = (r2, (w2, l2))"
    by (metis prod.exhaust)
  have "\<forall>e \<in> set es. entry_type e \<noteq> DirType \<longrightarrow> listed before (\<lambda>x. entry_path x = entry_path e \<and> entry_type x \<noteq> DirType)"
    by (auto intro: es(1))
  from remove_entries_logged [OF two this, of root] obtain b where b: "l2 = before @ b" "orderly root before b" "stops r2 b"
      "r2 = Inr () \<longrightarrow> (\<forall>e \<in> set es. unlinked e b)" by blast
  show ?thesis
  proof (cases r2)
    case (Inl e)
    with run two b show ?thesis by auto
  next
    case ok2: (Inr u)
    with run two obtain r3 w3 l3 where three:
      "each_returning (\<lambda>child w. returning_context (g child) (f child w)) (child_directories es) (w2, l2) = Some (r3, (w3, l3))"
      and rest: "(case r3 of Inl e \<Rightarrow> Some (Inl e, (w3, l3)) | Inr u \<Rightarrow> Some (remove_own (logged ops) root (w3, l3))) = Some (r, (w', log))"
      by (auto simp: bind_eq_Some_conv)
    have "\<forall>c \<in> set (child_directories es). listed l2 (\<lambda>x. entry_path x = c \<and> entry_type x = DirType)"
      unfolding b(1) by (auto simp: child_directories_def intro!: listed_append(1) intro: es(1))
    moreover have "\<exists>l. log = b @ l \<and> orderly c b l \<and> stops r l \<and> (r = Inr () \<longrightarrow> cleared l (directory_entry c))"
      if "returning_context (g c) (f c (w, b)) = Some (r, (w', log))" for c w b r w' log
      using that by (rule context_logged [where f = f, OF _ f])
    ultimately obtain d where d: "l3 = l2 @ d" "orderly root l2 d" "stops r3 d"
        "r3 = Inr () \<longrightarrow> (\<forall>c \<in> set (child_directories es). cleared d (directory_entry c))"
      using remove_children_logged [OF three, where root = root] by blast
    have bd: "stops r3 (b @ d)" using b(3) ok2 d(3) stops_append by simp
    show ?thesis
    proof (cases r3)
      case (Inl e)
      with rest b d bd show ?thesis by (intro exI [of _ "b @ d"]) (auto simp: orderly_append)
    next
      case ok3: (Inr u3)
      have "cleared (b @ d) e" if "e \<in> set es" for e
      proof (cases "entry_type e = DirType")
        case True
        then have "directory_entry (entry_path e) = e" by simp
        moreover have "cleared d (directory_entry (entry_path e))"
          using that True d(4) ok3 by (simp add: child_directories_def)
        ultimately show ?thesis by (metis cleared_append(2))
      qed (use that b(4) ok2 in \<open>auto simp: unlinked_def intro: cleared_append\<close>)
      then have "emptied l3 root" unfolding emptied_def d(1) b(1) es(2) by auto
      with rest ok3 obtain x where "log = l3 @ [x]" "orderly root l3 [x]" "stops r [x]" "r = Inr () \<longrightarrow> cleared [x] (directory_entry root)"
        using remove_own_logged [of ops root w3 l3 r w' log] by auto
      with b d bd ok3 show ?thesis
        by (intro exI [of _ "b @ d @ [x]"]) (auto simp: orderly_append intro: stops_append [of "b @ d", simplified] cleared_append)
    qed
  qed
qed

lemma removal_logged:
  fixes ops :: "'w remote_file_operations"
  assumes "remove_remote_directory_tree (logged ops) root (w, before) = Some (r, (w', log))"
  shows "\<exists>l. log = before @ l \<and> orderly root before l \<and> stops r l \<and> (r = Inr () \<longrightarrow> cleared l (directory_entry root))"
proof -
  let ?P = "\<lambda>lops path v out. \<forall>(w :: 'w) before r (w' :: 'w) log. lops = logged ops \<longrightarrow> v = (w, before) \<longrightarrow> out = (r, (w', log)) \<longrightarrow>
    (\<exists>l. log = before @ l \<and> orderly path before l \<and> stops r l \<and> (r = Inr () \<longrightarrow> cleared l (directory_entry path)))"
  have "?P (logged ops) root (w, before) (r, (w', log))"
  proof (rule remove_remote_directory_tree.raw_induct [OF _ assms, where P = ?P], intro allI impI)
    fix f :: "('w \<times> exchange list) remote_file_operations \<Rightarrow> string \<Rightarrow> 'w \<times> exchange list \<Rightarrow> ((failure + unit) \<times> 'w \<times> exchange list) option"
    fix lops path v out w before r w' log
    assume sub: "\<And>lops path v out. f lops path v = Some out \<Longrightarrow> ?P lops path v out"
    assume run: "(case read_directory lops path v of
        (Inl e, w1) \<Rightarrow> if is_missing_remote_path e then Some (Inr (), w1)
          else Some (Inl (Context (''failed to read remote directory '' @ path @ '' during recursive deletion'') e), w1)
      | (Inr entries, w1) \<Rightarrow>
          (case each (remove_entry lops path) entries w1 of
             (Inl e, w2) \<Rightarrow> Some (Inl e, w2)
           | (Inr u, w2) \<Rightarrow>
               Option.bind (each_returning (\<lambda>child w. returning_context
                     (''failed to recursively delete child directory '' @ child @ '' from '' @ path) (f lops child w))
                   (child_directories entries) w2)
                 (\<lambda>(r, w3). case r of Inl e \<Rightarrow> Some (Inl e, w3) | Inr u \<Rightarrow> Some (remove_own lops path w3)))) = Some out"
      and eqs: "lops = logged ops" "v = (w, before)" "out = (r, (w', log))"
    obtain a v' where a: "read_directory ops path w = (a, v')" by fastforce
    let ?read = "ReadDirectory path a"
    have read: "read_directory (logged ops) path (w, before) = (a, (v', before @ [?read]))"
      by (simp add: logged_def logging_def a)
    show "\<exists>l. log = before @ l \<and> orderly path before l \<and> stops r l \<and> (r = Inr () \<longrightarrow> cleared l (directory_entry path))"
    proof (cases a)
      case (Inl e)
      with run read eqs show ?thesis by (intro exI [of _ "[?read]"]) (auto simp: stops_def cleared_def split: if_splits)
    next
      case (Inr es)
      have found: "listed (before @ [?read]) P" if "e \<in> set es" "P e" for e P using that Inr by (auto simp: listed_def)
      have "\<exists>l. log = (before @ [?read]) @ l \<and> orderly path (before @ [?read]) l \<and> stops r l \<and>
          (r = Inr () \<longrightarrow> cleared l (directory_entry path))"
        by (rule removal_of_listed [where f = "f (logged ops)" and es = es, OF found _ _ ])
          (use run read Inr eqs sub in auto)
      then obtain l where l: "log = before @ ?read # l" "orderly path (before @ [?read]) l" "stops r l"
          "r = Inr () \<longrightarrow> cleared l (directory_entry path)" by auto
      have "stops (Inr ()) [?read]" using Inr by (simp add: stops_def)
      from stops_append [OF this l(3)] have "stops r (?read # l)" by simp
      with l show ?thesis
        by (intro exI [of _ "?read # l"]) (use cleared_append(2) [of l _ "[?read]"] in simp)
    qed
  qed
  then show ?thesis by simp
qed

end
