(* ===== verification/Sftp_Tree.thy ===== *)
theory Sftp_Tree
  imports Sftp_Removal
begin

text \<open>
  The recursive removal on a server that stores files. \<open>file_server\<close> states what SFTP promises of the
  three requests, for a server that no one else writes to; it may still refuse any of them. The removal
  always returns, leaves what is not below the directory as it is, and removes all that is below it
  when the server permits.
\<close>

section \<open>A server that stores files\<close>

definition plain :: "string \<Rightarrow> bool" where
  \<comment> \<open>no slash at the end, except in the root\<close>
  "plain p \<longleftrightarrow> p = ''/'' \<or> p \<noteq> [] \<and> \<not> suffix ''/'' p"

definition slashed :: "string \<Rightarrow> string" where
  "slashed p = (if p = ''/'' then p else p @ ''/'')"

definition child :: "string \<Rightarrow> string \<Rightarrow> bool" where
  "child p q \<longleftrightarrow> plain p \<and>
     (let n = drop (length (slashed p)) q in q = slashed p @ n \<and> n \<noteq> [] \<and> CHR ''/'' \<notin> set n)"

abbreviation below :: "string \<Rightarrow> string \<Rightarrow> bool" where
  "below \<equiv> child\<^sup>*\<^sup>*"

definition tree_shaped :: "(string \<rightharpoonup> file_type) \<Rightarrow> bool" where
  "tree_shaped fs \<longleftrightarrow> (\<forall>p q. child p q \<longrightarrow> fs q \<noteq> None \<longrightarrow> fs p = Some DirType)"

definition refused :: "failure \<Rightarrow> (string \<rightharpoonup> file_type) \<Rightarrow> string \<Rightarrow> bool" where
  \<comment> \<open>a failure: nothing changed, and only a missing file is reported as missing\<close>
  "refused e fs p \<longleftrightarrow> (is_missing_remote_path e \<longrightarrow> fs p = None)"

definition file_server :: "'w remote_file_operations \<Rightarrow> ('w \<Rightarrow> string \<rightharpoonup> file_type) \<Rightarrow> bool" where
  "file_server ops files \<longleftrightarrow>
     (\<forall>p w r w'. plain p \<longrightarrow> read_directory ops p w = (r, w') \<longrightarrow> files w' = files w \<and>
        (case r of Inl e \<Rightarrow> refused e (files w) p
         | Inr es \<Rightarrow> files w p = Some DirType \<and>
             (\<forall>q t. (\<exists>e \<in> set es. entry_path e = q \<and> entry_type e = t) \<longleftrightarrow> child p q \<and> files w q = Some t))) \<and>
     (\<forall>p w r w'. plain p \<longrightarrow> remove_file ops p w = (r, w') \<longrightarrow>
        (case r of Inl e \<Rightarrow> files w' = files w \<and> refused e (files w) p
         | Inr u \<Rightarrow> files w p \<noteq> None \<and> files w p \<noteq> Some DirType \<and> files w' = (files w)(p := None))) \<and>
     (\<forall>p w r w'. plain p \<longrightarrow> remove_directory ops p w = (r, w') \<longrightarrow>
        (case r of Inl e \<Rightarrow> files w' = files w \<and> refused e (files w) p
         | Inr u \<Rightarrow> files w p = Some DirType \<and> (\<forall>q. child p q \<longrightarrow> files w q = None) \<and> files w' = (files w)(p := None)))"

definition permissive :: "'w remote_file_operations \<Rightarrow> ('w \<Rightarrow> string \<rightharpoonup> file_type) \<Rightarrow> bool" where
  \<comment> \<open>what can be read or removed is\<close>
  "permissive ops files \<longleftrightarrow>
     (\<forall>p w. plain p \<longrightarrow> files w p = None \<or> files w p = Some DirType \<longrightarrow> harmless (fst (read_directory ops p w))) \<and>
     (\<forall>p w. plain p \<longrightarrow> files w p \<noteq> Some DirType \<longrightarrow> harmless (fst (remove_file ops p w))) \<and>
     (\<forall>p w. plain p \<longrightarrow> files w p = None \<or> files w p = Some DirType \<and> (\<forall>q. child p q \<longrightarrow> files w q = None) \<longrightarrow>
        harmless (fst (remove_directory ops p w)))"

section \<open>Paths below a directory\<close>

lemma childE:
  assumes "child p q"
  obtains n where "plain p" "q = slashed p @ n" "n \<noteq> []" "CHR ''/'' \<notin> set n"
  using assms by (auto simp: child_def Let_def)

lemma child_plain: "child p q \<Longrightarrow> plain p" "child p q \<Longrightarrow> plain q"
proof -
  show "child p q \<Longrightarrow> plain p" by (rule childE)
  assume "child p q"
  then obtain n where n: "q = slashed p @ n" "n \<noteq> []" "CHR ''/'' \<notin> set n" by (rule childE)
  then have "\<not> suffix ''/'' q" by (cases n rule: rev_cases) (auto simp: suffix_def)
  with n show "plain q" by (simp add: plain_def)
qed

lemma below_plain: "below p q \<Longrightarrow> plain p \<Longrightarrow> plain q"
  by (induction rule: rtranclp_induct) (auto dest: child_plain)

lemma child_longer: "child p q \<Longrightarrow> length p < length q"
  by (auto elim!: childE simp: slashed_def)

lemma below_longer: "below p q \<Longrightarrow> p = q \<or> length p < length q"
  by (induction rule: rtranclp_induct) (auto dest: child_longer)

lemma parent_unique: "child p q \<Longrightarrow> child p' q \<Longrightarrow> p = p'"
proof -
  have eq: "slashed p = rev (dropWhile (\<lambda>c. c \<noteq> CHR ''/'') (rev q))" if c: "child p q" for p
  proof -
    from c obtain n where n: "q = slashed p @ n" "CHR ''/'' \<notin> set n" by (rule childE)
    obtain s where s: "slashed p = s @ ''/''" using slashed_def by (cases "p = ''/''") auto
    have "dropWhile (\<lambda>c. c \<noteq> CHR ''/'') (rev n @ CHR ''/'' # rev s) = CHR ''/'' # rev s"
      using n(2) by (subst dropWhile_append2) auto
    with n(1) s show ?thesis by simp
  qed
  assume c: "child p q" "child p' q"
  then have "slashed p = slashed p'" using eq by metis
  with c show ?thesis by (auto elim!: childE simp: slashed_def plain_def split: if_splits)
qed

lemma below_of_child:
  assumes "below p q" "child c q" "q \<noteq> p"
  shows "below p c"
  using assms by (cases rule: rtranclp.cases) (auto dest: parent_unique)

lemma tree_above: "below p q \<Longrightarrow> tree_shaped fs \<Longrightarrow> fs q \<noteq> None \<Longrightarrow> fs p \<noteq> None"
  by (induction rule: rtranclp_induct) (auto simp: tree_shaped_def)

lemma tree_remove:
  assumes "tree_shaped fs" "fs p \<noteq> Some DirType \<or> (\<forall>q. child p q \<longrightarrow> fs q = None)"
  shows "tree_shaped (fs(p := None))"
  unfolding tree_shaped_def
proof (intro allI impI)
  fix x y
  assume c: "child x y" and y: "(fs(p := None)) y \<noteq> None"
  then have "fs y \<noteq> None" by (auto split: if_splits)
  with c assms have "fs x = Some DirType" "x \<noteq> p" by (auto simp: tree_shaped_def)
  then show "(fs(p := None)) x = Some DirType" by simp
qed

section \<open>What the removal leaves\<close>

definition shrinks :: "string \<Rightarrow> (string \<rightharpoonup> file_type) \<Rightarrow> (string \<rightharpoonup> file_type) \<Rightarrow> bool" where
  "shrinks p fs fs' \<longleftrightarrow> tree_shaped fs' \<and> fs' \<subseteq>\<^sub>m fs \<and> (\<forall>q. \<not> below p q \<longrightarrow> fs' q = fs q)"

lemma shrinks_refl: "tree_shaped fs \<Longrightarrow> shrinks p fs fs"
  by (simp add: shrinks_def)

lemma shrinks_trans: "shrinks p a b \<Longrightarrow> shrinks p b c \<Longrightarrow> shrinks p a c"
  by (auto simp: shrinks_def intro: map_le_trans)

lemma shrinks_child: "shrinks c a b \<Longrightarrow> below p c \<Longrightarrow> shrinks p a b"
  unfolding shrinks_def by (meson rtranclp_trans)

lemma shrinks_gone: "shrinks p a b \<Longrightarrow> a q = None \<Longrightarrow> b q = None"
  by (auto simp: shrinks_def map_le_def dom_def)

lemma shrinks_kept: "shrinks p a b \<Longrightarrow> b q = Some t \<Longrightarrow> a q = Some t"
  by (auto simp: shrinks_def map_le_def dom_def)

lemma shrinks_or: "shrinks p a b \<Longrightarrow> b q = None \<or> b q = a q"
  by (auto simp: shrinks_def map_le_def dom_def)

lemma shrinks_remove:
  assumes "tree_shaped fs" "below p q" "fs q \<noteq> Some DirType \<or> (\<forall>x. child q x \<longrightarrow> fs x = None)"
  shows "shrinks p fs (fs(q := None))"
  using tree_remove [OF assms(1,3)] assms(2) by (auto simp: shrinks_def map_le_def)

lemma gone_below: "tree_shaped fs \<Longrightarrow> fs p = None \<Longrightarrow> below p q \<Longrightarrow> fs q = None"
  by (metis tree_above)

definition removal_result ::
  "bool \<Rightarrow> string \<Rightarrow> string \<Rightarrow> (string \<rightharpoonup> file_type) \<Rightarrow> failure + unit \<Rightarrow> (string \<rightharpoonup> file_type) \<Rightarrow> bool" where
  \<comment> \<open>of the removal of \<open>q\<close>, below \<open>p\<close>\<close>
  "removal_result permits p q fs r fs' \<longleftrightarrow> shrinks p fs fs' \<and> (r = Inr () \<longrightarrow> fs' q = None) \<and> (permits \<longrightarrow> r = Inr ())"

lemma tolerated:
  assumes "tolerate_missing c m w = (r, w')"
  obtains e where "m w = (Inl e, w')" "is_missing_remote_path e" "r = Inr ()"
  | e where "m w = (Inl e, w')" "\<not> is_missing_remote_path e" "r = Inl (Context c e)"
  | "m w = (Inr (), w')" "r = Inr ()"
  using assms by (auto simp: tolerate_missing_def split: prod.splits sum.splits if_splits)

lemma remove_file_result:
  assumes server: "file_server ops files" and "tree_shaped (files w)" "plain q" "below p q"
    and m: "tolerate_missing c (remove_file ops q) w = (r, w')"
  shows "removal_result (permissive ops files \<and> files w q \<noteq> Some DirType) p q (files w) r (files w')"
proof -
  have law: "case a of Inl e \<Rightarrow> files w' = files w \<and> refused e (files w) q
      | Inr u \<Rightarrow> files w q \<noteq> None \<and> files w q \<noteq> Some DirType \<and> files w' = (files w)(q := None)"
    if "remove_file ops q w = (a, w')" for a
    using server that assms(3) unfolding file_server_def by blast
  have permits: "harmless (fst (remove_file ops q w))" if "permissive ops files" "files w q \<noteq> Some DirType"
    using that assms(3) unfolding permissive_def by blast
  from m show ?thesis
    by (cases rule: tolerated)
      (use assms(2,4) law permits in \<open>auto simp: removal_result_def refused_def intro: shrinks_refl shrinks_remove\<close>)
qed

lemma remove_own_result:
  assumes server: "file_server ops files" and "tree_shaped (files w)" "plain p"
    and m: "remove_own ops p w = (r, w')"
  shows "removal_result (permissive ops files \<and> (files w p = None \<or> files w p = Some DirType \<and> (\<forall>q. child p q \<longrightarrow> files w q = None)))
    p p (files w) r (files w')" (is "removal_result (_ \<and> ?empty) _ _ _ _ _")
proof -
  have law: "case a of Inl e \<Rightarrow> files w' = files w \<and> refused e (files w) p
      | Inr u \<Rightarrow> files w p = Some DirType \<and> (\<forall>q. child p q \<longrightarrow> files w q = None) \<and> files w' = (files w)(p := None)"
    if "remove_directory ops p w = (a, w')" for a
    using server that assms(3) unfolding file_server_def by blast
  define empty where "empty \<longleftrightarrow> ?empty"
  have permits: "harmless (fst (remove_directory ops p w))" if "permissive ops files" empty
    using that assms(3) unfolding permissive_def empty_def by blast
  from m [unfolded remove_own_def] show ?thesis unfolding empty_def [symmetric]
    by (cases rule: tolerated)
      (use assms(2) law permits in \<open>auto simp: removal_result_def refused_def intro: shrinks_refl shrinks_remove\<close>)
qed

lemma remove_entries_result:
  assumes server: "file_server ops files" and "tree_shaped (files w)" "plain p"
    and "\<forall>e \<in> set es. child p (entry_path e) \<and> (files w (entry_path e) = None \<or> files w (entry_path e) = Some (entry_type e))"
    and "each (remove_entry ops p) es w = (r, w')"
  shows "shrinks p (files w) (files w') \<and> (permissive ops files \<longrightarrow> r = Inr ()) \<and>
    (r = Inr () \<longrightarrow> (\<forall>e \<in> set es. entry_type e \<noteq> DirType \<longrightarrow> files w' (entry_path e) = None))"
  using assms(2,4,5)
proof (induction es arbitrary: w)
  case Nil
  then show ?case by (simp add: shrinks_refl)
next
  case (Cons e es)
  let ?q = "entry_path e"
  have q: "plain ?q" "below p ?q" using Cons.prems(2) child_plain by auto
  have first: "shrinks p (files w) (files v) \<and> (permissive ops files \<longrightarrow> a = Inr ()) \<and>
      (a = Inr () \<longrightarrow> entry_type e \<noteq> DirType \<longrightarrow> files v ?q = None)" if "remove_entry ops p e w = (a, v)" for a v
  proof (cases "entry_type e = DirType")
    case True
    with that Cons.prems(1) show ?thesis by (simp add: remove_entry_def shrinks_refl)
  next
    case False
    with that have "tolerate_missing (''failed to remove remote entry '' @ ?q @ '' while deleting directory '' @ p)
        (remove_file ops ?q) w = (a, v)" by (simp add: remove_entry_def)
    from remove_file_result [OF server Cons.prems(1) q this] False Cons.prems(2) show ?thesis
      by (auto simp: removal_result_def)
  qed
  from Cons.prems(3) show ?case
    unfolding each.simps
  proof (rule attempt_cases)
    fix f assume "remove_entry ops p e w = (Inl f, w')" "r = Inl f"
    with first show ?thesis by auto
  next
    fix u v assume e: "remove_entry ops p e w = (Inr u, v)" and rest: "each (remove_entry ops p) es v = (r, w')"
    have s: "shrinks p (files w) (files v)" using first [OF e] by simp
    have "\<forall>e \<in> set es. child p (entry_path e) \<and> (files v (entry_path e) = None \<or> files v (entry_path e) = Some (entry_type e))"
      using Cons.prems(2) shrinks_or [OF s] by (metis list.set_intros(2))
    with Cons.IH [of v] rest s show ?thesis
      using first [OF e] by (auto simp: shrinks_def [of p "files w" "files v"] dest: shrinks_gone intro: shrinks_trans [OF s])
  qed
qed

lemma remove_children_result:
  assumes "\<forall>c \<in> set cs. child p c \<and> (files w c = None \<or> files w c = Some DirType)" "tree_shaped (files w)"
    and f: "\<And>c v. c \<in> set cs \<Longrightarrow> shrinks p (files w) (files v) \<Longrightarrow>
      \<exists>r v'. f c v = Some (r, v') \<and>
        removal_result (permits \<and> (files v c = None \<or> files v c = Some DirType)) c c (files v) r (files v')"
  shows "\<exists>r w'. each_returning f cs w = Some (r, w') \<and> shrinks p (files w) (files w') \<and> (permits \<longrightarrow> r = Inr ()) \<and>
    (r = Inr () \<longrightarrow> (\<forall>c \<in> set cs. files w' c = None))"
  using assms
proof (induction cs arbitrary: w)
  case Nil
  then show ?case by (simp add: shrinks_refl)
next
  case (Cons c cs)
  from Cons.prems(3) [OF _ shrinks_refl [OF Cons.prems(2)], of c] obtain r v where c: "f c w = Some (r, v)"
    "removal_result (permits \<and> (files w c = None \<or> files w c = Some DirType)) c c (files w) r (files v)" by auto
  with Cons.prems(1) have s: "shrinks p (files w) (files v)" and gone: "r = Inr () \<longrightarrow> files v c = None"
    and permits: "permits \<longrightarrow> r = Inr ()"
    by (auto simp: removal_result_def intro: shrinks_child)
  show ?case
  proof (cases r)
    case (Inl e)
    with c s permits show ?thesis by auto
  next
    case (Inr u)
    have "\<forall>c \<in> set cs. child p c \<and> (files v c = None \<or> files v c = Some DirType)"
      using Cons.prems(1) shrinks_or [OF s] by (metis list.set_intros(2))
    moreover have "tree_shaped (files v)" using s by (simp add: shrinks_def)
    moreover have "\<exists>r v'. f c x = Some (r, v') \<and>
        removal_result (permits \<and> (files x c = None \<or> files x c = Some DirType)) c c (files x) r (files v')"
      if "c \<in> set cs" "shrinks p (files v) (files x)" for c x
      using Cons.prems(3) [of c x] that s by (auto intro: shrinks_trans)
    ultimately obtain r2 v2 where rest: "each_returning f cs v = Some (r2, v2)" "shrinks p (files v) (files v2)"
        "permits \<longrightarrow> r2 = Inr ()" "r2 = Inr () \<longrightarrow> (\<forall>c \<in> set cs. files v2 c = None)"
      using Cons.IH by blast
    with c Inr gone show ?thesis by (auto intro: shrinks_trans [OF s] dest: shrinks_gone)
  qed
qed

section \<open>The removal\<close>

definition held :: "(string \<rightharpoonup> file_type) \<Rightarrow> string \<Rightarrow> string set" where
  "held fs p = {q \<in> dom fs. below p q}"

lemma held_child:
  assumes "finite (dom fs)" "shrinks p fs fs'" "child p c" "fs p \<noteq> None"
  shows "card (held fs' c) < card (held fs p)"
proof (rule psubset_card_mono)
  show "finite (held fs p)" using assms(1) by (simp add: held_def)
  have "p \<notin> held fs' c" using below_longer [of c p] child_longer [OF assms(3)] by (auto simp: held_def)
  moreover have "p \<in> held fs p" using assms(4) by (simp add: held_def domIff)
  moreover have "held fs' c \<subseteq> held fs p"
    using assms(2,3) by (auto simp: held_def dest: shrinks_kept intro: converse_rtranclp_into_rtranclp)
  ultimately show "held fs' c \<subset> held fs p" by auto
qed

lemma removal_of_content:
  assumes server: "file_server ops files" and "tree_shaped (files w)" "plain p" "files w p = Some DirType"
    and es: "\<And>q t. (\<exists>e \<in> set es. entry_path e = q \<and> entry_type e = t) \<longleftrightarrow> child p q \<and> files w q = Some t"
    and f: "\<And>c v. child p c \<Longrightarrow> shrinks p (files w) (files v) \<Longrightarrow>
      \<exists>r v'. f c v = Some (r, v') \<and>
        removal_result (permissive ops files \<and> (files v c = None \<or> files v c = Some DirType)) c c (files v) r (files v')"
  shows "\<exists>r w'. (case each (remove_entry ops p) es w of
          (Inl e, w2) \<Rightarrow> Some (Inl e, w2)
        | (Inr u, w2) \<Rightarrow> Option.bind (each_returning f (child_directories es) w2)
            (\<lambda>(r, w3). case r of Inl e \<Rightarrow> Some (Inl e, w3) | Inr u \<Rightarrow> Some (remove_own ops p w3))) = Some (r, w') \<and>
      removal_result (permissive ops files) p p (files w) r (files w')"
proof -
  obtain r2 w2 where two: "each (remove_entry ops p) es w = (r2, w2)" by fastforce
  have two': "shrinks p (files w) (files w2)" "permissive ops files \<longrightarrow> r2 = Inr ()"
      "r2 = Inr () \<longrightarrow> (\<forall>e \<in> set es. entry_type e \<noteq> DirType \<longrightarrow> files w2 (entry_path e) = None)"
    using remove_entries_result [OF server assms(2,3) _ two] es by auto
  show ?thesis
  proof (cases r2)
    case (Inl e)
    with two two' show ?thesis by (auto simp: removal_result_def)
  next
    case ok2: (Inr u)
    have cs: "\<forall>c \<in> set (child_directories es). child p c \<and> (files w2 c = None \<or> files w2 c = Some DirType)"
      using es shrinks_or [OF two'(1)] by (fastforce simp: child_directories_def)
    have "\<exists>r w'. each_returning f (child_directories es) w2 = Some (r, w') \<and> shrinks p (files w2) (files w') \<and>
        (permissive ops files \<longrightarrow> r = Inr ()) \<and> (r = Inr () \<longrightarrow> (\<forall>c \<in> set (child_directories es). files w' c = None))"
    proof (rule remove_children_result [where files = files and w = w2 and p = p, OF cs])
      show "tree_shaped (files w2)" using two'(1) by (simp add: shrinks_def)
      fix c v
      assume "c \<in> set (child_directories es)" and v: "shrinks p (files w2) (files v)"
      with cs have "child p c" by simp
      then show "\<exists>r v'. f c v = Some (r, v') \<and>
          removal_result (permissive ops files \<and> (files v c = None \<or> files v c = Some DirType)) c c (files v) r (files v')"
        using shrinks_trans [OF two'(1) v] by (rule f)
    qed
    then obtain r3 w3 where three: "each_returning f (child_directories es) w2 = Some (r3, w3)" and
        s23: "shrinks p (files w2) (files w3)" and three': "permissive ops files \<longrightarrow> r3 = Inr ()"
        "r3 = Inr () \<longrightarrow> (\<forall>c \<in> set (child_directories es). files w3 c = None)" by blast
    have s: "shrinks p (files w) (files w3)" by (rule shrinks_trans [OF two'(1) s23])
    show ?thesis
    proof (cases r3)
      case (Inl e)
      with two ok2 three s three' show ?thesis by (auto simp: removal_result_def)
    next
      case ok3: (Inr u3)
      obtain r w' where own: "remove_own ops p w3 = (r, w')" by fastforce
      have "files w3 q = None" if "child p q" for q
      proof (rule ccontr)
        assume q: "files w3 q \<noteq> None"
        then obtain t where "files w3 q = Some t" by auto
        with shrinks_kept [OF s] that es obtain e where e: "e \<in> set es" "entry_path e = q" by metis
        with two'(3) three'(2) ok2 ok3 q shrinks_gone [OF s23] show False
          by (cases "entry_type e = DirType") (auto simp: child_directories_def)
      qed
      moreover have "files w3 p = None \<or> files w3 p = Some DirType" using shrinks_or [OF s] assms(4) by metis
      moreover have "tree_shaped (files w3)" using s by (simp add: shrinks_def)
      ultimately have "removal_result (permissive ops files) p p (files w3) r (files w')"
        using remove_own_result [OF server _ assms(3) own] by simp
      with two ok2 three ok3 own s show ?thesis by (auto simp: removal_result_def intro: shrinks_trans [OF s])
    qed
  qed
qed

lemma removal_returns:
  assumes server: "file_server ops files" and "tree_shaped (files w)" "finite (dom (files w))" "plain p"
  shows "\<exists>r w'. remove_remote_directory_tree ops p w = Some (r, w') \<and>
    removal_result (permissive ops files \<and> (files w p = None \<or> files w p = Some DirType)) p p (files w) r (files w')"
  using assms(2-)
proof (induction "card (held (files w) p)" arbitrary: p w rule: less_induct)
  case less
  obtain a v where a: "read_directory ops p w = (a, v)" by fastforce
  have law: "files v = files w \<and> (case a of Inl e \<Rightarrow> refused e (files w) p
         | Inr es \<Rightarrow> files w p = Some DirType \<and>
             (\<forall>q t. (\<exists>e \<in> set es. entry_path e = q \<and> entry_type e = t) \<longleftrightarrow> child p q \<and> files w q = Some t))"
    using server a less.prems(3) unfolding file_server_def by blast
  show ?case
  proof (cases a)
    case (Inl e)
    define readable where "readable \<longleftrightarrow> files w p = None \<or> files w p = Some DirType"
    have "harmless (fst (read_directory ops p w))" if "permissive ops files" readable
      using that less.prems(3) unfolding permissive_def readable_def by blast
    with a Inl law less.prems(1) show ?thesis unfolding readable_def [symmetric]
      by (subst remove_remote_directory_tree.simps) (auto simp: removal_result_def refused_def shrinks_refl)
  next
    case (Inr es)
    with law have v: "files v = files w" and p: "files v p = Some DirType" and
      es: "\<And>q t. (\<exists>e \<in> set es. entry_path e = q \<and> entry_type e = t) \<longleftrightarrow> child p q \<and> files v q = Some t" by auto
    let ?f = "\<lambda>child w. returning_context
        (''failed to recursively delete child directory '' @ child @ '' from '' @ p) (remove_remote_directory_tree ops child w)"
    have f: "\<exists>r v'. ?f c x = Some (r, v') \<and>
        removal_result (permissive ops files \<and> (files x c = None \<or> files x c = Some DirType)) c c (files x) r (files v')"
      if c: "child p c" and s: "shrinks p (files v) (files x)" for c x
    proof -
      have "finite (dom (files x))"
        using s less.prems(2) v by (auto simp: shrinks_def intro: finite_subset [OF map_le_implies_dom_le])
      with less.hyps [of x c] held_child [of "files w" p "files x" c] less.prems(2) p s c v obtain r v' where
        "remove_remote_directory_tree ops c x = Some (r, v')"
        "removal_result (permissive ops files \<and> (files x c = None \<or> files x c = Some DirType)) c c (files x) r (files v')"
        by (auto simp: shrinks_def child_plain)
      then show ?thesis by (cases r) (auto simp: returning_context_def removal_result_def)
    qed
    have "tree_shaped (files v)" using less.prems(1) v by simp
    from removal_of_content [OF server this less.prems(3) p es f] a Inr v show ?thesis
      by (subst remove_remote_directory_tree.simps) (auto simp: removal_result_def)
  qed
qed


text \<open>With every server, whatever it answers: all that is removed below the directory was found by
  reading it. Only the directory itself and entries listed as directories are read, so symbolic links are
  never followed; only listed entries that are not directories are removed as files; and a directory is removed
  only after it was read and all that was listed is gone. The first failure that is not a missing file
  is the last exchange, and it is reported; when the removal succeeds, the directory is gone.\<close>

theorem removal_is_orderly:
  assumes "remove_remote_directory_tree (logged ops) directory (w, []) = Some (r, (w', log))"
  shows "orderly directory [] log \<and> stops r log \<and> (r = Inr () \<longrightarrow> cleared log (directory_entry directory))"
  using removal_logged [OF assms] by simp

section \<open>A server\<close>

definition disk :: "(string \<times> file_type) list remote_file_operations" where
  "disk =
     \<lparr>read_directory = (\<lambda>p fs.
        (case map_of fs p of
           None \<Rightarrow> Inl (Client NoSuchFile)
         | Some DirType \<Rightarrow> Inr (map (\<lambda>q. \<lparr>entry_path = q, entry_type = the (map_of fs q)\<rparr>) (filter (child p) (map fst fs)))
         | Some _ \<Rightarrow> Inl (Client (OtherStatus ''not a directory'')), fs)),
      remove_file = (\<lambda>p fs.
        (case map_of fs p of
           None \<Rightarrow> (Inl (Client NoSuchFile), fs)
         | Some DirType \<Rightarrow> (Inl (Client (OtherStatus ''is a directory'')), fs)
         | Some _ \<Rightarrow> (Inr (), filter (\<lambda>(q, t). q \<noteq> p) fs))),
      remove_directory = (\<lambda>p fs.
        (case map_of fs p of
           None \<Rightarrow> (Inl (Client NoSuchFile), fs)
         | Some DirType \<Rightarrow>
             if filter (child p) (map fst fs) = [] then (Inr (), filter (\<lambda>(q, t). q \<noteq> p) fs)
             else (Inl (Client (OtherStatus ''not empty'')), fs)
         | Some _ \<Rightarrow> (Inl (Client (OtherStatus ''not a directory'')), fs)))\<rparr>"

lemma map_of_without: "map_of (filter (\<lambda>(q, t). q \<noteq> p) fs) = (map_of fs)(p := None)"
  by (induction fs) auto

lemma map_of_missing: "filter P (map fst fs) = [] \<Longrightarrow> P q \<Longrightarrow> map_of fs q = None"
  by (induction fs) (auto split: if_splits)

lemma map_of_found: "map_of fs q = Some t \<Longrightarrow> q \<in> fst ` set fs"
  by (metis fst_conv image_eqI map_of_SomeD)

lemma map_of_listed: "(q, t) \<in> set fs \<Longrightarrow> map_of fs q = Some (the (map_of fs q))"
  by (cases "map_of fs q") (auto simp: map_of_eq_None_iff intro: rev_image_eqI)

lemma disk_serves: "file_server disk map_of"
  unfolding file_server_def disk_def
  by (auto simp: refused_def map_of_without split: option.splits file_type.splits if_splits
      dest: map_of_missing map_of_found map_of_listed)

lemma disk_permits: "permissive disk map_of"
  unfolding permissive_def disk_def
  by (auto split: option.splits file_type.splits simp: filter_empty_conv dest: map_of_listed spec)
    (metis map_of_listed option.distinct(1))

definition sample_disk :: "(string \<times> file_type) list" where
  "sample_disk = [(''/'', DirType), (''/r'', DirType), (''/r/s'', DirType), (''/r/s/f'', FileType), (''/r/l'', SymlinkType),
     (''/l2'', FileType)]"

lemma sample_children:
  "child ''/'' ''/r'' \<and> child ''/r'' ''/r/s'' \<and> child ''/r/s'' ''/r/s/f'' \<and> child ''/r'' ''/r/l'' \<and> child ''/'' ''/l2'' \<and>
     map_of sample_disk ''/'' = Some DirType \<and> map_of sample_disk ''/r'' = Some DirType \<and>
     map_of sample_disk ''/r/s'' = Some DirType \<and> map_of sample_disk ''/l2'' = Some FileType \<and> plain ''/r'' \<and>
     \<not> prefix ''/r'' ''/l2'' \<and> length (slashed ''/'') = 1"
  by code_simp

lemma sample_tree: "tree_shaped (map_of sample_disk)"
  unfolding tree_shaped_def
proof (intro allI impI)
  fix p q
  assume c: "child p q" and "map_of sample_disk q \<noteq> None"
  then have "q \<in> {''/'', ''/r'', ''/r/s'', ''/r/s/f'', ''/r/l'', ''/l2''}"
    by (auto simp: sample_disk_def split: if_splits)
  moreover have "q \<noteq> ''/''" using c child_longer [OF c] by (auto simp: child_def plain_def)
  ultimately have "p \<in> {''/'', ''/r'', ''/r/s''}" using c sample_children parent_unique by (metis insertE insertI1 insertI2 singletonD)
  then show "map_of sample_disk p = Some DirType" using sample_children by auto
qed

lemma below_prefix: "below p q \<Longrightarrow> prefix p q"
proof (induction rule: rtranclp_induct)
  case (step q x)
  then have "prefix q x" by (auto elim!: childE simp: slashed_def)
  with step show ?case by (auto intro: prefix_order.trans)
qed simp

lemma sample_log:
  "remove_remote_directory_tree (logged disk) ''/r'' (sample_disk, []) =
     Some (Inr (), [(''/'', DirType), (''/l2'', FileType)],
       [ReadDirectory ''/r'' (Inr [directory_entry ''/r/s'', \<lparr>entry_path = ''/r/l'', entry_type = SymlinkType\<rparr>]),
        RemoveFile ''/r/l'' (Inr ()),
        ReadDirectory ''/r/s'' (Inr [\<lparr>entry_path = ''/r/s/f'', entry_type = FileType\<rparr>]),
        RemoveFile ''/r/s/f'' (Inr ()), RemoveDirectory ''/r/s'' (Inr ()), RemoveDirectory ''/r'' (Inr ())])"
  by code_simp


theorem removal_is_orderly_witness:
  "emptied [ReadDirectory ''/r'' (Inr [directory_entry ''/r/s'', \<lparr>entry_path = ''/r/l'', entry_type = SymlinkType\<rparr>]),
        RemoveFile ''/r/l'' (Inr ()),
        ReadDirectory ''/r/s'' (Inr [\<lparr>entry_path = ''/r/s/f'', entry_type = FileType\<rparr>]),
        RemoveFile ''/r/s/f'' (Inr ()), RemoveDirectory ''/r/s'' (Inr ())] ''/r''"
  using removal_is_orderly [OF sample_log] by simp

end
