(* ===== verification/Spec2Isabelle.thy ===== *)
theory Spec2Isabelle
  imports Telnet_Properties Telnet_Login Sse Patch_Roundtrip Path_Guard Policy_Properties Approval
    Secret_Properties Sync_Config_Properties Sync_Secrets Capability_Properties
    Bridge_Security Records Settings_Properties Store_Properties Sync_Engine_Pull Sync_Engine_Push Sync_Service Sftp_Tree
begin

text \<open>
  A verification of the core logic of Miaominal, a desktop and Android workspace for SSH, SFTP,
  Telnet and RDP sessions with an AI agent that runs commands and edits files on the remote hosts.
  The repository is a Rust workspace; the theories model three groups of its code.

  \<^bold>\<open>The agent's safety layer\<close> (\<^verbatim>\<open>crates/miaominal-agent\<close>). A model asks for tools; the engine assesses
  each call, the approval matrix decides whether it runs, is asked for or is denied, and the
  execution channel checks again with a hard guard before it quotes paths into a command line.

    \<^item> \<open>Path_Location\<close>: what a path means (the names it leads to), and the contract \<open>path_cleaner\<close> of a
      function that rewrites paths, interpreted on the guard and on the denylist.
    \<^item> \<open>Path_Guard\<close> (\<^verbatim>\<open>path_guard.rs\<close>): vetting of workspace paths, quoting for POSIX shells, fish and
      PowerShell, canonical Windows paths, command builders. Quoting is proved against small readers
      of each shell's words.
    \<^item> \<open>Agent_Error\<close> (\<^verbatim>\<open>error.rs\<close>): the errors and their text.
    \<^item> \<open>Policy_Paths\<close> (\<^verbatim>\<open>policy/mod.rs\<close>): risk levels (a linear order), path normalisation, the
      sensitive path denylist and its specification \<open>sensitive_place\<close>, the guards of tools and paths.
    \<^item> \<open>Shell_Lexer\<close> (\<^verbatim>\<open>policy/shell.rs\<close>) and \<open>Lexer_Properties\<close>: the lexer of command lines for three
      dialects, with the proof that each round consumes input, that nothing recorded is lost, and
      that quoted words are read back.
    \<^item> \<open>Command_Policy\<close> and \<open>Command_Assess\<close> (\<^verbatim>\<open>policy/command.rs\<close>): the classification of programs by name
      and arguments, the wrappers, and the mutual recursion of the assessment; \<open>Risk_Fold\<close> is the
      contract of the accumulators in it, \<open>Policy_Properties\<close> the theorems.
    \<^item> \<open>Approval\<close> (\<^verbatim>\<open>policy/approval.rs\<close>): the approval matrix, the migration of modes, session grants.
    \<^item> \<open>Patch_Engine\<close> (\<^verbatim>\<open>tools/patch_engine.rs\<close>), \<open>Patch_Properties\<close> and \<open>Patch_Roundtrip\<close>: parsing and
      applying unified diffs, the line-level specification \<open>patched\<close>, printing and parsing back.

  \<^bold>\<open>Stream codecs.\<close> They consume network chunks, so their results must not depend on where the chunks
  are cut; \<open>Stream_Decoder\<close> states that contract as a locale, with both codecs as interpretations.

    \<^item> \<open>Telnet\<close>, \<open>Telnet_Properties\<close> and \<open>Telnet_Login\<close> (\<^verbatim>\<open>crates/miaominal-core/src/telnet.rs\<close>): the
      Telnet codec with its option negotiation, and the automatic login.
    \<^item> \<open>Sse\<close> and \<open>Utf8\<close> (\<^verbatim>\<open>model/sse.rs\<close>): the decoder of server-sent events and Rust's lossy UTF-8.

  \<^bold>\<open>Secrets and synchronisation.\<close> Profiles, keys and settings are synchronised through a WebDAV server or a
  gist; the secrets live in a credential store. \<open>Io\<close> is the vocabulary of operations that fail.

    \<^item> \<open>Secret_Store\<close> (\<^verbatim>\<open>crates/miaominal-secrets/src/secret_store.rs\<close>) and \<open>Secret_Properties\<close>: secrets in
      a credential store any operation of which may fail, long private keys in chunks behind a
      manifest.
    \<^item> \<open>Sync_Config\<close> (\<^verbatim>\<open>crates/miaominal-sync/src/model.rs\<close>, \<^verbatim>\<open>sync/store.rs\<close>), \<open>Sync_Secrets\<close> and
      \<open>Sync_Config_Properties\<close>: the configuration file that several stores edit, with optimistic
      concurrency by revisions.
    \<^item> \<open>Sync_Crypto\<close> (\<^verbatim>\<open>sync/encryption.rs\<close>, \<^verbatim>\<open>sync/payload.rs\<close>): the encrypted payload, the versions of its
      format, the limits of the key derivation. Cryptography and serialisation are parameters.
    \<^item> \<open>Capability\<close> and \<open>Capability_Probe\<close> (\<^verbatim>\<open>sync/capability.rs\<close>), \<open>Capability_Properties\<close>: the check
      whether a WebDAV server honours conditional requests. The server is a parameter; what is assumed
      of it is named where it is used, and a server that follows RFC 9110 is the example.
    \<^item> \<open>Sync_Payload\<close> (\<^verbatim>\<open>sync/payload.rs\<close>): how a payload is collected, merged, validated and applied, with
      the snapshot that undoes a failing application. \<open>Stored_Secrets\<close> follows the secrets through the
      operations, \<open>Sync_Rollback\<close> proves that a failing application is undone, \<open>Sync_Pull\<close> what a successful
      one stores.
    \<^item> \<open>Sync_Backend\<close> (\<^verbatim>\<open>sync/webdav.rs\<close>, \<^verbatim>\<open>sync/github_gist.rs\<close>, \<^verbatim>\<open>sync/providers.rs\<close>) and \<open>Sync_Engine\<close>
      (\<^verbatim>\<open>sync/engine.rs\<close>): the world of the engine (server, history of exchanges, configuration file,
      accounts, local data, what other tasks do at each request), the backends, pushes, pulls and polls.
      \<open>Sync_Engine_Properties\<close>: automatic pushes never write blindly; \<open>Sync_Engine_Push\<close>: what a push
      records was sent; \<open>Sync_Engine_Pull\<close>: unfinished pulls change nothing, automatic pulls overwrite only
      synchronised data. Interleaving is coarse: other tasks run where the code awaits a request.
    \<^item> \<open>Auto_Sync\<close> (\<^verbatim>\<open>crates/miaominal-services/src/services/auto_sync.rs\<close>): the scheduler of the automatic
      synchronisation, a task that takes commands, file events and ticks one at a time; the operations it
      calls are the parameter \<open>scheduler\<close> (\<^verbatim>\<open>SyncOps\<close>), times are milliseconds. Beside its state it keeps a record
      of the calls it made and the snapshots it published, which no operation reads: the properties speak of them.
      \<open>Auto_Sync_Properties\<close>: its invariants, with the locale \<open>capability_check\<close> for what a check may answer.
    \<^item> \<open>Sync_Service\<close> (\<^verbatim>\<open>sync_service.rs\<close>, \<^verbatim>\<open>sync_executor.rs\<close>): the operations themselves over the engine and the
      probe, the scheduler of the program, and what holds in each of its runs.

  \<^bold>\<open>Data, settings and their files.\<close>

    \<^item> \<open>Profile\<close> and \<open>Records\<close> (\<^verbatim>\<open>crates/miaominal-core/src\<close>: \<^verbatim>\<open>profile.rs\<close>, \<^verbatim>\<open>proxy.rs\<close>, \<^verbatim>\<open>snippet.rs\<close>,
      \<^verbatim>\<open>keychain.rs\<close>): profiles, imported drafts, proxies, snippets, managed keys.
    \<^item> \<open>Bridge_Security\<close> (\<^verbatim>\<open>ssh_bridge_security.rs\<close>): the policy of the SSH bridge, and the program that is
      shown for a connection.
    \<^item> \<open>Settings\<close> (\<^verbatim>\<open>crates/miaominal-settings/src\<close>: \<^verbatim>\<open>data.rs\<close>, \<^verbatim>\<open>rdp.rs\<close>, \<^verbatim>\<open>model.rs\<close>) and
      \<open>Settings_Properties\<close>: the settings, how they are sanitised, which of them are synchronised.
      \<open>Floats\<close> is the order of IEEE numbers on their bits; identifiers come from a source of texts.
    \<^item> \<open>Local_Stores\<close> (\<^verbatim>\<open>crates/miaominal-storage/src\<close>) and \<open>Store_Properties\<close>: files as parsed documents
      whose reads, writes and locks may fail; several settings stores that write the same file. A store is
      constructed in two steps, as the code reads the file without the lock and writes it under the lock.

  \<^bold>\<open>Remote files.\<close>

    \<^item> \<open>Sftp_Paths\<close> (\<^verbatim>\<open>crates/miaominal-sftp/src/sftp/paths.rs\<close>, \<^verbatim>\<open>sftp/local.rs\<close>): remote and local paths, listings,
      the recursive removal of a directory over requests that are parameters. \<open>Sftp_Removal\<close>: what holds with
      every server (symbolic links are not followed, content goes before its directory, the first failure
      ends the removal). \<open>Sftp_Tree\<close>: what holds with a server that stores files (the removal returns, and
      removes the tree and nothing else).

  \<open>Prelude\<close> models the part of Rust's standard library the code uses on strings (UTF-8 bytes).

  \<^bold>\<open>What the lemmas show.\<close> For each component: functional behaviour on every branch, errors included;
  refinement of a specification written without the code's loops (patches, denylist, event stream);
  round trips (quoting and lexing, printing and parsing of patches, Telnet input, events, secrets,
  payloads); invariants of every reachable state (Telnet options, login phase, grants, the revision of
  the configuration, the policy of the bridge, the scheduler); safety of the guard (a command is at
  least as risky as its parts, sensitive paths are always denied, programs outside of the lists need
  approval); and safety of the synchronisation under faults and interleavings (secrets are set
  atomically, automatic pushes are conditional, a failing pull is undone, what is acknowledged is
  kept). This theory joins the guard and the matrix. Where the code does not do what it means to, a
  lemma in a section at the end of the component's theory shows an input: substitutions in arithmetic
  expansions and here-documents, shell keywords and option values taken for programs, script blocks,
  curly quotes in PowerShell, the root path, patches of comment lines, insertions without context, CRLF
  texts, URLs with slashes and blanks in turn, key text left by a failing deletion, a late repair of
  the settings, a backoff that stops the polling, drive prefixes. The theorems exclude those inputs by
  hypotheses that name them.

  \<^bold>\<open>Bounds and termination.\<close> No fuel is used. The loops of the lexer, the decoder and the patch engine
  are total functions with a measure (the input left). The assessment recurses on scripts up to depth
  4, the constant \<open>MAX_DEPTH\<close> of the code, and otherwise on shorter argument lists. The removal of a
  directory may never return with a server that always lists another directory, so it is a partial
  function, and \<open>Sftp_Tree\<close> proves that it returns. Counts of hunk headers are bounded by the 64-bit
  \<open>usize\<close>; window sizes, Telnet bytes, revisions and generations are words.

  \<^bold>\<open>Not modelled.\<close> Error texts of the patch engine (structured values instead); upper and lower case of
  non-ASCII letters other than those that map to ASCII; the asynchronous channel, backends, tools and
  engine of the agent; SSH connections, SFTP sessions and transfers, importers and databases, RDP,
  terminal key tables, themes, the other services, the user interface and the Android bindings: they are
  I/O around external libraries, or data without rules. Cryptography, serialisation, HTTP and the
  credential store of the operating system are parameters.
\<close>

section \<open>The matrix and the guard\<close>

lemma never_denied_iff: "(\<forall>s. \<exists>q. approval_verdict s r why = VerdictDeny q) \<longleftrightarrow> r = L4Forbidden"
proof
  assume all: "\<forall>s. \<exists>q. approval_verdict s r why = VerdictDeny q"
  then obtain q where "approval_verdict \<lparr>mode = FullAuto, auto_approve_dangerous = True\<rparr> r why = VerdictDeny q"
    by blast
  then show "r = L4Forbidden" by (cases r) (simp_all add: approval_verdict_def)
qed (simp add: approval_verdict_def)

text \<open>C4: The hard guard and the approval matrix agree on what is forbidden: the guard refuses an approved
  command exactly when the matrix denies its risk in every mode. So whatever the engine may ask the
  user about in some mode passes the guard once approved, and what the guard refuses no mode runs.\<close>

theorem guard_and_matrix_agree:
  "enforce_command command True \<noteq> Inr () \<longleftrightarrow>
     (\<forall>s. \<exists>q. approval_verdict s (classify_command command) why = VerdictDeny q)"
  using never_denied_iff [of "classify_command command" why]
  by (simp add: guard_passes classify_command_def)

text \<open>C5: What runs without asking is bounded by the mode: if the matrix allows the risk of a command,
  then each segment, redirection and substitution of the command is within the automatic limit of the
  mode as well; in the read-only and cautious modes all of it is read-only.\<close>

theorem automatic_runs_are_within_the_limit:
  assumes "approval_verdict s (classify_command command) why = VerdictAllow"
  shows "(\<forall>sub \<in> set (substitutions (parse_dialect command PosixDialect)).
      risk (assess sub PosixDialect 1) \<le> auto_limit s) \<and>
    (\<forall>sg \<in> set (segments_of (parse_dialect command PosixDialect)).
      risk (assess_segment sg 0) \<le> auto_limit s \<and> (\<forall>rd \<in> set (redirects sg). redirect_risk rd \<le> auto_limit s))"
proof -
  have "classify_command command \<le> auto_limit s"
    using assms by (cases "classify_command command"; cases "mode s")
      (auto simp: approval_verdict_def risk_order auto_limit.simps split: if_splits)
  then have "risk (assess command PosixDialect 0) \<le> auto_limit s"
    using assess_le_command [of command PosixDialect] by (auto simp: classify_command_def intro: order_trans)
  then have whole: "risk (collected command PosixDialect 0) \<le> auto_limit s"
    using collected_le_assess [of 0 command PosixDialect] by (auto intro: order_trans)
  show ?thesis
    using collected_parts(1,2) [of _ command PosixDialect 0] segment_parts(1) [where depth = 0] whole
    by (simp, meson order_trans)
qed

lemma read_only_sample: "classify_command ''ls > /dev/null'' = L0ReadOnly"
  by code_simp

lemma read_only_parts:
  "segments_of (parse_dialect ''ls > /dev/null'' PosixDialect) =
     [\<lparr>words = [''ls''], redirects = [\<lparr>op = ''>'', target = ''/dev/null'', fd_dup = False\<rparr>]\<rparr>]"
  by code_simp

theorem automatic_runs_are_within_the_limit_witness:
  "risk (assess_segment \<lparr>words = [''ls''], redirects = [\<lparr>op = ''>'', target = ''/dev/null'', fd_dup = False\<rparr>]\<rparr> 0)
     \<le> auto_limit \<lparr>mode = Cautious, auto_approve_dangerous = False\<rparr> \<and>
   redirect_risk \<lparr>op = ''>'', target = ''/dev/null'', fd_dup = False\<rparr>
     \<le> auto_limit \<lparr>mode = Cautious, auto_approve_dangerous = False\<rparr>"
  using automatic_runs_are_within_the_limit
    [of "\<lparr>mode = Cautious, auto_approve_dangerous = False\<rparr>" "''ls > /dev/null''" "''x''"]
  by (simp add: read_only_sample read_only_parts approval_verdict_def)

end
